(* ===== verification/Prelude.thy ===== *)
theory Prelude
  imports Main "HOL-Library.Word"
begin

text \<open>
  What the components share: the C types and status codes, byte order, index arithmetic on
  ring buffers, ranges of arrays, and the run of an event-driven component with the invariants
  its steps keep.

  C integers. A value whose wrap-around matters is a word (\<open>u8\<close>, \<open>u16\<close>, \<open>u32\<close>). Sizes, counts
  and array indices that stay far below \<open>2 ^ 32\<close> are \<open>nat\<close>, and a signed \<open>int\<close> of the code is
  an \<open>int\<close>; where the code converts a signed value to an unsigned one, or subtracts unsigned
  values that may cross zero, the conversion is written out with \<open>to_u32\<close> and \<open>usub32\<close>.
\<close>

unbundle bit_operations_syntax

type_synonym u8 = "8 word"
type_synonym u16 = "16 word"
type_synonym u32 = "32 word"
type_synonym u64 = "64 word"

section \<open>Status codes\<close>

text \<open>The \<open>pj_status_t\<close> values the modelled functions return; \<open>PJ_NEG1\<close> is a plain -1.\<close>

datatype pj_status =
    PJ_SUCCESS
  | PJ_EUNKNOWN
  | PJ_EINVAL
  | PJ_ENOTFOUND
  | PJ_ENOMEM
  | PJ_ETOOMANY
  | PJ_EBUSY
  | PJ_EINVALIDOP
  | PJ_EEXISTS
  | PJ_ETOOBIG
  | PJ_ETOOSMALL
  | PJ_ENOTSUP
  | PJ_EBUG
  | PJ_NEG1
  | PJMEDIA_RTP_EINVER
  | PJMEDIA_RTP_EINLEN
  | PJNATH_EINSTUNMSGTYPE
  | PJNATH_EINSTUNMSGLEN
  | PJNATH_ESTUNINATTRLEN
  | PJNATH_ESTUNDUPATTR
  | PJNATH_ESTUNTOOMANYATTR
  | PJNATH_ESTUNFINGERPRINT
  | PJNATH_ESTUNFINGERPOS
  | PJNATH_ESTUNMSGINTPOS
  | PJNATH_EINVAF
  | PJNATH_ESTUNTIMEDOUT
  | PJNATH_ESTUNDESTROYED
  | PJ_STATUS_FROM_STUN_CODE nat

section \<open>Conversions between C integer types\<close>

definition to_u32 :: "int \<Rightarrow> nat" where
  "to_u32 x = nat (x mod 2 ^ 32)"

definition usub32 :: "nat \<Rightarrow> nat \<Rightarrow> nat" where
  "usub32 a b = to_u32 (int a - int b)"

text \<open>The value of an \<open>unsigned\<close> expression of sums and products.\<close>

abbreviation uwrap :: "nat \<Rightarrow> nat" where "uwrap n \<equiv> n mod 2 ^ 32"

text \<open>The \<open>int\<close> an \<open>unsigned\<close> sum or product is converted to.\<close>

definition to_s32 :: "int \<Rightarrow> int" where
  "to_s32 x = (x + 2 ^ 31) mod 2 ^ 32 - 2 ^ 31"

lemma to_u32_of_nat [simp]: "n < 2 ^ 32 \<Longrightarrow> to_u32 (int n) = n"
  by (simp add: to_u32_def nat_mod_as_int flip: of_nat_mod)

lemma to_u32_less: "to_u32 x < 2 ^ 32"
  by (simp add: to_u32_def nat_less_iff)

lemma to_u32_le: "0 \<le> x \<Longrightarrow> to_u32 x \<le> nat x"
  by (simp add: to_u32_def nat_mono zmod_le_nonneg_dividend)

lemma to_s32_int: "- (2 ^ 31) \<le> x \<Longrightarrow> x < 2 ^ 31 \<Longrightarrow> to_s32 x = x"
  by (simp add: to_s32_def)

lemma to_u32_nonneg: "0 \<le> x \<Longrightarrow> x < 2 ^ 32 \<Longrightarrow> to_u32 x = nat x"
  by (simp add: to_u32_def)

lemma usub32_le [simp]: "b \<le> a \<Longrightarrow> a < 2 ^ 32 \<Longrightarrow> usub32 a b = a - b"
  by (simp add: usub32_def to_u32_def)

lemma usub32_borrow: "a < b \<Longrightarrow> b < 2 ^ 32 \<Longrightarrow> usub32 a b = 2 ^ 32 + a - b"
proof -
  assume a: "a < b" "b < 2 ^ 32"
  have "(int a - int b) mod 2 ^ 32 = (int a - int b + 2 ^ 32) mod 2 ^ 32"
    by simp
  also have "\<dots> = int a - int b + 2 ^ 32"
    using a by (intro mod_pos_pos_trivial) auto
  finally show ?thesis
    using a by (simp add: usub32_def to_u32_def)
qed

lemma usub32_uwrap: "0 < n \<Longrightarrow> usub32 (uwrap n) 1 = uwrap (n - 1)"
proof -
  assume n: "0 < n"
  have "(int (uwrap n) - 1) mod 2 ^ 32 = (int n - 1) mod 2 ^ 32" by (simp add: of_nat_mod mod_diff_left_eq)
  also have "\<dots> = int (uwrap (n - 1))" using n by (simp add: of_nat_mod)
  finally show ?thesis by (simp add: usub32_def to_u32_def)
qed

lemma unat16_less [simp]: "unat (w :: u16) < 65536"
  using unsigned_less [of w] by simp

lemma unat8_less [simp]: "unat (w :: u8) < 256"
  using unsigned_less [of w] by simp

lemma unat4_less [simp]: "unat (w :: 4 word) < 16"
  using unsigned_less [of w] by simp

lemma unat16_of_nat: "unat (of_nat n :: u16) = n mod 65536"
  by (simp add: unat_of_nat)

lemma unat_ucast16 [simp]: "unat (ucast (w :: u16) :: u32) = unat w"
  using unat16_less [of w] by (simp add: unsigned_ucast_eq take_bit_nat_eq_self_iff del: unat16_less)

lemma ucast16_le: "(ucast (w :: u16) :: u32) \<le> 65535"
  using unat16_less [of w] by (simp add: word_le_nat_alt del: unat16_less)

text \<open>Division and remainder of \<open>int\<close> in C truncate towards zero.\<close>

definition cdiv :: "int \<Rightarrow> int \<Rightarrow> int" where
  "cdiv a b = sgn a * sgn b * (\<bar>a\<bar> div \<bar>b\<bar>)"

lemma cdiv_nonneg [simp]: "0 \<le> a \<Longrightarrow> 0 < b \<Longrightarrow> cdiv a b = a div b"
  by (cases "a = 0") (simp_all add: cdiv_def)

section \<open>Byte order\<close>

definition be16 :: "u16 \<Rightarrow> u8 list" where
  "be16 w = [ucast (drop_bit 8 w), ucast w]"

definition rd_be16 :: "u8 \<Rightarrow> u8 \<Rightarrow> u16" where
  "rd_be16 a b = push_bit 8 (ucast a) OR ucast b"

definition be32 :: "u32 \<Rightarrow> u8 list" where
  "be32 w = [ucast (drop_bit 24 w), ucast (drop_bit 16 w), ucast (drop_bit 8 w), ucast w]"

definition rd_be32 :: "u8 \<Rightarrow> u8 \<Rightarrow> u8 \<Rightarrow> u8 \<Rightarrow> u32" where
  "rd_be32 a b c d =
     push_bit 24 (ucast a) OR push_bit 16 (ucast b) OR push_bit 8 (ucast c) OR ucast d"

text \<open>\<open>pj_htons\<close>, \<open>pj_ntohs\<close>, \<open>pj_htonl\<close> and \<open>pj_ntohl\<close> on a little-endian machine.\<close>

definition bswap16 :: "u16 \<Rightarrow> u16" where
  "bswap16 w = push_bit 8 w OR drop_bit 8 w"

definition bswap32 :: "u32 \<Rightarrow> u32" where
  "bswap32 w = push_bit 24 w OR push_bit 16 (take_bit 8 (drop_bit 8 w))
     OR push_bit 8 (take_bit 8 (drop_bit 16 w)) OR drop_bit 24 w"

abbreviation htons :: "u16 \<Rightarrow> u16" where "htons \<equiv> bswap16"
abbreviation ntohs :: "u16 \<Rightarrow> u16" where "ntohs \<equiv> bswap16"
abbreviation htonl :: "u32 \<Rightarrow> u32" where "htonl \<equiv> bswap32"
abbreviation ntohl :: "u32 \<Rightarrow> u32" where "ntohl \<equiv> bswap32"

lemma byte_index_cases:
  assumes "n < (32::nat)"
  obtains k where "k < 8" "n = k" | k where "k < 8" "n = k + 8" | k where "k < 8" "n = k + 16"
    | k where "k < 8" "n = k + 24"
proof -
  consider "n < 8" | "8 \<le> n \<and> n < 16" | "16 \<le> n \<and> n < 24" | "24 \<le> n"
    by linarith
  then show ?thesis
    using assms that(1) [of n] that(2) [of "n - 8"] that(3) [of "n - 16"] that(4) [of "n - 24"]
    by cases simp_all
qed

lemma bit_bswap32:
  assumes "k < 8"
  shows "bit (bswap32 w) k = bit w (k + 24)"
    and "bit (bswap32 w) (k + 8) = bit w (k + 16)"
    and "bit (bswap32 w) (k + 16) = bit w (k + 8)"
    and "bit (bswap32 w) (k + 24) = bit w k"
  using assms by (auto simp: bswap32_def bit_simps add.commute dest: bit_imp_le_length)

lemma bswap32_bswap32 [simp]: "bswap32 (bswap32 w) = w"
proof (rule bit_word_eqI)
  fix n assume "n < LENGTH(32)"
  then have n: "n < 32" by simp
  then show "bit (bswap32 (bswap32 w)) n = bit w n"
    by (cases rule: byte_index_cases) (simp_all add: bit_bswap32)
qed

lemma bswap16_bswap16 [simp]: "bswap16 (bswap16 w) = w"
  by (rule bit_word_eqI) (auto simp: bswap16_def bit_simps)

lemma bswap32_eq_iff [simp]: "bswap32 a = bswap32 b \<longleftrightarrow> a = b"
  by (metis bswap32_bswap32)

lemma bswap16_eq_iff [simp]: "bswap16 a = bswap16 b \<longleftrightarrow> a = b"
  by (metis bswap16_bswap16)

lemma rd_be16_be16 [simp]: "rd_be16 (ucast (drop_bit 8 w)) (ucast w) = w"
  by (rule bit_word_eqI) (auto simp: rd_be16_def bit_simps)

lemma be16_rd_be16 [simp]: "be16 (rd_be16 a b) = [a, b]"
  unfolding be16_def rd_be16_def
  by (simp, intro conjI; rule bit_word_eqI) (auto simp: bit_simps dest: bit_imp_le_length)

lemma rd_be32_be32 [simp]:
  "rd_be32 (ucast (drop_bit 24 w)) (ucast (drop_bit 16 w)) (ucast (drop_bit 8 w)) (ucast w) = w"
proof (rule bit_word_eqI)
  fix n assume "n < LENGTH(32)"
  then have n: "n < 32" by simp
  then show "bit (rd_be32 (ucast (drop_bit 24 w)) (ucast (drop_bit 16 w)) (ucast (drop_bit 8 w))
      (ucast w)) n = bit w n"
    by (cases rule: byte_index_cases) (auto simp: rd_be32_def bit_simps add.commute)
qed

lemma length_be16 [simp]: "length (be16 w) = 2"
  by (simp add: be16_def)

lemma length_be32 [simp]: "length (be32 w) = 4"
  by (simp add: be32_def)

section \<open>Array ranges\<close>

text \<open>\<open>memset\<close> and \<open>memcpy\<close> on a range of an array.\<close>

definition write_at :: "'a list \<Rightarrow> nat \<Rightarrow> 'a list \<Rightarrow> 'a list" where
  "write_at xs a ys = take a xs @ ys @ drop (a + length ys) xs"

definition fill_range :: "'a list \<Rightarrow> nat \<Rightarrow> nat \<Rightarrow> 'a \<Rightarrow> 'a list" where
  "fill_range xs a n v = write_at xs a (replicate n v)"

lemma length_write_at [simp]: "a + length ys \<le> length xs \<Longrightarrow> length (write_at xs a ys) = length xs"
  by (simp add: write_at_def)

lemma nth_write_at:
  "a + length ys \<le> length xs \<Longrightarrow> i < length xs \<Longrightarrow>
     write_at xs a ys ! i = (if a \<le> i \<and> i < a + length ys then ys ! (i - a) else xs ! i)"
  by (auto simp: write_at_def nth_append min_def)

lemma length_fill_range [simp]: "a + n \<le> length xs \<Longrightarrow> length (fill_range xs a n v) = length xs"
  by (simp add: fill_range_def)

lemma nth_fill_range:
  "a + n \<le> length xs \<Longrightarrow> i < length xs \<Longrightarrow>
     fill_range xs a n v ! i = (if a \<le> i \<and> i < a + n then v else xs ! i)"
  by (auto simp: fill_range_def nth_write_at)

lemma set_write_at: "set (write_at xs a ys) \<subseteq> set xs \<union> set ys"
  by (auto simp: write_at_def dest: in_set_takeD in_set_dropD)

lemma set_fill_range: "set (fill_range xs a n v) \<subseteq> insert v (set xs)"
  using set_write_at [of xs a "replicate n v"] by (auto simp: fill_range_def)

end
