(* ===== verification/Machine.thy ===== *)
theory Machine
  imports Main
begin

text \<open>
  Event-driven components. Every stateful component of the library is a state and a step function
  over the calls made on it. What all of them share is stated once here: an invariant that one
  call keeps holds after any sequence of calls, and a quantity that one call never lowers is
  never lowered by a sequence. Each component's theory interprets the locale on its own step
  function, and the properties of whole runs are then the locale's lemmas.
\<close>

locale event_machine =
  fixes mstep :: "'s \<Rightarrow> 'e \<Rightarrow> 's"
    and minv :: "'s \<Rightarrow> bool"
    and mok :: "'e \<Rightarrow> bool"
  assumes mstep_inv: "minv s \<Longrightarrow> mok e \<Longrightarrow> minv (mstep s e)"
begin

lemma mrun_inv: "minv s \<Longrightarrow> \<forall>e \<in> set es. mok e \<Longrightarrow> minv (foldl mstep s es)"
  by (induction es arbitrary: s) (simp_all add: mstep_inv)

end

text \<open>
  A component that delivers something. \<open>orun\<close> is a run with the outputs of its steps, and
  \<open>guarded\<close> says that every event of the run is admissible in the state it meets.
\<close>

fun orun :: "('s \<Rightarrow> 'e \<Rightarrow> 's \<times> 'o list) \<Rightarrow> 's \<Rightarrow> 'e list \<Rightarrow> 's \<times> 'o list" where
  "orun f s [] = (s, [])"
| "orun f s (e # es) = (let (s1, o1) = f s e; (s2, o2) = orun f s1 es in (s2, o1 @ o2))"

fun guarded :: "('s \<Rightarrow> 'e \<Rightarrow> 's \<times> 'o list) \<Rightarrow> ('s \<Rightarrow> 'e \<Rightarrow> bool) \<Rightarrow> 's \<Rightarrow> 'e list \<Rightarrow> bool" where
  "guarded f ok s [] \<longleftrightarrow> True"
| "guarded f ok s (e # es) \<longleftrightarrow> ok s e \<and> guarded f ok (fst (f s e)) es"

locale guarded_machine =
  fixes ostep :: "'s \<Rightarrow> 'e \<Rightarrow> 's \<times> 'o list"
    and oinv :: "'s \<Rightarrow> bool"
    and ook :: "'s \<Rightarrow> 'e \<Rightarrow> bool"
  assumes ostep_inv: "oinv s \<Longrightarrow> ook s e \<Longrightarrow> ostep s e = (s', outs) \<Longrightarrow> oinv s'"
begin

lemma orun_inv: "oinv s \<Longrightarrow> guarded ostep ook s es \<Longrightarrow> oinv (fst (orun ostep s es))"
proof (induction es arbitrary: s)
  case (Cons e es)
  obtain s1 o1 where "ostep s e = (s1, o1)" by fastforce
  then have "oinv (fst (orun ostep s1 es))" using Cons ostep_inv [of s e s1 o1] by simp
  moreover have "fst (orun ostep s (e # es)) = fst (orun ostep s1 es)" using \<open>ostep s e = (s1, o1)\<close> by (simp split: prod.split)
  ultimately show ?case by simp
qed simp

end

text \<open>
  When every output has a key between the rank of the state before its step and the rank after it, the
  keys of a run's outputs are strictly increasing.
\<close>

locale output_machine = guarded_machine ostep oinv ook
  for ostep :: "'s \<Rightarrow> 'e \<Rightarrow> 's \<times> 'o list"
    and oinv :: "'s \<Rightarrow> bool"
    and ook :: "'s \<Rightarrow> 'e \<Rightarrow> bool" +
  fixes orank :: "'s \<Rightarrow> int"
    and okey :: "'o \<Rightarrow> int"
    and ogood :: "'o \<Rightarrow> bool"
  assumes ostep_rank: "oinv s \<Longrightarrow> ook s e \<Longrightarrow> ostep s e = (s', outs) \<Longrightarrow> orank s \<le> orank s'"
    and ostep_outs: "oinv s \<Longrightarrow> ook s e \<Longrightarrow> ostep s e = (s', outs) \<Longrightarrow>
      sorted_wrt (<) (map okey outs) \<and>
      (\<forall>out \<in> set outs. orank s \<le> okey out \<and> okey out < orank s' \<and> ogood out)"
begin

lemma orun_outs:
  assumes "oinv s" "guarded ostep ook s es" "orun ostep s es = (s', outs)"
  shows "oinv s' \<and> orank s \<le> orank s' \<and> sorted_wrt (<) (map okey outs) \<and>
    (\<forall>out \<in> set outs. orank s \<le> okey out \<and> okey out < orank s' \<and> ogood out)"
  using assms
proof (induction es arbitrary: s s' outs)
  case Nil
  then show ?case by simp
next
  case (Cons e es)
  obtain s1 o1 where st: "ostep s e = (s1, o1)" by fastforce
  obtain o2 where rn: "orun ostep s1 es = (s', o2)" "outs = o1 @ o2"
    using Cons.prems(3) st by (auto split: prod.splits)
  have ok: "ook s e" "guarded ostep ook s1 es" using Cons.prems(2) st by auto
  note S = ostep_inv [OF Cons.prems(1) ok(1) st] ostep_rank [OF Cons.prems(1) ok(1) st]
    ostep_outs [OF Cons.prems(1) ok(1) st]
  note R = Cons.IH [OF S(1) ok(2) rn(1)]
  have "okey a < okey b" if "a \<in> set o1" "b \<in> set o2" for a b
    using that S(3) R by (meson less_le_trans)
  then have "sorted_wrt (<) (map okey outs)"
    using S(3) R by (simp add: rn(2) sorted_wrt_append)
  then show ?case
    using S R by (auto simp: rn(2) intro: order_trans less_le_trans)
qed

end

end
