(* ===== verification/Rtp.thy ===== *)
theory Rtp
  imports Prelude Machine
begin

text \<open>
  The RTP session of \<open>pjmedia/src/pjmedia/rtp.c\<close>: the sequence number tracker with its probation,
  wrap-around, restart and reordering rules (\<open>pjmedia_rtp_seq_update\<close>), the session that stamps
  outgoing headers and accounts for incoming ones, and the packet decoder. Structures are those
  of \<open>pjmedia/rtp.h\<close>. Header fields hold what the C structure holds: bit fields at their width,
  and \<open>seq\<close>, \<open>ts\<close> and \<open>ssrc\<close> in network byte order.
\<close>

section \<open>Structures\<close>

record rtp_hdr =
  hdr_v :: "2 word"
  hdr_p :: "1 word"
  hdr_x :: "1 word"
  hdr_cc :: "4 word"
  hdr_m :: "1 word"
  hdr_pt :: "7 word"
  hdr_seq :: u16
  hdr_ts :: u32
  hdr_ssrc :: u32

record rtp_seq_session =
  max_seq :: u16
  cycles :: u32
  base_seq :: u32
  bad_seq :: u32
  probation :: u32

record rtp_session =
  out_hdr :: rtp_hdr
  seq_ctrl :: rtp_seq_session
  out_pt :: u16
  out_extseq :: u32
  has_peer_ssrc :: bool
  peer_ssrc :: u32
  received :: u32

record rtp_flags =
  fl_bad :: bool
  fl_badpt :: bool
  fl_badssrc :: bool
  fl_dup :: bool
  fl_outorder :: bool
  fl_probation :: bool
  fl_restart :: bool

record rtp_status =
  st_flags :: rtp_flags
  st_diff :: u16

definition no_flags :: rtp_flags where
  "no_flags = \<lparr>fl_bad = False, fl_badpt = False, fl_badssrc = False, fl_dup = False,
     fl_outorder = False, fl_probation = False, fl_restart = False\<rparr>"

section \<open>The sequence number tracker\<close>

definition rtp_seq_restart :: "rtp_seq_session \<Rightarrow> u16 \<Rightarrow> rtp_seq_session" where
  "rtp_seq_restart sess seq =
     sess\<lparr>base_seq := ucast seq, max_seq := seq, bad_seq := 65537, cycles := 0\<rparr>"

definition rtp_seq_init :: "rtp_seq_session \<Rightarrow> u16 \<Rightarrow> rtp_seq_session" where
  "rtp_seq_init sess seq = (rtp_seq_restart sess seq)\<lparr>max_seq := seq - 1, probation := 2\<rparr>"

text \<open>
  \<open>seq == sess->max_seq + 1\<close> compares two values promoted to \<open>int\<close>, so it is false when
  \<open>max_seq\<close> is 65535; the other comparisons of the function are on \<open>pj_uint16_t\<close> values or on
  their promotions, where nothing is lost.
\<close>

definition rtp_seq_update ::
  "rtp_seq_session \<Rightarrow> u16 \<Rightarrow> rtp_seq_session \<times> rtp_status" where
  "rtp_seq_update sess seq =
    (let udelta = seq - max_seq sess;
         st = \<lparr>st_flags = no_flags, st_diff = 0\<rparr>
     in if probation sess \<noteq> 0 then
          (if unat seq = unat (max_seq sess) + 1 then
             (let p = probation sess - 1
              in (sess\<lparr>probation := p, max_seq := seq\<rparr>,
                  st\<lparr>st_flags := no_flags\<lparr>fl_probation := (p \<noteq> 0)\<rparr>, st_diff := 1\<rparr>))
           else
             (sess\<lparr>probation := 1, max_seq := seq\<rparr>,
              st\<lparr>st_flags := no_flags\<lparr>fl_probation := True, fl_bad := True,
                    fl_dup := (seq = max_seq sess), fl_outorder := (seq \<noteq> max_seq sess)\<rparr>\<rparr>))
        else if udelta = 0 then
          (sess, st\<lparr>st_flags := no_flags\<lparr>fl_dup := True\<rparr>\<rparr>)
        else if unat udelta < 3000 then
          ((if seq < max_seq sess then sess\<lparr>cycles := cycles sess + 65536, max_seq := seq\<rparr>
            else sess\<lparr>max_seq := seq\<rparr>),
           st\<lparr>st_diff := udelta\<rparr>)
        else if unat udelta \<le> 65536 - 100 then
          (if ucast seq = bad_seq sess then
             (rtp_seq_restart sess seq,
              st\<lparr>st_flags := no_flags\<lparr>fl_restart := True, fl_probation := True\<rparr>, st_diff := 1\<rparr>)
           else
             (sess\<lparr>bad_seq := (ucast seq + 1) AND 65535\<rparr>,
              st\<lparr>st_flags := no_flags\<lparr>fl_bad := True, fl_outorder := True\<rparr>\<rparr>))
        else
          (sess, st\<lparr>st_flags := no_flags\<lparr>fl_outorder := True\<rparr>\<rparr>))"

section \<open>The session\<close>

text \<open>
  \<open>pj_rand\<close> is the platform's random number generator: the values it returns are the arguments
  \<open>rnd_ssrc\<close> and \<open>rnd_seq\<close>.
\<close>

definition zero_hdr :: rtp_hdr where
  "zero_hdr = \<lparr>hdr_v = 0, hdr_p = 0, hdr_x = 0, hdr_cc = 0, hdr_m = 0, hdr_pt = 0,
     hdr_seq = 0, hdr_ts = 0, hdr_ssrc = 0\<rparr>"

definition zero_seq :: rtp_seq_session where
  "zero_seq = \<lparr>max_seq = 0, cycles = 0, base_seq = 0, bad_seq = 0, probation = 0\<rparr>"

definition rtp_session_init :: "int \<Rightarrow> u32 \<Rightarrow> u32 \<Rightarrow> u32 \<Rightarrow> pj_status \<times> rtp_session" where
  "rtp_session_init default_pt sender_ssrc rnd_ssrc rnd_seq =
    (let ssrc = (if sender_ssrc = 0 \<or> sender_ssrc = - 1 then htonl rnd_ssrc
                 else htonl sender_ssrc);
         ext = rnd_seq AND 0x7FFF
     in (PJ_SUCCESS,
         \<lparr>out_hdr = zero_hdr\<lparr>hdr_v := 2, hdr_pt := word_of_int default_pt,
                     hdr_seq := htons (ucast ext), hdr_ssrc := ssrc\<rparr>,
          seq_ctrl = zero_seq, out_pt = word_of_int default_pt, out_extseq = ext,
          has_peer_ssrc = False, peer_ssrc = 0, received = 0\<rparr>))"

record rtp_session_setting =
  set_flags :: u8
  set_default_pt :: int
  set_sender_ssrc :: u32
  set_peer_ssrc :: u32
  set_seq :: u16
  set_ts :: u32

definition rtp_session_init2 ::
  "rtp_session_setting \<Rightarrow> u32 \<Rightarrow> u32 \<Rightarrow> pj_status \<times> rtp_session" where
  "rtp_session_init2 s rnd_ssrc rnd_seq =
    (let pt = (if set_flags s AND 1 \<noteq> 0 then set_default_pt s else 0);
         ssrc = (if set_flags s AND 2 \<noteq> 0 then set_sender_ssrc s else 0);
         (status, ses) = rtp_session_init pt ssrc rnd_ssrc rnd_seq
     in if status \<noteq> PJ_SUCCESS then (status, ses)
        else
          (let ses1 = (if set_flags s AND 4 \<noteq> 0 then
                         ses\<lparr>out_extseq := ucast (set_seq s),
                             out_hdr := (out_hdr ses)\<lparr>hdr_seq := htons (set_seq s)\<rparr>\<rparr>
                       else ses);
               ses2 = (if set_flags s AND 8 \<noteq> 0 then
                         ses1\<lparr>out_hdr := (out_hdr ses1)\<lparr>hdr_ts := htonl (set_ts s)\<rparr>\<rparr>
                       else ses1);
               ses3 = (if set_flags s AND 16 \<noteq> 0 then
                         ses2\<lparr>has_peer_ssrc := True, peer_ssrc := set_peer_ssrc s\<rparr>
                       else ses2)
           in (PJ_SUCCESS, ses3)))"

text \<open>The header is returned when there is a payload; a clock frame only moves the timestamp.\<close>

definition rtp_encode_rtp ::
  "rtp_session \<Rightarrow> int \<Rightarrow> int \<Rightarrow> int \<Rightarrow> int \<Rightarrow> rtp_session \<times> rtp_hdr option" where
  "rtp_encode_rtp ses pt m payload_len ts_len =
    (let h = (out_hdr ses)\<lparr>hdr_ts := htonl (ntohl (hdr_ts (out_hdr ses)) + word_of_int ts_len)\<rparr>
     in if payload_len = 0 then (ses\<lparr>out_hdr := h\<rparr>, None)
        else
          (let ext = out_extseq ses + 1;
               h' = h\<lparr>hdr_pt := (if pt = -1 then ucast (out_pt ses) else word_of_int pt),
                      hdr_m := word_of_int m, hdr_seq := htons (ucast ext)\<rparr>
           in (ses\<lparr>out_extseq := ext, out_hdr := h'\<rparr>, Some h')))"

definition rtp_check_ssrc :: "rtp_session \<Rightarrow> u32 \<Rightarrow> rtp_session \<times> bool" where
  "rtp_check_ssrc ses ssrc =
    (let ses1 = (if \<not> has_peer_ssrc ses \<and> peer_ssrc ses = 0 then ses\<lparr>peer_ssrc := ssrc\<rparr> else ses)
     in if ssrc \<noteq> peer_ssrc ses1 then
          ((if \<not> has_peer_ssrc ses1 then ses1\<lparr>peer_ssrc := ssrc\<rparr> else ses1), True)
        else (ses1, False))"

definition rtp_session_update2 ::
  "rtp_session \<Rightarrow> rtp_hdr \<Rightarrow> rtp_status option \<Rightarrow> bool \<Rightarrow> rtp_session \<times> rtp_status option" where
  "rtp_session_update2 ses hdr p_seq_st check_pt =
    (let (ses2, badssrc) = rtp_check_ssrc ses (ntohl (hdr_ssrc hdr));
         flags = no_flags\<lparr>fl_badssrc := badssrc\<rparr>
     in if check_pt \<and> ucast (hdr_pt hdr) \<noteq> out_pt ses2 then
          (ses2, map_option (\<lambda>p. p\<lparr>st_flags := flags\<lparr>fl_bad := True, fl_badpt := True\<rparr>\<rparr>) p_seq_st)
        else
          (let seq = ntohs (hdr_seq hdr);
               sc = (if received ses2 = 0 then rtp_seq_init (seq_ctrl ses2) seq else seq_ctrl ses2);
               (sc', st) = rtp_seq_update sc seq;
               rc = (if fl_restart (st_flags st) then received ses2 + 1
                     else if \<not> fl_bad (st_flags st) then received ses2 + 1 else received ses2)
           in (ses2\<lparr>seq_ctrl := sc', received := rc\<rparr>, map_option (\<lambda>_. st) p_seq_st)))"

definition rtp_session_update ::
  "rtp_session \<Rightarrow> rtp_hdr \<Rightarrow> rtp_status option \<Rightarrow> rtp_session \<times> rtp_status option" where
  "rtp_session_update ses hdr p_seq_st = rtp_session_update2 ses hdr p_seq_st True"

section \<open>Packets\<close>

text \<open>The 12 bytes of the packed structure \<open>pjmedia_rtp_hdr\<close> on a little-endian machine.\<close>

definition rtp_hdr_to_bytes :: "rtp_hdr \<Rightarrow> u8 list" where
  "rtp_hdr_to_bytes h =
     [ucast (hdr_cc h) OR push_bit 4 (ucast (hdr_x h)) OR push_bit 5 (ucast (hdr_p h))
        OR push_bit 6 (ucast (hdr_v h)),
      ucast (hdr_pt h) OR push_bit 7 (ucast (hdr_m h))]
     @ rev (be16 (hdr_seq h)) @ rev (be32 (hdr_ts h)) @ rev (be32 (hdr_ssrc h))"

definition rtp_hdr_of_bytes :: "u8 list \<Rightarrow> rtp_hdr" where
  "rtp_hdr_of_bytes b =
     \<lparr>hdr_v = ucast (drop_bit 6 (b ! 0)), hdr_p = ucast (drop_bit 5 (b ! 0)),
      hdr_x = ucast (drop_bit 4 (b ! 0)), hdr_cc = ucast (b ! 0),
      hdr_m = ucast (drop_bit 7 (b ! 1)), hdr_pt = ucast (b ! 1),
      hdr_seq = rd_be16 (b ! 3) (b ! 2),
      hdr_ts = rd_be32 (b ! 7) (b ! 6) (b ! 5) (b ! 4),
      hdr_ssrc = rd_be32 (b ! 11) (b ! 10) (b ! 9) (b ! 8)\<rparr>"

record rtp_dec_hdr =
  ext_hdr :: "nat option"
  ext_off :: "nat option"
  ext_len :: nat

text \<open>
  The decoder reads the packet through a pointer. The model has the buffer the packet lies in,
  which may be longer than the packet, and a read past its end is the outcome \<open>Dec_Overrun\<close>. The
  pointers returned are offsets into the buffer; \<open>*hdr\<close> is offset 0.
\<close>

datatype rtp_decoded =
    Dec_Ok (dec_hdr: rtp_dec_hdr) (payload: nat) (payloadlen: nat)
  | Dec_Err pj_status
  | Dec_Overrun

definition rtp_strip_padding :: "u8 list \<Rightarrow> bool \<Rightarrow> rtp_dec_hdr \<Rightarrow> nat \<Rightarrow> nat \<Rightarrow> rtp_decoded" where
  "rtp_strip_padding buf p dh off plen =
    (if p \<and> plen > 0 then
       (if length buf \<le> off + plen - 1 then Dec_Overrun
        else (let pad = unat (buf ! (off + plen - 1))
              in Dec_Ok dh off (if pad \<le> plen then plen - pad else plen)))
     else Dec_Ok dh off plen)"

definition rtp_decode_rtp2 :: "u8 list \<Rightarrow> int \<Rightarrow> rtp_decoded" where
  "rtp_decode_rtp2 buf pkt_len =
    (if length buf < 2 then Dec_Overrun
     else
       (let b0 = buf ! 0; v = (ucast (drop_bit 6 b0) :: 2 word); p = (ucast (drop_bit 5 b0) :: 1 word);
            x = (ucast (drop_bit 4 b0) :: 1 word); cc = (ucast b0 :: 4 word)
        in if v \<noteq> 2 then Dec_Err PJMEDIA_RTP_EINVER
           else
             (let off0 = 12 + unat cc * 4
              in if x \<noteq> 0 then
                   (if length buf < off0 + 4 then Dec_Overrun
                    else
                      (let len = unat (rd_be16 (buf ! (off0 + 2)) (buf ! (off0 + 3)));
                           off = off0 + (len + 1) * 4
                       in if int off > pkt_len then Dec_Err PJMEDIA_RTP_EINLEN
                          else rtp_strip_padding buf (p \<noteq> 0)
                                 \<lparr>ext_hdr = Some off0, ext_off = Some (off0 + 4), ext_len = len\<rparr>
                                 off (nat pkt_len - off)))
                 else if int off0 > pkt_len then Dec_Err PJMEDIA_RTP_EINLEN
                 else rtp_strip_padding buf (p \<noteq> 0)
                        \<lparr>ext_hdr = None, ext_off = None, ext_len = 0\<rparr> off0 (nat pkt_len - off0))))"

definition rtp_decode_rtp :: "u8 list \<Rightarrow> int \<Rightarrow> rtp_decoded" where
  "rtp_decode_rtp buf pkt_len = rtp_decode_rtp2 buf pkt_len"

section \<open>What the tracker computes\<close>

text \<open>
  The extended sequence number is \<open>cycles + max_seq\<close>. \<open>rtp_tracks s H\<close> relates a validated tracker
  to the unbounded sequence number \<open>H\<close> of the newest packet it has accepted.
\<close>

definition rtp_ext_seq :: "rtp_seq_session \<Rightarrow> u32" where
  "rtp_ext_seq s = cycles s + ucast (max_seq s)"

definition rtp_tracks :: "rtp_seq_session \<Rightarrow> nat \<Rightarrow> bool" where
  "rtp_tracks s H \<longleftrightarrow> probation s = 0 \<and> max_seq s = of_nat H \<and>
     cycles s = of_nat (65536 * (H div 65536))"

lemma rtp_ext_seq_tracks: "rtp_tracks s H \<Longrightarrow> rtp_ext_seq s = of_nat H"
proof -
  assume t: "rtp_tracks s H"
  have "(ucast (of_nat H :: u16) :: u32) = of_nat (unat (of_nat H :: u16))"
    by (rule of_nat_unat [symmetric])
  also have "\<dots> = of_nat (H mod 65536)"
    by (simp only: unat16_of_nat)
  finally have "(ucast (of_nat H :: u16) :: u32) = of_nat (H mod 65536)" .
  with t have "rtp_ext_seq s = of_nat (65536 * (H div 65536)) + of_nat (H mod 65536)"
    by (simp add: rtp_tracks_def rtp_ext_seq_def)
  also have "\<dots> = of_nat (65536 * (H div 65536) + H mod 65536)"
    by (rule of_nat_add [symmetric])
  also have "65536 * (H div 65536) + H mod 65536 = H"
    by (rule mult_div_mod_eq)
  finally show ?thesis .
qed

lemma udelta_ahead:
  assumes "H \<le> e" and "e < H + 65536"
  shows "unat (of_nat e - of_nat H :: u16) = e - H"
proof -
  obtain d where d: "e = H + d" using assms(1) le_Suc_ex by blast
  then have "(of_nat e - of_nat H :: u16) = of_nat d" by simp
  then show ?thesis using assms(2) d by (simp add: unat16_of_nat)
qed

lemma udelta_behind:
  assumes "e < H" and "H < e + 65536"
  shows "unat (of_nat e - of_nat H :: u16) = 65536 - (H - e)"
proof -
  have "(of_nat (e + 65536) :: u16) = of_nat e"
    by (simp only: word_of_nat_eq_iff) (simp add: take_bit_eq_mod)
  then have "unat (of_nat e - of_nat H :: u16) = e + 65536 - H"
    using assms udelta_ahead [of H "e + 65536"] by (simp only:)
  then show ?thesis
    using assms by simp
qed

lemma cycle_step:
  assumes "H < e" and "e < H + 65536"
  shows "(of_nat e :: u16) < of_nat H \<longleftrightarrow> e mod 65536 < H mod 65536"
    and "e div 65536 = (if e mod 65536 < H mod 65536 then Suc (H div 65536) else H div 65536)"
proof -
  show "(of_nat e :: u16) < of_nat H \<longleftrightarrow> e mod 65536 < H mod 65536"
    by (simp add: word_less_nat_alt unat16_of_nat)
  define d where "d = e - H"
  then have d: "e = H + d" "d < 65536" using assms by simp_all
  define q r where "q = H div 65536" and "r = H mod 65536"
  have H: "H = 65536 * q + r" and r: "r < 65536" by (simp_all add: q_def r_def)
  have e: "e div 65536 = (if r + d < 65536 then q else q + 1)"
    using r d by (auto simp: H intro!: div_nat_eqI)
  have "e mod 65536 < r \<longleftrightarrow> \<not> r + d < 65536"
  proof (cases "r + d < 65536")
    case True
    then have "e mod 65536 = r + d" using e d H by (simp add: modulo_nat_def)
    then show ?thesis using True by simp
  next
    case False
    then have "e mod 65536 = r + d - 65536" 
      using e d H r by (simp add: modulo_nat_def)
    then show ?thesis using False r d by simp
  qed
  then show "e div 65536 = (if e mod 65536 < H mod 65536 then Suc (H div 65536) else H div 65536)"
    using e by (simp add: q_def [symmetric] r_def [symmetric])
qed

lemma rtp_seq_update_dup:
  "probation s = 0 \<Longrightarrow> seq = max_seq s \<Longrightarrow> rtp_seq_update s seq =
     (s, \<lparr>st_flags = no_flags\<lparr>fl_dup := True\<rparr>, st_diff = 0\<rparr>)"
  by (simp add: rtp_seq_update_def)

lemma rtp_seq_update_ahead:
  assumes "probation s = 0" and "0 < unat (seq - max_seq s)" and "unat (seq - max_seq s) < 3000"
  shows "rtp_seq_update s seq =
     (s\<lparr>cycles := (if seq < max_seq s then cycles s + 65536 else cycles s), max_seq := seq\<rparr>,
      \<lparr>st_flags = no_flags, st_diff = seq - max_seq s\<rparr>)"
proof -
  have "seq - max_seq s \<noteq> 0"
    using assms(2) by (metis unat_0 less_irrefl)
  then show ?thesis
    using assms(1,3) by (simp add: rtp_seq_update_def Let_def)
qed

lemma rtp_seq_update_late:
  assumes "probation s = 0" and "65436 < unat (seq - max_seq s)"
  shows "rtp_seq_update s seq =
     (s, \<lparr>st_flags = no_flags\<lparr>fl_outorder := True\<rparr>, st_diff = 0\<rparr>)"
proof -
  have "seq - max_seq s \<noteq> 0"
    using assms(2) by (metis unat_0 not_less0)
  then show ?thesis
    using assms by (simp add: rtp_seq_update_def Let_def)
qed

lemma rtp_seq_update_tracks:
  assumes t: "rtp_tracks s H" and lo: "H < e + 100" and hi: "e < H + 3000"
  shows "rtp_tracks (fst (rtp_seq_update s (of_nat e))) (max H e) \<and>
     base_seq (fst (rtp_seq_update s (of_nat e))) = base_seq s \<and>
     st_diff (snd (rtp_seq_update s (of_nat e))) = of_nat (e - H) \<and>
     \<not> fl_bad (st_flags (snd (rtp_seq_update s (of_nat e))))"
proof -
  have s: "probation s = 0" "max_seq s = of_nat H" "cycles s = of_nat (65536 * (H div 65536))"
    using t by (auto simp: rtp_tracks_def)
  consider "e = H" | "H < e" | "e < H" by linarith
  then show ?thesis
  proof cases
    case 1
    then have "rtp_seq_update s (of_nat e) =
        (s, \<lparr>st_flags = no_flags\<lparr>fl_dup := True\<rparr>, st_diff = 0\<rparr>)"
      using s by (intro rtp_seq_update_dup) auto
    then show ?thesis using t 1 by (simp add: no_flags_def)
  next
    case 2
    have d: "unat (of_nat e - max_seq s) = e - H"
      unfolding s(2) using 2 hi by (intro udelta_ahead) auto
    then have u: "rtp_seq_update s (of_nat e) =
      (s\<lparr>cycles := (if (of_nat e :: u16) < max_seq s then cycles s + 65536 else cycles s),
         max_seq := of_nat e\<rparr>,
       \<lparr>st_flags = no_flags, st_diff = of_nat e - max_seq s\<rparr>)"
      using s(1) 2 hi by (intro rtp_seq_update_ahead) auto
    have "(of_nat e - max_seq s) = of_nat (e - H)"
      unfolding s(2) using 2 by simp
    moreover have "(of_nat (65536 * Suc q) :: u32) = of_nat (65536 * q) + 65536" for q
      by simp
    moreover have "H < e" "e < H + 65536" using 2 hi by auto
    ultimately show ?thesis
      using s u cycle_step [of H e] 2 by (simp add: rtp_tracks_def no_flags_def max_def)
  next
    case 3
    have "unat (of_nat e - max_seq s) = 65536 - (H - e)"
      unfolding s(2) using 3 lo by (intro udelta_behind) auto
    then have "rtp_seq_update s (of_nat e) =
        (s, \<lparr>st_flags = no_flags\<lparr>fl_outorder := True\<rparr>, st_diff = 0\<rparr>)"
      using s(1) 3 lo by (intro rtp_seq_update_late) auto
    then show ?thesis using t 3 by (simp add: no_flags_def)
  qed
qed

definition rtp_seq_inv :: "rtp_seq_session \<Rightarrow> bool" where
  "rtp_seq_inv s \<longleftrightarrow> probation s \<le> 2 \<and> 65536 dvd unat (cycles s) \<and> base_seq s \<le> 65535"

lemma rtp_seq_init_inv: "rtp_seq_inv (rtp_seq_init s seq)"
proof -
  show ?thesis
    by (simp add: rtp_seq_inv_def rtp_seq_init_def rtp_seq_restart_def ucast16_le)
qed

lemma rtp_seq_update_inv:
  assumes "rtp_seq_inv s"
  shows "rtp_seq_inv (fst (rtp_seq_update s seq))"
proof -
  note b = ucast16_le [of seq]
  have "65536 dvd (unat (cycles s) + 65536) mod 4294967296"
    using assms by (intro dvd_mod) (simp_all add: rtp_seq_inv_def)
  then have c: "65536 dvd unat (cycles s + 65536)"
    by (simp add: unat_word_ariths)
  have p: "probation s \<noteq> 0 \<Longrightarrow> probation s - 1 \<le> 2"
    using assms by (simp add: rtp_seq_inv_def) (unat_arith)
  show ?thesis
    using assms b c p
    by (auto simp: rtp_seq_update_def rtp_seq_inv_def rtp_seq_restart_def Let_def)
qed

interpretation rtp_seq_machine: event_machine
  "\<lambda>s seq. fst (rtp_seq_update s seq)" rtp_seq_inv "\<lambda>_. True"
  by unfold_locales (rule rtp_seq_update_inv)

lemma rtp_ext_seq_low:
  assumes "rtp_seq_inv s"
  shows "ucast (rtp_ext_seq s) = max_seq s"
proof (rule bit_word_eqI)
  fix n assume "n < LENGTH(16)"
  have z: "\<not> bit (cycles s) k" if k: "k < 16" for k
  proof -
    obtain c where "unat (cycles s) = 2 ^ k * (2 * (2 ^ (15 - k) * c))"
    proof -
      obtain c where c: "unat (cycles s) = 65536 * c"
        using assms by (auto simp: rtp_seq_inv_def)
      have "k + (1 + (15 - k)) = 16"
        using k by simp
      then have "(65536 :: nat) = 2 ^ (k + (1 + (15 - k)))"
        by (simp only:) simp
      then have "unat (cycles s) = 2 ^ k * (2 * (2 ^ (15 - k) * c))"
        unfolding power_add c by (simp only: mult.assoc power_one_right)
      then show ?thesis by (rule that)
    qed
    then have "\<not> bit (unat (cycles s)) k"
      by (simp add: bit_iff_odd)
    then show ?thesis
      by (simp add: bit_unsigned_iff bit_imp_le_length)
  qed
  have "rtp_ext_seq s = cycles s OR ucast (max_seq s)"
    unfolding rtp_ext_seq_def
    by (rule disjunctive_add) (use z in \<open>auto simp: bit_simps dest: bit_imp_le_length\<close>)
  then show "bit (ucast (rtp_ext_seq s) :: u16) n = bit (max_seq s) n"
    using z [of n] \<open>n < LENGTH(16)\<close> by (simp add: bit_simps)
qed

fun rtp_window :: "nat \<Rightarrow> nat list \<Rightarrow> bool" where
  "rtp_window H [] = True"
| "rtp_window H (e # es) = (H < e + 100 \<and> e < H + 3000 \<and> rtp_window (max H e) es)"

definition rtp_seq_run :: "rtp_seq_session \<Rightarrow> u16 list \<Rightarrow> rtp_seq_session" where
  "rtp_seq_run s seqs = foldl (\<lambda>s seq. fst (rtp_seq_update s seq)) s seqs"

lemma rtp_seq_run_tracks:
  "rtp_tracks s H \<Longrightarrow> rtp_window H es \<Longrightarrow>
     rtp_tracks (rtp_seq_run s (map of_nat es)) (foldl max H es) \<and>
     base_seq (rtp_seq_run s (map of_nat es)) = base_seq s"
proof (induction es arbitrary: s H)
  case Nil
  then show ?case by (simp add: rtp_seq_run_def)
next
  case (Cons e es)
  then have w: "H < e + 100" "e < H + 3000" "rtp_window (max H e) es" by auto
  note u = rtp_seq_update_tracks [OF Cons.prems(1) w(1,2)]
  from Cons.IH [OF conjunct1 [OF u] w(3)] u show ?case
    by (simp add: rtp_seq_run_def)
qed

lemma rtp_probation_ends:
  assumes "seq \<noteq> 0" and "seq \<noteq> 65535"
  shows "rtp_tracks (rtp_seq_run (rtp_seq_init s seq) [seq, seq + 1]) (unat seq + 1)"
    and "base_seq (rtp_seq_run (rtp_seq_init s seq) [seq, seq + 1]) = ucast seq"
proof -
  have n: "unat seq < 65535"
    using assms(2) unat16_less [of seq] by (simp add: word_unat_eq_iff del: unat16_less)
  have 1: "unat (seq - 1) + 1 = unat seq"
    using assms(1) by (simp add: unat_minus_one unat_gt_0)
  have 2: "unat (seq + 1) = unat seq + 1"
    using n by (simp add: unat_word_ariths)
  have "rtp_seq_run (rtp_seq_init s seq) [seq, seq + 1] =
      (rtp_seq_init s seq)\<lparr>max_seq := seq + 1, probation := 0\<rparr>"
    using 1 2 by (simp add: rtp_seq_run_def rtp_seq_init_def rtp_seq_restart_def rtp_seq_update_def Let_def)
  then show "rtp_tracks (rtp_seq_run (rtp_seq_init s seq) [seq, seq + 1]) (unat seq + 1)"
    and "base_seq (rtp_seq_run (rtp_seq_init s seq) [seq, seq + 1]) = ucast seq"
    using n by (simp_all add: rtp_tracks_def rtp_seq_init_def rtp_seq_restart_def)
qed

lemma rtp_seq_update_jump:
  assumes "probation s = 0" and "3000 \<le> unat (seq - max_seq s)"
    and "unat (seq - max_seq s) \<le> 65436"
  shows "rtp_seq_update s seq =
    (if ucast seq = bad_seq s then
       (rtp_seq_restart s seq, \<lparr>st_flags = no_flags\<lparr>fl_restart := True, fl_probation := True\<rparr>, st_diff = 1\<rparr>)
     else (s\<lparr>bad_seq := (ucast seq + 1) AND 65535\<rparr>,
           \<lparr>st_flags = no_flags\<lparr>fl_bad := True, fl_outorder := True\<rparr>, st_diff = 0\<rparr>))"
proof -
  have "seq - max_seq s \<noteq> 0"
    using assms(2) by (metis unat_0 not_numeral_le_zero)
  then show ?thesis
    using assms by (simp add: rtp_seq_update_def Let_def)
qed

lemma next_bad_seq: "((ucast seq + 1 :: u32) AND 65535) = ucast (seq + 1 :: u16)"
proof (rule word_unat_eq_iff [THEN iffD2])
  have "unat seq + 1 < 2 ^ 32"
    using unat16_less [of seq] by (simp del: unat16_less)
  then have e: "unat (ucast seq + 1 :: u32) = unat seq + 1"
    by (simp add: unat_word_ariths)
  have "(ucast seq + 1 :: u32) AND 65535 = take_bit 16 (ucast seq + 1)"
    by (simp only: take_bit_eq_mask mask_eq_exp_minus_1) simp
  then have "unat ((ucast seq + 1 :: u32) AND 65535) = take_bit 16 (unat seq + 1)"
    by (simp only: unsigned_take_bit_eq e)
  then have "unat ((ucast seq + 1 :: u32) AND 65535) = (unat seq + 1) mod 65536"
    by (simp add: take_bit_eq_mod)
  then show "unat ((ucast seq + 1 :: u32) AND 65535) = unat (ucast (seq + 1 :: u16) :: u32)"
    by (simp add: unat_word_ariths)
qed

text \<open>C1. After a restart-free start (two consecutive packets after
  \<open>pjmedia_rtp_seq_init\<close>), whatever packets follow with a loss below 3000 and a reordering below
  100 of the newest one, the 16-bit tracker computes the unbounded sequence number of the newest
  packet, modulo \<open>2 ^ 32\<close>, and keeps the first one as the base.\<close>

theorem rtp_loss_tolerant:
  assumes "seq \<noteq> 0" and "seq \<noteq> 65535" and "rtp_window (unat seq + 1) es"
  shows "rtp_ext_seq (rtp_seq_run (rtp_seq_init s seq) (seq # (seq + 1) # map of_nat es)) =
           of_nat (foldl max (unat seq + 1) es) \<and>
         base_seq (rtp_seq_run (rtp_seq_init s seq) (seq # (seq + 1) # map of_nat es)) = ucast seq"
proof -
  define s2 where "s2 = rtp_seq_run (rtp_seq_init s seq) [seq, seq + 1]"
  have "rtp_seq_run (rtp_seq_init s seq) (seq # (seq + 1) # map of_nat es) =
      rtp_seq_run s2 (map of_nat es)"
    by (simp add: rtp_seq_run_def s2_def)
  then show ?thesis
    using rtp_seq_run_tracks [OF rtp_probation_ends(1) [OF assms(1,2)] assms(3), of s]
      rtp_probation_ends(2) [OF assms(1,2), of s]
    by (simp add: s2_def rtp_ext_seq_tracks)
qed

theorem rtp_loss_tolerant_witness:
  "rtp_ext_seq (rtp_seq_run (rtp_seq_init zero_seq 65533) (65533 # (65533 + 1) # map of_nat [65536, 65535, 65540]))
     = 65540"
proof -
  have w: "rtp_window (unat (65533 :: u16) + 1) [65536, 65535, 65540]" by simp
  show ?thesis
    using rtp_loss_tolerant [of 65533 "[65536, 65535, 65540]" zero_seq, OF _ _ w] by simp
qed

text \<open>Whatever packets arrive after \<open>pjmedia_rtp_seq_init\<close>, valid or not, the
  number of cycles stays a multiple of \<open>2 ^ 16\<close> (the low half of the extended sequence number is
  \<open>max_seq\<close>), the probation counter stays at most \<open>MIN_SEQUENTIAL\<close> and the base fits 16 bits.\<close>

theorem rtp_ext_seq_low16:
  "(let s' = foldl (\<lambda>s q. fst (rtp_seq_update s q)) (rtp_seq_init s seq) seqs
    in ucast (rtp_ext_seq s') = max_seq s' \<and> probation s' \<le> 2 \<and> base_seq s' \<le> 65535)"
proof -
  have "rtp_seq_inv (foldl (\<lambda>s q. fst (rtp_seq_update s q)) (rtp_seq_init s seq) seqs)"
    by (rule rtp_seq_machine.mrun_inv) (simp_all add: rtp_seq_init_inv)
  then show ?thesis
    by (simp add: Let_def rtp_ext_seq_low) (simp add: rtp_seq_inv_def)
qed

text \<open>The first packet after \<open>pjmedia_rtp_seq_init\<close> is accepted as in sequence
  for every sequence number but 0: there \<open>seq == sess->max_seq + 1\<close> compares 0 with 65536, since the
  sum is computed in \<open>int\<close>, and the packet that starts the stream is flagged bad and out of order.\<close>

theorem rtp_first_packet_flag:
  "fl_bad (st_flags (snd (rtp_seq_update (rtp_seq_init s seq) seq))) \<longleftrightarrow> seq = 0"
proof -
  have "unat seq = unat (seq - 1) + 1 \<longleftrightarrow> seq \<noteq> 0"
    by (cases "seq = 0") (simp_all add: unat_minus_one unat_gt_0)
  then show ?thesis
    by (simp add: rtp_seq_update_def rtp_seq_init_def rtp_seq_restart_def no_flags_def Let_def)
qed

text \<open>A validated source that jumps far away: the first packet is flagged bad and
  changes nothing but the expected \<open>bad_seq\<close>; if the next packet follows it, the tracker restarts
  on it, with no cycles and a new base.\<close>

theorem rtp_restart_resync:
  assumes "probation s = 0"
    and "3000 \<le> unat (seq - max_seq s)" and "unat (seq - max_seq s) < 65436"
    and "ucast seq \<noteq> bad_seq s"
  shows "rtp_seq_update s seq =
      (s\<lparr>bad_seq := ucast (seq + 1)\<rparr>,
       \<lparr>st_flags = no_flags\<lparr>fl_bad := True, fl_outorder := True\<rparr>, st_diff = 0\<rparr>) \<and>
    rtp_seq_update (s\<lparr>bad_seq := ucast (seq + 1)\<rparr>) (seq + 1) =
      (s\<lparr>base_seq := ucast (seq + 1), max_seq := seq + 1, bad_seq := 65537, cycles := 0\<rparr>,
       \<lparr>st_flags = no_flags\<lparr>fl_restart := True, fl_probation := True\<rparr>, st_diff = 1\<rparr>)"
proof
  show "rtp_seq_update s seq =
      (s\<lparr>bad_seq := ucast (seq + 1)\<rparr>,
       \<lparr>st_flags = no_flags\<lparr>fl_bad := True, fl_outorder := True\<rparr>, st_diff = 0\<rparr>)"
    using assms by (simp add: rtp_seq_update_jump next_bad_seq)
  have "seq + 1 - max_seq s = (seq - max_seq s) + 1" by simp
  then have "unat (seq + 1 - max_seq s) = unat (seq - max_seq s) + 1"
    using assms(3) by (simp only: unat_word_ariths) simp
  then show "rtp_seq_update (s\<lparr>bad_seq := ucast (seq + 1)\<rparr>) (seq + 1) =
      (s\<lparr>base_seq := ucast (seq + 1), max_seq := seq + 1, bad_seq := 65537, cycles := 0\<rparr>,
       \<lparr>st_flags = no_flags\<lparr>fl_restart := True, fl_probation := True\<rparr>, st_diff = 1\<rparr>)"
    using assms by (subst rtp_seq_update_jump) (simp_all add: rtp_seq_restart_def)
qed

theorem rtp_restart_resync_witness:
  "snd (rtp_seq_update zero_seq 5000) =
     \<lparr>st_flags = no_flags\<lparr>fl_bad := True, fl_outorder := True\<rparr>, st_diff = 0\<rparr>"
  using rtp_restart_resync [of zero_seq 5000] by (simp add: zero_seq_def)

section \<open>Incoming packets\<close>

lemma rtp_check_ssrc_frame [simp]:
  "out_pt (fst (rtp_check_ssrc ses ssrc)) = out_pt ses"
  "seq_ctrl (fst (rtp_check_ssrc ses ssrc)) = seq_ctrl ses"
  "received (fst (rtp_check_ssrc ses ssrc)) = received ses"
  by (simp_all add: rtp_check_ssrc_def Let_def)

lemma rtp_check_ssrc_follows:
  "\<not> has_peer_ssrc ses \<Longrightarrow> peer_ssrc (fst (rtp_check_ssrc ses ssrc)) = ssrc"
  by (simp add: rtp_check_ssrc_def Let_def)

lemma rtp_session_update2_pt_bad:
  assumes "check_pt" and "ucast (hdr_pt hdr) \<noteq> out_pt ses"
  shows "rtp_session_update2 ses hdr p check_pt =
    (fst (rtp_check_ssrc ses (ntohl (hdr_ssrc hdr))),
     map_option (\<lambda>p. p\<lparr>st_flags := no_flags\<lparr>fl_badssrc := snd (rtp_check_ssrc ses (ntohl (hdr_ssrc hdr))),
        fl_bad := True, fl_badpt := True\<rparr>\<rparr>) p)"
  using assms by (simp add: rtp_session_update2_def Let_def split_beta)

lemma rtp_session_update2_pt_ok:
  assumes "check_pt \<longrightarrow> ucast (hdr_pt hdr) = out_pt ses"
  shows "rtp_session_update2 ses hdr p check_pt =
    (let u = rtp_seq_update (if received ses = 0
              then rtp_seq_init (seq_ctrl ses) (ntohs (hdr_seq hdr)) else seq_ctrl ses)
              (ntohs (hdr_seq hdr));
         f = st_flags (snd u)
     in ((fst (rtp_check_ssrc ses (ntohl (hdr_ssrc hdr))))
           \<lparr>seq_ctrl := fst u,
            received := (if fl_restart f \<or> \<not> fl_bad f then received ses + 1 else received ses)\<rparr>,
         map_option (\<lambda>_. snd u) p))"
  using assms by (auto simp: rtp_session_update2_def Let_def split_beta)

lemma rtp_seq_update_no_ssrc_flags:
  "\<not> fl_badssrc (st_flags (snd (rtp_seq_update s seq)))"
  "\<not> fl_badpt (st_flags (snd (rtp_seq_update s seq)))"
  by (simp_all add: rtp_seq_update_def no_flags_def Let_def)

lemma rtp_restart_not_bad:
  "fl_restart (st_flags (snd (rtp_seq_update s seq))) \<Longrightarrow>
     \<not> fl_bad (st_flags (snd (rtp_seq_update s seq)))"
  by (auto simp: rtp_seq_update_def no_flags_def Let_def split: if_splits)

text \<open>For every packet whose payload type is accepted, the status returned to the
  caller never carries \<open>badssrc\<close>, although the session has compared the SSRC and set the flag:
  \<open>pjmedia_rtp_seq_update\<close> overwrites the status the flag was stored in. The session itself
  follows the new SSRC when none was configured.\<close>

theorem rtp_badssrc_lost:
  assumes "check_pt \<longrightarrow> ucast (hdr_pt hdr) = out_pt ses"
  shows "(\<forall>st. snd (rtp_session_update2 ses hdr p check_pt) = Some st \<longrightarrow> \<not> fl_badssrc (st_flags st)) \<and>
    (\<not> has_peer_ssrc ses \<longrightarrow>
       peer_ssrc (fst (rtp_session_update2 ses hdr p check_pt)) = ntohl (hdr_ssrc hdr))"
  using assms rtp_seq_update_no_ssrc_flags(1)
  by (auto simp: rtp_session_update2_pt_ok Let_def rtp_check_ssrc_follows)

theorem rtp_badssrc_lost_witness:
  "peer_ssrc (fst (rtp_session_update2 ((snd (rtp_session_init 8 1 2 3))\<lparr>peer_ssrc := 5\<rparr>)
      (zero_hdr\<lparr>hdr_pt := 8, hdr_ssrc := 9\<rparr>) None True)) = ntohl 9"
proof -
  let ?ses = "(snd (rtp_session_init 8 1 2 3))\<lparr>peer_ssrc := 5\<rparr>"
  have p: "ucast (hdr_pt (zero_hdr\<lparr>hdr_pt := 8, hdr_ssrc := 9\<rparr>)) = out_pt ?ses"
    and n: "\<not> has_peer_ssrc ?ses"
    by (simp_all add: rtp_session_init_def zero_hdr_def)
  show ?thesis
    using rtp_badssrc_lost [of True "zero_hdr\<lparr>hdr_pt := 8, hdr_ssrc := 9\<rparr>" ?ses None] p n by simp
qed

text \<open>\<open>received\<close> grows by one exactly on the packets that are reported without the
  \<open>bad\<close> flag; a packet of another payload type changes neither the count nor the tracker.\<close>

theorem rtp_received_counts:
  "case rtp_session_update2 ses hdr (Some p) check_pt of
     (ses', Some st) \<Rightarrow>
        received ses' = (if fl_bad (st_flags st) then received ses else received ses + 1) \<and>
        (fl_badpt (st_flags st) \<longleftrightarrow> check_pt \<and> ucast (hdr_pt hdr) \<noteq> out_pt ses) \<and>
        seq_ctrl ses' =
          (if fl_badpt (st_flags st) then seq_ctrl ses
           else fst (rtp_seq_update (if received ses = 0
                       then rtp_seq_init (seq_ctrl ses) (ntohs (hdr_seq hdr)) else seq_ctrl ses)
                     (ntohs (hdr_seq hdr))))
   | (ses', None) \<Rightarrow> False"
proof (cases "check_pt \<and> ucast (hdr_pt hdr) \<noteq> out_pt ses")
  case True
  then show ?thesis by (simp add: rtp_session_update2_pt_bad)
next
  case False
  then have "check_pt \<longrightarrow> ucast (hdr_pt hdr) = out_pt ses" by simp
  with False show ?thesis
    using rtp_seq_update_no_ssrc_flags(2) rtp_restart_not_bad
    by (auto simp: rtp_session_update2_pt_ok Let_def)
qed

section \<open>Outgoing packets\<close>

definition rtp_encode_run :: "rtp_session \<Rightarrow> (int \<times> int \<times> int \<times> int) list \<Rightarrow> rtp_session" where
  "rtp_encode_run ses calls =
     foldl (\<lambda>s (pt, m, len, ts). fst (rtp_encode_rtp s pt m len ts)) ses calls"

definition rtp_hdr_plain :: "rtp_hdr \<Rightarrow> bool" where
  "rtp_hdr_plain h \<longleftrightarrow> hdr_v h = 2 \<and> hdr_p h = 0 \<and> hdr_x h = 0 \<and> hdr_cc h = 0"

lemma rtp_encode_step:
  "out_extseq (fst (rtp_encode_rtp s pt m len ts)) = out_extseq s + (if len = 0 then 0 else 1)"
  "ntohl (hdr_ts (out_hdr (fst (rtp_encode_rtp s pt m len ts)))) =
     ntohl (hdr_ts (out_hdr s)) + word_of_int ts"
  "hdr_ssrc (out_hdr (fst (rtp_encode_rtp s pt m len ts))) = hdr_ssrc (out_hdr s)"
  "rtp_hdr_plain (out_hdr (fst (rtp_encode_rtp s pt m len ts))) = rtp_hdr_plain (out_hdr s)"
  by (simp_all add: rtp_encode_rtp_def Let_def rtp_hdr_plain_def)

text \<open>Over any sequence of \<open>pjmedia_rtp_encode_rtp\<close> calls the timestamp advances
  by the sum of the frame lengths (clock frames included) and the sequence number by the number
  of packets really sent, both modulo \<open>2 ^ 32\<close>; the SSRC and the version never change.\<close>

theorem rtp_encode_counters:
  "let ses' = rtp_encode_run ses calls
   in out_extseq ses' = out_extseq ses + of_nat (length (filter (\<lambda>(pt, m, len, ts). len \<noteq> 0) calls)) \<and>
      ntohl (hdr_ts (out_hdr ses')) =
        ntohl (hdr_ts (out_hdr ses)) + word_of_int (\<Sum>(pt, m, len, ts) \<leftarrow> calls. ts) \<and>
      hdr_ssrc (out_hdr ses') = hdr_ssrc (out_hdr ses) \<and>
      rtp_hdr_plain (out_hdr ses') = rtp_hdr_plain (out_hdr ses)"
proof (induction calls arbitrary: ses)
  case Nil
  then show ?case by (simp add: rtp_encode_run_def)
next
  case (Cons c calls)
  obtain pt m len ts where "c = (pt, m, len, ts)" by (metis prod_cases4)
  then show ?case
    using Cons.IH [of "fst (rtp_encode_rtp ses pt m len ts)"]
    by (simp add: rtp_encode_run_def rtp_encode_step Let_def add_ac)
qed

section \<open>Packets on the wire\<close>

lemma length_rtp_hdr_to_bytes [simp]: "length (rtp_hdr_to_bytes h) = 12"
  by (simp add: rtp_hdr_to_bytes_def)

lemma rtp_first_byte_fields:
  fixes cc :: "4 word" and x p :: "1 word" and v :: "2 word"
  defines "b \<equiv> (ucast cc OR push_bit 4 (ucast x) OR push_bit 5 (ucast p) OR push_bit 6 (ucast v) :: u8)"
  shows "(ucast b :: 4 word) = cc" and "(ucast (drop_bit 4 b) :: 1 word) = x"
    and "(ucast (drop_bit 5 b) :: 1 word) = p" and "(ucast (drop_bit 6 b) :: 2 word) = v"
  unfolding b_def
  by (rule bit_word_eqI; auto simp: bit_simps dest: bit_imp_le_length)+

lemma rtp_second_byte_fields:
  fixes pt :: "7 word" and m :: "1 word"
  defines "b \<equiv> (ucast pt OR push_bit 7 (ucast m) :: u8)"
  shows "(ucast b :: 7 word) = pt" and "(ucast (drop_bit 7 b) :: 1 word) = m"
  unfolding b_def
  by (rule bit_word_eqI; auto simp: bit_simps dest: bit_imp_le_length)+

lemma rtp_hdr_of_to_bytes: "rtp_hdr_of_bytes (rtp_hdr_to_bytes h @ rest) = h"
  by (simp add: rtp_hdr_of_bytes_def rtp_hdr_to_bytes_def be16_def be32_def
      rtp_first_byte_fields rtp_second_byte_fields nth_Cons' del: drop_bit_or)

lemma rtp_decode_first_byte:
  fixes buf :: "u8 list"
  assumes "2 \<le> length buf" and "rtp_hdr_plain (rtp_hdr_of_bytes buf)"
  shows "rtp_decode_rtp2 buf pkt_len =
    (if 12 > pkt_len then Dec_Err PJMEDIA_RTP_EINLEN
     else Dec_Ok \<lparr>ext_hdr = None, ext_off = None, ext_len = 0\<rparr> 12 (nat pkt_len - 12))"
  using assms
  by (simp add: rtp_decode_rtp2_def rtp_strip_padding_def rtp_hdr_plain_def rtp_hdr_of_bytes_def Let_def)

text \<open>C2. What \<open>pjmedia_rtp_encode_rtp\<close> builds, \<open>pjmedia_rtp_decode_rtp\<close> reads back: the
  12 header bytes followed by a payload decode to that header, no extension, and exactly that
  payload.\<close>

theorem rtp_wire_roundtrip:
  assumes "rtp_hdr_plain (out_hdr ses)" and "rtp_encode_rtp ses pt m len ts = (ses', Some h)"
  shows "rtp_hdr_of_bytes (rtp_hdr_to_bytes h @ body) = h \<and>
    rtp_decode_rtp (rtp_hdr_to_bytes h @ body) (12 + int (length body)) =
      Dec_Ok \<lparr>ext_hdr = None, ext_off = None, ext_len = 0\<rparr> 12 (length body)"
proof -
  have "h = out_hdr (fst (rtp_encode_rtp ses pt m len ts))"
    using assms(2) by (auto simp: rtp_encode_rtp_def Let_def split: if_splits)
  then have "rtp_hdr_plain h"
    using assms(1) by (simp add: rtp_encode_step)
  then show ?thesis
    by (simp add: rtp_hdr_of_to_bytes rtp_decode_rtp_def rtp_decode_first_byte nat_add_distrib)
qed

theorem rtp_wire_roundtrip_witness:
  "\<exists>ses' h. rtp_encode_rtp (snd (rtp_session_init 8 1 2 3)) (-1) 1 3 160 = (ses', Some h) \<and>
     rtp_decode_rtp (rtp_hdr_to_bytes h @ [10, 20, 30]) 15 =
       Dec_Ok \<lparr>ext_hdr = None, ext_off = None, ext_len = 0\<rparr> 12 3"
proof -
  let ?ses = "snd (rtp_session_init 8 1 2 3)"
  have p: "rtp_hdr_plain (out_hdr ?ses)"
    by (simp add: rtp_session_init_def rtp_hdr_plain_def zero_hdr_def)
  obtain ses' h where e: "rtp_encode_rtp ?ses (-1) 1 3 160 = (ses', Some h)"
    by (simp add: rtp_encode_rtp_def Let_def)
  show ?thesis
    using rtp_wire_roundtrip [OF p e, of "[10, 20, 30]"] e by simp
qed

lemma rtp_strip_padding_bounds:
  assumes "int off \<le> pkt_len" and "pkt_len \<le> int (length buf)"
  shows "\<exists>plen. rtp_strip_padding buf p dh off (nat pkt_len - off) = Dec_Ok dh off plen \<and>
    int (off + plen) \<le> pkt_len"
proof (cases "p \<and> nat pkt_len - off > 0")
  case True
  let ?n = "nat pkt_len - off"
  have "\<not> length buf \<le> off + ?n - 1"
    using assms True by linarith
  then have "rtp_strip_padding buf p dh off ?n = Dec_Ok dh off
      (if unat (buf ! (off + ?n - 1)) \<le> ?n then ?n - unat (buf ! (off + ?n - 1)) else ?n)"
    using True unfolding rtp_strip_padding_def Let_def by (simp only: if_True if_False simp_thms)
  moreover have "int (off + (?n - k)) \<le> pkt_len" for k
    using assms(1) by linarith
  ultimately show ?thesis
    using assms(1) by (auto simp del: unat8_less)
next
  case False
  then have "rtp_strip_padding buf p dh off (nat pkt_len - off) = Dec_Ok dh off (nat pkt_len - off)"
    unfolding rtp_strip_padding_def by (simp only: if_False)
  then show ?thesis using assms(1) by simp
qed

text \<open>C3. A packet that decodes has its payload inside the packet, behind the fixed header,
  the CSRC list and the extension; the extension lies inside the packet too. When the packet sits
  in a buffer that extends at least 76 bytes, nothing outside the buffer is read.\<close>

theorem rtp_decode_bounds:
  assumes "pkt_len \<le> int (length buf)"
  shows "case rtp_decode_rtp2 buf pkt_len of
      Dec_Ok dh off plen \<Rightarrow>
        12 \<le> off \<and> int (off + plen) \<le> pkt_len \<and>
        (case ext_off dh of None \<Rightarrow> ext_len dh = 0 | Some e \<Rightarrow> 16 \<le> e \<and> e + 4 * ext_len dh = off)
    | Dec_Err e \<Rightarrow> e = PJMEDIA_RTP_EINVER \<or> e = PJMEDIA_RTP_EINLEN
    | Dec_Overrun \<Rightarrow> length buf < 76"
proof -
  define off0 where "off0 = 12 + unat (ucast (buf ! 0) :: 4 word) * 4"
  have "unat (ucast (buf ! 0) :: 4 word) < 16"
    by (rule unat4_less)
  then have o: "12 \<le> off0" "off0 \<le> 72"
    by (simp_all add: off0_def del: unat4_less)
  define len where "len = unat (rd_be16 (buf ! (off0 + 2)) (buf ! (off0 + 3)))"
  define p where "p \<longleftrightarrow> (ucast (drop_bit 5 (buf ! 0)) :: 1 word) \<noteq> 0"
  define x where "x \<longleftrightarrow> (ucast (drop_bit 4 (buf ! 0)) :: 1 word) \<noteq> 0"
  have eq: "rtp_decode_rtp2 buf pkt_len =
     (if length buf < 2 then Dec_Overrun
      else if (ucast (drop_bit 6 (buf ! 0)) :: 2 word) \<noteq> 2 then Dec_Err PJMEDIA_RTP_EINVER
      else if x then
        (if length buf < off0 + 4 then Dec_Overrun
         else if int (off0 + (len + 1) * 4) > pkt_len then Dec_Err PJMEDIA_RTP_EINLEN
         else rtp_strip_padding buf p \<lparr>ext_hdr = Some off0, ext_off = Some (off0 + 4), ext_len = len\<rparr>
                (off0 + (len + 1) * 4) (nat pkt_len - (off0 + (len + 1) * 4)))
      else if int off0 > pkt_len then Dec_Err PJMEDIA_RTP_EINLEN
      else rtp_strip_padding buf p \<lparr>ext_hdr = None, ext_off = None, ext_len = 0\<rparr> off0
             (nat pkt_len - off0))"
    by (simp only: rtp_decode_rtp2_def Let_def off0_def len_def p_def x_def)
  consider "int off0 \<le> pkt_len" "\<not> x" | "int (off0 + (len + 1) * 4) \<le> pkt_len" "x"
    | "int off0 > pkt_len" "\<not> x" | "int (off0 + (len + 1) * 4) > pkt_len" "x"
    by linarith
  then show ?thesis
  proof cases
    case 1
    then obtain plen where "rtp_strip_padding buf p \<lparr>ext_hdr = None, ext_off = None, ext_len = 0\<rparr>
        off0 (nat pkt_len - off0) = Dec_Ok \<lparr>ext_hdr = None, ext_off = None, ext_len = 0\<rparr> off0 plen"
      and "int (off0 + plen) \<le> pkt_len"
      using rtp_strip_padding_bounds [OF _ assms] by blast
    then show ?thesis using 1 o by (simp add: eq)
  next
    case 2
    let ?dh = "\<lparr>ext_hdr = Some off0, ext_off = Some (off0 + 4), ext_len = len\<rparr>"
    from 2 obtain plen where "rtp_strip_padding buf p ?dh (off0 + (len + 1) * 4)
        (nat pkt_len - (off0 + (len + 1) * 4)) = Dec_Ok ?dh (off0 + (len + 1) * 4) plen"
      and "int (off0 + (len + 1) * 4 + plen) \<le> pkt_len"
      using rtp_strip_padding_bounds [OF _ assms] by blast
    then show ?thesis using 2 o by (simp add: eq)
  next
    case 3
    then show ?thesis using o by (simp add: eq)
  next
    case 4
    then show ?thesis using o by (simp add: eq)
  qed
qed

theorem rtp_decode_bounds_witness:
  "\<exists>dh plen. rtp_decode_rtp2 (0x80 # replicate 13 7) 14 = Dec_Ok dh 12 plen \<and> 12 + int plen \<le> 14"
proof -
  have h: "(14 :: int) \<le> int (length (0x80 # replicate 13 7 :: u8 list))" by simp
  obtain dh plen where d: "rtp_decode_rtp2 (0x80 # replicate 13 7) 14 = Dec_Ok dh 12 plen"
    by (simp add: rtp_decode_rtp2_def rtp_strip_padding_def)
  show ?thesis
    using rtp_decode_bounds [OF h] d by simp
qed

text \<open>The length of the packet is checked only after the extension header has been
  read: a minimal 12-byte packet with the extension bit set makes the decoder read past the end
  of a buffer that holds just the packet.\<close>

theorem rtp_decode_reads_ahead:
  assumes "length buf = 12" and "hdr_v (rtp_hdr_of_bytes buf) = 2" and "hdr_x (rtp_hdr_of_bytes buf) \<noteq> 0"
  shows "rtp_decode_rtp2 buf 12 = Dec_Overrun"
  using assms by (simp add: rtp_decode_rtp2_def rtp_hdr_of_bytes_def Let_def)

theorem rtp_decode_reads_ahead_witness:
  "rtp_decode_rtp2 (0x90 # replicate 11 0) 12 = Dec_Overrun"
  by (rule rtp_decode_reads_ahead) (simp_all add: rtp_hdr_of_bytes_def)

end
