(* ===== verification/Ring.thy ===== *)
theory Ring
  imports Prelude
begin

text \<open>
  Ring buffers. The jitter buffer's frame list and the circular sample buffer keep their elements
  in an array of \<open>cap\<close> slots, starting at slot \<open>h\<close> and wrapping around. \<open>rwin g cap h n\<close>
  is the list of the \<open>n\<close> elements such a buffer holds, oldest first, where \<open>g\<close> reads a slot; the
  lemmas say how writing a slot, dropping the oldest and adding elements act on that list. They
  are what both components' refinement proofs rest on.
\<close>

definition rwin :: "(nat \<Rightarrow> 'a) \<Rightarrow> nat \<Rightarrow> nat \<Rightarrow> nat \<Rightarrow> 'a list" where
  "rwin g cap h n = map (\<lambda>i. g ((h + i) mod cap)) [0..<n]"

lemma length_rwin [simp]: "length (rwin g cap h n) = n"
  by (simp add: rwin_def)

lemma nth_rwin [simp]: "i < n \<Longrightarrow> rwin g cap h n ! i = g ((h + i) mod cap)"
  by (simp add: rwin_def)

lemma rwin_0 [simp]: "rwin g cap h 0 = []"
  by (simp add: rwin_def)

lemma rwin_cong:
  "(\<And>i. i < n \<Longrightarrow> g ((h + i) mod cap) = g' ((h + i) mod cap)) \<Longrightarrow>
     rwin g cap h n = rwin g' cap h n"
  by (simp add: rwin_def)

lemma ring_index_less:
  assumes "i < j" and "j < (cap::nat)"
  shows "(h + i) mod cap \<noteq> (h + j) mod cap"
proof
  assume "(h + i) mod cap = (h + j) mod cap"
  then have "cap dvd (h + j) - (h + i)"
    using assms(1) mod_eq_dvd_iff_nat [of "h + i" "h + j" cap] by simp
  then have "cap dvd j - i" by simp
  then show False
    using assms nat_dvd_not_less [of "j - i" cap] by simp
qed

lemma ring_index_inj:
  assumes "(h + i) mod cap = (h + j) mod cap" and "i < cap" and "j < (cap::nat)"
  shows "i = j"
  using assms ring_index_less [of i j cap h] ring_index_less [of j i cap h]
  by (cases i j rule: linorder_cases) simp_all

lemma ring_index_surj:
  assumes "p < cap" and "h < (cap::nat)"
  obtains i where "i < cap" and "p = (h + i) mod cap"
proof (cases "h \<le> p")
  case True
  then show ?thesis using that [of "p - h"] assms by simp
next
  case False
  then show ?thesis using that [of "p + cap - h"] assms by (simp add: le_mod_geq)
qed

lemma rwin_Suc: "rwin g cap h (Suc n) = rwin g cap h n @ [g ((h + n) mod cap)]"
  by (simp add: rwin_def)

lemma rwin_Cons:
  "0 < n \<Longrightarrow> h < cap \<Longrightarrow> rwin g cap h n = g h # rwin g cap ((h + 1) mod cap) (n - 1)"
  by (rule nth_equalityI) (auto simp: nth_Cons mod_simps split: nat.splits)

lemma rwin_drop: "k \<le> n \<Longrightarrow> rwin g cap ((h + k) mod cap) (n - k) = drop k (rwin g cap h n)"
  by (rule nth_equalityI) (auto simp: mod_simps add.assoc)

lemma rwin_take: "k \<le> n \<Longrightarrow> rwin g cap h k = take k (rwin g cap h n)"
  by (rule nth_equalityI) auto

lemma rwin_append: "rwin g cap h (n + m) = rwin g cap h n @ rwin g cap ((h + n) mod cap) m"
proof (induction m)
  case (Suc m)
  then show ?case
    by (simp add: rwin_Suc mod_simps add.assoc)
qed simp

lemma rwin_update:
  assumes "i < n" and "n \<le> cap"
  shows "rwin (g((h + i) mod cap := v)) cap h n = (rwin g cap h n)[i := v]"
proof (rule nth_equalityI)
  fix j assume "j < length (rwin (g((h + i) mod cap := v)) cap h n)"
  then have j: "j < n" by simp
  then have "(h + j) mod cap = (h + i) mod cap \<longleftrightarrow> j = i"
    using assms ring_index_inj [of h j cap i] by auto
  then show "rwin (g((h + i) mod cap := v)) cap h n ! j = (rwin g cap h n)[i := v] ! j"
    using j assms by (auto simp: nth_list_update)
qed simp

lemma rwin_update_outside:
  assumes "n \<le> i" and "i < cap"
  shows "rwin (g((h + i) mod cap := v)) cap h n = rwin g cap h n"
proof (rule rwin_cong)
  fix j assume "j < n"
  then have "(h + j) mod cap \<noteq> (h + i) mod cap"
    using assms ring_index_inj [of h j cap i] by auto
  then show "(g((h + i) mod cap := v)) ((h + j) mod cap) = g ((h + j) mod cap)"
    by simp
qed

text \<open>A window read out of the array region by region, as the code copies it.\<close>

lemma rwin_regions:
  assumes "h < length xs" and "n \<le> length xs"
  shows "rwin ((!) xs) (length xs) h n =
    (if h + n \<le> length xs then take n (drop h xs)
     else drop h xs @ take (h + n - length xs) xs)"
proof (rule nth_equalityI)
  show "length (rwin ((!) xs) (length xs) h n) = length (if h + n \<le> length xs
      then take n (drop h xs) else drop h xs @ take (h + n - length xs) xs)"
    using assms by auto
  fix i assume "i < length (rwin ((!) xs) (length xs) h n)"
  then have "i < n" by simp
  then show "rwin ((!) xs) (length xs) h n ! i = (if h + n \<le> length xs
      then take n (drop h xs) else drop h xs @ take (h + n - length xs) xs) ! i"
    using assms by (auto simp: nth_append le_mod_geq not_less add.commute)
qed

text \<open>The slots of a window, in order: one run of the array, or two when it wraps.\<close>

lemma ring_indices:
  assumes "h < cap" and "n \<le> cap"
  shows "map (\<lambda>i. (h + i) mod cap) [0..<n] =
    (if h + n \<le> cap then [h..<h + n] else [h..<cap] @ [0..<h + n - cap])"
  using assms rwin_regions [of h "[0..<cap]" n]
  by (auto simp: rwin_def split: if_splits intro!: nth_equalityI simp: nth_append le_mod_geq)

lemma ring_image:
  assumes "h < cap" and "n \<le> (cap::nat)"
  shows "(\<lambda>i. (h + i) mod cap) ` {..<n} =
    (if h + n \<le> cap then {h..<h + n} else {h..<cap} \<union> {..<h + n - cap})"
proof -
  have "(\<lambda>i. (h + i) mod cap) ` {..<n} = set (map (\<lambda>i. (h + i) mod cap) [0..<n])"
    by (simp add: lessThan_atLeast0)
  then show ?thesis
    using assms by (simp add: ring_indices lessThan_atLeast0)
qed

end
