(* ===== verification/Jb_Framelist.thy ===== *)
theory Jb_Framelist
  imports Ring "HOL-Library.While_Combinator"
begin

text \<open>
  The frame list of the jitter buffer (\<open>jb_framelist_t\<close> of \<open>pjmedia/src/pjmedia/jbuf.c\<close>): a ring
  of \<open>max_count\<close> slots held in parallel arrays, starting at \<open>head\<close>, whose first slot has the
  sequence number \<open>origin\<close>. A slot outside the window, and a slot of a frame that has not arrived,
  is \<open>Missing\<close>; a frame dropped by the discard algorithms stays in its slot as \<open>Discarded\<close>.

  The operations work on the arrays as the code does. \<open>fl_abs\<close> reads the window as a list, and
  the refinement lemmas state every operation on that list. The loops whose end is not obvious
  (\<open>jb_framelist_get\<close>, \<open>jb_framelist_peek\<close>) are \<open>while_option\<close>; under the invariant they return.
\<close>

section \<open>State\<close>

text \<open>\<open>pjmedia_jb_frame_type\<close>, with the internal \<open>PJMEDIA_JB_DISCARDED_FRAME\<close>.\<close>

datatype jb_ftype = Missing | Normal | Zero_Prefetch | Zero_Empty | Discarded

record jb_framelist =
  frame_size :: nat
  max_count :: nat
  content :: "u8 list list"
  frame_type :: "jb_ftype list"
  content_len :: "nat list"
  bit_info :: "u32 list"
  ts :: "u32 list"
  head :: nat
  fl_size :: nat
  discarded_num :: nat
  origin :: int

definition INVALID_OFFSET :: int where "INVALID_OFFSET = -9999"

definition MAX_FRAME_INDEX :: nat where "MAX_FRAME_INDEX = 4294967295 div 9000"

section \<open>Operations\<close>

definition jb_framelist_reset :: "jb_framelist \<Rightarrow> jb_framelist" where
  "jb_framelist_reset f = f\<lparr>head := 0, origin := INVALID_OFFSET, fl_size := 0, discarded_num := 0,
     frame_type := replicate (max_count f) Missing, content_len := replicate (max_count f) 0\<rparr>"

text \<open>The pool memory of the arrays is not initialised: \<open>mem\<close> is what it happens to hold.\<close>

definition jb_framelist_init ::
  "nat \<Rightarrow> nat \<Rightarrow> u8 list list \<times> u32 list \<times> u32 list \<Rightarrow> jb_framelist" where
  "jb_framelist_init fsize count mem =
     jb_framelist_reset \<lparr>frame_size = fsize, max_count = count, content = fst mem,
       frame_type = [], content_len = [], bit_info = fst (snd mem), ts = snd (snd mem),
       head = 0, fl_size = 0, discarded_num = 0, origin = 0\<rparr>"

definition jb_framelist_eff_size :: "jb_framelist \<Rightarrow> nat" where
  "jb_framelist_eff_size f = usub32 (fl_size f) (discarded_num f)"

text \<open>
  \<open>jb_framelist_remove_head\<close>: the range is cleared in two steps when it wraps. The counting loop
  runs over the frame types before they are cleared.
\<close>

definition count_discarded :: "jb_ftype list \<Rightarrow> nat \<Rightarrow> nat \<Rightarrow> nat \<Rightarrow> nat" where
  "count_discarded types from n dn =
     foldl (\<lambda>dn i. if types ! i = Discarded then usub32 dn 1 else dn) dn [from..<from + n]"

definition clear_range :: "jb_framelist \<Rightarrow> nat \<Rightarrow> nat \<Rightarrow> jb_framelist" where
  "clear_range f from n = f\<lparr>
     discarded_num := count_discarded (frame_type f) from n (discarded_num f),
     frame_type := fill_range (frame_type f) from n Missing,
     content_len := fill_range (content_len f) from n 0\<rparr>"

definition jb_framelist_remove_head :: "jb_framelist \<Rightarrow> nat \<Rightarrow> jb_framelist \<times> nat" where
  "jb_framelist_remove_head f count =
    (let count = (if count > fl_size f then fl_size f else count)
     in if count = 0 then (f, 0)
        else
          (let (step1, step2) = (if head f + count > max_count f
                 then (max_count f - head f, count - (max_count f - head f)) else (count, 0));
               f1 = clear_range f (head f) step1;
               f2 = (if step2 > 0 then clear_range f1 0 step2 else f1)
           in (f2\<lparr>origin := origin f2 + int count, head := (head f2 + count) mod max_count f2,
                  fl_size := fl_size f2 - count\<rparr>, count)))"

text \<open>What \<open>jb_framelist_get\<close> stores through its result pointers.\<close>

record jb_got =
  got_type :: jb_ftype
  got_bytes :: "u8 list"
  got_bit_info :: u32
  got_ts :: u32
  got_seq :: int

definition jb_skip_discarded :: "jb_framelist \<times> bool \<Rightarrow> (jb_framelist \<times> bool) option" where
  "jb_skip_discarded =
     while_option (\<lambda>(f, prev). frame_type f ! head f = Discarded)
       (\<lambda>(f, prev). (fst (jb_framelist_remove_head f 1), True))"

definition jb_take_head :: "jb_framelist \<Rightarrow> jb_framelist" where
  "jb_take_head f = f\<lparr>frame_type := (frame_type f)[head f := Missing],
     content_len := (content_len f)[head f := 0], bit_info := (bit_info f)[head f := 0],
     ts := (ts f)[head f := 0], origin := origin f + 1,
     head := (head f + 1) mod max_count f, fl_size := fl_size f - 1\<rparr>"

text \<open>
  \<open>cap\<close> is the size of the caller's buffer when it passes one (\<open>size\<close> not \<open>NULL\<close>). The outer
  \<open>None\<close> is a call that does not return; the result's \<open>None\<close> is \<open>PJ_FALSE\<close>.
\<close>

definition jb_framelist_get ::
  "jb_framelist \<Rightarrow> nat option \<Rightarrow> (jb_framelist \<times> jb_got option) option" where
  "jb_framelist_get f cap =
    (if fl_size f = 0 then Some (f, None)
     else
       (case jb_skip_discarded (f, False) of
          None \<Rightarrow> None
        | Some (f', prev_discarded) \<Rightarrow>
            if fl_size f' = 0 then Some (f', None)
            else
              (let h = head f';
                   frm_size = content_len f' ! h;
                   max_size = (case cap of None \<Rightarrow> frm_size | Some m \<Rightarrow> m);
                   copy_size = min max_size frm_size;
                   got = (if prev_discarded then
                            \<lparr>got_type = Missing, got_bytes = [], got_bit_info = 0,
                             got_ts = ts f' ! h, got_seq = origin f'\<rparr>
                          else
                            \<lparr>got_type = frame_type f' ! h, got_bytes = take copy_size (content f' ! h),
                             got_bit_info = bit_info f' ! h, got_ts = ts f' ! h, got_seq = origin f'\<rparr>)
               in Some (jb_take_head f', Some got))))"

definition jb_peek_pos :: "jb_framelist \<Rightarrow> nat \<Rightarrow> (nat \<times> nat) option" where
  "jb_peek_pos f offset =
     while_option (\<lambda>(pos, idx). frame_type f ! pos = Discarded \<or> idx \<noteq> 0)
       (\<lambda>(pos, idx). ((pos + 1) mod max_count f,
                      if frame_type f ! pos \<noteq> Discarded then idx - 1 else idx))
       (head f, offset)"

definition jb_framelist_peek :: "jb_framelist \<Rightarrow> nat \<Rightarrow> jb_got option option" where
  "jb_framelist_peek f offset =
    (if offset \<ge> jb_framelist_eff_size f then Some None
     else
       (case jb_peek_pos f offset of
          None \<Rightarrow> None
        | Some (pos, _) \<Rightarrow>
            Some (Some \<lparr>got_type = frame_type f ! pos,
                        got_bytes = take (content_len f ! pos) (content f ! pos),
                        got_bit_info = bit_info f ! pos, got_ts = ts f ! pos,
                        got_seq = origin f + int offset\<rparr>)))"

text \<open>
  \<open>jb_framelist_put_at\<close>. The restart test adds an \<open>int\<close> and an \<open>unsigned\<close>, so the sum is
  compared as an unsigned value. The frame type passed by the callers is always \<open>Normal\<close>, so the
  content is always copied.
\<close>

definition jb_store ::
  "jb_framelist \<Rightarrow> int \<Rightarrow> nat \<Rightarrow> u8 list \<Rightarrow> u32 \<Rightarrow> u32 \<Rightarrow> jb_framelist \<times> pj_status" where
  "jb_store f index distance frame binfo tstamp =
    (let pos = (head f + distance) mod max_count f
     in if frame_type f ! pos \<noteq> Missing then (f, PJ_EEXISTS)
        else
          (f\<lparr>frame_type := (frame_type f)[pos := Normal],
             content_len := (content_len f)[pos := length frame],
             bit_info := (bit_info f)[pos := binfo],
             ts := (ts f)[pos := tstamp],
             fl_size := (if origin f + int (fl_size f) \<le> index then distance + 1 else fl_size f),
             content := (content f)[pos := write_at (content f ! pos) 0 frame]\<rparr>, PJ_SUCCESS))"

definition jb_reset_to :: "jb_framelist \<Rightarrow> int \<Rightarrow> jb_framelist" where
  "jb_reset_to f index = (jb_framelist_reset f)\<lparr>origin := index\<rparr>"

definition jb_framelist_put_at ::
  "jb_framelist \<Rightarrow> int \<Rightarrow> u8 list \<Rightarrow> u32 \<Rightarrow> u32 \<Rightarrow> jb_framelist \<times> pj_status" where
  "jb_framelist_put_at f index frame binfo tstamp =
    (let distance = index - origin f
     in if length frame > frame_size f then (f, PJ_EINVAL)
        else if distance < 0 \<and> origin f - index < 100 then (f, PJ_ETOOSMALL)
        else
          (let (f1, d1) =
                 (if distance < 0 then
                    (if to_u32 (origin f + int (fl_size f)) \<ge> MAX_FRAME_INDEX
                     then (f\<lparr>origin := index - int (fl_size f)\<rparr>, int (fl_size f))
                     else (jb_reset_to f index, 0))
                  else (f, distance));
               (f2, d2) = (if fl_size f1 = 0 then (f1\<lparr>origin := index\<rparr>, 0) else (f1, d1))
           in if d2 \<ge> int (max_count f2) then
                (if d2 > 3000 then jb_store (jb_reset_to f2 index) index 0 frame binfo tstamp
                 else (f2, PJ_ETOOMANY))
              else jb_store f2 index (nat d2) frame binfo tstamp))"

definition jb_framelist_discard :: "jb_framelist \<Rightarrow> int \<Rightarrow> jb_framelist \<times> pj_status" where
  "jb_framelist_discard f index =
    (if \<not> (index \<ge> origin f \<and> index < origin f + int (fl_size f)) then (f, PJ_EINVAL)
     else
       (let pos = (head f + nat (index - origin f)) mod max_count f
        in (f\<lparr>frame_type := (frame_type f)[pos := Discarded],
              discarded_num := discarded_num f + 1\<rparr>, PJ_SUCCESS)))"

section \<open>The abstract slot list and the invariant\<close>

datatype jb_slot = Gap | Frame "u8 list" u32 u32 | Dropped

definition slot_at :: "jb_framelist \<Rightarrow> nat \<Rightarrow> jb_slot" where
  "slot_at f p = (case frame_type f ! p of
       Missing \<Rightarrow> Gap
     | Discarded \<Rightarrow> Dropped
     | _ \<Rightarrow> Frame (take (content_len f ! p) (content f ! p)) (bit_info f ! p) (ts f ! p))"

definition fl_abs :: "jb_framelist \<Rightarrow> jb_slot list" where
  "fl_abs f = rwin (slot_at f) (max_count f) (head f) (fl_size f)"

abbreviation dropped_in :: "jb_slot list \<Rightarrow> nat" where
  "dropped_in l \<equiv> length (filter ((=) Dropped) l)"

definition fl_arrays :: "jb_framelist \<Rightarrow> bool" where
  "fl_arrays f \<longleftrightarrow> 0 < max_count f \<and> max_count f < 2 ^ 31 \<and>
     length (content f) = max_count f \<and> length (frame_type f) = max_count f \<and>
     length (content_len f) = max_count f \<and> length (bit_info f) = max_count f \<and>
     length (ts f) = max_count f \<and>
     (\<forall>b \<in> set (content f). length b = frame_size f) \<and>
     (\<forall>n \<in> set (content_len f). n \<le> frame_size f)"

definition fl_window :: "jb_framelist \<Rightarrow> bool" where
  "fl_window f \<longleftrightarrow> head f < max_count f \<and> fl_size f \<le> max_count f \<and>
     set (frame_type f) \<subseteq> {Missing, Normal, Discarded} \<and>
     (\<forall>i. fl_size f \<le> i \<and> i < max_count f \<longrightarrow>
        frame_type f ! ((head f + i) mod max_count f) = Missing) \<and>
     (\<forall>p < max_count f. frame_type f ! p = Missing \<longrightarrow> content_len f ! p = 0)"

definition fl_inv :: "jb_framelist \<Rightarrow> bool" where
  "fl_inv f \<longleftrightarrow> fl_arrays f \<and> fl_window f \<and> discarded_num f = dropped_in (fl_abs f)"

lemma length_fl_abs [simp]: "length (fl_abs f) = fl_size f"
  by (simp add: fl_abs_def)

lemma fl_arraysD:
  assumes "fl_arrays f"
  shows "0 < max_count f" "max_count f < 2 ^ 31"
    "length (content f) = max_count f" "length (frame_type f) = max_count f"
    "length (content_len f) = max_count f" "length (bit_info f) = max_count f"
    "length (ts f) = max_count f"
    "p < max_count f \<Longrightarrow> length (content f ! p) = frame_size f"
    "p < max_count f \<Longrightarrow> content_len f ! p \<le> frame_size f"
  using assms by (auto simp: fl_arrays_def)

lemma fl_windowD:
  assumes "fl_window f"
  shows "head f < max_count f" "fl_size f \<le> max_count f"
    "p < length (frame_type f) \<Longrightarrow> frame_type f ! p \<in> {Missing, Normal, Discarded}"
    "fl_size f \<le> i \<Longrightarrow> i < max_count f \<Longrightarrow> frame_type f ! ((head f + i) mod max_count f) = Missing"
    "p < max_count f \<Longrightarrow> frame_type f ! p = Missing \<Longrightarrow> content_len f ! p = 0"
  using assms by (auto simp: fl_window_def dest: nth_mem)

lemma fl_invD:
  assumes "fl_inv f"
  shows "fl_arrays f" "fl_window f" "discarded_num f = dropped_in (fl_abs f)"
  using assms by (auto simp: fl_inv_def)

lemma slot_at_cases:
  assumes "fl_arrays f" "fl_window f" "p < max_count f"
  shows "slot_at f p = Dropped \<longleftrightarrow> frame_type f ! p = Discarded"
    and "slot_at f p = Gap \<longleftrightarrow> frame_type f ! p = Missing"
  using assms fl_windowD(3) [of f p] fl_arraysD(4) [of f]
  by (auto simp: slot_at_def split: jb_ftype.splits)

lemma eff_size_exact:
  assumes "fl_inv f"
  shows "jb_framelist_eff_size f = length (filter ((\<noteq>) Dropped) (fl_abs f))"
proof -
  have "discarded_num f + length (filter ((\<noteq>) Dropped) (fl_abs f)) = fl_size f"
    using sum_length_filter_compl [of "(=) Dropped" "fl_abs f"] assms
    by (simp add: fl_inv_def)
  moreover have "fl_size f < 2 ^ 32"
    using assms fl_arraysD(2) fl_windowD(2) by (fastforce simp: fl_inv_def)
  ultimately show ?thesis
    by (simp add: jb_framelist_eff_size_def)
qed

section \<open>Reset and removal of the oldest slots\<close>

lemma jb_framelist_reset_inv:
  assumes "fl_arrays f" shows "fl_inv (jb_reset_to f i)" "fl_inv (jb_framelist_reset f)"
    "fl_abs (jb_reset_to f i) = []" "fl_abs (jb_framelist_reset f) = []"
  using assms by (auto simp: fl_inv_def fl_arrays_def fl_window_def jb_framelist_reset_def
      jb_reset_to_def fl_abs_def)

lemma count_discarded_eq:
  "length (filter (\<lambda>i. types ! i = Discarded) [from..<from + n]) \<le> dn \<Longrightarrow> dn < 2 ^ 32 \<Longrightarrow>
     count_discarded types from n dn =
       dn - length (filter (\<lambda>i. types ! i = Discarded) [from..<from + n])"
  by (induction n) (auto simp: count_discarded_def)

definition clear_set :: "jb_framelist \<Rightarrow> nat set \<Rightarrow> nat \<Rightarrow> jb_framelist" where
  "clear_set f S dn = f\<lparr>discarded_num := dn,
     frame_type := map (\<lambda>p. if p \<in> S then Missing else frame_type f ! p) [0..<length (frame_type f)],
     content_len := map (\<lambda>p. if p \<in> S then 0 else content_len f ! p) [0..<length (content_len f)]\<rparr>"

lemma clear_range_set:
  assumes "fl_arrays f" and "from + n \<le> max_count f"
  shows "clear_range f from n =
    clear_set f {from..<from + n} (count_discarded (frame_type f) from n (discarded_num f))"
  unfolding clear_range_def clear_set_def
  using assms fl_arraysD [of f]
  by (intro jb_framelist.equality nth_equalityI | simp add: nth_fill_range)+

lemma clear_set_simps [simp]:
  "discarded_num (clear_set f S dn) = dn" "head (clear_set f S dn) = head f"
  "fl_size (clear_set f S dn) = fl_size f" "origin (clear_set f S dn) = origin f"
  "max_count (clear_set f S dn) = max_count f" "frame_size (clear_set f S dn) = frame_size f"
  "length (frame_type (clear_set f S dn)) = length (frame_type f)"
  "p < length (frame_type f) \<Longrightarrow>
     frame_type (clear_set f S dn) ! p = (if p \<in> S then Missing else frame_type f ! p)"
  "clear_set (clear_set f S dn) T dm = clear_set f (S \<union> T) dm"
  by (auto simp: clear_set_def)

lemma clear_set_empty [simp]: "clear_set f {} (discarded_num f) = f"
  by (simp add: clear_set_def map_nth)

lemma fl_arrays_clear_set: "fl_arrays f \<Longrightarrow> fl_arrays (clear_set f S dn)"
  by (auto simp: fl_arrays_def clear_set_def)

abbreviation ring_slots :: "jb_framelist \<Rightarrow> nat \<Rightarrow> nat set" where
  "ring_slots f n \<equiv> (\<lambda>i. (head f + i) mod max_count f) ` {..<n}"

lemma dropped_in_window:
  assumes "fl_arrays f" "fl_window f" "n \<le> fl_size f"
  shows "dropped_in (take n (fl_abs f)) = length (filter (\<lambda>p. frame_type f ! p = Discarded)
    (map (\<lambda>i. (head f + i) mod max_count f) [0..<n]))"
proof -
  have "take n (fl_abs f) = map (slot_at f) (map (\<lambda>i. (head f + i) mod max_count f) [0..<n])"
    using assms(3) by (simp add: fl_abs_def rwin_def take_map)
  moreover have "filter ((=) Dropped \<circ> slot_at f) (map (\<lambda>i. (head f + i) mod max_count f) [0..<n]) =
    filter (\<lambda>p. frame_type f ! p = Discarded) (map (\<lambda>i. (head f + i) mod max_count f) [0..<n])"
    using slot_at_cases(1) [OF assms(1,2)] fl_arraysD(1) [OF assms(1)]
    by (intro filter_cong) (auto simp: eq_commute [of Dropped])
  ultimately show ?thesis
    by (simp only: filter_map length_map)
qed

lemma remove_head_clear:
  assumes inv: "fl_inv f" and n: "n = min count (fl_size f)"
  shows "jb_framelist_remove_head f count =
    ((clear_set f (ring_slots f n) (discarded_num f - dropped_in (take n (fl_abs f))))
       \<lparr>origin := origin f + int n, head := (head f + n) mod max_count f,
        fl_size := fl_size f - n\<rparr>, n)"
proof (cases "n = 0")
  case True
  then show ?thesis
    using n fl_windowD(1) [OF fl_invD(2) [OF inv]]
    by (auto simp: jb_framelist_remove_head_def min_def split: if_splits)
next
  case False
  note A = fl_invD [OF inv]
  note B = fl_windowD(1,2) [OF A(2)] fl_arraysD(1-7) [OF A(1)]
  have nsz: "n \<le> fl_size f" using n by simp
  have dn: "dropped_in (take n (fl_abs f)) \<le> discarded_num f"
    unfolding A(3) by (metis append_take_drop_id filter_append le_add1 length_append)
  have dn32: "discarded_num f < 2 ^ 32"
    using B unfolding A(3) by (intro le_less_trans [OF length_filter_le]) simp
  note win = dropped_in_window [OF A(1,2) nsz]
  define s1 where "s1 = (if head f + n > max_count f then max_count f - head f else n)"
  define s2 where "s2 = (if head f + n > max_count f then n - (max_count f - head f) else 0)"
  have s12: "head f + s1 \<le> max_count f" "s2 \<le> head f" "s2 \<le> max_count f"
    using B nsz by (auto simp: s1_def s2_def)
  have idx: "map (\<lambda>i. (head f + i) mod max_count f) [0..<n] = [head f..<head f + s1] @ [0..<s2]"
    using ring_indices [of "head f" "max_count f" n] B nsz
    by (auto simp: s1_def s2_def add.commute [of n])
  have img: "ring_slots f n = {head f..<head f + s1} \<union> {0..<s2}"
    using ring_image [of "head f" "max_count f" n] B nsz
    by (auto simp: s1_def s2_def lessThan_atLeast0)
  define c1 where "c1 = length (filter (\<lambda>p. frame_type f ! p = Discarded) [head f..<head f + s1])"
  define c2 where "c2 = length (filter (\<lambda>p. frame_type f ! p = Discarded) [0..<s2])"
  have c12: "dropped_in (take n (fl_abs f)) = c1 + c2"
    unfolding win idx by (simp add: c1_def c2_def)
  define f1 where "f1 = clear_range f (head f) s1"
  have f1: "f1 = clear_set f {head f..<head f + s1} (discarded_num f - c1)"
    unfolding f1_def using dn dn32 c12 s12 A(1)
    by (simp add: clear_range_set count_discarded_eq c1_def)
  have "filter (\<lambda>p. frame_type f1 ! p = Discarded) [0..<s2] =
      filter (\<lambda>p. frame_type f ! p = Discarded) [0..<s2]"
    using s12 B by (intro filter_cong) (auto simp: f1)
  then have "count_discarded (frame_type f1) 0 s2 (discarded_num f1) = discarded_num f - c1 - c2"
    using dn dn32 c12 s12 by (subst count_discarded_eq) (simp_all add: f1 c2_def)
  then have f2: "clear_range f1 0 s2 =
      clear_set f (ring_slots f n) (discarded_num f - dropped_in (take n (fl_abs f)))"
    using s12 fl_arrays_clear_set [OF A(1)]
    by (subst clear_range_set) (simp_all add: f1 img c12)
  have z: "clear_range f1 0 0 = f1"
    by (simp add: clear_range_def fill_range_def write_at_def count_discarded_def)
  have cnt: "(if count > fl_size f then fl_size f else count) = n"
    using n by (simp add: min_def)
  have pr: "(if max_count f < head f + n then (max_count f - head f, n - (max_count f - head f))
      else (n, 0)) = (s1, s2)"
    by (simp add: s1_def s2_def)
  have f2': "(if 0 < s2 then clear_range f1 0 s2 else f1) =
      clear_set f (ring_slots f n) (discarded_num f - dropped_in (take n (fl_abs f)))"
    using f2 z by (cases "s2 = 0") (simp_all del: clear_set_simps)
  show ?thesis
    using False f2' by (simp add: jb_framelist_remove_head_def cnt pr flip: f1_def)
qed

text \<open>A slot's view only depends on its own array entries.\<close>

lemma slot_at_cong:
  "frame_type f' ! p = frame_type f ! p \<Longrightarrow> content_len f' ! p = content_len f ! p \<Longrightarrow>
   content f' ! p = content f ! p \<Longrightarrow> bit_info f' ! p = bit_info f ! p \<Longrightarrow>
   ts f' ! p = ts f ! p \<Longrightarrow> slot_at f' p = slot_at f p"
  by (simp add: slot_at_def split: jb_ftype.split)

lemma dropped_in_drop: "dropped_in (drop n l) = dropped_in l - dropped_in (take n l)"
  by (metis add_diff_cancel_left' append_take_drop_id filter_append length_append)

lemma slot_at_clear_set:
  assumes "fl_arrays f" "p < max_count f"
  shows "slot_at (clear_set f S dn) p = (if p \<in> S then Gap else slot_at f p)"
  using assms fl_arraysD(4,5) [OF assms(1)] by (simp add: slot_at_def clear_set_def split: jb_ftype.split)

lemma slot_at_window [simp]:
  "slot_at (f\<lparr>origin := a\<rparr>) = slot_at f" "slot_at (f\<lparr>head := b\<rparr>) = slot_at f"
  "slot_at (f\<lparr>fl_size := c\<rparr>) = slot_at f" "slot_at (f\<lparr>discarded_num := b\<rparr>) = slot_at f"
  by (simp_all add: slot_at_def fun_eq_iff split: jb_ftype.split)

lemma fl_arrays_window [simp]:
  "fl_arrays (f\<lparr>origin := a\<rparr>) = fl_arrays f" "fl_arrays (f\<lparr>head := b\<rparr>) = fl_arrays f"
  "fl_arrays (f\<lparr>fl_size := b\<rparr>) = fl_arrays f" "fl_arrays (f\<lparr>discarded_num := b\<rparr>) = fl_arrays f"
  by (simp_all add: fl_arrays_def)

lemma ring_slots_mem:
  "fl_arrays f \<Longrightarrow> i < max_count f \<Longrightarrow> n \<le> max_count f \<Longrightarrow>
     (head f + i) mod max_count f \<in> ring_slots f n \<longleftrightarrow> i < n"
  using ring_index_inj [of "head f" i "max_count f"] by force

lemma remove_head_refines:
  assumes inv: "fl_inv f" and r: "jb_framelist_remove_head f count = (f', n)"
  shows "n = min count (fl_size f)" "fl_inv f'" "fl_abs f' = drop n (fl_abs f)"
    "origin f' = origin f + int n" "fl_size f' = fl_size f - n"
    "max_count f' = max_count f" "frame_size f' = frame_size f"
proof -
  note A = fl_invD [OF inv]
  note B = fl_windowD(1,2) [OF A(2)] fl_arraysD(1-7) [OF A(1)]
  define k where "k = min count (fl_size f)"
  define g where "g = clear_set f (ring_slots f k) (discarded_num f - dropped_in (take k (fl_abs f)))"
  note eq = remove_head_clear [OF inv k_def, folded g_def]
  from eq r show n: "n = min count (fl_size f)"
    by (simp add: k_def)
  have f': "f' = g\<lparr>origin := origin f + int k, head := (head f + k) mod max_count f,
      fl_size := fl_size f - k\<rparr>"
    using eq r by simp
  have k: "k \<le> fl_size f" "n = k" by (simp_all add: k_def n)
  show "origin f' = origin f + int n" "fl_size f' = fl_size f - n"
    "max_count f' = max_count f" "frame_size f' = frame_size f"
    by (simp_all add: f' g_def k(2))
  show abs: "fl_abs f' = drop n (fl_abs f)"
  proof -
    have "fl_abs f' = rwin (slot_at g) (max_count f) ((head f + k) mod max_count f) (fl_size f - k)"
      by (simp add: fl_abs_def f' g_def)
    also have "\<dots> = rwin (slot_at f) (max_count f) ((head f + k) mod max_count f) (fl_size f - k)"
    proof (rule rwin_cong)
      fix i assume "i < fl_size f - k"
      then show "slot_at g (((head f + k) mod max_count f + i) mod max_count f) =
          slot_at f (((head f + k) mod max_count f + i) mod max_count f)"
        using B ring_slots_mem [OF A(1), of "k + i" k]
        by (simp add: g_def slot_at_clear_set A(1) mod_simps add.assoc)
    qed
    also have "\<dots> = drop n (fl_abs f)"
      unfolding fl_abs_def k(2) by (rule rwin_drop) (rule k(1))
    finally show ?thesis .
  qed
  have "fl_window f'"
    unfolding fl_window_def
  proof (intro conjI allI impI)
    show "head f' < max_count f'" "fl_size f' \<le> max_count f'"
      using B by (simp_all add: f' g_def)
    show "set (frame_type f') \<subseteq> {Missing, Normal, Discarded}"
      using fl_windowD(3) [OF A(2)] by (fastforce simp: f' g_def clear_set_def)
    show "content_len f' ! p = 0" if "p < max_count f'" "frame_type f' ! p = Missing" for p
      using that fl_windowD(5) [OF A(2)] B by (auto simp: f' g_def clear_set_def split: if_splits)
    fix i assume i: "fl_size f' \<le> i \<and> i < max_count f'"
    define j where "j = (if k + i < max_count f then k + i else k + i - max_count f)"
    have j: "(head f' + i) mod max_count f' = (head f + j) mod max_count f" "j < max_count f"
      using i B k by (auto simp: f' g_def j_def mod_simps add.assoc le_mod_geq)
    have jj: "(head f + j) mod max_count f \<in> ring_slots f k \<longleftrightarrow> j < k"
      using ring_slots_mem [OF A(1) j(2)] B k by simp
    have "j < k \<or> fl_size f \<le> j"
      using i k B by (auto simp: j_def f' g_def)
    then have "j < k \<or> frame_type f ! ((head f + j) mod max_count f) = Missing"
      using fl_windowD(4) [OF A(2)] j(2) by blast
    then show "frame_type f' ! ((head f' + i) mod max_count f') = Missing"
      unfolding j(1) using jj B by (auto simp: f' g_def)
  qed
  moreover have "fl_arrays f'"
    using fl_arrays_clear_set [OF A(1)] by (simp add: f' g_def)
  moreover have "discarded_num f' = dropped_in (fl_abs f')"
    unfolding abs by (simp add: f' g_def k(2) dropped_in_drop A(3))
  ultimately show "fl_inv f'"
    by (simp add: fl_inv_def)
qed

section \<open>Getting a frame\<close>

lemma fl_abs_Cons:
  assumes "fl_inv f" "0 < fl_size f"
  shows "fl_abs f = slot_at f (head f) # drop 1 (fl_abs f)"
  using assms rwin_Cons [of "fl_size f" "head f" "max_count f" "slot_at f"] fl_windowD(1) [of f]
  by (simp add: fl_abs_def fl_inv_def)

lemma head_discarded_iff:
  assumes "fl_inv f"
  shows "frame_type f ! head f = Discarded \<longleftrightarrow> (\<exists>l. fl_abs f = Dropped # l)"
proof (cases "0 < fl_size f")
  case True
  have "slot_at f (head f) = Dropped \<longleftrightarrow> frame_type f ! head f = Discarded"
    using assms fl_windowD(1) [of f] by (intro slot_at_cases) (auto simp: fl_inv_def)
  then show ?thesis
    using fl_abs_Cons [OF assms True] by auto
next
  case False
  then have "frame_type f ! head f = Missing"
    using assms fl_windowD(4) [of f 0] fl_windowD(1) [of f] fl_arraysD(1) [of f]
    by (simp add: fl_inv_def)
  moreover have "fl_abs f = []"
    using False by (simp flip: length_0_conv)
  ultimately show ?thesis by simp
qed

lemma takeWhile_length_add_dropWhile: "length (takeWhile P l) + length (dropWhile P l) = length l"
  by (metis length_append takeWhile_dropWhile_id)

lemma skip_discarded_refines:
  assumes "fl_inv f"
  shows "\<exists>f'. jb_skip_discarded (f, b) = Some (f', b \<or> (\<exists>l. fl_abs f = Dropped # l)) \<and>
    fl_inv f' \<and> fl_abs f' = dropWhile ((=) Dropped) (fl_abs f) \<and>
    origin f' = origin f + int (length (takeWhile ((=) Dropped) (fl_abs f))) \<and>
    max_count f' = max_count f \<and> frame_size f' = frame_size f"
  using assms
proof (induction "fl_size f" arbitrary: f b rule: less_induct)
  case less
  show ?case
  proof (cases "\<exists>l. fl_abs f = Dropped # l")
    case False
    then have "jb_skip_discarded (f, b) = Some (f, b)"
      using head_discarded_iff [OF less.prems]
      unfolding jb_skip_discarded_def by (subst while_option_unfold) simp
    moreover have "takeWhile ((=) Dropped) (fl_abs f) = []"
        "dropWhile ((=) Dropped) (fl_abs f) = fl_abs f"
      using False by (cases "fl_abs f"; auto)+
    ultimately show ?thesis
      using False less.prems by auto
  next
    case True
    then obtain l where l: "fl_abs f = Dropped # l" by blast
    obtain g n where r: "jb_framelist_remove_head f 1 = (g, n)" by fastforce
    note R = remove_head_refines [OF less.prems r]
    have pos: "0 < fl_size f" using l by (simp flip: length_fl_abs)
    have "jb_skip_discarded (f, b) = jb_skip_discarded (g, True)"
      using head_discarded_iff [OF less.prems] l r
      unfolding jb_skip_discarded_def by (subst while_option_unfold) simp
    moreover have "fl_size g < fl_size f" using R(1,5) pos by simp
    note IH = less.hyps [OF this R(2), of True]
    have "fl_abs g = l" using R(1,3) pos l by simp
    ultimately show ?thesis
      using IH R(1,4,6,7) pos l by (auto simp: algebra_simps)
  qed
qed

lemma take_head_remove:
  assumes inv: "fl_inv f" and pos: "0 < fl_size f" and nd: "frame_type f ! head f \<noteq> Discarded"
  shows "jb_take_head f = (fst (jb_framelist_remove_head f 1))
    \<lparr>bit_info := (bit_info f)[head f := 0], ts := (ts f)[head f := 0]\<rparr>"
proof -
  note A = fl_invD [OF inv]
  have h: "head f < max_count f" using fl_windowD(1) [OF A(2)] .
  have fill: "fill_range xs (head f) (Suc 0) v = xs[head f := v]" if "length xs = max_count f" for xs :: "'x list" and v
    using h that by (simp add: fill_range_def write_at_def upd_conv_take_nth_drop)
  have cnt: "count_discarded (frame_type f) (head f) 1 (discarded_num f) = discarded_num f"
    using nd by (simp add: count_discarded_def)
  have "(if head f + 1 > max_count f then (max_count f - head f, 1 - (max_count f - head f)) else (1, 0))
      = (1 :: nat, 0)"
    using h by simp
  then show ?thesis
    using pos h cnt fl_arraysD(4,5) [OF A(1)]
    by (simp add: jb_framelist_remove_head_def jb_take_head_def clear_range_def fill Let_def)
qed

lemma take_head_refines:
  assumes inv: "fl_inv f" and pos: "0 < fl_size f" and nd: "frame_type f ! head f \<noteq> Discarded"
  shows "fl_inv (jb_take_head f)" "fl_abs (jb_take_head f) = drop 1 (fl_abs f)"
    "origin (jb_take_head f) = origin f + 1" "max_count (jb_take_head f) = max_count f"
    "frame_size (jb_take_head f) = frame_size f"
proof -
  obtain g n where r: "jb_framelist_remove_head f 1 = (g, n)" by fastforce
  note R = remove_head_refines [OF inv r]
  note A = fl_invD [OF inv]
  have eq: "jb_take_head f = g\<lparr>bit_info := (bit_info f)[head f := 0], ts := (ts f)[head f := 0]\<rparr>"
    using take_head_remove [OF inv pos nd] r by simp
  have g: "g = (clear_set f (ring_slots f 1) (discarded_num f - dropped_in (take 1 (fl_abs f))))
       \<lparr>origin := origin f + 1, head := (head f + 1) mod max_count f, fl_size := fl_size f - 1\<rparr>"
    using trans [OF r [symmetric] remove_head_clear [OF inv, of 1 1]] pos by (simp del: One_nat_def)
  have sl: "slot_at (jb_take_head f) p = slot_at g p" for p
    using fl_windowD(1) [OF A(2)] fl_arraysD(4,5) [OF A(1)]
    by (cases "p = head f") (simp_all add: slot_at_def eq g clear_set_def split: jb_ftype.split)
  show abs: "fl_abs (jb_take_head f) = drop 1 (fl_abs f)"
  proof -
    have "slot_at (jb_take_head f) = slot_at g" by (rule ext) (rule sl)
    then have "fl_abs (jb_take_head f) = fl_abs g"
      unfolding fl_abs_def by (simp only:) (simp add: eq)
    then show ?thesis using R(1,3) pos by simp
  qed
  show "origin (jb_take_head f) = origin f + 1" "max_count (jb_take_head f) = max_count f"
    "frame_size (jb_take_head f) = frame_size f"
    using R pos by (simp_all add: eq)
  have "fl_arrays (jb_take_head f)"
    using fl_invD(1) [OF R(2)] A(1) by (auto simp: fl_arrays_def eq g clear_set_def)
  moreover have "fl_window (jb_take_head f)"
    using fl_invD(2) [OF R(2)] by (simp add: fl_window_def eq)
  moreover have "discarded_num (jb_take_head f) = dropped_in (fl_abs (jb_take_head f))"
    using fl_invD(3) [OF R(2)] R(1,3) pos abs by (simp add: eq)
  ultimately show "fl_inv (jb_take_head f)"
    by (simp add: fl_inv_def)
qed

text \<open>
  What a \<open>get\<close> means on the slot list: the slots of dropped frames are skipped, the next one
  is removed, and it is reported as missing when a dropped frame was skipped on the way. \<open>cap\<close> is
  the size of the caller's buffer, when it passes one.
\<close>

definition slot_out :: "nat option \<Rightarrow> jb_slot \<Rightarrow> jb_ftype \<times> u8 list \<times> u32" where
  "slot_out cap s = (case s of
       Frame bs b t \<Rightarrow> (Normal, (case cap of None \<Rightarrow> bs | Some m \<Rightarrow> take m bs), b)
     | _ \<Rightarrow> (Missing, [], 0))"

definition spec_get :: "nat option \<Rightarrow> jb_slot list \<Rightarrow> jb_slot list \<times> (jb_ftype \<times> u8 list \<times> u32 \<times> nat) option" where
  "spec_get cap l =
     (let d = length (takeWhile ((=) Dropped) l)
      in case dropWhile ((=) Dropped) l of
           [] \<Rightarrow> ([], None)
         | s # rest \<Rightarrow>
             (let (ty, bs, b) = (if d = 0 then slot_out cap s else (Missing, [], 0))
              in (rest, Some (ty, bs, b, d))))"

definition got_matches :: "int \<Rightarrow> jb_got option \<Rightarrow> (jb_ftype \<times> u8 list \<times> u32 \<times> nat) option \<Rightarrow> bool" where
  "got_matches orig g s = (case (g, s) of
       (None, None) \<Rightarrow> True
     | (Some g, Some (ty, bs, b, d)) \<Rightarrow>
         got_type g = ty \<and> got_bytes g = bs \<and> (ty = Normal \<longrightarrow> got_bit_info g = b) \<and>
         got_seq g = orig + int d
     | _ \<Rightarrow> False)"

lemma framelist_get_refines:
  assumes inv: "fl_inv f"
  shows "\<exists>f' g. jb_framelist_get f cap = Some (f', g) \<and> fl_inv f' \<and>
    fl_abs f' = fst (spec_get cap (fl_abs f)) \<and>
    got_matches (origin f) g (snd (spec_get cap (fl_abs f))) \<and>
    origin f' = origin f + int (fl_size f - fl_size f') \<and> fl_size f' \<le> fl_size f \<and>
    max_count f' = max_count f \<and> frame_size f' = frame_size f"
proof (cases "fl_size f = 0")
  case True
  then have "fl_abs f = []" by (simp flip: length_0_conv)
  then show ?thesis
    using True inv by (simp add: jb_framelist_get_def spec_get_def got_matches_def)
next
  case False
  obtain h where h: "jb_skip_discarded (f, False) = Some (h, \<exists>l. fl_abs f = Dropped # l)"
      "fl_inv h" "fl_abs h = dropWhile ((=) Dropped) (fl_abs f)"
      "origin h = origin f + int (length (takeWhile ((=) Dropped) (fl_abs f)))"
      "max_count h = max_count f" "frame_size h = frame_size f"
    using skip_discarded_refines [OF inv, of False] by auto
  have d0: "(\<exists>l. fl_abs f = Dropped # l) \<longleftrightarrow> takeWhile ((=) Dropped) (fl_abs f) \<noteq> []"
    by (cases "fl_abs f") auto
  have sz: "fl_size f = length (takeWhile ((=) Dropped) (fl_abs f)) + fl_size h"
    using takeWhile_length_add_dropWhile [of "(=) Dropped" "fl_abs f"] h(3)
    by (metis length_fl_abs)
  show ?thesis
  proof (cases "fl_size h = 0")
    case True
    then have "fl_abs h = []" by (simp flip: length_0_conv)
    then have "spec_get cap (fl_abs f) = ([], None)"
      unfolding spec_get_def h(3) [symmetric] by simp
    then show ?thesis
      using False True h sz \<open>fl_abs h = []\<close> by (auto simp: jb_framelist_get_def got_matches_def)
  next
    case pos: False
    then have pos: "0 < fl_size h" by simp
    note C = fl_abs_Cons [OF h(2) pos]
    then have ndr: "slot_at h (head h) \<noteq> Dropped"
      using h(3) by (metis (full_types) dropWhile_eq_Cons_conv)
    then have nd: "frame_type h ! head h \<noteq> Discarded"
      using head_discarded_iff [OF h(2)] C by (metis list.inject)
    note T = take_head_refines [OF h(2) pos nd]
    define d where "d = length (takeWhile ((=) Dropped) (fl_abs f))"
    have prev: "(\<exists>l. fl_abs f = Dropped # l) \<longleftrightarrow> d \<noteq> 0"
      using d0 by (simp add: d_def)
    have sp: "spec_get cap (fl_abs f) = (drop 1 (fl_abs h),
        Some (case (if d = 0 then slot_out cap (slot_at h (head h)) else (Missing, [], 0)) of
          (ty, bs, b) \<Rightarrow> (ty, bs, b, d)))"
      unfolding spec_get_def d_def [symmetric] h(3) [symmetric] by (subst C) (simp split: prod.split)
    have B: "head h < max_count h" using fl_windowD(1) fl_invD(2) [OF h(2)] by blast
    have out: "case slot_out cap (slot_at h (head h)) of (ty, bs, b) \<Rightarrow>
       frame_type h ! head h = ty \<and> (ty = Normal \<longrightarrow> bit_info h ! head h = b) \<and>
       take (min (case cap of None \<Rightarrow> content_len h ! head h | Some m \<Rightarrow> m) (content_len h ! head h))
         (content h ! head h) = bs"
      using nd fl_windowD(3) [OF fl_invD(2) [OF h(2)], of "head h"] B
        fl_arraysD(4) [OF fl_invD(1) [OF h(2)]] fl_windowD(5) [OF fl_invD(2) [OF h(2)] B]
      by (auto simp: slot_out_def slot_at_def min.commute split: option.split)
    have one: "int (length (fl_abs h) - Suc 0) = int (length (fl_abs h)) - 1"
      using pos by simp
    show ?thesis
      using one False pos h(1,5,6) T sp out sz d_def h(4) unfolding prev
      by (auto simp: jb_framelist_get_def Let_def got_matches_def split: prod.splits simp flip: length_fl_abs)
  qed
qed

section \<open>Peeking\<close>

lemma peek_pos_from:
  assumes inv: "fl_inv f" and i: "i \<le> fl_size f"
    and idx: "idx < length (filter ((\<noteq>) Dropped) (drop i (fl_abs f)))"
  shows "\<exists>j < fl_size f. i \<le> j \<and>
    while_option (\<lambda>(pos, idx). frame_type f ! pos = Discarded \<or> idx \<noteq> 0)
       (\<lambda>(pos, idx). ((pos + 1) mod max_count f,
                      if frame_type f ! pos \<noteq> Discarded then idx - 1 else idx))
       ((head f + i) mod max_count f, idx) = Some ((head f + j) mod max_count f, 0) \<and>
    fl_abs f ! j \<noteq> Dropped \<and> j = i + idx + dropped_in (take (j - i) (drop i (fl_abs f)))"
  using i idx
proof (induction "fl_size f - i" arbitrary: i idx)
  case 0
  then show ?case by simp
next
  case (Suc m)
  then have lt: "i < fl_size f" by simp
  note A = fl_invD [OF inv]
  have dr: "drop i (fl_abs f) = fl_abs f ! i # drop (Suc i) (fl_abs f)"
    using lt by (simp add: Cons_nth_drop_Suc)
  define p where "p = (head f + i) mod max_count f"
  have nth: "fl_abs f ! i = slot_at f p"
    using lt by (simp add: fl_abs_def p_def)
  have ty: "frame_type f ! p = Discarded \<longleftrightarrow> fl_abs f ! i = Dropped"
    unfolding nth using slot_at_cases(1) [OF A(1,2), of p] fl_arraysD(1) [OF A(1)]
    by (simp add: p_def)
  have step: "(p + 1) mod max_count f = (head f + Suc i) mod max_count f"
    by (simp add: p_def mod_simps)
  have drs: "take (j - i) (drop i (fl_abs f)) = fl_abs f ! i # take (j - Suc i) (drop (Suc i) (fl_abs f))"
    if "Suc i \<le> j" for j
    using that dr by (metis Suc_diff_Suc Suc_le_lessD take_Suc_Cons)
  show ?case
  proof (cases "fl_abs f ! i \<noteq> Dropped \<and> idx = 0")
    case True
    then show ?thesis
      using lt ty by (intro exI [of _ i]) (subst while_option_unfold, auto simp flip: p_def)
  next
    case False
    define idx' where "idx' = (if frame_type f ! p \<noteq> Discarded then idx - 1 else idx)"
    have "idx' < length (filter ((\<noteq>) Dropped) (drop (Suc i) (fl_abs f)))"
      using Suc.prems(2) False ty unfolding dr by (auto simp: idx'_def)
    moreover have "m = fl_size f - Suc i" "Suc i \<le> fl_size f" using Suc.hyps(2) lt by auto
    ultimately obtain j where j: "j < fl_size f" "Suc i \<le> j"
      "while_option (\<lambda>(pos, idx). frame_type f ! pos = Discarded \<or> idx \<noteq> 0)
       (\<lambda>(pos, idx). ((pos + 1) mod max_count f,
                      if frame_type f ! pos \<noteq> Discarded then idx - 1 else idx))
       ((head f + Suc i) mod max_count f, idx') = Some ((head f + j) mod max_count f, 0)"
      "fl_abs f ! j \<noteq> Dropped"
      "j = Suc i + idx' + dropped_in (take (j - Suc i) (drop (Suc i) (fl_abs f)))"
      using Suc.hyps(1) by blast
    have "j = i + idx + dropped_in (take (j - i) (drop i (fl_abs f)))"
      using j(5) False ty unfolding drs [OF j(2)] by (auto simp: idx'_def)
    moreover have "while_option (\<lambda>(pos, idx). frame_type f ! pos = Discarded \<or> idx \<noteq> 0)
       (\<lambda>(pos, idx). ((pos + 1) mod max_count f,
                      if frame_type f ! pos \<noteq> Discarded then idx - 1 else idx))
       (p, idx) = Some ((head f + j) mod max_count f, 0)"
    proof -
      have "frame_type f ! p = Discarded \<or> idx \<noteq> 0"
        using False ty by auto
      then show ?thesis
        unfolding j(3) [symmetric] idx'_def step [symmetric] by (subst while_option_unfold) simp
    qed
    ultimately show ?thesis
      using j(1,2,4) unfolding p_def by (intro exI [of _ j]) auto
  qed
qed

lemma nth_filter_position:
  assumes "j < length l" "l ! j \<noteq> Dropped" "j = k + dropped_in (take j l)"
  shows "filter ((\<noteq>) Dropped) l ! k = l ! j"
proof -
  have "length (filter ((\<noteq>) Dropped) (take j l)) = k"
    using sum_length_filter_compl [of "(=) Dropped" "take j l"] assms by simp
  moreover have "l = take j l @ l ! j # drop (Suc j) l"
    using assms(1) by (rule id_take_nth_drop)
  then have "filter ((\<noteq>) Dropped) l =
      filter ((\<noteq>) Dropped) (take j l @ l ! j # drop (Suc j) l)" by (rule arg_cong)
  then have "filter ((\<noteq>) Dropped) l =
      filter ((\<noteq>) Dropped) (take j l) @ l ! j # filter ((\<noteq>) Dropped) (drop (Suc j) l)"
    using assms(2) by simp
  ultimately show ?thesis
    by (metis nth_append_length)
qed

lemma framelist_peek_refines:
  assumes inv: "fl_inv f"
  shows "\<exists>g. jb_framelist_peek f offset = Some g \<and>
    (g = None \<longleftrightarrow> length (filter ((\<noteq>) Dropped) (fl_abs f)) \<le> offset) \<and>
    (\<forall>r. g = Some r \<longrightarrow>
       (\<exists>j < fl_size f. j = offset + dropped_in (take j (fl_abs f)) \<and> fl_abs f ! j \<noteq> Dropped \<and>
          slot_out None (fl_abs f ! j) = (got_type r, got_bytes r,
            if got_type r = Normal then got_bit_info r else 0) \<and>
          got_seq r = origin f + int offset))"
proof (cases "offset < length (filter ((\<noteq>) Dropped) (fl_abs f))")
  case False
  then show ?thesis
    using eff_size_exact [OF inv] by (simp add: jb_framelist_peek_def)
next
  case True
  note A = fl_invD [OF inv]
  obtain j where j: "j < fl_size f" "jb_peek_pos f offset = Some ((head f + j) mod max_count f, 0)"
    "fl_abs f ! j \<noteq> Dropped" "j = offset + dropped_in (take j (fl_abs f))"
    using peek_pos_from [OF inv, of 0 offset] True fl_windowD(1) [OF A(2)]
    by (auto simp: jb_peek_pos_def)
  define p where "p = (head f + j) mod max_count f"
  have p: "p < max_count f" "fl_abs f ! j = slot_at f p"
    using j(1) fl_arraysD(1) [OF A(1)] by (simp_all add: p_def fl_abs_def)
  have "slot_out None (fl_abs f ! j) = (frame_type f ! p, take (content_len f ! p) (content f ! p),
      if frame_type f ! p = Normal then bit_info f ! p else 0)"
    using j(3) p fl_windowD(3) [OF A(2), of p] fl_arraysD(4) [OF A(1)] fl_windowD(5) [OF A(2) p(1)]
    by (auto simp: slot_out_def slot_at_def)
  then show ?thesis
    using True j eff_size_exact [OF inv] by (auto simp: jb_framelist_peek_def p_def)
qed

section \<open>Putting a frame\<close>

text \<open>
  \<open>spec_store\<close> puts a slot at a distance from the front of the list, filling the space in between
  with gaps; \<open>spec_put\<close> is the whole decision of \<open>jb_framelist_put_at\<close> for a frame of an
  admissible length, over the origin and the slot list.
\<close>

definition spec_store :: "jb_slot list \<Rightarrow> nat \<Rightarrow> jb_slot \<Rightarrow> jb_slot list \<times> pj_status" where
  "spec_store l d s =
     (if d < length l then (if l ! d = Gap then (l[d := s], PJ_SUCCESS) else (l, PJ_EEXISTS))
      else (l @ replicate (d - length l) Gap @ [s], PJ_SUCCESS))"

definition spec_put ::
  "nat \<Rightarrow> int \<Rightarrow> jb_slot list \<Rightarrow> int \<Rightarrow> jb_slot \<Rightarrow> int \<times> jb_slot list \<times> pj_status" where
  "spec_put cap orig l index s =
     (if index < orig \<and> orig - index < 100 then (orig, l, PJ_ETOOSMALL)
      else
        (let (o1, l1) = (if index < orig then
               (if to_u32 (orig + int (length l)) \<ge> MAX_FRAME_INDEX then (index - int (length l), l)
                else (index, [])) else (orig, l));
             o2 = (if l1 = [] then index else o1);
             d = index - o2
         in if d \<ge> int cap then
              (if d > 3000 then (index, [s], PJ_SUCCESS) else (o2, l1, PJ_ETOOMANY))
            else (o2, spec_store l1 (nat d) s)))"

lemma dropped_in_update:
  "i < length l \<Longrightarrow> l ! i \<noteq> Dropped \<Longrightarrow> s \<noteq> Dropped \<Longrightarrow> dropped_in (l[i := s]) = dropped_in l"
  by (subst (2) id_take_nth_drop [of i l]) (simp_all add: upd_conv_take_nth_drop)

lemma dropped_in_update_Dropped:
  "i < length l \<Longrightarrow> l ! i \<noteq> Dropped \<Longrightarrow> dropped_in (l[i := Dropped]) = dropped_in l + 1"
  by (subst (2) id_take_nth_drop [of i l]) (simp_all add: upd_conv_take_nth_drop)

lemma dropped_in_store:
  assumes "spec_store l d s = (l', st)" "s \<noteq> Dropped"
  shows "dropped_in l' = dropped_in l"
  using assms dropped_in_update [of d l s]
  by (auto simp: spec_store_def filter_replicate split: if_splits)

lemma rwin_store:
  assumes "n \<le> cap" "d < cap" "\<And>i. n \<le> i \<Longrightarrow> i < cap \<Longrightarrow> g ((h + i) mod cap) = z"
  shows "rwin (g((h + d) mod cap := v)) cap h (max n (d + 1)) =
    (if d < n then (rwin g cap h n)[d := v] else rwin g cap h n @ replicate (d - n) z @ [v])"
proof (cases "d < n")
  case True
  moreover from this have "max n (d + 1) = n" by simp
  ultimately show ?thesis using assms(1) by (simp add: rwin_update)
next
  case False
  then have "rwin (g((h + d) mod cap := v)) cap h (Suc d) = rwin g cap h d @ [v]"
    using assms(2) by (simp add: rwin_Suc rwin_update_outside)
  moreover have "rwin g cap h d = rwin g cap h n @ replicate (d - n) z"
    using False assms by (intro nth_equalityI) (auto simp: nth_append)
  moreover have "max n (d + 1) = Suc d" using False by simp
  ultimately show ?thesis using False by (simp del: fun_upd_apply)
qed

lemma store_refines:
  assumes inv: "fl_inv f" and d: "d < max_count f" "index = origin f + int d"
    and len: "length frame \<le> frame_size f" and r: "jb_store f index d frame b t = (f', st)"
  shows "fl_inv f'" "spec_store (fl_abs f) d (Frame frame b t) = (fl_abs f', st)"
    "origin f' = origin f" "max_count f' = max_count f" "frame_size f' = frame_size f"
proof -
  note A = fl_invD [OF inv]
  note B = fl_windowD(1,2) [OF A(2)] fl_arraysD(1-7) [OF A(1)]
  define pos where "pos = (head f + d) mod max_count f"
  have pos: "pos < max_count f" using B by (simp add: pos_def)
  have free: "frame_type f ! pos = Missing \<longleftrightarrow> slot_at f pos = Gap"
    using slot_at_cases(2) [OF A(1,2) pos] by simp
  have gaps: "slot_at f ((head f + i) mod max_count f) = Gap"
    if "fl_size f \<le> i" "i < max_count f" for i
    using fl_windowD(4) [OF A(2) that] by (simp add: slot_at_def)
  have nth: "d < fl_size f \<Longrightarrow> fl_abs f ! d = slot_at f pos"
    by (simp add: fl_abs_def pos_def)
  have ifsz: "(if origin f + int (fl_size f) \<le> index then d + 1 else fl_size f) = max (fl_size f) (d + 1)"
    using d(2) by auto
  define g where "g = f\<lparr>frame_type := (frame_type f)[pos := Normal],
             content_len := (content_len f)[pos := length frame],
             bit_info := (bit_info f)[pos := b], ts := (ts f)[pos := t],
             fl_size := max (fl_size f) (d + 1),
             content := (content f)[pos := write_at (content f ! pos) 0 frame]\<rparr>"
  have res: "(f', st) = (if frame_type f ! pos \<noteq> Missing then (f, PJ_EEXISTS) else (g, PJ_SUCCESS))"
    using r [symmetric] unfolding jb_store_def pos_def [symmetric] Let_def ifsz g_def .
  show "origin f' = origin f" "max_count f' = max_count f" "frame_size f' = frame_size f"
    using res by (auto simp: g_def split: if_splits)
  show sp: "spec_store (fl_abs f) d (Frame frame b t) = (fl_abs f', st)"
  proof (cases "frame_type f ! pos = Missing")
    case False
    then have "d < fl_size f" using gaps [of d] d(1) free by (metis not_le pos_def)
    then show ?thesis using False res free nth by (simp add: spec_store_def)
  next
    case True
    have sl: "slot_at g = (slot_at f)(pos := Frame frame b t)"
    proof
      fix p show "slot_at g p = ((slot_at f)(pos := Frame frame b t)) p"
        using B pos by (cases "p = pos") (simp_all add: slot_at_def g_def write_at_def split: jb_ftype.split)
    qed
    have "fl_abs g = rwin ((slot_at f)(pos := Frame frame b t)) (max_count f) (head f) (max (fl_size f) (d + 1))"
      unfolding fl_abs_def sl by (simp add: g_def)
    also have "\<dots> = (if d < fl_size f then (fl_abs f)[d := Frame frame b t]
        else fl_abs f @ replicate (d - fl_size f) Gap @ [Frame frame b t])"
      unfolding fl_abs_def pos_def using B(2) d(1) gaps by (rule rwin_store)
    finally show ?thesis
      using True res free nth by (auto simp: spec_store_def)
  qed
  have "fl_window g"
    unfolding fl_window_def
  proof (intro conjI allI impI)
    show "head g < max_count g" "fl_size g \<le> max_count g"
      using B d by (simp_all add: g_def)
    show "set (frame_type g) \<subseteq> {Missing, Normal, Discarded}"
      using A(2) set_update_subset_insert [of "frame_type f" pos Normal] by (auto simp: g_def fl_window_def)
    show "content_len g ! p = 0" if "p < max_count g" "frame_type g ! p = Missing" for p
      using that B pos fl_windowD(5) [OF A(2), of p] by (cases "p = pos") (simp_all add: g_def)
    fix i assume i: "fl_size g \<le> i \<and> i < max_count g"
    then have "(head f + i) mod max_count f \<noteq> pos"
      using ring_index_inj [of "head f" i "max_count f" d] d by (auto simp: g_def pos_def)
    then show "frame_type g ! ((head g + i) mod max_count g) = Missing"
      using i fl_windowD(4) [OF A(2), of i] by (simp add: g_def)
  qed
  moreover have "fl_arrays g"
    using A(1) pos len fl_arraysD(8) [OF A(1) pos]
      set_update_subset_insert [of "content_len f" pos "length frame"]
      set_update_subset_insert [of "content f" pos "write_at (content f ! pos) 0 frame"]
    by (auto simp: fl_arrays_def g_def)
  moreover have "discarded_num g = dropped_in (fl_abs f)"
    using A(3) by (simp add: g_def)
  ultimately show "fl_inv f'"
    using res inv dropped_in_store [OF sp] by (auto simp: fl_inv_def split: if_splits)
qed

lemma put_at_spec:
  assumes inv: "fl_inv f" and len: "length frame \<le> frame_size f"
    and r: "jb_framelist_put_at f index frame b t = (f', st)"
  shows "fl_inv f'"
    "spec_put (max_count f) (origin f) (fl_abs f) index (Frame frame b t) = (origin f', fl_abs f', st)"
    "max_count f' = max_count f" "frame_size f' = frame_size f"
proof -
  let ?ok = "fl_inv f' \<and> spec_put (max_count f) (origin f) (fl_abs f) index (Frame frame b t) =
      (origin f', fl_abs f', st) \<and> max_count f' = max_count f \<and> frame_size f' = frame_size f"
  note A = fl_invD [OF inv]
  have shift [simp]: "fl_inv (g\<lparr>origin := a\<rparr>) = fl_inv g" "fl_abs (g\<lparr>origin := a\<rparr>) = fl_abs g" for g a
    by (simp_all add: fl_inv_def fl_abs_def fl_window_def)
  have reset: "fl_inv (jb_reset_to g a)" "fl_abs (jb_reset_to g a) = []"
    "origin (jb_reset_to g a) = a" "max_count (jb_reset_to g a) = max_count g"
    "frame_size (jb_reset_to g a) = frame_size g" if "fl_inv g" for g a
    using jb_framelist_reset_inv [OF fl_invD(1) [OF that]]
    by (simp_all add: jb_reset_to_def jb_framelist_reset_def)
  have nil: "fl_size g = 0 \<longleftrightarrow> fl_abs g = []" for g
    by (simp flip: length_0_conv)
  define f1 where "f1 = (if index < origin f then
      (if to_u32 (origin f + int (fl_size f)) \<ge> MAX_FRAME_INDEX then f\<lparr>origin := index - int (fl_size f)\<rparr>
       else jb_reset_to f index) else f)"
  define f2 where "f2 = (if fl_size f1 = 0 then f1\<lparr>origin := index\<rparr> else f1)"
  have f1: "fl_inv f1" "max_count f1 = max_count f" "frame_size f1 = frame_size f"
    using inv reset [OF inv, of index] by (auto simp: f1_def)
  then have f2: "fl_inv f2" "max_count f2 = max_count f" "frame_size f2 = frame_size f"
    by (auto simp: f2_def)
  have dist: "(if index - origin f < 0 then (if to_u32 (origin f + int (fl_size f)) \<ge> MAX_FRAME_INDEX
        then (f\<lparr>origin := index - int (fl_size f)\<rparr>, int (fl_size f)) else (jb_reset_to f index, 0))
      else (f, index - origin f)) = (f1, index - origin f1)"
    using reset(3) [OF inv] by (simp add: f1_def)
  have dist2: "(if fl_size f1 = 0 then (f1\<lparr>origin := index\<rparr>, 0) else (f1, index - origin f1)) =
      (f2, index - origin f2)"
    by (simp add: f2_def)
  have abs2: "fl_abs f2 = fl_abs f1" by (simp add: f2_def)
  have put: "jb_framelist_put_at f index frame b t =
      (if index < origin f \<and> origin f - index < 100 then (f, PJ_ETOOSMALL)
       else if index - origin f2 \<ge> int (max_count f2) then
         (if index - origin f2 > 3000 then jb_store (jb_reset_to f2 index) index 0 frame b t
          else (f2, PJ_ETOOMANY))
       else jb_store f2 index (nat (index - origin f2)) frame b t)"
    using len unfolding jb_framelist_put_at_def Let_def dist prod.case dist2 by simp
  have sp1: "(if index < origin f then (if to_u32 (origin f + int (fl_size f)) \<ge> MAX_FRAME_INDEX
      then (index - int (fl_size f), fl_abs f) else (index, [])) else (origin f, fl_abs f)) =
      (origin f1, fl_abs f1)"
    using reset(2,3) [OF inv] by (simp add: f1_def)
  have sp2: "(if fl_abs f1 = [] then index else origin f1) = origin f2"
    by (simp add: f2_def nil)
  have sp: "spec_put (max_count f) (origin f) (fl_abs f) index (Frame frame b t) =
      (if index < origin f \<and> origin f - index < 100 then (origin f, fl_abs f, PJ_ETOOSMALL)
       else if index - origin f2 \<ge> int (max_count f2) then
         (if index - origin f2 > 3000 then (index, [Frame frame b t], PJ_SUCCESS)
          else (origin f2, fl_abs f2, PJ_ETOOMANY))
       else (origin f2, spec_store (fl_abs f2) (nat (index - origin f2)) (Frame frame b t)))"
    unfolding spec_put_def Let_def length_fl_abs sp1 prod.case sp2 abs2 f2(2) ..
  have le2: "origin f2 \<le> index" if "\<not> (index < origin f \<and> origin f - index < 100)"
    using that reset(3) [OF inv] by (auto simp: f2_def f1_def)
  consider "index < origin f \<and> origin f - index < 100"
    | "\<not> (index < origin f \<and> origin f - index < 100)" "index - origin f2 \<ge> int (max_count f2)"
      "index - origin f2 > 3000"
    | "\<not> (index < origin f \<and> origin f - index < 100)" "index - origin f2 \<ge> int (max_count f2)"
      "\<not> index - origin f2 > 3000"
    | "\<not> (index < origin f \<and> origin f - index < 100)" "\<not> index - origin f2 \<ge> int (max_count f2)"
    by blast
  then have "?ok"
  proof cases
    case 1
    then show ?ok
      using put r inv by (auto simp: sp)
  next
    case 2
    note R = reset [OF f2(1), of index]
    have "jb_store (jb_reset_to f2 index) index 0 frame b t = (f', st)" using put r 2 by auto
    from store_refines [OF R(1) _ _ _ this] fl_arraysD(1) [OF fl_invD(1) [OF f2(1)]]
    show ?ok
      using 2 R len f2 by (auto simp: sp spec_store_def)
  next
    case 3
    then show ?ok
      using put r f2 by (auto simp: sp)
  next
    case 4
    then have "jb_store f2 index (nat (index - origin f2)) frame b t = (f', st)" using put r by auto
    from store_refines [OF f2(1) _ _ _ this] le2 [OF 4(1)]
    show ?ok
      using 4 len f2 by (simp add: sp)
  qed
  then show "fl_inv f'"
    "spec_put (max_count f) (origin f) (fl_abs f) index (Frame frame b t) = (origin f', fl_abs f', st)"
    "max_count f' = max_count f" "frame_size f' = frame_size f"
    by blast+
qed

section \<open>Discarding a frame\<close>

lemma framelist_discard_refines:
  assumes inv: "fl_inv f" and i: "origin f \<le> index" "index < origin f + int (fl_size f)"
    and nd: "fl_abs f ! nat (index - origin f) \<noteq> Dropped"
    and r: "jb_framelist_discard f index = (f', st)"
  shows "fl_inv f'" "fl_abs f' = (fl_abs f)[nat (index - origin f) := Dropped]" "st = PJ_SUCCESS"
    "origin f' = origin f" "max_count f' = max_count f" "frame_size f' = frame_size f"
proof -
  note A = fl_invD [OF inv]
  note B = fl_windowD(1,2) [OF A(2)] fl_arraysD(1-7) [OF A(1)]
  define k where "k = nat (index - origin f)"
  define pos where "pos = (head f + k) mod max_count f"
  have k: "k < fl_size f" using i by (simp add: k_def nat_less_iff)
  have pos: "pos < max_count f" using B by (simp add: pos_def)
  have f': "f' = f\<lparr>frame_type := (frame_type f)[pos := Discarded], discarded_num := discarded_num f + 1\<rparr>"
    "st = PJ_SUCCESS"
    using r i by (simp_all add: jb_framelist_discard_def Let_def pos_def k_def)
  show "st = PJ_SUCCESS" "origin f' = origin f" "max_count f' = max_count f" "frame_size f' = frame_size f"
    using f' by simp_all
  have sl: "slot_at f' = (slot_at f)(pos := Dropped)"
    using B pos by (auto simp: slot_at_def f' fun_eq_iff split: jb_ftype.split)
  have "fl_abs f' = rwin ((slot_at f)(pos := Dropped)) (max_count f) (head f) (fl_size f)"
    unfolding fl_abs_def sl by (simp add: f')
  then show abs: "fl_abs f' = (fl_abs f)[nat (index - origin f) := Dropped]"
    using rwin_update [OF k B(2), of "slot_at f" "head f" Dropped] by (simp add: pos_def k_def fl_abs_def)
  have "fl_window f'"
    unfolding fl_window_def
  proof (intro conjI allI impI)
    show "head f' < max_count f'" "fl_size f' \<le> max_count f'"
      using B by (simp_all add: f')
    show "set (frame_type f') \<subseteq> {Missing, Normal, Discarded}"
      using A(2) set_update_subset_insert [of "frame_type f" pos Discarded] by (auto simp: f' fl_window_def)
    show "content_len f' ! p = 0" if "p < max_count f'" "frame_type f' ! p = Missing" for p
      using that B pos fl_windowD(5) [OF A(2), of p] by (cases "p = pos") (simp_all add: f')
    fix j assume j: "fl_size f' \<le> j \<and> j < max_count f'"
    then have "(head f + j) mod max_count f \<noteq> pos"
      using ring_index_inj [of "head f" j "max_count f" k] k B by (auto simp: f' pos_def)
    then show "frame_type f' ! ((head f' + j) mod max_count f') = Missing"
      using j fl_windowD(4) [OF A(2), of j] by (simp add: f')
  qed
  moreover have "fl_arrays f'" using A(1) by (simp add: fl_arrays_def f')
  moreover have "discarded_num f' = dropped_in (fl_abs f')"
    using A(3) nd k dropped_in_update_Dropped [of k "fl_abs f"] unfolding abs by (simp add: f' k_def)
  ultimately show "fl_inv f'" by (simp add: fl_inv_def)
qed

section \<open>Properties\<close>

text \<open>C7. On a well-formed frame list, \<open>jb_framelist_put_at\<close> with a frame that fits
  keeps the list well-formed and does to the window exactly what \<open>spec_put\<close> says: too late, renumbering
  after a restart, emptying after a far jump, rejection when full, duplicate, or storing the frame
  at its distance with gaps in between.\<close>

theorem jb_framelist_put_refines:
  assumes "fl_inv f" and "length frame \<le> frame_size f"
  shows "case jb_framelist_put_at f index frame b t of (f', st) \<Rightarrow>
    fl_inv f' \<and>
    spec_put (max_count f) (origin f) (fl_abs f) index (Frame frame b t) = (origin f', fl_abs f', st)"
  using put_at_spec [OF assms] by (simp split: prod.split)

definition fl_demo :: jb_framelist where
  "fl_demo = fst (jb_framelist_put_at (jb_framelist_init 2 3
     ([[0, 0], [0, 0], [0, 0]], [0, 0, 0], [0, 0, 0])) 7 [1, 2] 0 0)"

lemma fl_demo_eq: "fl_demo = \<lparr>frame_size = 2, max_count = 3, content = [[1, 2], [0, 0], [0, 0]],
    frame_type = [Normal, Missing, Missing], content_len = [2, 0, 0], bit_info = [0, 0, 0],
    ts = [0, 0, 0], head = 0, fl_size = 1, discarded_num = 0, origin = 7\<rparr>"
  by code_simp

lemma fl_demo_inv: "fl_inv fl_demo"
proof -
  let ?f = "jb_framelist_init 2 3 ([[0, 0], [0, 0], [0, 0]], [0, 0, 0], [0, 0, 0])"
  have f: "fl_inv ?f" "frame_size ?f = 2"
    by (auto simp: jb_framelist_init_def jb_framelist_reset_def fl_inv_def fl_arrays_def fl_window_def fl_abs_def)
  obtain g st where "jb_framelist_put_at ?f 7 [1, 2] 0 0 = (g, st)" by fastforce
  from put_at_spec(1) [OF f(1) _ this] this f(2) show ?thesis
    by (simp add: fl_demo_def)
qed

lemma fl_demo_simps: "frame_size fl_demo = 2" "origin fl_demo = 7" "fl_size fl_demo = 1" "max_count fl_demo = 3"
  by (simp_all add: fl_demo_eq)

theorem jb_framelist_put_refines_witness:
  "case jb_framelist_put_at fl_demo 9 [5] 0 0 of (f', st) \<Rightarrow>
    fl_inv f' \<and>
    spec_put (max_count fl_demo) (origin fl_demo) (fl_abs fl_demo) 9 (Frame [5] 0 0) = (origin f', fl_abs f', st)"
  by (rule jb_framelist_put_refines) (simp_all add: fl_demo_inv fl_demo_simps)

text \<open>On a well-formed frame list \<open>jb_framelist_get\<close> always returns: its loop over
  discarded slots ends. It leaves the list that remains after the discarded slots and one more, and reports that slot with
  its bytes, its bit info and its sequence number, as missing when a discarded slot was skipped.\<close>

theorem jb_framelist_get_refines:
  assumes "fl_inv f"
  shows "\<exists>f' g. jb_framelist_get f cap = Some (f', g) \<and> fl_inv f' \<and>
    fl_abs f' = fst (spec_get cap (fl_abs f)) \<and>
    got_matches (origin f) g (snd (spec_get cap (fl_abs f))) \<and>
    origin f' = origin f + int (fl_size f - fl_size f')"
  using framelist_get_refines [OF assms, of cap] by blast

theorem jb_framelist_get_refines_witness:
  "\<exists>f' g. jb_framelist_get fl_demo None = Some (f', g) \<and> fl_inv f' \<and>
    fl_abs f' = fst (spec_get None (fl_abs fl_demo)) \<and>
    got_matches (origin fl_demo) g (snd (spec_get None (fl_abs fl_demo))) \<and>
    origin f' = origin fl_demo + int (fl_size fl_demo - fl_size f')"
  by (rule jb_framelist_get_refines) (rule fl_demo_inv)

text \<open>C8. \<open>jb_framelist_remove_head\<close> removes exactly the oldest \<open>count\<close> slots, or all
  when there are fewer, across the wrap of the array, advances the origin by as many, and keeps the list well-formed, the
  counter of discarded slots included.\<close>

theorem jb_framelist_remove_refines:
  assumes "fl_inv f"
  shows "case jb_framelist_remove_head f count of (f', n) \<Rightarrow>
    n = min count (fl_size f) \<and> fl_inv f' \<and> fl_abs f' = drop n (fl_abs f) \<and>
    origin f' = origin f + int n \<and> discarded_num f' = discarded_num f - dropped_in (take n (fl_abs f))"
proof (cases "jb_framelist_remove_head f count")
  case (Pair f' n)
  note R = remove_head_refines [OF assms Pair]
  show ?thesis
    using R fl_invD(3) [OF assms] fl_invD(3) [OF R(2)] by (simp add: Pair dropped_in_drop)
qed

theorem jb_framelist_remove_refines_witness:
  "case jb_framelist_remove_head fl_demo 2 of (f', n) \<Rightarrow>
    n = min 2 (fl_size fl_demo) \<and> fl_inv f' \<and> fl_abs f' = drop n (fl_abs fl_demo) \<and>
    origin f' = origin fl_demo + int n \<and>
    discarded_num f' = discarded_num fl_demo - dropped_in (take n (fl_abs fl_demo))"
  by (rule jb_framelist_remove_refines) (rule fl_demo_inv)

text \<open>\<open>jb_framelist_peek\<close> always returns, fails exactly when the offset is not below
  the number of undiscarded slots, and otherwise shows the slot that many undiscarded slots from the front.
  The sequence number it stores does not count the discarded slots before it: it is behind the slot's own by their number.\<close>

theorem jb_framelist_peek_nth:
  assumes "fl_inv f"
  shows "\<exists>g. jb_framelist_peek f offset = Some g \<and>
    (g = None \<longleftrightarrow> length (filter ((\<noteq>) Dropped) (fl_abs f)) \<le> offset) \<and>
    (\<forall>r. g = Some r \<longrightarrow>
       (\<exists>j < fl_size f. fl_abs f ! j = filter ((\<noteq>) Dropped) (fl_abs f) ! offset \<and>
          got_type r = fst (slot_out None (fl_abs f ! j)) \<and>
          got_bytes r = fst (snd (slot_out None (fl_abs f ! j))) \<and>
          got_seq r = origin f + int j - int (dropped_in (take j (fl_abs f)))))"
proof -
  obtain g where g: "jb_framelist_peek f offset = Some g"
    "g = None \<longleftrightarrow> length (filter ((\<noteq>) Dropped) (fl_abs f)) \<le> offset"
    "\<forall>r. g = Some r \<longrightarrow>
       (\<exists>j < fl_size f. j = offset + dropped_in (take j (fl_abs f)) \<and> fl_abs f ! j \<noteq> Dropped \<and>
          slot_out None (fl_abs f ! j) = (got_type r, got_bytes r,
            if got_type r = Normal then got_bit_info r else 0) \<and>
          got_seq r = origin f + int offset)"
    using framelist_peek_refines [OF assms] by blast
  have "\<exists>j < fl_size f. fl_abs f ! j = filter ((\<noteq>) Dropped) (fl_abs f) ! offset \<and>
          got_type r = fst (slot_out None (fl_abs f ! j)) \<and>
          got_bytes r = fst (snd (slot_out None (fl_abs f ! j))) \<and>
          got_seq r = origin f + int j - int (dropped_in (take j (fl_abs f)))" if r: "g = Some r" for r
  proof -
    obtain j where j: "j < fl_size f" "j = offset + dropped_in (take j (fl_abs f))" "fl_abs f ! j \<noteq> Dropped"
      "slot_out None (fl_abs f ! j) = (got_type r, got_bytes r, if got_type r = Normal then got_bit_info r else 0)"
      "got_seq r = origin f + int offset"
      using g(3) r by blast
    have "int offset = int j - int (dropped_in (take j (fl_abs f)))" using j(2) by linarith
    then show ?thesis
      using nth_filter_position [OF _ j(3,2)] j(1,4,5) by (intro exI [of _ j]) simp
  qed
  then show ?thesis using g(1,2) by blast
qed

theorem jb_framelist_peek_nth_witness:
  "\<exists>g. jb_framelist_peek fl_demo 0 = Some g \<and>
    (g = None \<longleftrightarrow> length (filter ((\<noteq>) Dropped) (fl_abs fl_demo)) \<le> 0) \<and>
    (\<forall>r. g = Some r \<longrightarrow>
       (\<exists>j < fl_size fl_demo. fl_abs fl_demo ! j = filter ((\<noteq>) Dropped) (fl_abs fl_demo) ! 0 \<and>
          got_type r = fst (slot_out None (fl_abs fl_demo ! j)) \<and>
          got_bytes r = fst (snd (slot_out None (fl_abs fl_demo ! j))) \<and>
          got_seq r = origin fl_demo + int j - int (dropped_in (take j (fl_abs fl_demo)))))"
  by (rule jb_framelist_peek_nth) (rule fl_demo_inv)

end
