(* ===== verification/Math_Stat.thy ===== *)
theory Math_Stat
  imports Prelude
begin

text \<open>
  The running statistics of \<open>pjlib/include/pj/math.h\<close>: number of samples, least, greatest and last one. The
  mean and the variance are floating-point and left out. \<open>pj_math_stat_init\<close> zeroes the structure, and
  \<open>pj_math_stat_update\<close> takes an \<open>int\<close>.
\<close>

record math_stat =
  stat_n :: int
  stat_min :: int
  stat_max :: int
  stat_last :: int

definition math_stat_init :: math_stat where
  "math_stat_init = \<lparr>stat_n = 0, stat_min = 0, stat_max = 0, stat_last = 0\<rparr>"

definition math_stat_update :: "math_stat \<Rightarrow> int \<Rightarrow> math_stat" where
  "math_stat_update s v =
     (let s = s\<lparr>stat_last := v\<rparr>
      in if stat_n s \<noteq> 0 then
           s\<lparr>stat_n := stat_n s + 1, stat_min := (if stat_min s > v then v else stat_min s),
             stat_max := (if stat_max s < v then v else stat_max s)\<rparr>
         else s\<lparr>stat_n := stat_n s + 1, stat_min := v, stat_max := v\<rparr>)"

lemma math_stat_update_fields:
  "stat_n (math_stat_update s v) = stat_n s + 1"
  "stat_last (math_stat_update s v) = v"
  "stat_n s \<noteq> 0 \<Longrightarrow> stat_min (math_stat_update s v) = min (stat_min s) v"
  "stat_n s \<noteq> 0 \<Longrightarrow> stat_max (math_stat_update s v) = max (stat_max s) v"
  "stat_n s = 0 \<Longrightarrow> stat_min (math_stat_update s v) = v"
  "stat_n s = 0 \<Longrightarrow> stat_max (math_stat_update s v) = v"
  by (simp_all add: math_stat_update_def Let_def min_def max_def)

end
