(* ===== verification/Jbuf.thy ===== *)
theory Jbuf
  imports Jb_Framelist Math_Stat Machine
begin

text \<open>
  The adaptive jitter buffer (\<open>pjmedia_jbuf\<close> of \<open>pjmedia/src/pjmedia/jbuf.c\<close>) over its frame list:
  settings, the operations \<open>put\<close>, \<open>get\<close>, \<open>peek\<close> and \<open>remove\<close>, the burst level and prefetch
  computation that runs when the application turns from putting to getting, and the two discard
  algorithms. An \<open>int\<close> of the code is an \<open>int\<close> here, so the theorems are about runs whose sequence
  numbers and counters stay inside the C type; the statistics counters are \<open>u32\<close>. Of the delay
  and burst statistics the integer fields are modelled, not the floating-point mean and variance.
\<close>

section \<open>State\<close>

datatype jb_discard_algo = Discard_None | Discard_Static | Discard_Progressive

datatype jb_op = Op_Init | Op_Put | Op_Get

datatype jb_run_status = Jb_Initializing | Jb_Processing

record pjmedia_jbuf =
  jb_frame_size :: nat
  jb_frame_ptime :: nat
  jb_max_count :: nat
  jb_init_prefetch :: int
  jb_min_prefetch :: int
  jb_max_prefetch :: int
  jb_max_burst :: int
  jb_min_shrink_gap :: int
  jb_algo :: jb_discard_algo
  jb_list :: jb_framelist
  jb_level :: int
  jb_max_hist_level :: int
  jb_stable_hist :: int
  jb_last_op :: jb_op
  jb_eff_level :: int
  jb_prefetch :: int
  jb_prefetching :: bool
  jb_status :: jb_run_status
  jb_init_cycle_cnt :: int
  jb_discard_ref :: int
  jb_discard_dist :: nat
  jb_delay :: math_stat
  jb_burst :: math_stat
  jb_lost :: u32
  jb_discard :: u32
  jb_empty :: u32

section \<open>Settings\<close>

definition pjmedia_jbuf_set_discard :: "pjmedia_jbuf \<Rightarrow> jb_discard_algo \<Rightarrow> pjmedia_jbuf" where
  "pjmedia_jbuf_set_discard jb algo = jb\<lparr>jb_algo := algo\<rparr>"

definition pjmedia_jbuf_reset :: "pjmedia_jbuf \<Rightarrow> pjmedia_jbuf" where
  "pjmedia_jbuf_reset jb = jb\<lparr>jb_level := 0, jb_last_op := Op_Init, jb_stable_hist := 0,
     jb_status := Jb_Initializing, jb_init_cycle_cnt := 0, jb_max_hist_level := 0,
     jb_prefetching := (jb_prefetch jb \<noteq> 0), jb_discard_dist := 0,
     jb_list := jb_framelist_reset (jb_list jb)\<rparr>"

text \<open>
  \<open>ptime = 0\<close> is a division by zero in the code; the theorems assume it is positive. The products are \<open>unsigned\<close> in
  \<open>pjmedia_jbuf_create\<close> and of the 64-bit \<open>pj_size_t\<close> elsewhere.
\<close>

definition jb_shrink_gap :: "nat \<Rightarrow> int" where
  "jb_shrink_gap ptime = int (200 div ptime)"

definition jb_burst_limit :: "nat \<Rightarrow> nat \<Rightarrow> int" where
  "jb_burst_limit ptime three_counts = int (max (1000 div ptime) (three_counts div 4))"

definition pjmedia_jbuf_create ::
  "nat \<Rightarrow> nat \<Rightarrow> nat \<Rightarrow> u8 list list \<times> u32 list \<times> u32 list \<Rightarrow> pjmedia_jbuf" where
  "pjmedia_jbuf_create fsize ptime count mem =
     pjmedia_jbuf_reset (pjmedia_jbuf_set_discard
       \<lparr>jb_frame_size = fsize, jb_frame_ptime = ptime, jb_max_count = count, jb_init_prefetch = 0,
        jb_min_prefetch = 0, jb_max_prefetch = int (to_u32 (int count * 4) div 5),
        jb_max_burst = jb_burst_limit ptime (to_u32 (int count * 3)), jb_min_shrink_gap = jb_shrink_gap ptime,
        jb_algo = Discard_None, jb_list = jb_framelist_init fsize count mem,
        jb_level = 0, jb_max_hist_level = 0, jb_stable_hist = 0, jb_last_op = Op_Init,
        jb_eff_level = 0, jb_prefetch = int (min 15 (to_u32 (int count * 4) div 5)), jb_prefetching = False,
        jb_status = Jb_Initializing, jb_init_cycle_cnt = 0, jb_discard_ref = 0, jb_discard_dist = 0,
        jb_delay = math_stat_init, jb_burst = math_stat_init, jb_lost = 0, jb_discard = 0,
        jb_empty = 0\<rparr> Discard_Progressive)"

definition pjmedia_jbuf_set_ptime :: "pjmedia_jbuf \<Rightarrow> nat \<Rightarrow> pjmedia_jbuf" where
  "pjmedia_jbuf_set_ptime jb ptime = jb\<lparr>jb_frame_ptime := ptime,
     jb_min_shrink_gap := jb_shrink_gap ptime,
     jb_max_burst := jb_burst_limit ptime (jb_max_count jb * 3)\<rparr>"

definition pjmedia_jbuf_set_fixed :: "pjmedia_jbuf \<Rightarrow> nat \<Rightarrow> pjmedia_jbuf \<times> pj_status" where
  "pjmedia_jbuf_set_fixed jb prefetch =
     (if \<not> prefetch \<le> jb_max_count jb then (jb, PJ_EINVAL)
      else (pjmedia_jbuf_set_discard (jb\<lparr>jb_min_prefetch := int prefetch,
        jb_max_prefetch := int prefetch, jb_prefetch := int prefetch,
        jb_init_prefetch := int prefetch\<rparr>) Discard_None, PJ_SUCCESS))"

definition pjmedia_jbuf_set_adaptive ::
  "pjmedia_jbuf \<Rightarrow> nat \<Rightarrow> nat \<Rightarrow> nat \<Rightarrow> pjmedia_jbuf \<times> pj_status" where
  "pjmedia_jbuf_set_adaptive jb prefetch min_prefetch max_prefetch =
     (if \<not> (min_prefetch \<le> max_prefetch \<and> prefetch \<le> max_prefetch \<and> max_prefetch \<le> jb_max_count jb)
      then (jb, PJ_EINVAL)
      else (jb\<lparr>jb_prefetch := int prefetch, jb_init_prefetch := int prefetch,
        jb_min_prefetch := int min_prefetch, jb_max_prefetch := int max_prefetch\<rparr>, PJ_SUCCESS))"

definition pjmedia_jbuf_is_full :: "pjmedia_jbuf \<Rightarrow> bool" where
  "pjmedia_jbuf_is_full jb \<longleftrightarrow> fl_size (jb_list jb) = max_count (jb_list jb)"

section \<open>Jitter\<close>

definition clamp_low_high :: "int \<Rightarrow> int \<Rightarrow> int \<Rightarrow> int" where
  "clamp_low_high lo hi v =
     (let v = (if v < lo then lo else v) in if v > hi then hi else v)"

definition clamp_high_low :: "int \<Rightarrow> int \<Rightarrow> int \<Rightarrow> int" where
  "clamp_high_low lo hi v =
     (let v = (if v > hi then hi else v) in if v < lo then lo else v)"

definition jbuf_calculate_jitter :: "pjmedia_jbuf \<Rightarrow> pjmedia_jbuf" where
  "jbuf_calculate_jitter jb0 =
     (let jb = jb0\<lparr>jb_burst := math_stat_update (jb_burst jb0) (jb_level jb0),
                   jb_max_hist_level := max (jb_max_hist_level jb0) (jb_level jb0)\<rparr>
      in if jb_level jb < jb_eff_level jb then
           (let jb = jb\<lparr>jb_stable_hist := jb_stable_hist jb + 1\<rparr>
            in if jb_stable_hist jb > 20 then
                 (let diff = cdiv (jb_eff_level jb - jb_max_hist_level jb) 3;
                      diff = (if diff < 1 then 1 else diff);
                      jb = jb\<lparr>jb_eff_level := jb_eff_level jb - diff\<rparr>;
                      jb = (if jb_init_prefetch jb \<noteq> 0 then
                              jb\<lparr>jb_prefetch := clamp_low_high (jb_min_prefetch jb)
                                   (jb_max_prefetch jb) (jb_eff_level jb)\<rparr>
                            else jb)
                  in jb\<lparr>jb_max_hist_level := 0, jb_stable_hist := 0\<rparr>)
               else jb)
         else if jb_level jb > jb_eff_level jb then
           (let jb = jb\<lparr>jb_eff_level :=
                        min (jb_max_hist_level jb) (int (jb_max_count jb * 4 div 5))\<rparr>;
                jb = (if jb_init_prefetch jb \<noteq> 0 then
                        jb\<lparr>jb_prefetch := clamp_high_low (jb_min_prefetch jb)
                             (jb_max_prefetch jb) (jb_eff_level jb)\<rparr>
                      else jb)
            in jb\<lparr>jb_stable_hist := 0\<rparr>)
         else jb\<lparr>jb_stable_hist := 0\<rparr>)"

section \<open>Discard algorithms\<close>

definition jbuf_discard_static :: "pjmedia_jbuf \<Rightarrow> pjmedia_jbuf" where
  "jbuf_discard_static jb =
     (let burst_level = max (jb_eff_level jb) (jb_level jb);
          diff = int (jb_framelist_eff_size (jb_list jb)) - burst_level * 2
      in if diff \<ge> 1 then
           (let seq_origin = origin (jb_list jb);
                jb = (if seq_origin < jb_discard_ref jb then jb\<lparr>jb_discard_ref := seq_origin\<rparr> else jb)
            in if seq_origin - jb_discard_ref jb \<ge> jb_min_shrink_gap jb then
                 (let (fl, removed) = jb_framelist_remove_head (jb_list jb) 1
                  in jb\<lparr>jb_list := fl, jb_discard_ref := origin fl,
                        jb_discard := jb_discard jb + of_nat removed\<rparr>)
               else jb)
         else jb)"

definition disc_period :: "nat \<Rightarrow> nat" where
  "disc_period burst_level =
     (if burst_level \<le> 1 then 2000
      else if burst_level \<ge> 100 then 10000
      else 2000 + (10000 - 2000) * (burst_level - 1) div (100 - 1))"

definition jbuf_discard_progressive :: "pjmedia_jbuf \<Rightarrow> pjmedia_jbuf" where
  "jbuf_discard_progressive jb =
     (if jb_last_op jb \<noteq> Op_Put then jb
      else
        (let cur_size = jb_framelist_eff_size (jb_list jb);
             burst_level = to_u32 (max (jb_eff_level jb) (jb_level jb))
         in if cur_size \<le> burst_level then jb\<lparr>jb_discard_dist := 0\<rparr>
            else
              (let overflow = cur_size - burst_level;
                   discard_dist = disc_period burst_level div overflow div jb_frame_ptime jb;
                   last_seq = origin (jb_list jb) + int (fl_size (jb_list jb)) - 1;
                   jb = (if jb_discard_dist jb = 0 then jb\<lparr>jb_discard_ref := last_seq\<rparr>
                         else if last_seq < jb_discard_ref jb then jb\<lparr>jb_discard_ref := last_seq\<rparr>
                         else jb);
                   jb = jb\<lparr>jb_discard_dist := to_u32 (max (jb_min_shrink_gap jb) (int discard_dist))\<rparr>
               in if last_seq \<ge> jb_discard_ref jb + int (jb_discard_dist jb) then
                    (let discard_seq = max (jb_discard_ref jb + int (jb_discard_dist jb)) (origin (jb_list jb))
                     in jb\<lparr>jb_list := fst (jb_framelist_discard (jb_list jb) discard_seq),
                           jb_discard_ref := discard_seq\<rparr>)
                  else jb)))"

definition jbuf_run_algo :: "pjmedia_jbuf \<Rightarrow> pjmedia_jbuf" where
  "jbuf_run_algo jb = (case jb_algo jb of
       Discard_None \<Rightarrow> jb
     | Discard_Static \<Rightarrow> jbuf_discard_static jb
     | Discard_Progressive \<Rightarrow> jbuf_discard_progressive jb)"

text \<open>\<open>jbuf_update\<close>; the early return of an initialising buffer skips the discard algorithm.\<close>

definition jbuf_update :: "pjmedia_jbuf \<Rightarrow> jb_op \<Rightarrow> pjmedia_jbuf" where
  "jbuf_update jb oper =
     (let algo = (\<lambda>jb. if jb_status jb = Jb_Processing then jbuf_run_algo jb else jb);
          level = (\<lambda>jb. (if oper = Op_Get \<and> jb_level jb \<le> jb_max_burst jb
                         then jbuf_calculate_jitter jb else jb)\<lparr>jb_level := 0\<rparr>)
      in if jb_last_op jb \<noteq> oper then
           (let jb = jb\<lparr>jb_last_op := oper\<rparr>
            in if jb_status jb = Jb_Initializing then
                 (let jb = jb\<lparr>jb_init_cycle_cnt := jb_init_cycle_cnt jb + 1\<rparr>
                  in if jb_init_cycle_cnt jb \<ge> 10 \<and> oper = Op_Get then
                       algo (level (jb\<lparr>jb_status := Jb_Processing,
                                       jb_level := min (jb_level jb) (jb_max_burst jb)\<rparr>))
                     else jb\<lparr>jb_level := 0\<rparr>)
               else algo (level jb))
         else algo jb)"

section \<open>Put, get, peek and remove\<close>

definition jb_put_loop ::
  "pjmedia_jbuf \<Rightarrow> int \<Rightarrow> u8 list \<Rightarrow> u32 \<Rightarrow> u32 \<Rightarrow> pj_status \<Rightarrow> (pjmedia_jbuf \<times> pj_status) option" where
  "jb_put_loop jb0 seq frame binfo tstamp status0 =
     while_option (\<lambda>(jb, status). status = PJ_ETOOMANY)
       (\<lambda>(jb, status).
          (let distance = (seq - origin (jb_list jb)) - int (jb_max_count jb) + 1;
               (fl1, removed) = jb_framelist_remove_head (jb_list jb) (to_u32 distance);
               (fl2, status) = jb_framelist_put_at fl1 seq frame binfo tstamp
           in (jb\<lparr>jb_list := fl2, jb_discard := jb_discard jb + of_nat removed\<rparr>, status)))
       (jb0, status0)"

text \<open>The second component of the result is the \<open>discarded\<close> flag.\<close>

definition pjmedia_jbuf_put_frame3 ::
  "pjmedia_jbuf \<Rightarrow> u8 list \<Rightarrow> u32 \<Rightarrow> int \<Rightarrow> u32 \<Rightarrow> (pjmedia_jbuf \<times> bool) option" where
  "pjmedia_jbuf_put_frame3 jb frame binfo seq tstamp =
     (let cur_size = int (jb_framelist_eff_size (jb_list jb));
          stored = take (jb_frame_size jb) frame;
          (fl, status) = jb_framelist_put_at (jb_list jb) seq stored binfo tstamp
      in case jb_put_loop (jb\<lparr>jb_list := fl\<rparr>) seq stored binfo tstamp status of
           None \<Rightarrow> None
         | Some (jb, status) \<Rightarrow>
             (let new_size = int (jb_framelist_eff_size (jb_list jb))
              in if status = PJ_SUCCESS then
                   (let jb = (if jb_prefetching jb \<and> new_size \<ge> jb_prefetch jb
                              then jb\<lparr>jb_prefetching := False\<rparr> else jb);
                        jb = jb\<lparr>jb_level := jb_level jb +
                                  (if new_size > cur_size then new_size - cur_size else 1)\<rparr>
                    in Some (jbuf_update jb Op_Put, False))
                 else Some (jb\<lparr>jb_discard := jb_discard jb + 1\<rparr>, True)))"

definition pjmedia_jbuf_put_frame :: "pjmedia_jbuf \<Rightarrow> u8 list \<Rightarrow> int \<Rightarrow> pjmedia_jbuf option" where
  "pjmedia_jbuf_put_frame jb frame seq = map_option fst (pjmedia_jbuf_put_frame3 jb frame 0 seq 0)"

definition pjmedia_jbuf_put_frame2 ::
  "pjmedia_jbuf \<Rightarrow> u8 list \<Rightarrow> u32 \<Rightarrow> int \<Rightarrow> (pjmedia_jbuf \<times> bool) option" where
  "pjmedia_jbuf_put_frame2 jb frame binfo seq = pjmedia_jbuf_put_frame3 jb frame binfo seq 0"

text \<open>
  The result pairs the type stored through \<open>p_frame_type\<close> with what was read, \<open>None\<close> when nothing
  is stored through the other pointers.
\<close>

definition pjmedia_jbuf_get_frame3 ::
  "pjmedia_jbuf \<Rightarrow> nat option \<Rightarrow> (pjmedia_jbuf \<times> jb_ftype \<times> jb_got option) option" where
  "pjmedia_jbuf_get_frame3 jb cap =
     (let finish = (\<lambda>jb. jbuf_update (jb\<lparr>jb_level := jb_level jb + 1\<rparr>) Op_Get)
      in if jb_prefetching jb then
           Some (finish (jb\<lparr>jb_empty := jb_empty jb + 1\<rparr>), Zero_Prefetch, None)
         else
           (case jb_framelist_get (jb_list jb) cap of
              None \<Rightarrow> None
            | Some (fl, Some got) \<Rightarrow>
                (let jb = jb\<lparr>jb_list := fl\<rparr>;
                     (jb, ty) = (if got_type got = Normal then (jb, Normal)
                                 else (jb\<lparr>jb_lost := jb_lost jb + 1\<rparr>, Missing));
                     jb = (if jb_last_op jb = Op_Put then
                             jb\<lparr>jb_delay := math_stat_update (jb_delay jb)
                                  (to_s32 (int ((jb_framelist_eff_size fl + 1) * jb_frame_ptime jb)))\<rparr>
                           else jb)
                 in Some (finish jb, ty, Some got))
            | Some (fl, None) \<Rightarrow>
                (let jb = jb\<lparr>jb_list := fl\<rparr>;
                     jb = (if jb_prefetch jb \<noteq> 0 then jb\<lparr>jb_prefetching := True\<rparr> else jb)
                 in Some (finish (jb\<lparr>jb_empty := jb_empty jb + 1\<rparr>), Zero_Empty, None))))"

definition pjmedia_jbuf_get_frame :: "pjmedia_jbuf \<Rightarrow> (pjmedia_jbuf \<times> jb_ftype \<times> jb_got option) option" where
  "pjmedia_jbuf_get_frame jb = pjmedia_jbuf_get_frame3 jb None"

definition pjmedia_jbuf_get_frame2 ::
  "pjmedia_jbuf \<Rightarrow> nat option \<Rightarrow> (pjmedia_jbuf \<times> jb_ftype \<times> jb_got option) option" where
  "pjmedia_jbuf_get_frame2 jb cap = pjmedia_jbuf_get_frame3 jb cap"

definition pjmedia_jbuf_peek_frame :: "pjmedia_jbuf \<Rightarrow> nat \<Rightarrow> (jb_ftype \<times> jb_got option) option" where
  "pjmedia_jbuf_peek_frame jb offset =
     (case jb_framelist_peek (jb_list jb) offset of
        None \<Rightarrow> None
      | Some None \<Rightarrow> Some (Zero_Empty, None)
      | Some (Some got) \<Rightarrow>
          Some (if got_type got = Normal then Normal else Missing, Some got))"

definition jb_remove_loop :: "pjmedia_jbuf \<Rightarrow> nat \<Rightarrow> nat \<Rightarrow> (pjmedia_jbuf \<times> nat \<times> nat) option" where
  "jb_remove_loop jb0 last0 count0 =
     while_option (\<lambda>(jb, last_discard, count). discarded_num (jb_list jb) < last_discard)
       (\<lambda>(jb, last_discard, count).
          (let frame_cnt = last_discard - discarded_num (jb_list jb);
               count = usub32 count frame_cnt;
               last_discard = discarded_num (jb_list jb);
               (fl, n) = jb_framelist_remove_head (jb_list jb) frame_cnt
           in (jb\<lparr>jb_list := fl\<rparr>, last_discard, to_u32 (int count + int n))))
       (jb0, last0, count0)"

definition pjmedia_jbuf_remove_frame :: "pjmedia_jbuf \<Rightarrow> nat \<Rightarrow> (pjmedia_jbuf \<times> nat) option" where
  "pjmedia_jbuf_remove_frame jb frame_cnt =
     (let last_discard = discarded_num (jb_list jb);
          (fl, count) = jb_framelist_remove_head (jb_list jb) frame_cnt
      in map_option (\<lambda>(jb, _, count). (jb, count))
           (jb_remove_loop (jb\<lparr>jb_list := fl\<rparr>) last_discard count))"

record jb_state =
  st_frame_size :: nat
  st_min_prefetch :: int
  st_max_prefetch :: int
  st_burst :: int
  st_prefetch :: int
  st_size :: nat
  st_min_delay :: int
  st_max_delay :: int
  st_empty :: u32
  st_discard :: u32
  st_lost :: u32

definition pjmedia_jbuf_get_state :: "pjmedia_jbuf \<Rightarrow> jb_state" where
  "pjmedia_jbuf_get_state jb =
     \<lparr>st_frame_size = jb_frame_size jb, st_min_prefetch = jb_min_prefetch jb,
      st_max_prefetch = jb_max_prefetch jb, st_burst = jb_eff_level jb,
      st_prefetch = jb_prefetch jb, st_size = jb_framelist_eff_size (jb_list jb),
      st_min_delay = stat_min (jb_delay jb), st_max_delay = stat_max (jb_delay jb),
      st_empty = jb_empty jb, st_discard = jb_discard jb, st_lost = jb_lost jb\<rparr>"

section \<open>Facts about the specification of a put\<close>

lemma spec_put_full:
  assumes "spec_put cap orig l index s = (o1, l1, PJ_ETOOMANY)" and "0 < cap"
  shows "l1 \<noteq> []" "index - o1 \<ge> int cap" "index - o1 \<le> 3000"
  using assms by (auto simp: spec_put_def spec_store_def Let_def split: if_splits prod.splits)

lemma spec_put_after_removal:
  assumes "spec_put cap orig l index s = (o1, l1, PJ_ETOOMANY)"
    and "length l1 \<le> cap" and "0 < cap"
    and "n = min (nat (index - o1 - int cap + 1)) (length l1)"
  shows "\<exists>o2 l2. spec_put cap (o1 + int n) (drop n l1) index s = (o2, l2, PJ_SUCCESS)"
proof (cases "drop n l1 = []")
  case True
  then show ?thesis
    using assms(3,4) spec_put_full [OF assms(1,3)] by (auto simp: spec_put_def spec_store_def)
next
  case False
  note F = spec_put_full [OF assms(1,3)]
  from False have n: "int n = index - o1 - int cap + 1"
    using assms(4) F by auto
  then have d: "index - (o1 + int n) = int cap - 1" by simp
  have "length (drop n l1) \<le> cap - 1"
    using assms(2) n F by simp
  then have "\<not> cap - 1 < length (drop n l1)" by simp
  moreover have "nat (index - (o1 + int n)) = cap - 1" using d assms(3) by simp
  ultimately show ?thesis
    using False d assms(3) by (auto simp: spec_put_def spec_store_def)
qed

definition dropped_upto :: "int \<Rightarrow> jb_slot list \<Rightarrow> int \<Rightarrow> bool" where
  "dropped_upto orig l r \<longleftrightarrow> (\<forall>k < length l. l ! k = Dropped \<longrightarrow> orig + int k \<le> r)"

lemma dropped_upto_Nil [simp]: "dropped_upto orig [] r"
  by (simp add: dropped_upto_def)

lemma dropped_upto_drop: "dropped_upto orig l r \<Longrightarrow> dropped_upto (orig + int n) (drop n l) r"
  unfolding dropped_upto_def
proof (intro allI impI)
  fix k assume "\<forall>k < length l. l ! k = Dropped \<longrightarrow> orig + int k \<le> r" "k < length (drop n l)"
    "drop n l ! k = Dropped"
  then show "orig + int n + int k \<le> r" by (auto dest: spec [of _ "n + k"])
qed

lemma dropped_upto_mono: "dropped_upto orig l r \<Longrightarrow> orig' \<le> orig \<Longrightarrow> dropped_upto orig' l r"
  by (fastforce simp: dropped_upto_def)

lemma dropped_upto_last: "r \<ge> orig + int (length l) - 1 \<Longrightarrow> dropped_upto orig l r"
  by (auto simp: dropped_upto_def)

lemma dropped_upto_store:
  assumes "dropped_upto orig l r" "spec_store l d s = (l', st)" "s \<noteq> Dropped"
  shows "dropped_upto orig l' r"
  using assms
  by (auto simp: dropped_upto_def spec_store_def nth_list_update nth_append nth_Cons'
      split: if_splits)

lemma dropped_upto_put:
  assumes "dropped_upto orig l r" "spec_put cap orig l index s = (o', l', st)" "s \<noteq> Dropped"
  shows "dropped_upto o' l' r"
proof -
  have one: "dropped_upto a [s] r" for a using assms(3) by (simp add: dropped_upto_def)
  define o1 where "o1 = (if index < orig then
      (if to_u32 (orig + int (length l)) \<ge> MAX_FRAME_INDEX then index - int (length l) else index)
      else orig)"
  define l1 where "l1 = (if index < orig \<and> \<not> to_u32 (orig + int (length l)) \<ge> MAX_FRAME_INDEX
      then [] else l)"
  define o2 where "o2 = (if l1 = [] then index else o1)"
  have "(if index < orig then
      (if to_u32 (orig + int (length l)) \<ge> MAX_FRAME_INDEX then (index - int (length l), l)
       else (index, [])) else (orig, l)) = (o1, l1)"
    by (simp add: o1_def l1_def)
  then have eq: "spec_put cap orig l index s =
     (if index < orig \<and> orig - index < 100 then (orig, l, PJ_ETOOSMALL)
      else if index - o2 \<ge> int cap then
        (if index - o2 > 3000 then (index, [s], PJ_SUCCESS) else (o2, l1, PJ_ETOOMANY))
      else (o2, spec_store l1 (nat (index - o2)) s))"
    unfolding spec_put_def Let_def o2_def by simp
  have "dropped_upto o1 l1 r"
    using assms(1) by (auto simp: o1_def l1_def intro: dropped_upto_mono)
  then have "dropped_upto o2 l1 r"
    by (simp add: o2_def)
  then show ?thesis
    using assms(1,2) one unfolding eq
    by (auto split: if_splits dest: dropped_upto_store [OF _ _ assms(3)])
qed

lemma spec_get_drop:
  "fst (spec_get cap l) = drop (length l - length (fst (spec_get cap l))) l"
proof -
  have "fst (spec_get cap l) = drop 1 (dropWhile ((=) Dropped) l)"
    by (cases "dropWhile ((=) Dropped) l") (simp_all only: spec_get_def Let_def, simp_all split: prod.split)
  then have "fst (spec_get cap l) = drop (Suc (length (takeWhile ((=) Dropped) l))) l"
    by (simp add: dropWhile_eq_drop)
  then obtain m where m: "fst (spec_get cap l) = drop m l" by blast
  show ?thesis
    unfolding m by (cases "m \<le> length l") simp_all
qed

section \<open>Levels and prefetch\<close>

text \<open>The settings, and what the jitter computation keeps of the levels.\<close>

definition jb_levels_ok :: "pjmedia_jbuf \<Rightarrow> bool" where
  "jb_levels_ok jb \<longleftrightarrow> 0 < jb_frame_ptime jb \<and> jb_frame_ptime jb \<le> 200 \<and>
     jb_min_shrink_gap jb = jb_shrink_gap (jb_frame_ptime jb) \<and> 0 \<le> jb_max_burst jb \<and>
     0 \<le> jb_min_prefetch jb \<and> jb_min_prefetch jb \<le> jb_max_prefetch jb \<and>
     jb_max_prefetch jb \<le> int (jb_max_count jb) \<and>
     0 \<le> jb_prefetch jb \<and> jb_prefetch jb \<le> jb_max_prefetch jb \<and>
     0 \<le> jb_eff_level jb \<and> jb_eff_level jb \<le> int (jb_max_count jb * 4 div 5) \<and>
     0 \<le> jb_level jb \<and> 0 \<le> jb_max_hist_level jb \<and>
     0 \<le> jb_stable_hist jb \<and> jb_stable_hist jb \<le> 20"

lemma clamp_bounds:
  "lo \<le> hi \<Longrightarrow> lo \<le> clamp_low_high lo hi v \<and> clamp_low_high lo hi v \<le> hi"
  "lo \<le> hi \<Longrightarrow> lo \<le> clamp_high_low lo hi v \<and> clamp_high_low lo hi v \<le> hi"
  by (simp_all add: clamp_low_high_def clamp_high_low_def)

lemma shrink_gap_pos: "0 < p \<Longrightarrow> p \<le> 200 \<Longrightarrow> 1 \<le> jb_shrink_gap p \<and> jb_shrink_gap p \<le> 200"
  by (simp add: jb_shrink_gap_def Suc_leI div_greater_zero_iff)

definition jitter_step :: "int \<Rightarrow> int \<Rightarrow> int" where
  "jitter_step eff hist = (let d = cdiv (eff - hist) 3 in if d < 1 then 1 else d)"

lemma jitter_step_bounds:
  "0 \<le> hist \<Longrightarrow> 0 < eff \<Longrightarrow> 1 \<le> jitter_step eff hist \<and> jitter_step eff hist \<le> eff"
  by (cases "hist \<le> eff")
    (auto simp: jitter_step_def Let_def cdiv_def sgn_if zdiv_int[symmetric] abs_if split: if_splits)

lemma jbuf_calculate_jitter_levels:
  assumes "jb_levels_ok jb"
  shows "jb_levels_ok (jbuf_calculate_jitter jb)"
proof -
  let ?h = "max (jb_max_hist_level jb) (jb_level jb)"
  have h: "0 \<le> ?h" using assms by (simp add: jb_levels_ok_def le_max_iff_disj)
  consider "jb_level jb < jb_eff_level jb" "jb_stable_hist jb + 1 > 20"
    | "jb_level jb < jb_eff_level jb" "\<not> jb_stable_hist jb + 1 > 20"
    | "jb_level jb > jb_eff_level jb" | "jb_level jb = jb_eff_level jb"
    by linarith
  then show ?thesis
  proof cases
    case 1
    have "1 \<le> jitter_step (jb_eff_level jb) ?h \<and> jitter_step (jb_eff_level jb) ?h \<le> jb_eff_level jb"
      using 1 assms h by (intro jitter_step_bounds) (auto simp: jb_levels_ok_def)
    then show ?thesis
      using 1 assms clamp_bounds(1) [of "jb_min_prefetch jb" "jb_max_prefetch jb"
          "jb_eff_level jb - jitter_step (jb_eff_level jb) ?h"]
      by (simp add: jbuf_calculate_jitter_def jb_levels_ok_def Let_def
          flip: jitter_step_def [unfolded Let_def])
  next
    case 2
    then show ?thesis
      using assms h by (simp add: jbuf_calculate_jitter_def jb_levels_ok_def Let_def)
  next
    case 3
    then show ?thesis
      using assms h clamp_bounds(2) [of "jb_min_prefetch jb" "jb_max_prefetch jb"
          "min ?h (int (jb_max_count jb * 4 div 5))"]
      by (simp add: jbuf_calculate_jitter_def jb_levels_ok_def Let_def)
  next
    case 4
    then show ?thesis
      using assms h by (simp add: jbuf_calculate_jitter_def jb_levels_ok_def Let_def)
  qed
qed

lemma jbuf_calculate_jitter_keeps [simp]:
  "jb_list (jbuf_calculate_jitter jb) = jb_list jb"
  "jb_algo (jbuf_calculate_jitter jb) = jb_algo jb"
  "jb_last_op (jbuf_calculate_jitter jb) = jb_last_op jb"
  "jb_discard_ref (jbuf_calculate_jitter jb) = jb_discard_ref jb"
  "jb_discard_dist (jbuf_calculate_jitter jb) = jb_discard_dist jb"
  "jb_max_count (jbuf_calculate_jitter jb) = jb_max_count jb"
  "jb_frame_size (jbuf_calculate_jitter jb) = jb_frame_size jb"
  "jb_prefetching (jbuf_calculate_jitter jb) = jb_prefetching jb"
  "jb_level (jbuf_calculate_jitter jb) = jb_level jb"
  "jb_status (jbuf_calculate_jitter jb) = jb_status jb"
  "jb_lost (jbuf_calculate_jitter jb) = jb_lost jb"
  "jb_discard (jbuf_calculate_jitter jb) = jb_discard jb"
  "jb_empty (jbuf_calculate_jitter jb) = jb_empty jb"
  by (simp_all add: jbuf_calculate_jitter_def Let_def)

section \<open>The invariant of the buffer\<close>

text \<open>
  The counter of discarded frames is exact because the progressive algorithm never marks a slot
  twice: while a discard plan is pending, every marked frame lies at or before its reference. The static algorithm, once
  selected, moves the reference back, so that its plan is void.
\<close>

definition jb_plan_ok :: "pjmedia_jbuf \<Rightarrow> bool" where
  "jb_plan_ok jb \<longleftrightarrow>
     (jb_algo jb \<noteq> Discard_Static \<and> jb_discard_dist jb \<noteq> 0 \<longrightarrow>
        dropped_upto (origin (jb_list jb)) (fl_abs (jb_list jb)) (jb_discard_ref jb))"

definition jb_inv :: "pjmedia_jbuf \<Rightarrow> bool" where
  "jb_inv jb \<longleftrightarrow> fl_inv (jb_list jb) \<and> max_count (jb_list jb) = jb_max_count jb \<and>
     frame_size (jb_list jb) = jb_frame_size jb \<and> jb_levels_ok jb \<and> jb_plan_ok jb"

lemma eff_size_le: "fl_inv f \<Longrightarrow> jb_framelist_eff_size f \<le> fl_size f"
  by (metis eff_size_exact length_filter_le length_fl_abs)

lemma jbuf_discard_static_inv:
  assumes inv: "jb_inv jb" and algo: "jb_algo jb = Discard_Static"
  shows "jb_inv (jbuf_discard_static jb)"
proof -
  obtain fl n where r: "jb_framelist_remove_head (jb_list jb) 1 = (fl, n)" by fastforce
  have "fl_inv (jb_list jb)" using inv by (simp add: jb_inv_def)
  note R = remove_head_refines [OF this r]
  show ?thesis
    using inv algo R r
    by (simp add: jbuf_discard_static_def Let_def jb_inv_def jb_levels_ok_def jb_plan_ok_def)
qed

text \<open>The progressive algorithm, once the current burst is below the current size.\<close>

definition prog_ref :: "pjmedia_jbuf \<Rightarrow> int" where
  "prog_ref jb =
     (let last_seq = origin (jb_list jb) + int (fl_size (jb_list jb)) - 1
      in if jb_discard_dist jb = 0 \<or> last_seq < jb_discard_ref jb then last_seq else jb_discard_ref jb)"

definition prog_dist :: "pjmedia_jbuf \<Rightarrow> nat" where
  "prog_dist jb =
     (let burst_level = to_u32 (max (jb_eff_level jb) (jb_level jb))
      in to_u32 (max (jb_min_shrink_gap jb) (int (disc_period burst_level div
           (jb_framelist_eff_size (jb_list jb) - burst_level) div jb_frame_ptime jb))))"

definition prog_busy :: "pjmedia_jbuf \<Rightarrow> bool" where
  "prog_busy jb \<longleftrightarrow> jb_last_op jb = Op_Put \<and>
     to_u32 (max (jb_eff_level jb) (jb_level jb)) < jb_framelist_eff_size (jb_list jb)"

definition prog_target :: "pjmedia_jbuf \<Rightarrow> int" where
  "prog_target jb = max (prog_ref jb + int (prog_dist jb)) (origin (jb_list jb))"

definition prog_fires :: "pjmedia_jbuf \<Rightarrow> bool" where
  "prog_fires jb \<longleftrightarrow> prog_busy jb \<and>
     prog_ref jb + int (prog_dist jb) \<le> origin (jb_list jb) + int (fl_size (jb_list jb)) - 1"

lemma jbuf_discard_progressive_eq:
  "jbuf_discard_progressive jb =
     (if prog_fires jb then
        jb\<lparr>jb_discard_dist := prog_dist jb, jb_discard_ref := prog_target jb,
           jb_list := fst (jb_framelist_discard (jb_list jb) (prog_target jb))\<rparr>
      else if prog_busy jb then jb\<lparr>jb_discard_dist := prog_dist jb, jb_discard_ref := prog_ref jb\<rparr>
      else if jb_last_op jb = Op_Put then jb\<lparr>jb_discard_dist := 0\<rparr> else jb)"
proof -
  let ?last = "origin (jb_list jb) + int (fl_size (jb_list jb)) - 1"
  have step: "(if jb_discard_dist jb = 0 then jb\<lparr>jb_discard_ref := ?last\<rparr>
      else if ?last < jb_discard_ref jb then jb\<lparr>jb_discard_ref := ?last\<rparr> else jb) =
      jb\<lparr>jb_discard_ref := prog_ref jb\<rparr>"
    by (simp add: prog_ref_def Let_def)
  have gap: "jb_min_shrink_gap (jb\<lparr>jb_discard_ref := x\<rparr>) = jb_min_shrink_gap jb"
    "jb_frame_ptime (jb\<lparr>jb_discard_ref := x\<rparr>) = jb_frame_ptime jb" for x
    by simp_all
  note dist = prog_dist_def [unfolded Let_def, symmetric]
  show ?thesis
    unfolding jbuf_discard_progressive_def Let_def step gap dist
    by (auto simp: prog_fires_def prog_busy_def prog_target_def not_le)
qed

lemma disc_period_bounds: "2000 \<le> disc_period b" "disc_period b \<le> 10000"
  by (auto simp: disc_period_def)

lemma prog_dist_pos:
  assumes "jb_levels_ok jb"
  shows "jb_min_shrink_gap jb \<le> int (prog_dist jb)" "0 < prog_dist jb" "prog_dist jb \<le> 10000"
proof -
  let ?b = "to_u32 (max (jb_eff_level jb) (jb_level jb))"
  let ?d = "disc_period ?b div (jb_framelist_eff_size (jb_list jb) - ?b) div jb_frame_ptime jb"
  have g: "1 \<le> jb_min_shrink_gap jb" "jb_min_shrink_gap jb \<le> 200"
    using shrink_gap_pos [of "jb_frame_ptime jb"] assms by (simp_all add: jb_levels_ok_def)
  have "?d \<le> 10000"
    using disc_period_bounds(2) [of ?b] by (meson div_le_dividend le_trans)
  moreover define m where "m = max (jb_min_shrink_gap jb) (int ?d)"
  ultimately have m: "jb_min_shrink_gap jb \<le> m" "m \<le> 10000"
    using g by auto
  then have "prog_dist jb = nat m"
    using g unfolding prog_dist_def Let_def m_def [symmetric] by (simp add: to_u32_nonneg)
  then show "jb_min_shrink_gap jb \<le> int (prog_dist jb)" "0 < prog_dist jb" "prog_dist jb \<le> 10000"
    using g m by auto
qed

lemma prog_ref_covers:
  assumes "jb_inv jb" "jb_algo jb = Discard_Progressive"
  shows "dropped_upto (origin (jb_list jb)) (fl_abs (jb_list jb)) (prog_ref jb)"
  using assms by (auto simp: prog_ref_def Let_def jb_inv_def jb_plan_ok_def intro: dropped_upto_last)

lemma prog_target_free:
  assumes "jb_inv jb" "jb_algo jb = Discard_Progressive" "prog_fires jb"
  shows "origin (jb_list jb) \<le> prog_target jb"
    "prog_target jb < origin (jb_list jb) + int (fl_size (jb_list jb))"
    "fl_abs (jb_list jb) ! nat (prog_target jb - origin (jb_list jb)) \<noteq> Dropped"
    "prog_ref jb < prog_target jb"
proof -
  have inv: "fl_inv (jb_list jb)" and lev: "jb_levels_ok jb" using assms(1) by (simp_all add: jb_inv_def)
  have "0 < fl_size (jb_list jb)"
    using assms(3) eff_size_le [OF inv] by (auto simp: prog_fires_def prog_busy_def)
  then show t: "origin (jb_list jb) \<le> prog_target jb"
    "prog_target jb < origin (jb_list jb) + int (fl_size (jb_list jb))"
    using assms(3) by (auto simp: prog_target_def prog_fires_def)
  show ref: "prog_ref jb < prog_target jb"
    using prog_dist_pos(2) [OF lev] by (simp add: prog_target_def)
  have k: "nat (prog_target jb - origin (jb_list jb)) < fl_size (jb_list jb)"
    using t by (simp add: nat_less_iff)
  show "fl_abs (jb_list jb) ! nat (prog_target jb - origin (jb_list jb)) \<noteq> Dropped"
  proof
    assume "fl_abs (jb_list jb) ! nat (prog_target jb - origin (jb_list jb)) = Dropped"
    then have "origin (jb_list jb) + int (nat (prog_target jb - origin (jb_list jb))) \<le> prog_ref jb"
      using prog_ref_covers [OF assms(1,2)] k unfolding dropped_upto_def length_fl_abs by blast
    then show False using ref t by simp
  qed
qed

lemma jbuf_discard_progressive_inv:
  assumes inv: "jb_inv jb" and algo: "jb_algo jb = Discard_Progressive"
  shows "jb_inv (jbuf_discard_progressive jb)"
proof (cases "prog_fires jb")
  case True
  have fl: "fl_inv (jb_list jb)" using inv by (simp add: jb_inv_def)
  note T = prog_target_free [OF inv algo True]
  obtain f' st where r: "jb_framelist_discard (jb_list jb) (prog_target jb) = (f', st)" by fastforce
  note R = framelist_discard_refines [OF fl T(1-3) r]
  have "dropped_upto (origin f') (fl_abs f') (prog_target jb)"
    using prog_ref_covers [OF inv algo] T unfolding dropped_upto_def R(2,4)
    by (auto simp: nth_list_update split: if_splits)
  then show ?thesis
    using inv True r R algo
    by (simp add: jbuf_discard_progressive_eq jb_inv_def jb_levels_ok_def jb_plan_ok_def)
next
  case False
  then show ?thesis
    using inv algo prog_ref_covers [OF inv algo]
    by (simp add: jbuf_discard_progressive_eq jb_inv_def jb_levels_ok_def jb_plan_ok_def)
qed

lemma jbuf_run_algo_inv: "jb_inv jb \<Longrightarrow> jb_inv (jbuf_run_algo jb)"
  by (cases "jb_algo jb")
    (simp_all add: jbuf_run_algo_def jbuf_discard_static_inv jbuf_discard_progressive_inv)

lemma jb_inv_level: "jb_inv jb \<Longrightarrow> 0 \<le> n \<Longrightarrow> jb_inv (jb\<lparr>jb_level := n\<rparr>)"
  by (simp add: jb_inv_def jb_levels_ok_def jb_plan_ok_def)

lemma jb_inv_updates [simp]:
  "jb_inv (jb\<lparr>jb_last_op := a\<rparr>) = jb_inv jb" "jb_inv (jb\<lparr>jb_status := b\<rparr>) = jb_inv jb"
  "jb_inv (jb\<lparr>jb_init_cycle_cnt := c\<rparr>) = jb_inv jb" "jb_inv (jb\<lparr>jb_prefetching := d\<rparr>) = jb_inv jb"
  "jb_inv (jb\<lparr>jb_empty := e\<rparr>) = jb_inv jb" "jb_inv (jb\<lparr>jb_lost := e\<rparr>) = jb_inv jb"
  "jb_inv (jb\<lparr>jb_discard := e\<rparr>) = jb_inv jb" "jb_inv (jb\<lparr>jb_delay := s\<rparr>) = jb_inv jb"
  by (simp_all add: jb_inv_def jb_levels_ok_def jb_plan_ok_def)

lemma jbuf_calculate_jitter_inv: "jb_inv jb \<Longrightarrow> jb_inv (jbuf_calculate_jitter jb)"
  using jbuf_calculate_jitter_levels [of jb] by (simp add: jb_inv_def jb_plan_ok_def)

lemma jbuf_update_inv:
  assumes "jb_inv jb"
  shows "jb_inv (jbuf_update jb oper)"
proof -
  have "0 \<le> min (jb_level jb) (jb_max_burst jb)"
    using assms by (simp add: jb_inv_def jb_levels_ok_def)
  then show ?thesis
    using assms unfolding jbuf_update_def Let_def
    by (auto intro!: jbuf_run_algo_inv jbuf_calculate_jitter_inv jb_inv_level)
qed

section \<open>The list under a put\<close>

text \<open>
  What a put means on the slot list: when the frame lies behind a full buffer, just enough of the
  oldest slots are removed and the frame is stored.
\<close>

definition spec_jput ::
  "nat \<Rightarrow> int \<Rightarrow> jb_slot list \<Rightarrow> int \<Rightarrow> jb_slot \<Rightarrow> nat \<times> int \<times> jb_slot list \<times> pj_status" where
  "spec_jput cap orig l index s =
     (case spec_put cap orig l index s of (o1, l1, st) \<Rightarrow>
        if st = PJ_ETOOMANY then
          (let n = min (nat (index - o1 - int cap + 1)) (length l1)
           in (n, spec_put cap (o1 + int n) (drop n l1) index s))
        else (0, o1, l1, st))"

lemma put_loop_refines:
  assumes inv: "jb_inv jb" and len: "length frame \<le> jb_frame_size jb"
    and r: "jb_framelist_put_at (jb_list jb) seq frame b t = (fl, st)"
  shows "\<exists>n fl' st'. jb_put_loop (jb\<lparr>jb_list := fl\<rparr>) seq frame b t st =
      Some (jb\<lparr>jb_list := fl', jb_discard := jb_discard jb + of_nat n\<rparr>, st') \<and> fl_inv fl' \<and>
    spec_jput (jb_max_count jb) (origin (jb_list jb)) (fl_abs (jb_list jb)) seq (Frame frame b t) =
      (n, origin fl', fl_abs fl', st') \<and> st' \<noteq> PJ_ETOOMANY \<and>
    max_count fl' = jb_max_count jb \<and> frame_size fl' = jb_frame_size jb"
proof -
  have I: "fl_inv (jb_list jb)" "max_count (jb_list jb) = jb_max_count jb"
    "frame_size (jb_list jb) = jb_frame_size jb"
    using inv by (simp_all add: jb_inv_def)
  have cap: "0 < jb_max_count jb" using fl_arraysD(1) [OF fl_invD(1) [OF I(1)]] I by simp
  note P = put_at_spec [OF I(1) _ r, unfolded I, OF len]
  show ?thesis
  proof (cases "st = PJ_ETOOMANY")
    case False
    then have "jb_put_loop (jb\<lparr>jb_list := fl\<rparr>) seq frame b t st = Some (jb\<lparr>jb_list := fl\<rparr>, st)"
      unfolding jb_put_loop_def by (subst while_option_unfold) simp
    then show ?thesis
      using False P by (auto simp: spec_jput_def intro!: exI [of _ 0] exI [of _ fl])
  next
    case True
    define n where "n = min (nat (seq - origin fl - int (jb_max_count jb) + 1)) (length (fl_abs fl))"
    note S = P(2) [unfolded True]
    note F = spec_put_full [OF S cap]
    obtain f1 m where rm: "jb_framelist_remove_head fl
        (to_u32 (seq - origin fl - int (jb_max_count jb) + 1)) = (f1, m)" by fastforce
    note R = remove_head_refines [OF P(1) rm]
    have "to_u32 (seq - origin fl - int (jb_max_count jb) + 1) =
        nat (seq - origin fl - int (jb_max_count jb) + 1)"
      using F by (intro to_u32_nonneg) auto
    then have m: "m = n" using R(1) by (simp add: n_def)
    obtain f2 s2 where r2: "jb_framelist_put_at f1 seq frame b t = (f2, s2)" by fastforce
    note P2 = put_at_spec [OF R(2) _ r2, unfolded R(3,4,6,7) P(3,4), OF len]
    have "length (fl_abs fl) \<le> jb_max_count jb"
      using fl_windowD(2) [OF fl_invD(2) [OF P(1)]] P(3) by simp
    from spec_put_after_removal [OF S this cap n_def] P2(2) m have s2: "s2 = PJ_SUCCESS" by auto
    have "jb_put_loop (jb\<lparr>jb_list := fl\<rparr>) seq frame b t st =
        Some (jb\<lparr>jb_list := f2, jb_discard := jb_discard jb + of_nat n\<rparr>, s2)"
      unfolding jb_put_loop_def
      by (subst while_option_unfold, simp add: True rm r2 m, subst while_option_unfold, simp add: s2)
    moreover have "spec_jput (jb_max_count jb) (origin (jb_list jb)) (fl_abs (jb_list jb)) seq
        (Frame frame b t) = (n, origin f2, fl_abs f2, s2)"
      using P2(2) m by (simp add: spec_jput_def S Let_def flip: n_def [unfolded length_fl_abs])
    ultimately show ?thesis
      using P2(1,3,4) s2 by (auto intro!: exI [of _ n] exI [of _ f2])
  qed
qed

lemma dropped_upto_jput:
  assumes "dropped_upto orig l r" "spec_jput cap orig l index s = (n, o', l', st)" "s \<noteq> Dropped"
  shows "dropped_upto o' l' r"
proof -
  obtain o1 l1 st1 where p: "spec_put cap orig l index s = (o1, l1, st1)" by (cases "spec_put cap orig l index s")
  note D = dropped_upto_put [OF assms(1) p assms(3)]
  have "dropped_upto o' l' r" if "spec_put cap (o1 + int k) (drop k l1) index s = (o', l', st)" for k
    using dropped_upto_put [OF dropped_upto_drop [OF D] that assms(3)] .
  then show ?thesis
    using assms(2) p D by (auto simp: spec_jput_def Let_def split: if_splits)
qed

lemma put_frame3_cases:
  assumes inv: "jb_inv jb"
  obtains n fl st where
    "spec_jput (jb_max_count jb) (origin (jb_list jb)) (fl_abs (jb_list jb)) seq
       (Frame (take (jb_frame_size jb) frame) b t) = (n, origin fl, fl_abs fl, st)"
    "st \<noteq> PJ_ETOOMANY"
    "jb_inv (jb\<lparr>jb_list := fl, jb_discard := jb_discard jb + of_nat n\<rparr>)"
    "pjmedia_jbuf_put_frame3 jb frame b seq t =
       (let jb1 = jb\<lparr>jb_list := fl, jb_discard := jb_discard jb + of_nat n\<rparr>;
            cur_size = int (jb_framelist_eff_size (jb_list jb));
            new_size = int (jb_framelist_eff_size fl)
        in if st = PJ_SUCCESS then
             Some (jbuf_update ((if jb_prefetching jb \<and> new_size \<ge> jb_prefetch jb
                 then jb1\<lparr>jb_prefetching := False\<rparr> else jb1)\<lparr>jb_level := jb_level jb + (if new_size > cur_size then new_size - cur_size else 1)\<rparr>) Op_Put, False)
           else Some (jb1\<lparr>jb_discard := jb_discard jb1 + 1\<rparr>, True))"
proof -
  let ?fr = "take (jb_frame_size jb) frame"
  obtain f0 st0 where r: "jb_framelist_put_at (jb_list jb) seq ?fr b t = (f0, st0)" by fastforce
  obtain n fl st where L: "jb_put_loop (jb\<lparr>jb_list := f0\<rparr>) seq ?fr b t st0 =
      Some (jb\<lparr>jb_list := fl, jb_discard := jb_discard jb + of_nat n\<rparr>, st)" "fl_inv fl"
    "spec_jput (jb_max_count jb) (origin (jb_list jb)) (fl_abs (jb_list jb)) seq (Frame ?fr b t) =
      (n, origin fl, fl_abs fl, st)" "st \<noteq> PJ_ETOOMANY"
    "max_count fl = jb_max_count jb" "frame_size fl = jb_frame_size jb"
    using put_loop_refines [OF inv _ r] by auto
  have "jb_plan_ok (jb\<lparr>jb_list := fl, jb_discard := jb_discard jb + of_nat n\<rparr>)"
    using inv dropped_upto_jput [OF _ L(3)] by (auto simp: jb_inv_def jb_plan_ok_def)
  then have "jb_inv (jb\<lparr>jb_list := fl, jb_discard := jb_discard jb + of_nat n\<rparr>)"
    using inv L by (simp add: jb_inv_def jb_levels_ok_def)
  from that [OF L(3,4) this] show ?thesis
    using r L(1) by (simp add: pjmedia_jbuf_put_frame3_def Let_def)
qed

lemma put_frame3_correct:
  assumes inv: "jb_inv jb"
  shows "\<exists>jb1 n st. pjmedia_jbuf_put_frame3 jb frame b seq t =
      Some (if st = PJ_SUCCESS then jbuf_update jb1 Op_Put else jb1, st \<noteq> PJ_SUCCESS) \<and>
    jb_inv jb1 \<and> jb_frame_size jb1 = jb_frame_size jb \<and>
    spec_jput (jb_max_count jb) (origin (jb_list jb)) (fl_abs (jb_list jb)) seq
       (Frame (take (jb_frame_size jb) frame) b t) =
      (n, origin (jb_list jb1), fl_abs (jb_list jb1), st) \<and> st \<noteq> PJ_ETOOMANY \<and>
    jb_discard jb1 = jb_discard jb + of_nat n + (if st = PJ_SUCCESS then 0 else 1) \<and>
    jb_prefetching jb1 = (jb_prefetching jb \<and>
      (st \<noteq> PJ_SUCCESS \<or> int (jb_framelist_eff_size (jb_list jb1)) < jb_prefetch jb))"
proof -
  obtain n fl st where P:
    "spec_jput (jb_max_count jb) (origin (jb_list jb)) (fl_abs (jb_list jb)) seq
       (Frame (take (jb_frame_size jb) frame) b t) = (n, origin fl, fl_abs fl, st)"
    "st \<noteq> PJ_ETOOMANY"
    "jb_inv (jb\<lparr>jb_list := fl, jb_discard := jb_discard jb + of_nat n\<rparr>)"
    "pjmedia_jbuf_put_frame3 jb frame b seq t =
       (let jb1 = jb\<lparr>jb_list := fl, jb_discard := jb_discard jb + of_nat n\<rparr>;
            cur_size = int (jb_framelist_eff_size (jb_list jb));
            new_size = int (jb_framelist_eff_size fl)
        in if st = PJ_SUCCESS then
             Some (jbuf_update ((if jb_prefetching jb \<and> new_size \<ge> jb_prefetch jb
                 then jb1\<lparr>jb_prefetching := False\<rparr> else jb1)\<lparr>jb_level := jb_level jb +
                  (if new_size > cur_size then new_size - cur_size else 1)\<rparr>) Op_Put, False)
           else Some (jb1\<lparr>jb_discard := jb_discard jb1 + 1\<rparr>, True))"
    using put_frame3_cases [OF inv] by metis
  define d where "d = (if int (jb_framelist_eff_size fl) > int (jb_framelist_eff_size (jb_list jb))
      then int (jb_framelist_eff_size fl) - int (jb_framelist_eff_size (jb_list jb)) else 1)"
  have d: "0 \<le> jb_level jb + d"
    using inv by (simp add: jb_inv_def jb_levels_ok_def d_def)
  define jb0 where "jb0 = jb\<lparr>jb_list := fl, jb_discard := jb_discard jb + of_nat n\<rparr>"
  define jb1 where "jb1 = (if st = PJ_SUCCESS then
      (if jb_prefetching jb \<and> int (jb_framelist_eff_size fl) \<ge> jb_prefetch jb
       then jb0\<lparr>jb_prefetching := False\<rparr> else jb0)\<lparr>jb_level := jb_level jb + d\<rparr>
    else jb0\<lparr>jb_discard := jb_discard jb0 + 1\<rparr>)"
  have "jb_inv jb1"
    using P(3) d unfolding jb1_def jb0_def by (auto intro!: jb_inv_level)
  moreover have "pjmedia_jbuf_put_frame3 jb frame b seq t =
      Some (if st = PJ_SUCCESS then jbuf_update jb1 Op_Put else jb1, st \<noteq> PJ_SUCCESS)"
    unfolding P(4) Let_def d_def [symmetric] jb0_def [symmetric] by (simp add: jb1_def)
  moreover have "jb_list jb1 = fl" "jb_frame_size jb1 = jb_frame_size jb"
    "jb_discard jb1 = jb_discard jb + of_nat n + (if st = PJ_SUCCESS then 0 else 1)"
    "jb_prefetching jb1 = (jb_prefetching jb \<and>
      (st \<noteq> PJ_SUCCESS \<or> int (jb_framelist_eff_size fl) < jb_prefetch jb))"
    by (auto simp: jb1_def jb0_def)
  ultimately show ?thesis
    using P(1,2) by blast
qed

section \<open>Removing frames\<close>

lemma jb_inv_shrink:
  assumes "jb_inv jb" "fl_inv fl" "max_count fl = max_count (jb_list jb)"
    "frame_size fl = frame_size (jb_list jb)" "fl_abs fl = drop n (fl_abs (jb_list jb))"
    "origin fl = origin (jb_list jb) + int n"
  shows "jb_inv (jb\<lparr>jb_list := fl\<rparr>)"
  using assms dropped_upto_drop [of "origin (jb_list jb)" "fl_abs (jb_list jb)" "jb_discard_ref jb" n]
  by (auto simp: jb_inv_def jb_levels_ok_def jb_plan_ok_def simp del: of_nat_diff)

abbreviation kept :: "jb_slot list \<Rightarrow> jb_slot list" where
  "kept l \<equiv> filter ((\<noteq>) Dropped) l"

lemma length_kept: "length (kept l) = length l - dropped_in l"
  using sum_length_filter_compl [of "(=) Dropped" l] by simp

lemma kept_drop: "kept (drop n l) = drop (length (kept (take n l))) (kept l)"
  by (metis append_eq_conv_conj append_take_drop_id filter_append)

lemma length_kept_drop: "length (kept (drop n l)) = length (kept l) - length (kept (take n l))"
  by (simp add: kept_drop)

lemma kept_take_le: "length (kept (take n l)) \<le> length (kept l)"
  by (metis append_take_drop_id filter_append le_add1 length_append)

lemma take_parts: "n \<le> length l \<Longrightarrow> length (kept (take n l)) + dropped_in (take n l) = n"
  using sum_length_filter_compl [of "(=) Dropped" "take n l"] by simp

lemma dropped_parts: "dropped_in (drop n l) + dropped_in (take n l) = dropped_in l"
  by (metis add.commute append_take_drop_id filter_append length_append)

text \<open>
  The loop of \<open>pjmedia_jbuf_remove_frame\<close>. \<open>tot\<close> is the number of undropped frames before the
  call and \<open>want\<close> the number asked for; what was removed last may contain \<open>prev - discarded_num\<close>
  dropped frames, for which the loop removes as many again.
\<close>

lemma remove_loop_correct:
  assumes "jb_inv jb" "dropped_in (fl_abs (jb_list jb)) \<le> prev"
    "count = tot - length (kept (fl_abs (jb_list jb))) + (prev - dropped_in (fl_abs (jb_list jb)))"
    "length (kept (fl_abs (jb_list jb))) \<le> tot" "count \<le> want" "count < 2 ^ 31"
    "count = want \<or> fl_abs (jb_list jb) = []"
  shows "\<exists>fl prev' a. jb_remove_loop jb prev count =
      Some (jb\<lparr>jb_list := fl\<rparr>, prev', min want tot) \<and> jb_inv (jb\<lparr>jb_list := fl\<rparr>) \<and>
      fl_abs fl = drop a (fl_abs (jb_list jb)) \<and> origin fl = origin (jb_list jb) + int a \<and>
      length (kept (fl_abs fl)) = tot - min want tot"
  using assms
proof (induction prev arbitrary: jb count rule: less_induct)
  case (less prev)
  have inv: "fl_inv (jb_list jb)" using less.prems(1) by (simp add: jb_inv_def)
  let ?l = "fl_abs (jb_list jb)"
  have dn: "discarded_num (jb_list jb) = dropped_in ?l" using fl_invD(3) [OF inv] .
  show ?case
  proof (cases "dropped_in ?l < prev")
    case False
    then have "jb_remove_loop jb prev count = Some (jb, prev, count)"
      unfolding jb_remove_loop_def by (subst while_option_unfold) (simp add: dn)
    moreover have "count = tot - length (kept ?l)" using less.prems(3) False by simp
    ultimately show ?thesis
      using less.prems by (intro exI [of _ "jb_list jb"] exI [of _ prev] exI [of _ 0]) auto
  next
    case True
    define c where "c = prev - dropped_in ?l"
    obtain fl n where r: "jb_framelist_remove_head (jb_list jb) c = (fl, n)" by fastforce
    note R = remove_head_refines [OF inv r]
    have n: "n \<le> fl_size (jb_list jb)" "n \<le> c" using R(1) by simp_all
    have c: "count = tot - length (kept ?l) + c" using less.prems(3) by (simp add: c_def)
    have sz: "fl_size (jb_list jb) < 2 ^ 31"
      using fl_windowD(2) [OF fl_invD(2) [OF inv]] fl_arraysD(2) [OF fl_invD(1) [OF inv]] by linarith
    have u: "usub32 count c = count - c" using less.prems(6) c by simp
    have u2: "to_u32 (int (count - c) + int n) = count - c + n"
      using less.prems(6) n c by (simp add: to_u32_nonneg nat_add_distrib flip: of_nat_add)
    have step: "jb_remove_loop jb prev count =
        jb_remove_loop (jb\<lparr>jb_list := fl\<rparr>) (dropped_in ?l) (count - c + n)"
      unfolding jb_remove_loop_def
      by (subst while_option_unfold) (simp add: dn True r u u2 flip: c_def)
    have inv': "jb_inv (jb\<lparr>jb_list := fl\<rparr>)"
      using less.prems(1) R dropped_upto_drop [of "origin (jb_list jb)" ?l]
      by (auto simp: jb_inv_def jb_levels_ok_def jb_plan_ok_def)
    note parts = take_parts [of n ?l] dropped_parts [of n ?l] length_kept_drop [of n ?l]
      kept_take_le [of n ?l]
    have "\<exists>fl' prev' a. jb_remove_loop (jb\<lparr>jb_list := fl\<rparr>) (dropped_in ?l) (count - c + n) =
        Some ((jb\<lparr>jb_list := fl\<rparr>)\<lparr>jb_list := fl'\<rparr>, prev', min want tot) \<and>
        jb_inv ((jb\<lparr>jb_list := fl\<rparr>)\<lparr>jb_list := fl'\<rparr>) \<and>
        fl_abs fl' = drop a (fl_abs (jb_list (jb\<lparr>jb_list := fl\<rparr>))) \<and>
        origin fl' = origin (jb_list (jb\<lparr>jb_list := fl\<rparr>)) + int a \<and>
        length (kept (fl_abs fl')) = tot - min want tot"
    proof (rule less.IH [OF True inv'])
      show "count - c + n < 2 ^ 31" "count - c + n \<le> want"
        using less.prems(5,6) n c by simp_all
      show "count - c + n = want \<or> fl_abs (jb_list (jb\<lparr>jb_list := fl\<rparr>)) = []"
      proof (cases "n = c")
        case True
        have "fl_abs fl = []" if "fl_abs (jb_list jb) = []" using R(3) that by simp
        then show ?thesis using less.prems(7) True c by auto
      next
        case False
        then have "n = fl_size (jb_list jb)" using R(1) by (simp add: min_def split: if_splits)
        then show ?thesis using R(3) by simp
      qed
      show "dropped_in (fl_abs (jb_list (jb\<lparr>jb_list := fl\<rparr>))) \<le> dropped_in ?l"
        "length (kept (fl_abs (jb_list (jb\<lparr>jb_list := fl\<rparr>)))) \<le> tot"
        using parts less.prems(4) by (simp_all add: R(3))
      show "count - c + n = tot - length (kept (fl_abs (jb_list (jb\<lparr>jb_list := fl\<rparr>)))) +
          (dropped_in ?l - dropped_in (fl_abs (jb_list (jb\<lparr>jb_list := fl\<rparr>))))"
        using parts less.prems(4) n c by (simp add: R(3))
    qed
    then obtain fl' prev' a where "jb_remove_loop (jb\<lparr>jb_list := fl\<rparr>) (dropped_in ?l) (count - c + n) =
        Some (jb\<lparr>jb_list := fl'\<rparr>, prev', min want tot)" "jb_inv (jb\<lparr>jb_list := fl'\<rparr>)"
        "fl_abs fl' = drop (a + n) ?l" "origin fl' = origin (jb_list jb) + int (a + n)"
        "length (kept (fl_abs fl')) = tot - min want tot"
      by (auto simp: R(3,4))
    then show ?thesis
      unfolding step by blast
  qed
qed

lemma remove_frame_correct:
  assumes inv: "jb_inv jb"
  shows "\<exists>fl a. pjmedia_jbuf_remove_frame jb cnt =
      Some (jb\<lparr>jb_list := fl\<rparr>, min cnt (length (kept (fl_abs (jb_list jb))))) \<and>
      jb_inv (jb\<lparr>jb_list := fl\<rparr>) \<and> fl_abs fl = drop a (fl_abs (jb_list jb)) \<and>
      origin fl = origin (jb_list jb) + int a \<and>
      kept (fl_abs fl) = drop (min cnt (length (kept (fl_abs (jb_list jb))))) (kept (fl_abs (jb_list jb)))"
proof -
  have fi: "fl_inv (jb_list jb)" using inv by (simp add: jb_inv_def)
  let ?l = "fl_abs (jb_list jb)"
  obtain fl n where r: "jb_framelist_remove_head (jb_list jb) cnt = (fl, n)" by fastforce
  note R = remove_head_refines [OF fi r]
  have n: "n \<le> fl_size (jb_list jb)" "n \<le> cnt" using R(1) by simp_all
  have sz: "fl_size (jb_list jb) < 2 ^ 31"
    using fl_windowD(2) [OF fl_invD(2) [OF fi]] fl_arraysD(2) [OF fl_invD(1) [OF fi]] by linarith
  note parts = take_parts [of n ?l] dropped_parts [of n ?l] length_kept_drop [of n ?l]
    kept_take_le [of n ?l]
  have "jb_inv (jb\<lparr>jb_list := fl\<rparr>)"
    using inv R dropped_upto_drop [of "origin (jb_list jb)" ?l]
    by (auto simp: jb_inv_def jb_levels_ok_def jb_plan_ok_def)
  note loop = remove_loop_correct [OF this, of "dropped_in ?l" n "length (kept ?l)" cnt]
  have pre: "n = length (kept ?l) - length (kept (fl_abs (jb_list (jb\<lparr>jb_list := fl\<rparr>)))) +
      (dropped_in ?l - dropped_in (fl_abs (jb_list (jb\<lparr>jb_list := fl\<rparr>))))"
    "dropped_in (fl_abs (jb_list (jb\<lparr>jb_list := fl\<rparr>))) \<le> dropped_in ?l"
    "length (kept (fl_abs (jb_list (jb\<lparr>jb_list := fl\<rparr>)))) \<le> length (kept ?l)"
    using parts n by (simp_all add: R(3))
  have "n < 2 ^ 31" "n = cnt \<or> fl_abs (jb_list (jb\<lparr>jb_list := fl\<rparr>)) = []"
    using R(1,3) sz by (auto simp: min_def split: if_splits)
  from loop [OF pre(2,1,3) n(2) this] obtain fl' prev' a where L: "jb_remove_loop (jb\<lparr>jb_list := fl\<rparr>) (dropped_in ?l) n =
      Some (jb\<lparr>jb_list := fl'\<rparr>, prev', min cnt (length (kept ?l)))" "jb_inv (jb\<lparr>jb_list := fl'\<rparr>)"
    "fl_abs fl' = drop a (fl_abs fl)" "origin fl' = origin fl + int a" "length (kept (fl_abs fl')) = length (kept ?l) - min cnt (length (kept ?l))"
    by auto
  have "fl_abs fl' = drop (a + n) ?l" using L(3) R(3) by (simp add: add.commute)
  moreover have "origin fl' = origin (jb_list jb) + int (a + n)" using L(4) R(4) by simp
  moreover have "kept (drop (a + n) ?l) = drop (min cnt (length (kept ?l))) (kept ?l)"
    using L(5) kept_drop [of "a + n" ?l] kept_take_le [of "a + n" ?l] unfolding calculation(1)
    by (metis diff_diff_cancel length_drop min.cobounded2)
  moreover have "pjmedia_jbuf_remove_frame jb cnt =
      Some (jb\<lparr>jb_list := fl'\<rparr>, min cnt (length (kept ?l)))"
    using L(1) r fl_invD(3) [OF fi] by (simp add: pjmedia_jbuf_remove_frame_def)
  ultimately show ?thesis
    using L(2) by (intro exI [of _ fl'] exI [of _ "a + n"]) simp
qed

section \<open>Getting frames\<close>

lemma get_frame3_correct:
  assumes inv: "jb_inv jb"
  shows "\<exists>jb1 ty g. pjmedia_jbuf_get_frame3 jb cap = Some (jbuf_update jb1 Op_Get, ty, g) \<and>
    jb_inv jb1 \<and> jb_frame_size jb1 = jb_frame_size jb \<and>
    (if jb_prefetching jb then
       jb_list jb1 = jb_list jb \<and> ty = Zero_Prefetch \<and> g = None \<and> jb_empty jb1 = jb_empty jb + 1
     else
       fl_abs (jb_list jb1) = fst (spec_get cap (fl_abs (jb_list jb))) \<and>
       origin (jb_list jb1) = origin (jb_list jb) + int (fl_size (jb_list jb) - fl_size (jb_list jb1)) \<and>
       fl_size (jb_list jb1) \<le> fl_size (jb_list jb) \<and>
       got_matches (origin (jb_list jb)) g (snd (spec_get cap (fl_abs (jb_list jb)))) \<and>
       (case g of
          None \<Rightarrow> ty = Zero_Empty \<and> jb_empty jb1 = jb_empty jb + 1 \<and> jb_lost jb1 = jb_lost jb \<and>
            jb_prefetching jb1 = (jb_prefetch jb \<noteq> 0)
        | Some r \<Rightarrow> ty = got_type r \<and> jb_empty jb1 = jb_empty jb \<and>
            jb_lost jb1 = jb_lost jb + (if ty = Normal then 0 else 1)))"
proof (cases "jb_prefetching jb")
  case True
  then show ?thesis
    using inv jb_inv_level [of jb "jb_level jb + 1"]
    by (auto simp: pjmedia_jbuf_get_frame3_def Let_def jb_inv_def jb_levels_ok_def jb_plan_ok_def
        intro!: exI [of _ "jb\<lparr>jb_empty := jb_empty jb + 1, jb_level := jb_level jb + 1\<rparr>"])
next
  case False
  have fi: "fl_inv (jb_list jb)" and cfg: "max_count (jb_list jb) = jb_max_count jb"
    "frame_size (jb_list jb) = jb_frame_size jb"
    using inv by (simp_all add: jb_inv_def)
  obtain fl g where G: "jb_framelist_get (jb_list jb) cap = Some (fl, g)" "fl_inv fl"
    "fl_abs fl = fst (spec_get cap (fl_abs (jb_list jb)))"
    "got_matches (origin (jb_list jb)) g (snd (spec_get cap (fl_abs (jb_list jb))))"
    "origin fl = origin (jb_list jb) + int (fl_size (jb_list jb) - fl_size fl)"
    "fl_size fl \<le> fl_size (jb_list jb)"
    "max_count fl = max_count (jb_list jb)" "frame_size fl = frame_size (jb_list jb)"
    using framelist_get_refines [OF fi, of cap] by blast
  have "fl_abs fl = drop (fl_size (jb_list jb) - fl_size fl) (fl_abs (jb_list jb))"
    using spec_get_drop [of cap "fl_abs (jb_list jb)"] G(3) by (metis length_fl_abs)
  then have "jb_inv (jb\<lparr>jb_list := fl\<rparr>)"
    by (rule jb_inv_shrink [OF inv G(2,7,8) _ G(5)])
  then have inv': "jb_inv (jb\<lparr>jb_list := fl, jb_level := jb_level jb + 1\<rparr>)"
    using inv jb_inv_level [of "jb\<lparr>jb_list := fl\<rparr>" "jb_level jb + 1"]
    by (simp add: jb_inv_def jb_levels_ok_def)
  have ty: "got_type r = Normal \<or> got_type r = Missing" if "g = Some r" for r
    using G(4) that
    by (auto simp: got_matches_def spec_get_def slot_out_def Let_def
        split: option.splits list.splits jb_slot.splits if_splits)
  show ?thesis
  proof (cases g)
    case None
    show ?thesis
      using False G None inv'
      by (intro exI [of _ "(if jb_prefetch jb \<noteq> 0 then (jb\<lparr>jb_list := fl\<rparr>)\<lparr>jb_prefetching := True\<rparr>
          else jb\<lparr>jb_list := fl\<rparr>)\<lparr>jb_empty := jb_empty jb + 1, jb_level := jb_level jb + 1\<rparr>"])
        (auto simp: pjmedia_jbuf_get_frame3_def Let_def jb_inv_def jb_levels_ok_def jb_plan_ok_def)
  next
    case (Some r)
    define jb2 where "jb2 = (if got_type r = Normal then jb\<lparr>jb_list := fl\<rparr>
      else jb\<lparr>jb_list := fl, jb_lost := jb_lost jb + 1\<rparr>)"
    define jb3 where "jb3 = (if jb_last_op jb2 = Op_Put then jb2\<lparr>jb_delay := math_stat_update (jb_delay jb2)
       (to_s32 (int ((jb_framelist_eff_size fl + 1) * jb_frame_ptime jb2)))\<rparr> else jb2)"
    have k: "jb_list jb3 = fl" "jb_frame_size jb3 = jb_frame_size jb" "jb_empty jb3 = jb_empty jb"
      "jb_lost jb3 = jb_lost jb + (if got_type r = Normal then 0 else 1)" "jb_level jb3 = jb_level jb"
      by (simp_all add: jb3_def jb2_def)
    have "jb_inv (jb3\<lparr>jb_level := jb_level jb3 + 1\<rparr>)"
      using inv' by (simp add: jb3_def jb2_def jb_inv_def jb_levels_ok_def jb_plan_ok_def)
    moreover have "pjmedia_jbuf_get_frame3 jb cap =
        Some (jbuf_update (jb3\<lparr>jb_level := jb_level jb3 + 1\<rparr>) Op_Get, got_type r, Some r)"
      using False G(1) Some ty [OF Some]
      by (cases "got_type r = Normal") (auto simp: pjmedia_jbuf_get_frame3_def Let_def jb3_def jb2_def)
    ultimately show ?thesis
      using False G(3-6) Some k
      by (intro exI [of _ "jb3\<lparr>jb_level := jb_level jb3 + 1\<rparr>"]) simp
  qed
qed

section \<open>Frames and their sequence numbers\<close>

text \<open>
  The frames a list holds, each with the sequence number of its slot. The buffer's operations move
  the front of the list forward and lose frames, and only a put adds one, except when a put's
  sequence number lies so far back that the list is renumbered.
\<close>

definition frames_of :: "jb_framelist \<Rightarrow> (int \<times> u8 list) set" where
  "frames_of f = {(origin f + int k, bs) | k bs. k < fl_size f \<and> (\<exists>i t. fl_abs f ! k = Frame bs i t)}"

definition frames_in :: "int \<Rightarrow> jb_slot list \<Rightarrow> (int \<times> u8 list) set \<Rightarrow> bool" where
  "frames_in orig l L \<longleftrightarrow> (\<forall>k < length l. \<forall>bs i t. l ! k = Frame bs i t \<longrightarrow> (orig + int k, bs) \<in> L)"

lemma frames_in_Nil [simp]: "frames_in orig [] L"
  by (simp add: frames_in_def)

lemma frames_inD: "frames_in orig l L \<Longrightarrow> k < length l \<Longrightarrow> l ! k = Frame bs i t \<Longrightarrow> (orig + int k, bs) \<in> L"
  by (simp add: frames_in_def)

lemma frames_in_drop:
  assumes "frames_in orig l L" shows "frames_in (orig + int n) (drop n l) L"
  unfolding frames_in_def
proof (intro allI impI)
  fix k bs i t assume "k < length (drop n l)" "drop n l ! k = Frame bs i t"
  then show "(orig + int n + int k, bs) \<in> L"
    using frames_inD [OF assms, of "n + k" bs i t] by (simp add: add.assoc)
qed

lemma frames_in_dropped: "frames_in orig l L \<Longrightarrow> frames_in orig (l[k := Dropped]) L"
  by (cases "k < length l") (auto simp: frames_in_def nth_list_update split: if_splits)

lemma frames_in_store:
  assumes "frames_in orig l L" "spec_store l d (Frame bs i t) = (l', st)" "(orig + int d, bs) \<in> L"
  shows "frames_in orig l' L"
proof (cases "d < length l")
  case True
  then show ?thesis
    using assms by (auto simp: frames_in_def spec_store_def nth_list_update split: if_splits)
next
  case False
  then have l': "l' = l @ replicate (d - length l) Gap @ [Frame bs i t]"
    using assms(2) by (simp add: spec_store_def)
  show ?thesis
    unfolding frames_in_def
  proof (intro allI impI)
    fix k b j u assume k: "k < length l'" "l' ! k = Frame b j u"
    then consider "k < length l" | "k = d" "b = bs"
      using False unfolding l' by (fastforce simp: nth_append nth_Cons' split: if_splits)
    then show "(orig + int k, b) \<in> L"
      using k assms(1,3) by cases (auto simp: l' nth_append frames_in_def)
  qed
qed

lemma frames_in_put:
  assumes "frames_in orig l L" "spec_put cap orig l index (Frame bs i t) = (o', l', st)"
    and "(index, bs) \<in> L" and near: "orig - index < 100"
  shows "frames_in o' l' L \<and> orig \<le> o' \<and> (st = PJ_ETOOMANY \<longrightarrow> o' \<le> index)"
proof (cases "index < orig")
  case True
  then show ?thesis using assms by (simp add: spec_put_def)
next
  case False
  define o2 where "o2 = (if l = [] then index else orig)"
  have o2: "orig \<le> o2" "o2 \<le> index" using False by (simp_all add: o2_def)
  have eq: "spec_put cap orig l index (Frame bs i t) =
     (if index - o2 \<ge> int cap then
        (if index - o2 > 3000 then (index, [Frame bs i t], PJ_SUCCESS) else (o2, l, PJ_ETOOMANY))
      else (o2, spec_store l (nat (index - o2)) (Frame bs i t)))"
    using False by (simp add: spec_put_def Let_def o2_def)
  have "frames_in o2 l L" using assms(1) by (simp add: o2_def)
  moreover have "frames_in index [Frame bs i t] L" using assms(3) by (simp add: frames_in_def)
  ultimately show ?thesis
    using assms(2,3) o2 False unfolding eq
    by (auto split: if_splits intro: frames_in_store simp: spec_store_def)
qed

lemma frames_in_jput:
  assumes "frames_in orig l L" "spec_jput cap orig l index (Frame bs i t) = (n, o', l', st)"
    and "(index, bs) \<in> L" and near: "orig - index < 100" and "0 < cap"
  shows "frames_in o' l' L \<and> orig \<le> o'"
proof -
  obtain o1 l1 st1 where p: "spec_put cap orig l index (Frame bs i t) = (o1, l1, st1)"
    by (cases "spec_put cap orig l index (Frame bs i t)")
  note P = frames_in_put [OF assms(1) p assms(3) near]
  show ?thesis
  proof (cases "st1 = PJ_ETOOMANY")
    case False
    then show ?thesis using assms(2) P p by (simp add: spec_jput_def)
  next
    case True
    define m where "m = min (nat (index - o1 - int cap + 1)) (length l1)"
    have "index - o1 \<ge> int cap" using spec_put_full [OF p [unfolded True] assms(5)] by simp
    then have "o1 + int m \<le> index" using assms(5) by (simp add: m_def)
    then have near': "(o1 + int m) - index < 100" by simp
    have "spec_put cap (o1 + int m) (drop m l1) index (Frame bs i t) = (o', l', st)"
      using assms(2) p True by (auto simp: spec_jput_def Let_def simp flip: m_def)
    from frames_in_put [OF frames_in_drop this assms(3) near'] P show ?thesis by auto
  qed
qed

section \<open>Runs of the buffer\<close>

text \<open>What the discard algorithms, and so \<open>jbuf_update\<close>, do to the list.\<close>

definition list_forward :: "jb_framelist \<Rightarrow> jb_framelist \<Rightarrow> bool" where
  "list_forward f f' \<longleftrightarrow> origin f \<le> origin f' \<and>
     (\<forall>L. frames_in (origin f) (fl_abs f) L \<longrightarrow> frames_in (origin f') (fl_abs f') L)"

lemma list_forward_refl [simp]: "list_forward f f"
  by (simp add: list_forward_def)

lemma list_forward_remove:
  "fl_inv f \<Longrightarrow> jb_framelist_remove_head f c = (f', n) \<Longrightarrow> list_forward f f'"
  using remove_head_refines [of f c f' n] frames_in_drop [of "origin f" "fl_abs f" _ n]
  by (simp add: list_forward_def)

lemma jbuf_run_algo_forward:
  assumes inv: "jb_inv jb"
  shows "list_forward (jb_list jb) (jb_list (jbuf_run_algo jb))"
proof (cases "jb_algo jb")
  case Discard_None
  then show ?thesis by (simp add: jbuf_run_algo_def)
next
  case Discard_Static
  obtain fl n where r: "jb_framelist_remove_head (jb_list jb) 1 = (fl, n)" by fastforce
  have "fl_inv (jb_list jb)" using inv by (simp add: jb_inv_def)
  then show ?thesis
    using Discard_Static r list_forward_remove [OF _ r]
    by (simp add: jbuf_run_algo_def jbuf_discard_static_def Let_def)
next
  case Discard_Progressive
  show ?thesis
  proof (cases "prog_fires jb")
    case True
    have fl: "fl_inv (jb_list jb)" using inv by (simp add: jb_inv_def)
    obtain f' st where r: "jb_framelist_discard (jb_list jb) (prog_target jb) = (f', st)" by fastforce
    note R = framelist_discard_refines [OF fl prog_target_free(1-3) [OF inv Discard_Progressive True] r]
    show ?thesis
      using True r R(2,4) Discard_Progressive
      by (simp add: jbuf_run_algo_def jbuf_discard_progressive_eq list_forward_def frames_in_dropped)
  next
    case False
    then show ?thesis
      using Discard_Progressive by (simp add: jbuf_run_algo_def jbuf_discard_progressive_eq)
  qed
qed

lemma jbuf_update_forward:
  assumes inv: "jb_inv jb"
  shows "list_forward (jb_list jb) (jb_list (jbuf_update jb oper))"
proof -
  have keep: "list_forward (jb_list jb) (jb_list (jbuf_run_algo x))" if "jb_inv x" "jb_list x = jb_list jb" for x
    using jbuf_run_algo_forward [OF that(1)] that(2) by simp
  have "0 \<le> min (jb_level jb) (jb_max_burst jb)"
    using inv by (simp add: jb_inv_def jb_levels_ok_def)
  then show ?thesis
    using inv unfolding jbuf_update_def Let_def
    by (auto intro!: keep jbuf_calculate_jitter_inv jb_inv_level)
qed

datatype jb_event =
    Ev_Put "u8 list" u32 int u32
  | Ev_Get "nat option"
  | Ev_Remove nat
  | Ev_Adaptive nat nat nat
  | Ev_Fixed nat
  | Ev_Discard jb_discard_algo
  | Ev_Ptime nat
  | Ev_Reset

text \<open>
  One call on the buffer, with the frame it delivers: its sequence number, the size of the caller's
  buffer, and the bytes. That every call returns is \<open>put_frame3_cases\<close>, \<open>get_frame3_correct\<close> and
  \<open>remove_frame_correct\<close>.
\<close>

fun jb_event_step :: "pjmedia_jbuf \<Rightarrow> jb_event \<Rightarrow> pjmedia_jbuf \<times> (int \<times> nat option \<times> u8 list) list" where
  "jb_event_step jb (Ev_Put frame b seq t) = (fst (the (pjmedia_jbuf_put_frame3 jb frame b seq t)), [])"
| "jb_event_step jb (Ev_Get cap) =
     (case the (pjmedia_jbuf_get_frame3 jb cap) of
        (jb', Normal, Some r) \<Rightarrow> (jb', [(got_seq r, cap, got_bytes r)])
      | (jb', _, _) \<Rightarrow> (jb', []))"
| "jb_event_step jb (Ev_Remove n) = (fst (the (pjmedia_jbuf_remove_frame jb n)), [])"
| "jb_event_step jb (Ev_Adaptive p mn mx) = (fst (pjmedia_jbuf_set_adaptive jb p mn mx), [])"
| "jb_event_step jb (Ev_Fixed p) = (fst (pjmedia_jbuf_set_fixed jb p), [])"
| "jb_event_step jb (Ev_Discard algo) = (pjmedia_jbuf_set_discard jb algo, [])"
| "jb_event_step jb (Ev_Ptime p) = (pjmedia_jbuf_set_ptime jb p, [])"
| "jb_event_step jb Ev_Reset = (pjmedia_jbuf_reset jb, [])"

text \<open>
  What the application has to keep to: a frame time of 1 to 200 ms, and not to leave the static algorithm while a plan of the
  progressive one is pending, which a reset ends; \<open>jb_algo_switch_miscounts\<close> below shows what happens otherwise.
\<close>

definition jb_switch_ok :: "pjmedia_jbuf \<Rightarrow> jb_discard_algo \<Rightarrow> bool" where
  "jb_switch_ok jb algo \<longleftrightarrow> (jb_algo jb = Discard_Static \<and> algo \<noteq> Discard_Static \<longrightarrow> jb_discard_dist jb = 0)"

definition jb_event_ok :: "pjmedia_jbuf \<Rightarrow> jb_event \<Rightarrow> bool" where
  "jb_event_ok jb ev =
     (case ev of
        Ev_Ptime p \<Rightarrow> 0 < p \<and> p \<le> 200
      | Ev_Fixed p \<Rightarrow> jb_switch_ok jb Discard_None
      | Ev_Discard algo \<Rightarrow> jb_switch_ok jb algo
      | _ \<Rightarrow> True)"

lemma pjmedia_jbuf_reset_inv: "jb_inv jb \<Longrightarrow> jb_inv (pjmedia_jbuf_reset jb)"
  using jb_framelist_reset_inv [of "jb_list jb"]
  by (simp add: jb_inv_def jb_levels_ok_def jb_plan_ok_def pjmedia_jbuf_reset_def fl_inv_def
      jb_framelist_reset_def)

lemma jb_burst_limit_pos: "0 \<le> jb_burst_limit p c"
  by (simp add: jb_burst_limit_def)

lemma jb_event_step_inv:
  assumes inv: "jb_inv jb" and ok: "jb_event_ok jb ev"
  shows "jb_inv (fst (jb_event_step jb ev))"
proof (cases ev)
  case (Ev_Put frame b seq t)
  obtain jb1 st where "pjmedia_jbuf_put_frame3 jb frame b seq t =
      Some (if st = PJ_SUCCESS then jbuf_update jb1 Op_Put else jb1, st \<noteq> PJ_SUCCESS)" "jb_inv jb1"
    using put_frame3_correct [OF inv, of frame b seq t] by blast
  then show ?thesis by (simp add: Ev_Put jbuf_update_inv)
next
  case (Ev_Get cap)
  then show ?thesis
    using get_frame3_correct [OF inv, of cap]
    by (auto simp: jbuf_update_inv split: jb_ftype.splits option.splits prod.splits)
next
  case (Ev_Remove n)
  then show ?thesis using remove_frame_correct [OF inv, of n] by auto
next
  case (Ev_Adaptive p mn mx)
  then show ?thesis
    using inv by (auto simp: pjmedia_jbuf_set_adaptive_def jb_inv_def jb_levels_ok_def jb_plan_ok_def)
next
  case (Ev_Fixed p)
  then show ?thesis
    using inv ok
    by (auto simp: pjmedia_jbuf_set_fixed_def pjmedia_jbuf_set_discard_def jb_inv_def jb_levels_ok_def jb_plan_ok_def
        jb_event_ok_def jb_switch_ok_def)
next
  case (Ev_Discard algo)
  then show ?thesis
    using inv ok
    by (auto simp: pjmedia_jbuf_set_discard_def jb_inv_def jb_levels_ok_def jb_plan_ok_def jb_event_ok_def jb_switch_ok_def)
next
  case (Ev_Ptime p)
  then show ?thesis
    using inv ok jb_burst_limit_pos
    by (auto simp: pjmedia_jbuf_set_ptime_def jb_inv_def jb_levels_ok_def jb_plan_ok_def jb_event_ok_def)
next
  case Ev_Reset
  then show ?thesis using inv by (simp add: pjmedia_jbuf_reset_inv)
qed

interpretation jb_machine: guarded_machine jb_event_step jb_inv jb_event_ok
  by unfold_locales (metis fst_conv jb_event_step_inv)

text \<open>The memory the arrays get from the pool, whatever it holds.\<close>

definition jb_mem_ok :: "nat \<Rightarrow> nat \<Rightarrow> u8 list list \<times> u32 list \<times> u32 list \<Rightarrow> bool" where
  "jb_mem_ok fsize count mem \<longleftrightarrow> 0 < count \<and> count < 2 ^ 31 \<and>
     length (fst mem) = count \<and> (\<forall>b \<in> set (fst mem). length b = fsize) \<and>
     length (fst (snd mem)) = count \<and> length (snd (snd mem)) = count"

lemma jb_framelist_init_inv:
  "jb_mem_ok fsize count mem \<Longrightarrow> fl_inv (jb_framelist_init fsize count mem)"
  by (auto simp: jb_mem_ok_def jb_framelist_init_def jb_framelist_reset_def fl_inv_def fl_arrays_def
      fl_window_def fl_abs_def)

lemma jb_four_fifths: "to_u32 (int count * 4) div 5 \<le> count"
proof -
  have "to_u32 (int count * 4) \<le> count * 4"
    using to_u32_le [of "int count * 4"] by (simp add: nat_mult_distrib)
  then show ?thesis using div_le_mono [of "to_u32 (int count * 4)" "count * 4" 5] by linarith
qed

lemma pjmedia_jbuf_create_inv:
  assumes "jb_mem_ok fsize count mem" "0 < ptime" "ptime \<le> 200"
  shows "jb_inv (pjmedia_jbuf_create fsize ptime count mem)"
proof -
  have "jb_inv (pjmedia_jbuf_create fsize ptime count mem) \<longleftrightarrow>
      fl_inv (jb_framelist_reset (jb_framelist_init fsize count mem))"
    using assms(2,3) jb_burst_limit_pos jb_four_fifths [of count]
    by (auto simp: pjmedia_jbuf_create_def pjmedia_jbuf_reset_def pjmedia_jbuf_set_discard_def
        jb_inv_def jb_levels_ok_def jb_plan_ok_def jb_framelist_reset_def jb_framelist_init_def
        zdiv_int)
  then show ?thesis
    using jb_framelist_reset_inv(2) [OF fl_invD(1) [OF jb_framelist_init_inv [OF assms(1)]]] by simp
qed

text \<open>
  A run that delivers frames from a set \<open>L\<close> of numbered frames: its puts are of frames of \<open>L\<close>, none
  lies 100 or more before the front of the list, and the buffer is not reset.
\<close>

definition jb_forward_ok :: "nat \<Rightarrow> (int \<times> u8 list) set \<Rightarrow> pjmedia_jbuf \<Rightarrow> jb_event \<Rightarrow> bool" where
  "jb_forward_ok fsize L jb ev \<longleftrightarrow> jb_event_ok jb ev \<and>
     (case ev of
        Ev_Put frame b seq t \<Rightarrow> (seq, take fsize frame) \<in> L \<and> origin (jb_list jb) - seq < 100
      | Ev_Reset \<Rightarrow> False
      | _ \<Rightarrow> True)"

definition jb_linv :: "nat \<Rightarrow> (int \<times> u8 list) set \<Rightarrow> pjmedia_jbuf \<Rightarrow> bool" where
  "jb_linv fsize L jb \<longleftrightarrow> jb_inv jb \<and> jb_frame_size jb = fsize \<and>
     frames_in (origin (jb_list jb)) (fl_abs (jb_list jb)) L"

definition jb_delivery_ok :: "(int \<times> u8 list) set \<Rightarrow> int \<times> nat option \<times> u8 list \<Rightarrow> bool" where
  "jb_delivery_ok L d = (case d of (seq, cap, bs) \<Rightarrow>
     (\<exists>frame. (seq, frame) \<in> L \<and> bs = (case cap of None \<Rightarrow> frame | Some m \<Rightarrow> take m frame)))"

lemma jbuf_run_algo_frame_size [simp]: "jb_frame_size (jbuf_run_algo jb) = jb_frame_size jb"
  by (cases "jb_algo jb")
    (simp_all add: jbuf_run_algo_def jbuf_discard_static_def jbuf_discard_progressive_eq Let_def
      split: prod.split)

lemma jbuf_update_frame_size [simp]: "jb_frame_size (jbuf_update jb oper) = jb_frame_size jb"
  by (simp add: jbuf_update_def Let_def)

lemma jb_linv_update: "jb_linv fsize L jb \<Longrightarrow> jb_linv fsize L (jbuf_update jb oper)"
  using jbuf_update_forward [of jb oper] by (simp add: jb_linv_def jbuf_update_inv list_forward_def)

lemma jbuf_update_origin: "jb_inv jb \<Longrightarrow> origin (jb_list jb) \<le> origin (jb_list (jbuf_update jb oper))"
  using jbuf_update_forward [of jb oper] by (simp add: list_forward_def)

lemma put_forward:
  assumes linv: "jb_linv fsize L jb" and "(seq, take fsize frame) \<in> L"
    and near: "origin (jb_list jb) - seq < 100"
  shows "\<exists>jb' d. pjmedia_jbuf_put_frame3 jb frame b seq t = Some (jb', d) \<and> jb_linv fsize L jb' \<and>
    origin (jb_list jb) \<le> origin (jb_list jb')"
proof -
  have inv: "jb_inv jb" and fs: "jb_frame_size jb = fsize" using linv by (simp_all add: jb_linv_def)
  obtain jb1 n st where P: "pjmedia_jbuf_put_frame3 jb frame b seq t =
      Some (if st = PJ_SUCCESS then jbuf_update jb1 Op_Put else jb1, st \<noteq> PJ_SUCCESS)" "jb_inv jb1"
    "spec_jput (jb_max_count jb) (origin (jb_list jb)) (fl_abs (jb_list jb)) seq
       (Frame (take (jb_frame_size jb) frame) b t) = (n, origin (jb_list jb1), fl_abs (jb_list jb1), st)"
    "jb_frame_size jb1 = jb_frame_size jb"
    using put_frame3_correct [OF inv, of frame b seq t] by blast
  have "0 < jb_max_count jb"
    using inv fl_arraysD(1) fl_invD(1) by (metis jb_inv_def)
  note F = frames_in_jput [OF _ P(3) _ near this, of L]
  have "jb_linv fsize L jb1" "origin (jb_list jb) \<le> origin (jb_list jb1)"
    using F linv assms(2) P(2,4) inv by (auto simp: jb_linv_def jb_inv_def)
  then show ?thesis
    using P(1) jb_linv_update jbuf_update_origin [OF P(2)]
    by (cases "st = PJ_SUCCESS") (auto intro: order_trans)
qed

lemma spec_get_frame:
  assumes "spec_get cap l = (l', Some (Normal, bs, b, d))"
  obtains "d = 0" "length l' < length l"
    "\<exists>fr t. l ! 0 = Frame fr b t \<and> bs = (case cap of None \<Rightarrow> fr | Some m \<Rightarrow> take m fr)"
proof -
  obtain s rest where dw: "dropWhile ((=) Dropped) l = s # rest"
    using assms by (cases "dropWhile ((=) Dropped) l") (auto simp: spec_get_def Let_def)
  have d: "takeWhile ((=) Dropped) l = []" "d = 0" "slot_out cap s = (Normal, bs, b)" "l' = rest"
    using assms dw by (auto simp: spec_get_def Let_def split: if_splits prod.splits)
  have "l = s # rest"
    using dw d(1) by (metis append_Nil takeWhile_dropWhile_id)
  then show ?thesis
    using that d by (auto simp: slot_out_def split: jb_slot.splits)
qed

lemma get_forward:
  assumes linv: "jb_linv fsize L jb"
  shows "\<exists>jb' ty g. pjmedia_jbuf_get_frame3 jb cap = Some (jb', ty, g) \<and> jb_linv fsize L jb' \<and>
    origin (jb_list jb) \<le> origin (jb_list jb') \<and>
    (\<forall>r. g = Some r \<and> ty = Normal \<longrightarrow> origin (jb_list jb) \<le> got_seq r \<and>
       got_seq r < origin (jb_list jb') \<and> jb_delivery_ok L (got_seq r, cap, got_bytes r))"
proof -
  let ?l = "fl_abs (jb_list jb)"
  have inv: "jb_inv jb" and fr: "frames_in (origin (jb_list jb)) ?l L"
    using linv by (simp_all add: jb_linv_def)
  obtain jb1 ty g where G: "pjmedia_jbuf_get_frame3 jb cap = Some (jbuf_update jb1 Op_Get, ty, g)"
    "jb_inv jb1" "jb_frame_size jb1 = jb_frame_size jb"
    "if jb_prefetching jb then
       jb_list jb1 = jb_list jb \<and> ty = Zero_Prefetch \<and> g = None \<and> jb_empty jb1 = jb_empty jb + 1
     else
       fl_abs (jb_list jb1) = fst (spec_get cap ?l) \<and>
       origin (jb_list jb1) = origin (jb_list jb) + int (fl_size (jb_list jb) - fl_size (jb_list jb1)) \<and>
       fl_size (jb_list jb1) \<le> fl_size (jb_list jb) \<and>
       got_matches (origin (jb_list jb)) g (snd (spec_get cap ?l)) \<and>
       (case g of
          None \<Rightarrow> ty = Zero_Empty \<and> jb_empty jb1 = jb_empty jb + 1 \<and> jb_lost jb1 = jb_lost jb \<and>
            jb_prefetching jb1 = (jb_prefetch jb \<noteq> 0)
        | Some r \<Rightarrow> ty = got_type r \<and> jb_empty jb1 = jb_empty jb \<and>
            jb_lost jb1 = jb_lost jb + (if ty = Normal then 0 else 1))"
    using get_frame3_correct [OF inv, of cap] by blast
  have "fl_abs (jb_list jb1) = drop (fl_size (jb_list jb) - fl_size (jb_list jb1)) ?l"
    if "\<not> jb_prefetching jb"
    using that G(4) spec_get_drop [of cap ?l] by (metis length_fl_abs)
  then have l1: "frames_in (origin (jb_list jb1)) (fl_abs (jb_list jb1)) L \<and>
      origin (jb_list jb) \<le> origin (jb_list jb1)"
    using G(4) fr frames_in_drop [OF fr, of "fl_size (jb_list jb) - fl_size (jb_list jb1)"]
    by (cases "jb_prefetching jb") simp_all
  then have linv1: "jb_linv fsize L jb1" using linv G(2,3) by (simp add: jb_linv_def)
  have out: "got_seq r = origin (jb_list jb) \<and> got_seq r < origin (jb_list jb1) \<and>
      jb_delivery_ok L (got_seq r, cap, got_bytes r)" if gr: "g = Some r" "ty = Normal" for r
  proof -
    have np: "\<not> jb_prefetching jb" using G(4) gr by auto
    obtain l' bs b d where sp: "spec_get cap ?l = (l', Some (Normal, bs, b, d))"
      "got_bytes r = bs" "got_seq r = origin (jb_list jb) + int d" "fl_size (jb_list jb1) = length l'"
      using G(4) np gr length_fl_abs [of "jb_list jb1"] unfolding got_matches_def
      by (cases "spec_get cap ?l") (auto split: option.splits simp del: length_fl_abs)
    obtain "d = 0" "length l' < length ?l"
      "\<exists>fr t. ?l ! 0 = Frame fr b t \<and> bs = (case cap of None \<Rightarrow> fr | Some m \<Rightarrow> take m fr)"
      using spec_get_frame [OF sp(1)] by blast
    then show ?thesis
      using sp(2-4) np G(4) frames_inD [OF fr, of 0] by (auto simp: jb_delivery_ok_def)
  qed
  have "\<forall>r. g = Some r \<and> ty = Normal \<longrightarrow> origin (jb_list jb) \<le> got_seq r \<and>
       got_seq r < origin (jb_list (jbuf_update jb1 Op_Get)) \<and>
       jb_delivery_ok L (got_seq r, cap, got_bytes r)"
    using out jbuf_update_origin [OF G(2), of Op_Get] by force
  then show ?thesis
    using G(1) jb_linv_update [OF linv1, of Op_Get] l1 jbuf_update_origin [OF G(2), of Op_Get]
    by (meson order_trans)
qed

lemma jb_event_step_forward:
  assumes "jb_linv fsize L jb" "jb_forward_ok fsize L jb ev" "jb_event_step jb ev = (jb', outs)"
  shows "jb_linv fsize L jb' \<and> origin (jb_list jb) \<le> origin (jb_list jb') \<and>
    sorted_wrt (<) (map fst outs) \<and>
    (\<forall>out \<in> set outs. origin (jb_list jb) \<le> fst out \<and> fst out < origin (jb_list jb') \<and> jb_delivery_ok L out)"
proof (cases ev)
  case (Ev_Put frame b seq t)
  then show ?thesis
    using assms put_forward [OF assms(1), of seq frame b t] by (auto simp: jb_forward_ok_def)
next
  case (Ev_Get cap)
  obtain jb2 ty g where G: "pjmedia_jbuf_get_frame3 jb cap = Some (jb2, ty, g)" "jb_linv fsize L jb2"
    "origin (jb_list jb) \<le> origin (jb_list jb2)"
    "\<forall>r. g = Some r \<and> ty = Normal \<longrightarrow> origin (jb_list jb) \<le> got_seq r \<and>
       got_seq r < origin (jb_list jb2) \<and> jb_delivery_ok L (got_seq r, cap, got_bytes r)"
    using get_forward [OF assms(1), of cap] by blast
  then show ?thesis
    using assms(3) by (auto simp: Ev_Get split: jb_ftype.splits option.splits)
next
  case (Ev_Remove n)
  have inv: "jb_inv jb" using assms(1) by (simp add: jb_linv_def)
  obtain fl a m where R: "pjmedia_jbuf_remove_frame jb n = Some (jb\<lparr>jb_list := fl\<rparr>, m)"
    "jb_inv (jb\<lparr>jb_list := fl\<rparr>)" "fl_abs fl = drop a (fl_abs (jb_list jb))"
    "origin fl = origin (jb_list jb) + int a"
    using remove_frame_correct [OF inv, of n] by blast
  then show ?thesis
    using assms(1,3) frames_in_drop by (auto simp: Ev_Remove jb_linv_def)
next
  case (Ev_Adaptive p mn mx)
  have "jb_inv (fst (pjmedia_jbuf_set_adaptive jb p mn mx))"
    using assms(1) jb_event_step_inv [of jb ev] by (simp add: Ev_Adaptive jb_event_ok_def jb_linv_def)
  then show ?thesis
    using assms(1,3) by (auto simp: Ev_Adaptive jb_linv_def pjmedia_jbuf_set_adaptive_def split: if_splits)
next
  case (Ev_Fixed p)
  have "jb_inv (fst (pjmedia_jbuf_set_fixed jb p))"
    using assms(1,2) jb_event_step_inv [of jb ev] by (simp add: Ev_Fixed jb_linv_def jb_forward_ok_def)
  then show ?thesis
    using assms(1,3)
    by (auto simp: Ev_Fixed jb_linv_def pjmedia_jbuf_set_fixed_def pjmedia_jbuf_set_discard_def split: if_splits)
next
  case (Ev_Discard algo)
  have "jb_inv (pjmedia_jbuf_set_discard jb algo)"
    using assms(1,2) jb_event_step_inv [of jb ev] by (simp add: Ev_Discard jb_linv_def jb_forward_ok_def)
  then show ?thesis
    using assms(1,3) by (auto simp: Ev_Discard jb_linv_def pjmedia_jbuf_set_discard_def)
next
  case (Ev_Ptime p)
  have "jb_inv (pjmedia_jbuf_set_ptime jb p)"
    using assms(1,2) jb_event_step_inv [of jb ev] by (simp add: Ev_Ptime jb_linv_def jb_forward_ok_def)
  then show ?thesis
    using assms(1,3) by (auto simp: Ev_Ptime jb_linv_def pjmedia_jbuf_set_ptime_def)
next
  case Ev_Reset
  then show ?thesis using assms(2) by (simp add: jb_forward_ok_def)
qed

interpretation jb_delivery: output_machine jb_event_step "jb_linv fsize L" "jb_forward_ok fsize L"
  "\<lambda>jb. origin (jb_list jb)" fst "jb_delivery_ok L" for fsize L
  by unfold_locales (use jb_event_step_forward in blast)+

lemma pjmedia_jbuf_create_linv:
  assumes "jb_mem_ok fsize count mem" "0 < ptime" "ptime \<le> 200"
  shows "jb_linv fsize L (pjmedia_jbuf_create fsize ptime count mem)"
  using pjmedia_jbuf_create_inv [OF assms]
  by (simp add: jb_linv_def) (simp add: pjmedia_jbuf_create_def pjmedia_jbuf_reset_def
      pjmedia_jbuf_set_discard_def jb_framelist_reset_def jb_framelist_init_def fl_abs_def)

section \<open>Properties\<close>

text \<open>C4. Whatever calls are made on a created buffer, puts, gets, removals, resets and every setting, as long as the frame time is
  1 to 200 ms and static discarding is not left while a plan of the progressive algorithm is pending: its frame list is well-formed and never holds more than its capacity, the size the buffer computes is exactly the number of slots that are
  not discarded frames, the prefetch stays between 0 and its maximum, which stays within the capacity, and the burst level
  stays between 0 and four fifths of the capacity.\<close>

theorem jb_run_invariant:
  assumes "jb_mem_ok fsize count mem" "0 < ptime" "ptime \<le> 200"
    and "guarded jb_event_step jb_event_ok (pjmedia_jbuf_create fsize ptime count mem) evs"
    and "jb = fst (orun jb_event_step (pjmedia_jbuf_create fsize ptime count mem) evs)"
  shows "fl_inv (jb_list jb) \<and> fl_size (jb_list jb) \<le> jb_max_count jb \<and>
    jb_framelist_eff_size (jb_list jb) = length (filter ((\<noteq>) Dropped) (fl_abs (jb_list jb))) \<and>
    0 \<le> jb_prefetch jb \<and> jb_prefetch jb \<le> jb_max_prefetch jb \<and> jb_max_prefetch jb \<le> int (jb_max_count jb) \<and>
    0 \<le> jb_eff_level jb \<and> jb_eff_level jb \<le> int (jb_max_count jb * 4 div 5)"
proof -
  have "jb_inv jb"
    using jb_machine.orun_inv [OF pjmedia_jbuf_create_inv [OF assms(1-3)] assms(4)] assms(5) by simp
  then show ?thesis
    using eff_size_exact [of "jb_list jb"] fl_windowD(2) [OF fl_invD(2), of "jb_list jb"]
    by (simp add: jb_inv_def jb_levels_ok_def)
qed

definition jb_demo :: pjmedia_jbuf where
  "jb_demo = pjmedia_jbuf_create 1 20 2 ([[0], [0]], [0, 0], [0, 0])"

lemma jb_demo_mem: "jb_mem_ok 1 2 ([[0], [0]], [0, 0], [0, 0])"
  by (simp add: jb_mem_ok_def)

lemma jb_demo_inv: "jb_inv jb_demo"
  unfolding jb_demo_def by (rule pjmedia_jbuf_create_inv) (simp_all add: jb_mem_ok_def)

theorem jb_run_invariant_witness:
  "fl_inv (jb_list (fst (orun jb_event_step jb_demo
     [Ev_Discard Discard_Static, Ev_Put [1] 0 5 0, Ev_Get None, Ev_Discard Discard_Progressive, Ev_Fixed 1, Ev_Ptime 40, Ev_Remove 1, Ev_Reset])))"
proof -
  let ?evs = "[Ev_Discard Discard_Static, Ev_Put [1] 0 5 0, Ev_Get None, Ev_Discard Discard_Progressive, Ev_Fixed 1, Ev_Ptime 40, Ev_Remove 1, Ev_Reset]"
  have "guarded jb_event_step jb_event_ok (pjmedia_jbuf_create 1 20 2 ([[0], [0]], [0, 0], [0, 0])) ?evs" by code_simp
  from conjunct1 [OF jb_run_invariant [OF jb_demo_mem _ _ this refl]] show ?thesis
    unfolding jb_demo_def by simp
qed

text \<open>C6. In every state the buffer can be in, its calls return: the loop that makes room for a
  frame, the loops over discarded slots of a get and a peek, and the loop of a removal all end.\<close>

theorem jb_calls_return:
  assumes "jb_inv jb"
  shows "pjmedia_jbuf_put_frame3 jb frame b seq t \<noteq> None \<and> pjmedia_jbuf_get_frame3 jb cap \<noteq> None \<and>
    pjmedia_jbuf_peek_frame jb offset \<noteq> None \<and> pjmedia_jbuf_remove_frame jb cnt \<noteq> None"
proof -
  have "fl_inv (jb_list jb)" using assms by (simp add: jb_inv_def)
  from framelist_peek_refines [OF this, of offset]
  have "pjmedia_jbuf_peek_frame jb offset \<noteq> None"
    by (auto simp: pjmedia_jbuf_peek_frame_def split: option.splits)
  then show ?thesis
    using put_frame3_correct [OF assms, of frame b seq t] get_frame3_correct [OF assms, of cap]
      remove_frame_correct [OF assms, of cnt] by force
qed

theorem jb_calls_return_witness:
  "pjmedia_jbuf_put_frame3 jb_demo [1] 0 5 0 \<noteq> None \<and> pjmedia_jbuf_get_frame3 jb_demo None \<noteq> None \<and>
    pjmedia_jbuf_peek_frame jb_demo 0 \<noteq> None \<and> pjmedia_jbuf_remove_frame jb_demo 1 \<noteq> None"
  by (rule jb_calls_return) (rule jb_demo_inv)

text \<open>A put stores the frame, cut to the frame size, as \<open>spec_jput\<close> says: when the frame lies behind a full
  list just enough of the oldest slots are removed, they are counted as discarded, and the frame is then stored; a frame that is not
  stored is counted as discarded and reported so; and the buffer leaves prefetching when its size has reached the prefetch.\<close>

theorem jb_put_effect:
  assumes "jb_inv jb"
  shows "\<exists>jb1 n st. pjmedia_jbuf_put_frame3 jb frame b seq t =
      Some (if st = PJ_SUCCESS then jbuf_update jb1 Op_Put else jb1, st \<noteq> PJ_SUCCESS) \<and>
    spec_jput (jb_max_count jb) (origin (jb_list jb)) (fl_abs (jb_list jb)) seq
       (Frame (take (jb_frame_size jb) frame) b t) =
      (n, origin (jb_list jb1), fl_abs (jb_list jb1), st) \<and>
    jb_discard jb1 = jb_discard jb + of_nat n + (if st = PJ_SUCCESS then 0 else 1) \<and>
    jb_prefetching jb1 = (jb_prefetching jb \<and>
      (st \<noteq> PJ_SUCCESS \<or> int (jb_framelist_eff_size (jb_list jb1)) < jb_prefetch jb))"
  using put_frame3_correct [OF assms, of frame b seq t] by blast

theorem jb_put_effect_witness:
  "\<exists>jb1 n st. pjmedia_jbuf_put_frame3 jb_demo [1] 0 5 0 =
      Some (if st = PJ_SUCCESS then jbuf_update jb1 Op_Put else jb1, st \<noteq> PJ_SUCCESS) \<and>
    spec_jput (jb_max_count jb_demo) (origin (jb_list jb_demo)) (fl_abs (jb_list jb_demo)) 5
       (Frame (take (jb_frame_size jb_demo) [1]) 0 0) =
      (n, origin (jb_list jb1), fl_abs (jb_list jb1), st) \<and>
    jb_discard jb1 = jb_discard jb_demo + of_nat n + (if st = PJ_SUCCESS then 0 else 1) \<and>
    jb_prefetching jb1 = (jb_prefetching jb_demo \<and>
      (st \<noteq> PJ_SUCCESS \<or> int (jb_framelist_eff_size (jb_list jb1)) < jb_prefetch jb_demo))"
  by (rule jb_put_effect) (rule jb_demo_inv)

text \<open>A get of a prefetching buffer returns a zero frame and leaves the list alone. Otherwise it does to the
  list what \<open>spec_get\<close> says, returns the frame's type, counts it as lost unless it is a normal frame, and on an empty list
  returns a zero frame, counts it, and starts prefetching when a prefetch is set.\<close>

theorem jb_get_effect:
  assumes "jb_inv jb"
  shows "\<exists>jb1 ty g. pjmedia_jbuf_get_frame3 jb cap = Some (jbuf_update jb1 Op_Get, ty, g) \<and>
    (if jb_prefetching jb then
       jb_list jb1 = jb_list jb \<and> ty = Zero_Prefetch \<and> g = None \<and> jb_empty jb1 = jb_empty jb + 1
     else
       fl_abs (jb_list jb1) = fst (spec_get cap (fl_abs (jb_list jb))) \<and>
       got_matches (origin (jb_list jb)) g (snd (spec_get cap (fl_abs (jb_list jb)))) \<and>
       (case g of
          None \<Rightarrow> ty = Zero_Empty \<and> jb_empty jb1 = jb_empty jb + 1 \<and> jb_lost jb1 = jb_lost jb \<and>
            jb_prefetching jb1 = (jb_prefetch jb \<noteq> 0)
        | Some r \<Rightarrow> ty = got_type r \<and> jb_empty jb1 = jb_empty jb \<and>
            jb_lost jb1 = jb_lost jb + (if ty = Normal then 0 else 1)))"
proof -
  obtain jb1 ty g where G: "pjmedia_jbuf_get_frame3 jb cap = Some (jbuf_update jb1 Op_Get, ty, g)"
    "if jb_prefetching jb then
       jb_list jb1 = jb_list jb \<and> ty = Zero_Prefetch \<and> g = None \<and> jb_empty jb1 = jb_empty jb + 1
     else
       fl_abs (jb_list jb1) = fst (spec_get cap (fl_abs (jb_list jb))) \<and>
       origin (jb_list jb1) = origin (jb_list jb) + int (fl_size (jb_list jb) - fl_size (jb_list jb1)) \<and>
       fl_size (jb_list jb1) \<le> fl_size (jb_list jb) \<and>
       got_matches (origin (jb_list jb)) g (snd (spec_get cap (fl_abs (jb_list jb)))) \<and>
       (case g of
          None \<Rightarrow> ty = Zero_Empty \<and> jb_empty jb1 = jb_empty jb + 1 \<and> jb_lost jb1 = jb_lost jb \<and>
            jb_prefetching jb1 = (jb_prefetch jb \<noteq> 0)
        | Some r \<Rightarrow> ty = got_type r \<and> jb_empty jb1 = jb_empty jb \<and>
            jb_lost jb1 = jb_lost jb + (if ty = Normal then 0 else 1))"
    using get_frame3_correct [OF assms, of cap] by blast
  then show ?thesis
    by (intro exI [of _ jb1] exI [of _ ty] exI [of _ g]) (auto split: if_splits)
qed

theorem jb_get_effect_witness:
  "\<exists>jb1 ty g. pjmedia_jbuf_get_frame3 jb_demo None = Some (jbuf_update jb1 Op_Get, ty, g) \<and>
    (if jb_prefetching jb_demo then
       jb_list jb1 = jb_list jb_demo \<and> ty = Zero_Prefetch \<and> g = None \<and> jb_empty jb1 = jb_empty jb_demo + 1
     else
       fl_abs (jb_list jb1) = fst (spec_get None (fl_abs (jb_list jb_demo))) \<and>
       got_matches (origin (jb_list jb_demo)) g (snd (spec_get None (fl_abs (jb_list jb_demo)))) \<and>
       (case g of
          None \<Rightarrow> ty = Zero_Empty \<and> jb_empty jb1 = jb_empty jb_demo + 1 \<and> jb_lost jb1 = jb_lost jb_demo \<and>
            jb_prefetching jb1 = (jb_prefetch jb_demo \<noteq> 0)
        | Some r \<Rightarrow> ty = got_type r \<and> jb_empty jb1 = jb_empty jb_demo \<and>
            jb_lost jb1 = jb_lost jb_demo + (if ty = Normal then 0 else 1)))"
  by (rule jb_get_effect) (rule jb_demo_inv)

text \<open>C5. In a run of a created buffer without a reset, whose puts lie less than 100 before the front of the list and whose settings are
  those of the invariant above, the frames delivered as normal have strictly increasing sequence numbers, and each is a frame that was put under
  that number, byte for byte up to the frame size and the caller's buffer.\<close>

theorem jb_delivery_in_order:
  assumes "jb_mem_ok fsize count mem" "0 < ptime" "ptime \<le> 200"
    and "guarded jb_event_step (jb_forward_ok fsize L) (pjmedia_jbuf_create fsize ptime count mem) evs"
    and "orun jb_event_step (pjmedia_jbuf_create fsize ptime count mem) evs = (jb, outs)"
  shows "sorted_wrt (<) (map fst outs) \<and> (\<forall>out \<in> set outs. jb_delivery_ok L out)"
  using jb_delivery.orun_outs [OF pjmedia_jbuf_create_linv [OF assms(1-3)] assms(4,5)] by blast

theorem jb_delivery_in_order_witness:
  "\<exists>jb outs. orun jb_event_step (pjmedia_jbuf_create 1 20 2 ([[0], [0]], [0, 0], [0, 0]))
      [Ev_Adaptive 0 0 1, Ev_Put [1] 0 5 0, Ev_Get None] = (jb, outs) \<and>
    sorted_wrt (<) (map fst outs) \<and> (\<forall>out \<in> set outs. jb_delivery_ok {(5, [1])} out)"
proof -
  let ?c = "pjmedia_jbuf_create 1 20 2 ([[0], [0]], [0, 0], [0, 0])"
  have "origin (jb_list (fst (jb_event_step ?c (Ev_Adaptive 0 0 1)))) = -9999"
    by (simp add: pjmedia_jbuf_set_adaptive_def pjmedia_jbuf_create_def pjmedia_jbuf_reset_def
        pjmedia_jbuf_set_discard_def jb_framelist_reset_def INVALID_OFFSET_def)
  then have "guarded jb_event_step (jb_forward_ok 1 {(5, [1])}) ?c
      [Ev_Adaptive 0 0 1, Ev_Put [1] 0 5 0, Ev_Get None]"
    by (simp add: jb_forward_ok_def jb_event_ok_def del: jb_event_step.simps)
  moreover obtain jb outs where "orun jb_event_step ?c [Ev_Adaptive 0 0 1, Ev_Put [1] 0 5 0, Ev_Get None] = (jb, outs)"
    by fastforce
  moreover note jb_delivery_in_order [OF jb_demo_mem _ _ calculation]
  ultimately show ?thesis by (intro exI [of _ jb] exI [of _ outs]) simp
qed

text \<open>\<open>pjmedia_jbuf_remove_frame\<close> removes the number of frames asked for, or all there are, not
  counting frames that were already discarded, and returns that number.\<close>

theorem jb_remove_frame_count:
  assumes "jb_inv jb"
  shows "\<exists>fl. pjmedia_jbuf_remove_frame jb cnt =
      Some (jb\<lparr>jb_list := fl\<rparr>, min cnt (length (kept (fl_abs (jb_list jb))))) \<and> fl_inv fl \<and>
    kept (fl_abs fl) = drop (min cnt (length (kept (fl_abs (jb_list jb))))) (kept (fl_abs (jb_list jb)))"
  using remove_frame_correct [OF assms, of cnt] by (auto simp: jb_inv_def)

theorem jb_remove_frame_count_witness:
  "\<exists>fl. pjmedia_jbuf_remove_frame jb_demo 1 =
      Some (jb_demo\<lparr>jb_list := fl\<rparr>, min 1 (length (kept (fl_abs (jb_list jb_demo))))) \<and> fl_inv fl \<and>
    kept (fl_abs fl) = drop (min 1 (length (kept (fl_abs (jb_list jb_demo))))) (kept (fl_abs (jb_list jb_demo)))"
  by (rule jb_remove_frame_count) (rule jb_demo_inv)

text \<open>When the progressive algorithm changes the list of a buffer in a legal state, it marks exactly one slot, one
  that was not marked before, and only under a pending plan; the marked frame lies at least the minimum shrink gap after the plan's reference.\<close>

theorem jb_progressive_discard_spacing:
  assumes "jb_inv jb" "jb_algo jb = Discard_Progressive"
    and "jb_list (jbuf_discard_progressive jb) \<noteq> jb_list jb"
  shows "let jb' = jbuf_discard_progressive jb; k = nat (jb_discard_ref jb' - origin (jb_list jb)) in
    jb_discard_dist jb \<noteq> 0 \<and> k < fl_size (jb_list jb) \<and> fl_abs (jb_list jb) ! k \<noteq> Dropped \<and>
    fl_abs (jb_list jb') = (fl_abs (jb_list jb))[k := Dropped] \<and>
    jb_discard_ref jb' \<ge> min (jb_discard_ref jb) (origin (jb_list jb) + int (fl_size (jb_list jb)) - 1)
      + jb_min_shrink_gap jb"
proof -
  have fires: "prog_fires jb"
    using assms(3) by (auto simp: jbuf_discard_progressive_eq split: if_splits)
  note T = prog_target_free [OF assms(1,2) fires]
  have fi: "fl_inv (jb_list jb)" and lev: "jb_levels_ok jb" using assms(1) by (simp_all add: jb_inv_def)
  note D = prog_dist_pos [OF lev]
  have "jb_discard_dist jb \<noteq> 0"
    using fires D(2) by (auto simp: prog_fires_def prog_ref_def Let_def split: if_splits)
  moreover have "jb_discard_ref (jbuf_discard_progressive jb) = prog_target jb"
    "jb_list (jbuf_discard_progressive jb) = fst (jb_framelist_discard (jb_list jb) (prog_target jb))"
    using fires by (simp_all add: jbuf_discard_progressive_eq)
  moreover obtain f' st where "jb_framelist_discard (jb_list jb) (prog_target jb) = (f', st)" by fastforce
  moreover note framelist_discard_refines(2) [OF fi T(1-3) this]
  moreover have "prog_target jb \<ge> min (jb_discard_ref jb)
      (origin (jb_list jb) + int (fl_size (jb_list jb)) - 1) + jb_min_shrink_gap jb"
    using D(1) calculation(1) by (auto simp: prog_target_def prog_ref_def Let_def)
  ultimately show ?thesis
    using T by (simp add: Let_def nat_less_iff)
qed

definition jb_demo_list :: jb_framelist where
  "jb_demo_list = fst (jb_framelist_put_at (jb_framelist_init 1 2 ([[0], [0]], [0, 0], [0, 0])) 8 [1] 0 0)"

definition jb_demo_planned :: pjmedia_jbuf where
  "jb_demo_planned = jb_demo\<lparr>jb_list := jb_demo_list, jb_last_op := Op_Put,
     jb_discard_ref := -100, jb_discard_dist := 5\<rparr>"

lemma jb_demo_list_facts:
  "fl_inv jb_demo_list" "max_count jb_demo_list = 2" "frame_size jb_demo_list = 1"
  "fl_abs jb_demo_list = [Frame [1] 0 0]"
proof -
  let ?f = "jb_framelist_init 1 2 ([[0], [0]], [0, 0], [0, 0])"
  have f: "frame_size ?f = 1" "max_count ?f = 2" by (simp_all add: jb_framelist_init_def jb_framelist_reset_def)
  obtain g st where g: "jb_framelist_put_at ?f 8 [1] 0 0 = (g, st)" by fastforce
  note P = put_at_spec [OF jb_framelist_init_inv [OF jb_demo_mem] _ g]
  show "fl_inv jb_demo_list" "max_count jb_demo_list = 2" "frame_size jb_demo_list = 1"
    using P(1,3,4) f g by (simp_all add: jb_demo_list_def)
  show "fl_abs jb_demo_list = [Frame [1] 0 0]" by code_simp
qed

lemma jb_demo_planned_inv: "jb_inv jb_demo_planned"
proof -
  have "jb_max_count jb_demo = 2" "jb_frame_size jb_demo = 1"
    by (simp_all add: jb_demo_def pjmedia_jbuf_create_def pjmedia_jbuf_reset_def pjmedia_jbuf_set_discard_def)
  then show ?thesis
    using jb_demo_inv jb_demo_list_facts
    by (simp add: jb_inv_def jb_levels_ok_def jb_plan_ok_def jb_demo_planned_def dropped_upto_def)
qed

theorem jb_progressive_discard_spacing_witness:
  "let jb' = jbuf_discard_progressive jb_demo_planned;
       k = nat (jb_discard_ref jb' - origin (jb_list jb_demo_planned)) in
    jb_discard_dist jb_demo_planned \<noteq> 0 \<and> k < fl_size (jb_list jb_demo_planned) \<and>
    fl_abs (jb_list jb_demo_planned) ! k \<noteq> Dropped \<and>
    fl_abs (jb_list jb') = (fl_abs (jb_list jb_demo_planned))[k := Dropped] \<and>
    jb_discard_ref jb' \<ge> min (jb_discard_ref jb_demo_planned)
      (origin (jb_list jb_demo_planned) + int (fl_size (jb_list jb_demo_planned)) - 1)
      + jb_min_shrink_gap jb_demo_planned"
proof (rule jb_progressive_discard_spacing)
  show "jb_inv jb_demo_planned" by (rule jb_demo_planned_inv)
  show "jb_algo jb_demo_planned = Discard_Progressive" by code_simp
  have "discarded_num (jb_list (jbuf_discard_progressive jb_demo_planned)) = 1" by code_simp
  moreover have "discarded_num (jb_list jb_demo_planned) = 0" by code_simp
  ultimately show "jb_list (jbuf_discard_progressive jb_demo_planned) \<noteq> jb_list jb_demo_planned"
    by auto
qed

text \<open>Changing the discard algorithm between calls.\<close>

definition jb_switch_trace :: "jb_event list" where
  "jb_switch_trace =
     (let put = (\<lambda>n. Ev_Put [1] 0 n 0); get = Ev_Get None
      in Ev_Adaptive 0 0 8 # map put [1, 2, 3, 4, 5, 6, 7] @
         [get, put 8, get, put 9, get, put 10, get, put 11, get, put 12, get, put 13, get, put 14, get,
          Ev_Discard Discard_Static, put 15, get, Ev_Discard Discard_Progressive, put 16, get])"

text \<open>When the application switches from progressive to static discarding and back, the plan's
  reference has moved back and a frame is discarded twice: after these calls the buffer counts two discarded frames and holds
  one, so that its computed size is one too small.\<close>

theorem jb_algo_switch_miscounts:
  "(let f = jb_list (fst (orun jb_event_step
        (pjmedia_jbuf_create 1 200 10 (replicate 10 [0], replicate 10 0, replicate 10 0)) jb_switch_trace))
    in (discarded_num f, length (filter ((=) Dropped) (fl_abs f)))) = (2, 1)"
  by code_simp

end
