(* ===== verification/Mem.thy ===== *)
theory Mem
  imports Prelude "HOL-Library.Monad_Syntax"
begin

text \<open>
  Bytes in memory. Received data is a list of bytes read by offset, where a read past the end gives \<open>None\<close>; multi-byte
  values are stored as the little-endian target stores them, and network order is the code's own conversion.
\<close>

section \<open>Loads and stores\<close>

text \<open>Loads and stores of a little-endian machine.\<close>

definition le16 :: "u16 \<Rightarrow> u8 list" where "le16 w = rev (be16 w)"
definition le32 :: "u32 \<Rightarrow> u8 list" where "le32 w = rev (be32 w)"

definition rd8 :: "u8 list \<Rightarrow> nat \<Rightarrow> u8 option" where
  "rd8 mem p = (if p < length mem then Some (mem ! p) else None)"

definition ld16 :: "u8 list \<Rightarrow> nat \<Rightarrow> u16 option" where
  "ld16 mem p = (if p + 2 \<le> length mem then Some (rd_be16 (mem ! (p + 1)) (mem ! p)) else None)"

definition ld32 :: "u8 list \<Rightarrow> nat \<Rightarrow> u32 option" where
  "ld32 mem p =
     (if p + 4 \<le> length mem then Some (rd_be32 (mem ! (p + 3)) (mem ! (p + 2)) (mem ! (p + 1)) (mem ! p))
      else None)"

definition rd_bytes :: "u8 list \<Rightarrow> nat \<Rightarrow> nat \<Rightarrow> u8 list option" where
  "rd_bytes mem p n = (if p + n \<le> length mem then Some (take n (drop p mem)) else None)"

lemma length_le16 [simp]: "length (le16 w) = 2" by (simp add: le16_def)
lemma length_le32 [simp]: "length (le32 w) = 4" by (simp add: le32_def)

lemma le16_bytes: "le16 w = [ucast w, ucast (drop_bit 8 w)]"
  by (simp add: le16_def be16_def)

lemma le32_bytes: "le32 w = [ucast w, ucast (drop_bit 8 w), ucast (drop_bit 16 w), ucast (drop_bit 24 w)]"
  by (simp add: le32_def be32_def)

text \<open>A load at the place a value was stored.\<close>

lemma ld_here:
  "length xs = p \<Longrightarrow> ld16 (xs @ le16 v @ ys) p = Some v"
  "length xs = p \<Longrightarrow> ld32 (xs @ le32 w @ ys) p = Some w"
  "length xs = p \<Longrightarrow> rd8 (xs @ b # ys) p = Some b"
  "length xs = p \<Longrightarrow> length bs = n \<Longrightarrow> rd_bytes (xs @ bs @ ys) p n = Some bs"
  by (auto simp: ld16_def ld32_def rd8_def rd_bytes_def le16_bytes le32_bytes nth_append)

lemma ld_shift:
  "length xs \<le> p \<Longrightarrow> ld16 (xs @ ys) p = ld16 ys (p - length xs)"
  "length xs \<le> p \<Longrightarrow> ld32 (xs @ ys) p = ld32 ys (p - length xs)"
  "length xs \<le> p \<Longrightarrow> rd8 (xs @ ys) p = rd8 ys (p - length xs)"
  "length xs \<le> p \<Longrightarrow> rd_bytes (xs @ ys) p n = rd_bytes ys (p - length xs) n"
  by (auto simp: ld16_def ld32_def rd8_def rd_bytes_def nth_append Suc_diff_le)

section \<open>Bytes at an address\<close>

definition mem_write :: "u8 list \<Rightarrow> nat \<Rightarrow> u8 list \<Rightarrow> u8 list option" where
  "mem_write mem p bs = (if p + length bs \<le> length mem then Some (write_at mem p bs) else None)"

definition bytes_at :: "u8 list \<Rightarrow> nat \<Rightarrow> u8 list \<Rightarrow> bool" where
  "bytes_at mem p bs \<longleftrightarrow> rd_bytes mem p (length bs) = Some bs"

lemma bytes_at_nth: "bytes_at mem p bs \<longleftrightarrow> p + length bs \<le> length mem \<and> (\<forall>i < length bs. mem ! (p + i) = bs ! i)"
  by (auto simp: bytes_at_def rd_bytes_def list_eq_iff_nth_eq)

lemma bytes_at_append: "bytes_at mem p (xs @ ys) \<longleftrightarrow> bytes_at mem p xs \<and> bytes_at mem (p + length xs) ys"
proof (intro iffI conjI)
  assume *: "bytes_at mem p (xs @ ys)"
  then have n: "mem ! (p + i) = (xs @ ys) ! i" if "i < length xs + length ys" for i using that by (simp add: bytes_at_nth)
  show "bytes_at mem p xs" using * n unfolding bytes_at_nth by (auto simp: nth_append)
  have "mem ! (p + length xs + i) = ys ! i" if "i < length ys" for i using n [of "length xs + i"] that by (simp add: add.assoc)
  then show "bytes_at mem (p + length xs) ys" using * by (simp add: bytes_at_nth)
next
  assume *: "bytes_at mem p xs \<and> bytes_at mem (p + length xs) ys"
  have "mem ! (p + i) = (xs @ ys) ! i" if "i < length xs + length ys" for i
  proof (cases "i < length xs")
    case False
    have "i - length xs < length ys" using that False by simp
    then have "mem ! (p + length xs + (i - length xs)) = ys ! (i - length xs)" using * unfolding bytes_at_nth by blast
    moreover have "p + length xs + (i - length xs) = p + i" using False by simp
    ultimately show ?thesis using False by (simp add: nth_append)
  qed (use * in \<open>simp add: bytes_at_nth nth_append\<close>)
  then show "bytes_at mem p (xs @ ys)" using * by (simp add: bytes_at_nth add.assoc)
qed

lemma bytes_at_Cons: "bytes_at mem p (b # bs) \<longleftrightarrow> rd8 mem p = Some b \<and> bytes_at mem (p + 1) bs"
  using bytes_at_append [of mem p "[b]" bs] by (auto simp: bytes_at_nth rd8_def)

lemma bytes_at_Nil [simp]: "bytes_at mem p [] \<longleftrightarrow> p \<le> length mem"
  by (simp add: bytes_at_nth)

lemma bytes_at_len: "bytes_at mem p bs \<Longrightarrow> p + length bs \<le> length mem"
  by (simp add: bytes_at_nth)

lemma rd_bytes_at: "bytes_at mem p bs \<Longrightarrow> n = length bs \<Longrightarrow> rd_bytes mem p n = Some bs"
  by (simp add: bytes_at_def)

lemma bytes_at_here: "p + length bs \<le> length mem \<Longrightarrow> bytes_at (write_at mem p bs) p bs"
  by (auto simp: bytes_at_nth nth_write_at)

lemma bytes_at_away:
  assumes "p + length bs \<le> length mem" "q + length cs \<le> p \<or> p + length bs \<le> q"
  shows "bytes_at (write_at mem p bs) q cs \<longleftrightarrow> bytes_at mem q cs"
  using assms by (auto simp: bytes_at_nth nth_write_at)

lemma write_at_write_at:
  assumes "p + length xs + length ys \<le> length mem" "q = p + length xs"
  shows "write_at (write_at mem p xs) q ys = write_at mem p (xs @ ys)"
proof (rule nth_equalityI)
  show "length (write_at (write_at mem p xs) q ys) = length (write_at mem p (xs @ ys))" using assms by simp
  fix i assume "i < length (write_at (write_at mem p xs) q ys)"
  then show "write_at (write_at mem p xs) q ys ! i = write_at mem p (xs @ ys) ! i"
    using assms by (simp add: nth_write_at) (auto simp: nth_append)
qed

lemma mem_write_twice:
  "p + length xs + length ys \<le> length mem \<Longrightarrow> q = p + length xs \<Longrightarrow>
    mem_write (write_at mem p xs) q ys = Some (write_at mem p (xs @ ys))"
  by (simp add: mem_write_def write_at_write_at)

lemma take_write_at: "n \<le> p \<Longrightarrow> p + length bs \<le> length mem \<Longrightarrow> take n (write_at mem p bs) = take n mem"
  by (simp add: write_at_def)

lemma mem_write_Some: "mem_write mem p bs = Some mem' \<longleftrightarrow> p + length bs \<le> length mem \<and> mem' = write_at mem p bs"
  by (auto simp: mem_write_def)

text \<open>Values in network order, byte by byte.\<close>

definition GETVAL16H :: "u8 list \<Rightarrow> nat \<Rightarrow> u16 option" where
  "GETVAL16H buf pos = do { a \<leftarrow> rd8 buf pos; b \<leftarrow> rd8 buf (pos + 1); Some (rd_be16 a b) }"

definition GETVAL32H :: "u8 list \<Rightarrow> nat \<Rightarrow> u32 option" where
  "GETVAL32H buf pos = do {
     a \<leftarrow> rd8 buf pos; b \<leftarrow> rd8 buf (pos + 1); c \<leftarrow> rd8 buf (pos + 2); d \<leftarrow> rd8 buf (pos + 3);
     Some (rd_be32 a b c d) }"

definition PUTVAL16H :: "u8 list \<Rightarrow> nat \<Rightarrow> u16 \<Rightarrow> u8 list option" where
  "PUTVAL16H buf pos hval = mem_write buf pos (be16 hval)"

definition PUTVAL32H :: "u8 list \<Rightarrow> nat \<Rightarrow> u32 \<Rightarrow> u8 list option" where
  "PUTVAL32H buf pos hval = mem_write buf pos (be32 hval)"

text \<open>Offsets in unary, for taking memory apart field by field.\<close>

lemma offset_Suc:
  "(p :: nat) + 3 = Suc (Suc (Suc p))" "p + 4 = Suc (Suc (Suc (Suc p)))" "p + 5 = Suc (Suc (Suc (Suc (Suc p))))"
  "p + 6 = Suc (Suc (Suc (Suc (Suc (Suc p)))))" "p + 7 = Suc (Suc (Suc (Suc (Suc (Suc (Suc p))))))"
  "p + 8 = Suc (Suc (Suc (Suc (Suc (Suc (Suc (Suc p)))))))"
  by simp_all

lemma be32_rd_be32 [simp]: "be32 (rd_be32 a b c d) = [a, b, c, d]"
  unfolding be32_def rd_be32_def
  by (simp, intro conjI; rule bit_word_eqI) (auto simp: bit_simps dest: bit_imp_le_length)

lemma bytes_at_be16: "bytes_at mem p (be16 v) \<longleftrightarrow> GETVAL16H mem p = Some v"
proof
  show "bytes_at mem p (be16 v) \<Longrightarrow> GETVAL16H mem p = Some v"
    by (simp add: be16_def bytes_at_Cons GETVAL16H_def)
  assume "GETVAL16H mem p = Some v"
  then obtain a b where ab: "rd8 mem p = Some a" "rd8 mem (p + 1) = Some b" "v = rd_be16 a b"
    by (auto simp: GETVAL16H_def split: Option.bind_splits)
  then have "p + 2 \<le> length mem" by (simp add: rd8_def split: if_splits)
  then show "bytes_at mem p (be16 v)" using ab by (simp add: bytes_at_Cons)
qed

lemma bytes_at_be32: "bytes_at mem p (be32 v) \<longleftrightarrow> GETVAL32H mem p = Some v"
proof
  show "bytes_at mem p (be32 v) \<Longrightarrow> GETVAL32H mem p = Some v"
    by (simp add: be32_def bytes_at_Cons GETVAL32H_def offset_Suc)
  assume "GETVAL32H mem p = Some v"
  then obtain a b c d where r: "rd8 mem p = Some a" "rd8 mem (p + 1) = Some b" "rd8 mem (p + 2) = Some c" "rd8 mem (p + 3) = Some d"
      "v = rd_be32 a b c d"
    by (auto simp: GETVAL32H_def split: Option.bind_splits)
  then have "p + 4 \<le> length mem" by (simp add: rd8_def split: if_splits)
  then show "bytes_at mem p (be32 v)" using r by (simp add: bytes_at_Cons offset_Suc)
qed

lemmas bytes_at_fields = bytes_at_append bytes_at_Cons bytes_at_be16 bytes_at_be32 offset_Suc

lemma GETVAL_some:
  "p + 2 \<le> length mem \<Longrightarrow> \<exists>v. GETVAL16H mem p = Some v"
  "p + 4 \<le> length mem \<Longrightarrow> \<exists>w. GETVAL32H mem p = Some w"
  "p < length mem \<Longrightarrow> \<exists>b. rd8 mem p = Some b"
  "p + n \<le> length mem \<Longrightarrow> \<exists>bs. rd_bytes mem p n = Some bs"
  by (simp_all add: GETVAL16H_def GETVAL32H_def rd8_def rd_bytes_def)

end
