(* ===== verification/Rtcp_Fb.thy ===== *)
theory Rtcp_Fb
  imports Mem
begin

text \<open>
  RTCP packets in memory: the headers and report blocks of \<open>pjmedia/rtcp.h\<close>, and the feedback
  messages of \<open>pjmedia/src/pjmedia/rtcp_fb.c\<close>. Fields hold what the C structures hold, with the
  multi-byte ones in network byte order. A packet is read through a pointer: the model has the memory from
  the start of the received data and an offset into it, and a read past the end of that memory gives
  \<open>None\<close>. A packet is built in a buffer, whose bytes the builder does not write keep their values.

  Negotiation of feedback capabilities in SDP (\<open>pjmedia_rtcp_fb_encode_sdp\<close>,
  \<open>pjmedia_rtcp_fb_decode_sdp\<close>) is left out. Counts and sizes are those of objects in memory, far below \<open>2 ^ 30\<close>.
\<close>

section \<open>Structures\<close>

record rtcp_common =
  rc_count :: "5 word"
  rc_p :: "1 word"
  rc_version :: "2 word"
  rc_pt :: u8
  rc_length :: u16
  rc_ssrc :: u32

record rtcp_sr =
  sr_ntp_sec :: u32
  sr_ntp_frac :: u32
  sr_rtp_ts :: u32
  sr_sender_pcount :: u32
  sr_sender_bcount :: u32

record rtcp_rr =
  rr_ssrc :: u32
  rr_fract_lost :: u8
  rr_total_lost_2 :: u8
  rr_total_lost_1 :: u8
  rr_total_lost_0 :: u8
  rr_last_seq :: u32
  rr_jitter :: u32
  rr_lsr :: u32
  rr_dlsr :: u32

record rtcp_sr_pkt =
  srp_common :: rtcp_common
  srp_sr :: rtcp_sr
  srp_rr :: rtcp_rr

record rtcp_rr_pkt =
  rrp_common :: rtcp_common
  rrp_rr :: rtcp_rr

text \<open>The packed structures as bytes.\<close>

definition rtcp_common_bytes :: "rtcp_common \<Rightarrow> u8 list" where
  "rtcp_common_bytes h =
     [ucast (rc_count h) OR push_bit 5 (ucast (rc_p h)) OR push_bit 6 (ucast (rc_version h)), rc_pt h]
     @ le16 (rc_length h) @ le32 (rc_ssrc h)"

definition rtcp_sr_bytes :: "rtcp_sr \<Rightarrow> u8 list" where
  "rtcp_sr_bytes s = le32 (sr_ntp_sec s) @ le32 (sr_ntp_frac s) @ le32 (sr_rtp_ts s)
     @ le32 (sr_sender_pcount s) @ le32 (sr_sender_bcount s)"

definition rtcp_rr_bytes :: "rtcp_rr \<Rightarrow> u8 list" where
  "rtcp_rr_bytes r = le32 (rr_ssrc r)
     @ [rr_fract_lost r, rr_total_lost_2 r, rr_total_lost_1 r, rr_total_lost_0 r]
     @ le32 (rr_last_seq r) @ le32 (rr_jitter r) @ le32 (rr_lsr r) @ le32 (rr_dlsr r)"

definition rtcp_sr_pkt_bytes :: "rtcp_sr_pkt \<Rightarrow> u8 list" where
  "rtcp_sr_pkt_bytes k = rtcp_common_bytes (srp_common k) @ rtcp_sr_bytes (srp_sr k) @ rtcp_rr_bytes (srp_rr k)"

definition rtcp_rr_pkt_bytes :: "rtcp_rr_pkt \<Rightarrow> u8 list" where
  "rtcp_rr_pkt_bytes k = rtcp_common_bytes (rrp_common k) @ rtcp_rr_bytes (rrp_rr k)"

text \<open>What the parsers read of the common header at \<open>p\<close>.\<close>

definition rd_count :: "u8 list \<Rightarrow> nat \<Rightarrow> u8 option" where
  "rd_count mem p = map_option (\<lambda>b. b AND 31) (rd8 mem p)"

definition rd_pt :: "u8 list \<Rightarrow> nat \<Rightarrow> u8 option" where
  "rd_pt mem p = rd8 mem (p + 1)"

definition rd_length :: "u8 list \<Rightarrow> nat \<Rightarrow> u16 option" where
  "rd_length mem p = map_option ntohs (ld16 mem (p + 2))"

lemma length_rtcp_bytes [simp]:
  "length (rtcp_common_bytes h) = 8" "length (rtcp_sr_bytes s) = 20" "length (rtcp_rr_bytes r) = 24"
  "length (rtcp_sr_pkt_bytes k) = 52" "length (rtcp_rr_pkt_bytes l) = 32"
  by (simp_all add: rtcp_common_bytes_def rtcp_sr_bytes_def rtcp_rr_bytes_def rtcp_sr_pkt_bytes_def
      rtcp_rr_pkt_bytes_def)

lemma common_first_byte:
  "(ucast (c :: 5 word) OR push_bit 5 (ucast (p :: 1 word)) OR push_bit 6 (ucast (v :: 2 word)) :: u8) AND 31 = ucast c"
proof (rule bit_word_eqI)
  fix n assume "n < LENGTH(8)"
  have 31: "(31 :: u8) = mask 5" by (simp add: mask_eq_decr_exp)
  show "bit ((ucast c OR push_bit 5 (ucast p) OR push_bit 6 (ucast v) :: u8) AND 31) n = bit (ucast c :: u8) n"
    unfolding 31 by (auto simp: bit_simps dest: bit_imp_le_length)
qed

lemma rd_common [simp]:
  assumes "length xs = p"
  shows "rd_count (xs @ rtcp_common_bytes h @ ys) p = Some (ucast (rc_count h))"
    and "rd_pt (xs @ rtcp_common_bytes h @ ys) p = Some (rc_pt h)"
    and "rd_length (xs @ rtcp_common_bytes h @ ys) p = Some (ntohs (rc_length h))"
  using assms by (simp_all add: rd_count_def rd_pt_def rd_length_def rtcp_common_bytes_def rd8_def ld16_def
      nth_append le16_bytes common_first_byte)

section \<open>Feedback messages\<close>

record fb_nack =
  nk_pid :: int
  nk_blp :: u16

record fb_sli =
  sli_first :: u16
  sli_number :: u16
  sli_pict_id :: u8

text \<open>\<open>rpsi_bits\<close> is the memory \<open>rpsi.ptr\<close> points to, up to the byte of the last bit; \<open>rpsi_bit_len\<close> is a \<open>size_t\<close>.\<close>

record fb_rpsi =
  rpsi_pt :: u8
  rpsi_bits :: "u8 list"
  rpsi_bit_len :: u32

definition fb_hdr :: "rtcp_common \<Rightarrow> u8 \<Rightarrow> 5 word \<Rightarrow> nat \<Rightarrow> rtcp_common" where
  "fb_hdr common pt fmt len =
     common\<lparr>rc_pt := pt, rc_count := fmt, rc_length := htons (of_nat (len div 4 - 1))\<rparr>"

definition fb_build :: "u8 list \<Rightarrow> nat \<Rightarrow> u8 list \<Rightarrow> pj_status + u8 list \<times> nat" where
  "fb_build buf len pkt = (if len > length buf then Inl PJ_ETOOSMALL else Inr (write_at buf 0 pkt, len))"

text \<open>
  The builders get the common header of the session's cached receiver report and a buffer of
  \<open>*length\<close> bytes; the result is the buffer and the new \<open>*length\<close>.
\<close>

definition pjmedia_rtcp_fb_build_nack ::
  "rtcp_common \<Rightarrow> u8 list \<Rightarrow> fb_nack list \<Rightarrow> pj_status + u8 list \<times> nat" where
  "pjmedia_rtcp_fb_build_nack common buf nacks =
    (if nacks = [] then Inl PJ_EINVAL
     else (let len = (3 + length nacks) * 4
           in fb_build buf len
                (rtcp_common_bytes (fb_hdr common 205 1 len)
                 @ concat (map (\<lambda>n. le16 (htons (word_of_int (nk_pid n))) @ le16 (htons (nk_blp n))) nacks))))"

definition pjmedia_rtcp_fb_build_pli :: "rtcp_common \<Rightarrow> u8 list \<Rightarrow> pj_status + u8 list \<times> nat" where
  "pjmedia_rtcp_fb_build_pli common buf = fb_build buf 12 (rtcp_common_bytes (fb_hdr common 206 1 12))"

definition sli_bytes :: "fb_sli \<Rightarrow> u8 list" where
  "sli_bytes s =
     [ucast (drop_bit 5 (sli_first s) AND 0xFF),
      ucast (push_bit 3 (sli_first s AND 31)) OR ucast (drop_bit 10 (sli_number s) AND 7),
      ucast (drop_bit 2 (sli_number s) AND 0xFF),
      ucast (push_bit 6 (sli_number s AND 3)) OR (sli_pict_id s AND 63)]"

definition pjmedia_rtcp_fb_build_sli ::
  "rtcp_common \<Rightarrow> u8 list \<Rightarrow> fb_sli list \<Rightarrow> pj_status + u8 list \<times> nat" where
  "pjmedia_rtcp_fb_build_sli common buf slis =
    (if slis = [] then Inl PJ_EINVAL
     else (let len = (3 + length slis) * 4
           in fb_build buf len
                (rtcp_common_bytes (fb_hdr common 206 2 len) @ concat (map sli_bytes slis))))"

definition pjmedia_rtcp_fb_build_rpsi ::
  "rtcp_common \<Rightarrow> u8 list \<Rightarrow> fb_rpsi \<Rightarrow> pj_status + u8 list \<times> nat" where
  "pjmedia_rtcp_fb_build_rpsi common buf r =
    (let bitlen = unat (rpsi_bit_len r) + 16; padlen = (32 - bitlen mod 32) mod 32;
         len = (3 + (bitlen + padlen) div 32) * 4; nbits = unat (rpsi_bit_len r)
     in fb_build buf len
          (rtcp_common_bytes (fb_hdr common 206 3 len) @ [of_nat padlen, rpsi_pt r AND 0x7F]
           @ take (nbits div 8) (rpsi_bits r)
           @ (if nbits mod 8 \<noteq> 0 then [rpsi_bits r ! (nbits div 8)] else [])
           @ (if padlen \<ge> 8 then replicate (padlen div 8) 0 else [])))"

section \<open>Parsers\<close>

primrec rd_nacks :: "u8 list \<Rightarrow> nat \<Rightarrow> nat \<Rightarrow> fb_nack list option" where
  "rd_nacks mem p 0 = Some []"
| "rd_nacks mem p (Suc n) =
     do { pid \<leftarrow> ld16 mem p; blp \<leftarrow> ld16 mem (p + 2); ns \<leftarrow> rd_nacks mem (p + 4) n;
          Some (\<lparr>nk_pid = uint (ntohs pid), nk_blp = ntohs blp\<rparr> # ns) }"

text \<open>
  The parsers get the memory, the offset and the length of the packet and the room for messages; the
  subtraction and the product of the length check are on \<open>unsigned\<close>.
\<close>

definition pjmedia_rtcp_fb_parse_nack ::
  "u8 list \<Rightarrow> nat \<Rightarrow> nat \<Rightarrow> nat \<Rightarrow> (pj_status + fb_nack list) option" where
  "pjmedia_rtcp_fb_parse_nack mem p len nack_cnt =
    (if len < 8 then Some (Inl PJ_ETOOSMALL)
     else do { pt \<leftarrow> rd_pt mem p; count \<leftarrow> rd_count mem p; words \<leftarrow> rd_length mem p;
       if pt \<noteq> 205 \<or> count \<noteq> 1 then Some (Inl PJ_ENOTFOUND)
       else (let cnt = (ucast words :: u32) - 2
             in if len < unat ((cnt + 3) * 4) then Some (Inl PJ_ETOOSMALL)
                else map_option Inr (rd_nacks mem (p + 8) (min nack_cnt (unat cnt)))) })"

definition pjmedia_rtcp_fb_parse_pli :: "u8 list \<Rightarrow> nat \<Rightarrow> nat \<Rightarrow> pj_status option" where
  "pjmedia_rtcp_fb_parse_pli mem p len =
    (if len < 12 then Some PJ_ETOOSMALL
     else do { pt \<leftarrow> rd_pt mem p; count \<leftarrow> rd_count mem p;
       Some (if pt \<noteq> 206 \<or> count \<noteq> 1 then PJ_ENOTFOUND else PJ_SUCCESS) })"

definition sli_of_bytes :: "u8 list \<Rightarrow> fb_sli" where
  "sli_of_bytes b =
     \<lparr>sli_first = push_bit 5 (ucast (b ! 0)) + drop_bit 3 (ucast (b ! 1) AND 0xF8),
      sli_number = push_bit 10 (ucast (b ! 1) AND 7) + push_bit 2 (ucast (b ! 2)) + drop_bit 6 (ucast (b ! 3) AND 0xC0),
      sli_pict_id = b ! 3 AND 0x3F\<rparr>"

primrec rd_slis :: "u8 list \<Rightarrow> nat \<Rightarrow> nat \<Rightarrow> fb_sli list option" where
  "rd_slis mem p 0 = Some []"
| "rd_slis mem p (Suc n) =
     do { b \<leftarrow> rd_bytes mem p 4; ss \<leftarrow> rd_slis mem (p + 4) n; Some (sli_of_bytes b # ss) }"

definition pjmedia_rtcp_fb_parse_sli ::
  "u8 list \<Rightarrow> nat \<Rightarrow> nat \<Rightarrow> nat \<Rightarrow> (pj_status + fb_sli list) option" where
  "pjmedia_rtcp_fb_parse_sli mem p len sli_cnt =
    (if len < 8 then Some (Inl PJ_ETOOSMALL)
     else do { pt \<leftarrow> rd_pt mem p; count \<leftarrow> rd_count mem p; words \<leftarrow> rd_length mem p;
       if pt \<noteq> 206 \<or> count \<noteq> 2 then Some (Inl PJ_ENOTFOUND)
       else (let cnt = (ucast words :: u32) - 2
             in if len < unat ((cnt + 3) * 4) then Some (Inl PJ_ETOOSMALL)
                else map_option Inr (rd_slis mem (p + 8) (min sli_cnt (unat cnt)))) })"

text \<open>
  The bit string stays where it is: the result holds the bytes \<open>rpsi.ptr\<close> points to, of which the
  parser itself reads none, so that \<open>rpsi_bits\<close> is \<open>None\<close> when they are not all in memory.
\<close>

definition pjmedia_rtcp_fb_parse_rpsi ::
  "u8 list \<Rightarrow> nat \<Rightarrow> nat \<Rightarrow> (pj_status + u8 \<times> u32 \<times> u8 list option) option" where
  "pjmedia_rtcp_fb_parse_rpsi mem p len =
    (if len < 8 then Some (Inl PJ_ETOOSMALL)
     else do { pt \<leftarrow> rd_pt mem p; count \<leftarrow> rd_count mem p; words \<leftarrow> rd_length mem p;
       if pt \<noteq> 206 \<or> count \<noteq> 3 then Some (Inl PJ_ENOTFOUND)
       else (let rpsi_len = ((ucast words :: u32) - 2) * 4
             in if len < unat (rpsi_len + 12) then Some (Inl PJ_ETOOSMALL)
                else do { padlen \<leftarrow> rd8 mem (p + 8); pt \<leftarrow> rd8 mem (p + 9);
                  (let bit_len = rpsi_len * 8 - 16 - ucast padlen
                   in Some (Inr (pt AND 0x7F, bit_len, rd_bytes mem (p + 10) (unat ((bit_len + 7) div 8))))) }) })"

section \<open>Round trips\<close>

lemma write_at_start: "length pkt \<le> length buf \<Longrightarrow> write_at buf 0 pkt = pkt @ drop (length pkt) buf"
  by (simp add: write_at_def)

lemma nack_chunks:
  assumes "\<forall>n \<in> set ns. 0 \<le> nk_pid n \<and> nk_pid n < 65536" "length xs = p"
  shows "rd_nacks (xs @ concat (map (\<lambda>n. le16 (htons (word_of_int (nk_pid n))) @ le16 (htons (nk_blp n))) ns) @ ys) p
    (length ns) = Some ns"
  using assms
proof (induction ns arbitrary: xs p)
  case Nil
  then show ?case by simp
next
  case (Cons n ns)
  let ?c = "\<lambda>n. le16 (htons (word_of_int (nk_pid n))) @ le16 (htons (nk_blp n))"
  let ?m = "xs @ concat (map ?c (n # ns)) @ ys"
  have "rd_nacks ((xs @ ?c n) @ concat (map ?c ns) @ ys) (p + 4) (length ns) = Some ns"
    using Cons.prems by (intro Cons.IH) simp_all
  then have tl: "rd_nacks ?m (p + 4) (length ns) = Some ns" by simp
  have "ld16 ?m p = Some (htons (word_of_int (nk_pid n)))"
    using ld_here(1) [of xs p] Cons.prems(2) by simp
  moreover have "ld16 ((xs @ le16 (htons (word_of_int (nk_pid n)))) @ le16 (htons (nk_blp n)) @ concat (map ?c ns) @ ys)
      (p + 2) = Some (htons (nk_blp n))"
    using Cons.prems(2) by (intro ld_here(1)) simp
  moreover have "uint (word_of_int (nk_pid n) :: u16) = nk_pid n"
    using Cons.prems(1) by (simp add: uint_word_of_int)
  ultimately show ?case using tl by simp
qed

lemma bits_below: "(w :: 'a::len word) < 2 ^ n \<Longrightarrow> bit w k \<Longrightarrow> k < n"
  by (metis bit_take_bit_iff less_mask_eq take_bit_eq_mask)

lemma sli_of_to_bytes:
  assumes f: "sli_first s < 8192" and m: "sli_number s < 8192" and pc: "sli_pict_id s < 64"
  shows "sli_of_bytes (sli_bytes s) = s"
proof -
  have F: "k < 13" if "bit (sli_first s) k" for k
    using bits_below [of "sli_first s" 13 k] f that by simp
  have N: "k < 13" if "bit (sli_number s) k" for k
    using bits_below [of "sli_number s" 13 k] m that by simp
  have P: "k < 6" if "bit (sli_pict_id s) k" for k
    using bits_below [of "sli_pict_id s" 6 k] pc that by simp
  have S2: "Suc (Suc (n - 2)) = n" if "2 \<le> n" for n :: nat using that by simp
  have k: "(0xFF :: u16) = mask 8" "(31 :: u16) = mask 5" "(7 :: u16) = mask 3" "(3 :: u16) = mask 2"
    "(63 :: u8) = mask 6" "(0xF8 :: u16) = push_bit 3 (mask 5)" "(0xC0 :: u16) = push_bit 6 (mask 2)"
    by (simp_all add: mask_eq_decr_exp)
  have "sli_first (sli_of_bytes (sli_bytes s)) = sli_first s"
    unfolding sli_of_bytes_def sli_bytes_def k
    apply (simp, subst disjunctive_add_eq_or)
     apply (rule bit_word_eqI, auto simp: bit_simps)[1]
    apply (rule bit_word_eqI)
    subgoal for n by (cases "n < 5"; cases "n < 13"; auto simp: bit_simps not_less dest: F)
    done
  moreover have "sli_number (sli_of_bytes (sli_bytes s)) = sli_number s"
    unfolding sli_of_bytes_def sli_bytes_def k
    apply (simp, subst disjunctive_add_eq_or)
     apply (rule bit_word_eqI, auto simp: bit_simps)[1]
    apply (subst disjunctive_add_eq_or)
     apply (rule bit_word_eqI, auto simp: bit_simps)[1]
    apply (rule bit_word_eqI)
    subgoal for n by (cases "n < 2"; cases "n < 10"; cases "n < 13"; auto simp: bit_simps not_less S2 dest: N)
    done
  moreover have "sli_pict_id (sli_of_bytes (sli_bytes s)) = sli_pict_id s"
    unfolding sli_of_bytes_def sli_bytes_def k
    by (simp, rule bit_word_eqI) (auto simp: bit_simps dest: P)
  ultimately show ?thesis by simp
qed

lemma sli_chunks:
  assumes "\<forall>s \<in> set ss. sli_first s < 8192 \<and> sli_number s < 8192 \<and> sli_pict_id s < 64" "length xs = p"
  shows "rd_slis (xs @ concat (map sli_bytes ss) @ ys) p (length ss) = Some ss"
  using assms
proof (induction ss arbitrary: xs p)
  case Nil
  then show ?case by simp
next
  case (Cons s ss)
  have "rd_slis ((xs @ sli_bytes s) @ concat (map sli_bytes ss) @ ys) (p + 4) (length ss) = Some ss"
    using Cons.prems by (intro Cons.IH) (simp_all add: sli_bytes_def)
  moreover have "rd_bytes (xs @ sli_bytes s @ concat (map sli_bytes ss) @ ys) p 4 = Some (sli_bytes s)"
    using Cons.prems(2) by (intro ld_here(4)) (simp_all add: sli_bytes_def)
  ultimately show ?case using Cons.prems(1) by (simp add: sli_of_to_bytes)
qed

lemma fb_hdr_fields [simp]:
  "rc_pt (fb_hdr c pt fmt len) = pt" "rc_count (fb_hdr c pt fmt len) = fmt"
  "rc_length (fb_hdr c pt fmt len) = htons (of_nat (len div 4 - 1))"
  by (simp_all add: fb_hdr_def)

lemma fb_words:
  assumes "n < 65534"
  shows "(ucast (of_nat (n + 2) :: u16) :: u32) - 2 = of_nat n" and "unat ((of_nat n + 3 :: u32) * 4) = (n + 3) * 4"
proof -
  have "(ucast (of_nat (n + 2) :: u16) :: u32) = of_nat (unat (of_nat (n + 2) :: u16))"
    by (rule of_nat_unat [symmetric])
  also have "unat (of_nat (n + 2) :: u16) = n + 2" using assms by (simp only: unat16_of_nat) simp
  finally have "(ucast (of_nat (n + 2) :: u16) :: u32) = of_nat (n + 2)" .
  then show "(ucast (of_nat (n + 2) :: u16) :: u32) - 2 = of_nat n" by simp
  have "(of_nat n + 3 :: u32) * 4 = of_nat ((n + 3) * 4)" by (simp add: algebra_simps)
  then show "unat ((of_nat n + 3 :: u32) * 4) = (n + 3) * 4"
    using assms by (simp only: unat_of_nat) simp
qed

lemma fb_built:
  assumes "len \<le> length buf" "length pkt \<le> len"
  shows "fb_build buf len (rtcp_common_bytes h @ pkt) = Inr (rtcp_common_bytes h @ pkt @ drop (8 + length pkt) buf, len)"
  using assms by (simp add: fb_build_def write_at_def)

lemma fb_header:
  assumes "m = rtcp_common_bytes (fb_hdr c pt fmt len) @ rest"
  shows "rd_pt m 0 = Some pt" "rd_count m 0 = Some (ucast fmt)" "rd_length m 0 = Some (of_nat (len div 4 - 1))"
  using rd_common [of "[]" 0 "fb_hdr c pt fmt len" rest] assms by simp_all

lemma nack_roundtrip:
  assumes ns: "ns \<noteq> []" "length ns < 65534" "\<forall>n \<in> set ns. 0 \<le> nk_pid n \<and> nk_pid n < 65536"
    and buf: "(3 + length ns) * 4 \<le> length buf"
  shows "\<exists>buf'. pjmedia_rtcp_fb_build_nack c buf ns = Inr (buf', (3 + length ns) * 4) \<and> length buf' = length buf \<and>
    pjmedia_rtcp_fb_parse_nack buf' 0 ((3 + length ns) * 4) k = Some (Inr (take k ns))"
proof -
  let ?c = "\<lambda>n. le16 (htons (word_of_int (nk_pid n))) @ le16 (htons (nk_blp n))"
  define body where "body = concat (map ?c ns)"
  have len: "length body = 4 * length ns" unfolding body_def by (induction ns) simp_all
  define buf' where "buf' = rtcp_common_bytes (fb_hdr c 205 1 ((3 + length ns) * 4)) @ body @ drop (8 + length body) buf"
  have b: "pjmedia_rtcp_fb_build_nack c buf ns = Inr (buf', (3 + length ns) * 4)"
    using ns(1) buf fb_built [OF buf, of body] len
    by (simp add: pjmedia_rtcp_fb_build_nack_def body_def buf'_def Let_def)
  define ts where "ts = take k ns"
  have split: "body = concat (map ?c ts) @ concat (map ?c (drop k ns))"
    unfolding body_def ts_def by (simp flip: concat_append map_append)
  have "\<forall>n \<in> set ts. 0 \<le> nk_pid n \<and> nk_pid n < 65536" using ns(3) by (auto simp: ts_def dest: in_set_takeD)
  then have "rd_nacks buf' 8 (length ts) = Some ts"
    using nack_chunks [of ts "rtcp_common_bytes (fb_hdr c 205 1 ((3 + length ns) * 4))" 8
        "concat (map ?c (drop k ns)) @ drop (8 + length body) buf"]
    by (simp add: buf'_def split)
  moreover have "length ts = min k (length ns)" by (simp add: ts_def min.commute)
  moreover have "(ucast (of_nat (length ns + 2) :: u16) :: u32) - 2 = of_nat (length ns)"
    "unat ((of_nat (length ns) + 3 :: u32) * 4) = (length ns + 3) * 4"
    using fb_words [OF ns(2)] by blast+
  moreover have "unat (of_nat (length ns) :: u32) = length ns" using ns(2) by (simp add: unat_of_nat)
  moreover have "(3 + length ns) * 4 div 4 - 1 = length ns + 2" by simp
  ultimately have "pjmedia_rtcp_fb_parse_nack buf' 0 ((3 + length ns) * 4) k = Some (Inr ts)"
    using fb_header [OF buf'_def] by (simp add: pjmedia_rtcp_fb_parse_nack_def del: of_nat_add)
  moreover have "length buf' = length buf" using buf len by (simp add: buf'_def)
  ultimately show ?thesis using b ts_def by blast
qed

lemma sli_roundtrip:
  assumes ss: "ss \<noteq> []" "length ss < 65534"
      "\<forall>s \<in> set ss. sli_first s < 8192 \<and> sli_number s < 8192 \<and> sli_pict_id s < 64"
    and buf: "(3 + length ss) * 4 \<le> length buf"
  shows "\<exists>buf'. pjmedia_rtcp_fb_build_sli c buf ss = Inr (buf', (3 + length ss) * 4) \<and> length buf' = length buf \<and>
    pjmedia_rtcp_fb_parse_sli buf' 0 ((3 + length ss) * 4) k = Some (Inr (take k ss))"
proof -
  define body where "body = concat (map sli_bytes ss)"
  have len: "length body = 4 * length ss" unfolding body_def by (induction ss) (simp_all add: sli_bytes_def)
  define buf' where "buf' = rtcp_common_bytes (fb_hdr c 206 2 ((3 + length ss) * 4)) @ body @ drop (8 + length body) buf"
  have b: "pjmedia_rtcp_fb_build_sli c buf ss = Inr (buf', (3 + length ss) * 4)"
    using ss(1) buf fb_built [OF buf, of body] len
    by (simp add: pjmedia_rtcp_fb_build_sli_def body_def buf'_def Let_def)
  define ts where "ts = take k ss"
  have split: "body = concat (map sli_bytes ts) @ concat (map sli_bytes (drop k ss))"
    unfolding body_def ts_def by (simp flip: concat_append map_append)
  have "\<forall>s \<in> set ts. sli_first s < 8192 \<and> sli_number s < 8192 \<and> sli_pict_id s < 64"
    using ss(3) by (auto simp: ts_def dest: in_set_takeD)
  then have "rd_slis buf' 8 (length ts) = Some ts"
    using sli_chunks [of ts "rtcp_common_bytes (fb_hdr c 206 2 ((3 + length ss) * 4))" 8
        "concat (map sli_bytes (drop k ss)) @ drop (8 + length body) buf"]
    by (simp add: buf'_def split)
  moreover have "length ts = min k (length ss)" by (simp add: ts_def min.commute)
  moreover have "(ucast (of_nat (length ss + 2) :: u16) :: u32) - 2 = of_nat (length ss)"
    "unat ((of_nat (length ss) + 3 :: u32) * 4) = (length ss + 3) * 4"
    using fb_words [OF ss(2)] by blast+
  moreover have "unat (of_nat (length ss) :: u32) = length ss" using ss(2) by (simp add: unat_of_nat)
  moreover have "(3 + length ss) * 4 div 4 - 1 = length ss + 2" by simp
  ultimately have "pjmedia_rtcp_fb_parse_sli buf' 0 ((3 + length ss) * 4) k = Some (Inr ts)"
    using fb_header [OF buf'_def] by (simp add: pjmedia_rtcp_fb_parse_sli_def del: of_nat_add)
  moreover have "length buf' = length buf" using buf len by (simp add: buf'_def)
  ultimately show ?thesis using b ts_def by blast
qed

text \<open>The bit string in whole bytes.\<close>

lemma rpsi_bytes:
  assumes "n \<le> 8 * length bs"
  shows "take (n div 8) bs @ (if n mod 8 \<noteq> 0 then [bs ! (n div 8)] else []) = take ((n + 7) div 8) bs"
proof (cases "n mod 8 = 0")
  case True
  then show ?thesis by (auto simp: div_add1_eq [of n 7])
next
  case False
  then have "n div 8 < length bs" using assms mult_div_mod_eq [of 8 n] by linarith
  moreover have "(n + 7) div 8 = Suc (n div 8)"
  proof -
    define q r where "q = n div 8" and "r = n mod 8"
    have "n = 8 * q + r" "0 < r" "r < 8" using False by (simp_all add: q_def r_def)
    then show ?thesis unfolding q_def [symmetric] by (intro div_nat_eqI) simp_all
  qed
  ultimately show ?thesis using False by (simp add: take_Suc_conv_app_nth)
qed

lemma rpsi_pad_bytes:
  assumes "n + 16 + pad = 32 * (W :: nat)"
  shows "2 + (n + 7) div 8 + pad div 8 = 4 * W"
proof -
  define a b where "a = n div 8" and "b = n mod 8"
  have n: "n = 8 * a + b" "b < 8" by (simp_all add: a_def b_def)
  define k where "k = 4 * W - 2 - a - (if b = 0 then 0 else 1)"
  have "pad div 8 = k" and "2 + a + (if b = 0 then 0 else 1) + k = 4 * W"
    using assms n by (auto simp: k_def intro!: div_nat_eqI split: if_splits)
  moreover have "(n + 7) div 8 = a + (if b = 0 then 0 else 1)"
    using n by (auto intro!: div_nat_eqI)
  ultimately show ?thesis by simp
qed

lemma rpsi_roundtrip:
  fixes r :: fb_rpsi
  defines "n \<equiv> unat (rpsi_bit_len r)"
  defines "len \<equiv> (3 + (n + 47) div 32) * 4"
  assumes r: "n < 2 ^ 20" "n \<le> 8 * length (rpsi_bits r)" and buf: "len \<le> length buf"
  shows "\<exists>buf'. pjmedia_rtcp_fb_build_rpsi c buf r = Inr (buf', len) \<and> length buf' = length buf \<and>
    pjmedia_rtcp_fb_parse_rpsi buf' 0 len =
      Some (Inr (rpsi_pt r AND 0x7F, rpsi_bit_len r, Some (take ((n + 7) div 8) (rpsi_bits r))))"
proof -
  define pad where "pad = (32 - (n + 16) mod 32) mod 32"
  define W where "W = (n + 47) div 32"
  have W: "(n + 16 + pad) = 32 * W" "pad < 32"
  proof -
    define q t where "q = (n + 16) div 32" and "t = (n + 16) mod 32"
    have n: "n + 16 = 32 * q + t" "t < 32" by (simp_all add: q_def t_def)
    have "W = (32 * q + t + 31) div 32" unfolding W_def using n(1) by (simp add: add.commute)
    also have "\<dots> = q + (t + 31) div 32" by (simp add: add.assoc)
    finally have "W = q + (if t = 0 then 0 else 1)" using n(2) by (auto intro!: div_nat_eqI)
    moreover have "pad = (if t = 0 then 0 else 32 - t)" using n(2) by (simp add: pad_def t_def [symmetric])
    ultimately show "n + 16 + pad = 32 * W" "pad < 32" using n by (auto split: if_splits)
  qed
  have Wle: "W < 65534" using r(1) W_def by simp
  define bits where "bits = take ((n + 7) div 8) (rpsi_bits r)"
  have bl: "length bits = (n + 7) div 8" unfolding bits_def using r(2) by simp
  define zs where "zs = (if pad \<ge> 8 then replicate (pad div 8) (0::u8) else [])"
  define body where "body = [of_nat pad, rpsi_pt r AND 0x7F] @ bits @ zs"
  have zl: "length zs = pad div 8" by (simp add: zs_def)
  have "length body = 2 + (n + 7) div 8 + pad div 8" by (simp add: body_def bl zl)
  also have "\<dots> = 4 * W" using rpsi_pad_bytes [OF W(1)] .
  finally have bodyl: "length body = 4 * W" .
  define buf' where "buf' = rtcp_common_bytes (fb_hdr c 206 3 len) @ body @ drop (8 + length body) buf"
  have lenW: "len = (3 + W) * 4" "(3 + (n + 16 + pad) div 32) * 4 = len" by (simp_all add: len_def W_def [symmetric] W(1))
  have b: "pjmedia_rtcp_fb_build_rpsi c buf r = Inr (buf', len)"
  proof -
    have "body = [of_nat pad, rpsi_pt r AND 0x7F] @ take (n div 8) (rpsi_bits r)
        @ (if n mod 8 \<noteq> 0 then [rpsi_bits r ! (n div 8)] else []) @ zs"
      using rpsi_bytes [OF r(2)] by (simp add: body_def bits_def flip: append_assoc)
    then have "pjmedia_rtcp_fb_build_rpsi c buf r = fb_build buf len (rtcp_common_bytes (fb_hdr c 206 3 len) @ body)"
      unfolding pjmedia_rtcp_fb_build_rpsi_def Let_def n_def [symmetric] pad_def [symmetric] lenW(2) zs_def by simp
    then show ?thesis using fb_built [OF buf, of body] bodyl lenW(1) by (simp add: buf'_def)
  qed
  have bd: "rd8 buf' 8 = Some (of_nat pad)" "rd8 buf' 9 = Some (rpsi_pt r AND 0x7F)"
      "rd_bytes buf' 10 ((n + 7) div 8) = Some bits"
    unfolding buf'_def body_def using bl
    by (simp_all add: rd8_def rd_bytes_def nth_append)
  have bit_len: "(of_nat W * 4) * 8 - 16 - ucast (of_nat pad :: u8) = rpsi_bit_len r"
  proof -
    have "(ucast (of_nat pad :: u8) :: u32) = of_nat (unat (of_nat pad :: u8))" by (rule of_nat_unat [symmetric])
    also have "unat (of_nat pad :: u8) = pad" using W(2) by (simp add: unat_of_nat)
    finally have "(ucast (of_nat pad :: u8) :: u32) = of_nat pad" .
    moreover have "(of_nat W * 4) * 8 = (of_nat (32 * W) :: u32)" by simp
    ultimately show ?thesis by (simp add: W(1) [symmetric] n_def)
  qed
  have bit_len7: "32 * of_nat W - ucast (of_nat pad :: u8) - 9 = rpsi_bit_len r + 7" by (simp flip: bit_len)
  have "unat ((of_nat W * 4 + 12 :: u32)) = len"
  proof -
    have "(of_nat W * 4 + 12 :: u32) = of_nat len" by (simp add: lenW(1) algebra_simps)
    then show ?thesis using Wle lenW(1) by (simp only: unat_of_nat) simp
  qed
  moreover have "unat ((rpsi_bit_len r + 7) div 8) = (n + 7) div 8"
  proof -
    have "unat (rpsi_bit_len r + 7) = n + 7"
      using r(1) unfolding n_def by (subst unat_add_lem [THEN iffD1]) simp_all
    then show ?thesis by (simp add: unat_div)
  qed
  moreover have "(ucast (of_nat (len div 4 - 1) :: u16) :: u32) - 2 = of_nat W"
    using fb_words(1) [OF Wle] by (simp add: lenW(1) add.commute)
  ultimately have "pjmedia_rtcp_fb_parse_rpsi buf' 0 len = Some (Inr (rpsi_pt r AND 0x7F, rpsi_bit_len r, Some bits))"
    using fb_header [OF buf'_def] bd bit_len
    by (simp add: pjmedia_rtcp_fb_parse_rpsi_def Let_def lenW(1) bit_len7)
  moreover have "length buf' = length buf" using buf bodyl by (simp add: buf'_def lenW(1))
  ultimately show ?thesis using b bits_def by blast
qed

text \<open>
  C38. A feedback packet built in a buffer that is large enough parses back: of the generic
  NACKs and of the slice loss indications the parser returns the first ones there is room for, with the
  fields within their widths on the wire; of a reference picture selection the payload type, the
  number of bits and the bytes that hold them.
\<close>

theorem rtcp_fb_roundtrip:
  assumes "ns \<noteq> []" "length ns < 65534" "\<forall>n \<in> set ns. 0 \<le> nk_pid n \<and> nk_pid n < 65536"
      "(3 + length ns) * 4 \<le> length buf"
    and "ss \<noteq> []" "length ss < 65534"
      "\<forall>s \<in> set ss. sli_first s < 8192 \<and> sli_number s < 8192 \<and> sli_pict_id s < 64"
      "(3 + length ss) * 4 \<le> length buf"
    and "unat (rpsi_bit_len r) < 2 ^ 20" "unat (rpsi_bit_len r) \<le> 8 * length (rpsi_bits r)"
      "(3 + (unat (rpsi_bit_len r) + 47) div 32) * 4 \<le> length buf"
  shows "(\<exists>b l. pjmedia_rtcp_fb_build_nack c buf ns = Inr (b, l) \<and>
      pjmedia_rtcp_fb_parse_nack b 0 l k = Some (Inr (take k ns))) \<and>
    (\<exists>b l. pjmedia_rtcp_fb_build_sli c buf ss = Inr (b, l) \<and>
      pjmedia_rtcp_fb_parse_sli b 0 l k = Some (Inr (take k ss))) \<and>
    (\<exists>b l. pjmedia_rtcp_fb_build_rpsi c buf r = Inr (b, l) \<and>
      pjmedia_rtcp_fb_parse_rpsi b 0 l = Some (Inr (rpsi_pt r AND 0x7F, rpsi_bit_len r,
        Some (take ((unat (rpsi_bit_len r) + 7) div 8) (rpsi_bits r)))))"
proof (intro conjI)
  show "\<exists>b l. pjmedia_rtcp_fb_build_nack c buf ns = Inr (b, l) \<and>
      pjmedia_rtcp_fb_parse_nack b 0 l k = Some (Inr (take k ns))"
    using nack_roundtrip [OF assms(1-4)] by metis
  show "\<exists>b l. pjmedia_rtcp_fb_build_sli c buf ss = Inr (b, l) \<and>
      pjmedia_rtcp_fb_parse_sli b 0 l k = Some (Inr (take k ss))"
    using sli_roundtrip [OF assms(5-8)] by metis
qed (use rpsi_roundtrip [OF assms(9-11)] in metis)

theorem rtcp_fb_roundtrip_witness:
  "\<exists>b l. pjmedia_rtcp_fb_build_nack \<lparr>rc_count = 1, rc_p = 0, rc_version = 2, rc_pt = 201, rc_length = 0, rc_ssrc = 9\<rparr>
      (replicate 20 0) [\<lparr>nk_pid = 7, nk_blp = 3\<rparr>, \<lparr>nk_pid = 65535, nk_blp = 0\<rparr>] = Inr (b, l) \<and>
     pjmedia_rtcp_fb_parse_nack b 0 l 1 = Some (Inr [\<lparr>nk_pid = 7, nk_blp = 3\<rparr>])"
  using rtcp_fb_roundtrip [of "[\<lparr>nk_pid = 7, nk_blp = 3\<rparr>, \<lparr>nk_pid = 65535, nk_blp = 0\<rparr>]" "replicate 20 0"
      "[\<lparr>sli_first = 8191, sli_number = 5, sli_pict_id = 63\<rparr>]"
      "\<lparr>rpsi_pt = 96, rpsi_bits = [1, 2], rpsi_bit_len = 11\<rparr>"
      "\<lparr>rc_count = 1, rc_p = 0, rc_version = 2, rc_pt = 201, rc_length = 0, rc_ssrc = 9\<rparr>" 1]
  by simp

text \<open>
  A packet that is a bare header with length 1 passes the length check, because \<open>cnt\<close> wraps around, and
  the parser reads a message past its end.
\<close>

lemma rtcp_fb_nack_overrun:
  "pjmedia_rtcp_fb_parse_nack (rtcp_common_bytes (fb_hdr c 205 1 8)) 0 8 1 = None"
proof -
  let ?m = "rtcp_common_bytes (fb_hdr c 205 1 8)"
  have "unat (- 1 :: u32) \<noteq> 0" by (simp only: unat_eq_zero) simp
  then have "min 1 (unat (- 1 :: u32)) = Suc 0" by simp
  then have "rd_nacks ?m 8 (min 1 (unat (- 1 :: u32))) = None" by (simp add: ld16_def)
  then show ?thesis
    using fb_header [of ?m c 205 1 8 "[]"] by (simp add: pjmedia_rtcp_fb_parse_nack_def)
qed

end
