(* ===== verification/Time_Val.thy ===== *)
theory Time_Val
  imports Prelude
begin

text \<open>
  Time values (\<open>pjlib/include/pj/types.h\<close> and \<open>pjlib/src/pj/types.c\<close>): a pair of seconds and
  milliseconds, compared field by field by the macros \<open>PJ_TIME_VAL_GT\<close> and its relatives, added and
  subtracted with a normalisation afterwards. The fields are of type \<open>long\<close>; times and delays are
  taken to be far from its bounds. The main lemma is that normalisation is truncating division, so
  that the field-wise order of normal values is the order of the times they stand for.
\<close>

datatype pj_time_val = Time_Val (tv_sec: int) (tv_msec: int)

definition PJ_TIME_VAL_MSEC :: "pj_time_val \<Rightarrow> int" where
  "PJ_TIME_VAL_MSEC t = tv_sec t * 1000 + tv_msec t"

definition PJ_TIME_VAL_EQ :: "pj_time_val \<Rightarrow> pj_time_val \<Rightarrow> bool" where
  "PJ_TIME_VAL_EQ t1 t2 \<longleftrightarrow> tv_sec t1 = tv_sec t2 \<and> tv_msec t1 = tv_msec t2"

definition PJ_TIME_VAL_GT :: "pj_time_val \<Rightarrow> pj_time_val \<Rightarrow> bool" where
  "PJ_TIME_VAL_GT t1 t2 \<longleftrightarrow> tv_sec t1 > tv_sec t2 \<or> (tv_sec t1 = tv_sec t2 \<and> tv_msec t1 > tv_msec t2)"

definition PJ_TIME_VAL_GTE :: "pj_time_val \<Rightarrow> pj_time_val \<Rightarrow> bool" where
  "PJ_TIME_VAL_GTE t1 t2 \<longleftrightarrow> PJ_TIME_VAL_GT t1 t2 \<or> PJ_TIME_VAL_EQ t1 t2"

text \<open>\<open>PJ_TIME_VAL_LT\<close> and \<open>PJ_TIME_VAL_LTE\<close> are the strict and the reflexive order of the type.\<close>

instantiation pj_time_val :: linorder
begin

definition less_pj_time_val :: "pj_time_val \<Rightarrow> pj_time_val \<Rightarrow> bool" where
  "less_pj_time_val t1 t2 \<longleftrightarrow> \<not> PJ_TIME_VAL_GTE t1 t2"

definition less_eq_pj_time_val :: "pj_time_val \<Rightarrow> pj_time_val \<Rightarrow> bool" where
  "less_eq_pj_time_val t1 t2 \<longleftrightarrow> \<not> PJ_TIME_VAL_GT t1 t2"

instance
proof
  fix x y z :: pj_time_val
  note defs = less_pj_time_val_def less_eq_pj_time_val_def PJ_TIME_VAL_GTE_def PJ_TIME_VAL_GT_def
    PJ_TIME_VAL_EQ_def
  show "x < y \<longleftrightarrow> x \<le> y \<and> \<not> y \<le> x" unfolding defs by linarith
  show "x \<le> x" unfolding defs by simp
  show "x \<le> y \<Longrightarrow> y \<le> z \<Longrightarrow> x \<le> z" unfolding defs by linarith
  show "x \<le> y \<Longrightarrow> y \<le> x \<Longrightarrow> x = y" unfolding defs
    by (cases x; cases y) (simp, linarith)
  show "x \<le> y \<or> y \<le> x" unfolding defs by linarith
qed

end

lemma PJ_TIME_VAL_GTE_iff: "PJ_TIME_VAL_GTE t1 t2 \<longleftrightarrow> t2 \<le> t1"
  by (metis less_pj_time_val_def not_less)

lemma time_val_le_iff:
  "t1 \<le> t2 \<longleftrightarrow> tv_sec t1 < tv_sec t2 \<or> (tv_sec t1 = tv_sec t2 \<and> tv_msec t1 \<le> tv_msec t2)"
  by (auto simp: less_eq_pj_time_val_def PJ_TIME_VAL_GT_def)

text \<open>\<open>pj_time_val_normalize\<close>; the recursion is its do-while loop.\<close>

function borrow_seconds :: "int \<Rightarrow> int \<Rightarrow> int \<times> int" where
  "borrow_seconds sec msec =
     (if msec + 1000 \<le> - 1000 then borrow_seconds (sec - 1) (msec + 1000) else (sec - 1, msec + 1000))"
  by auto
termination by (relation "measure (\<lambda>(sec, msec). nat (- msec))") auto

declare borrow_seconds.simps [simp del]

definition pj_time_val_normalize :: "pj_time_val \<Rightarrow> pj_time_val" where
  "pj_time_val_normalize t =
     (let (sec, msec) =
            (if tv_msec t \<ge> 1000 then (tv_sec t + tv_msec t div 1000, tv_msec t mod 1000)
             else if tv_msec t \<le> - 1000 then borrow_seconds (tv_sec t) (tv_msec t)
             else (tv_sec t, tv_msec t))
      in if sec \<ge> 1 \<and> msec < 0 then Time_Val (sec - 1) (msec + 1000)
         else if sec < 0 \<and> msec > 0 then Time_Val (sec + 1) (msec - 1000)
         else Time_Val sec msec)"

definition PJ_TIME_VAL_ADD :: "pj_time_val \<Rightarrow> pj_time_val \<Rightarrow> pj_time_val" where
  "PJ_TIME_VAL_ADD t1 t2 =
     pj_time_val_normalize (Time_Val (tv_sec t1 + tv_sec t2) (tv_msec t1 + tv_msec t2))"

definition PJ_TIME_VAL_SUB :: "pj_time_val \<Rightarrow> pj_time_val \<Rightarrow> pj_time_val" where
  "PJ_TIME_VAL_SUB t1 t2 =
     pj_time_val_normalize (Time_Val (tv_sec t1 - tv_sec t2) (tv_msec t1 - tv_msec t2))"

section \<open>Normal values\<close>

definition tv_normal :: "pj_time_val \<Rightarrow> bool" where
  "tv_normal t \<longleftrightarrow> \<bar>tv_msec t\<bar> < 1000 \<and> (0 < tv_sec t \<longrightarrow> 0 \<le> tv_msec t) \<and> (tv_sec t < 0 \<longrightarrow> tv_msec t \<le> 0)"

lemma borrow_seconds_total:
  "borrow_seconds sec msec = (s, m) \<Longrightarrow> s * 1000 + m = sec * 1000 + msec"
  by (induction sec msec arbitrary: s m rule: borrow_seconds.induct)
    (subst (asm) (2) borrow_seconds.simps, auto split: if_splits)

lemma borrow_seconds_range:
  "borrow_seconds sec msec = (s, m) \<Longrightarrow> msec \<le> - 1000 \<Longrightarrow> - 1000 < m \<and> m \<le> 0"
  by (induction sec msec arbitrary: s m rule: borrow_seconds.induct)
    (subst (asm) (2) borrow_seconds.simps, auto split: if_splits)

lemma normalize_total: "PJ_TIME_VAL_MSEC (pj_time_val_normalize t) = PJ_TIME_VAL_MSEC t"
proof -
  obtain s m where b: "borrow_seconds (tv_sec t) (tv_msec t) = (s, m)" by fastforce
  show ?thesis
    using borrow_seconds_total [OF b] div_mult_mod_eq [of "tv_msec t" 1000]
    by (auto simp: PJ_TIME_VAL_MSEC_def pj_time_val_normalize_def b)
qed

lemma normalize_normal: "tv_normal (pj_time_val_normalize t)"
proof -
  obtain s m where b: "borrow_seconds (tv_sec t) (tv_msec t) = (s, m)" by fastforce
  have r: "- 1000 < m \<and> m \<le> 0" if "tv_msec t \<le> - 1000"
    using borrow_seconds_range [OF b that] .
  define q where "q = (if tv_msec t \<ge> 1000 then (tv_sec t + tv_msec t div 1000, tv_msec t mod 1000)
      else if tv_msec t \<le> - 1000 then (s, m) else (tv_sec t, tv_msec t))"
  obtain s' m' where q: "q = (s', m')" by fastforce
  have "- 1000 < m' \<and> m' < 1000"
    using q r pos_mod_bound [of 1000 "tv_msec t"] pos_mod_sign [of 1000 "tv_msec t"]
    by (cases "tv_msec t \<ge> 1000"; cases "tv_msec t \<le> - 1000") (auto simp: q_def)
  moreover have "pj_time_val_normalize t = (if s' \<ge> 1 \<and> m' < 0 then Time_Val (s' - 1) (m' + 1000)
      else if s' < 0 \<and> m' > 0 then Time_Val (s' + 1) (m' - 1000) else Time_Val s' m')"
    using q unfolding q_def pj_time_val_normalize_def b by (simp only: Let_def split: prod.splits) auto
  ultimately show ?thesis unfolding tv_normal_def by (simp, linarith)
qed

lemma tv_normal_le_iff:
  assumes "tv_normal t1" "tv_normal t2"
  shows "t1 \<le> t2 \<longleftrightarrow> PJ_TIME_VAL_MSEC t1 \<le> PJ_TIME_VAL_MSEC t2"
proof -
  have lt: "PJ_TIME_VAL_MSEC a < PJ_TIME_VAL_MSEC b" if "tv_normal a" "tv_normal b" "tv_sec a < tv_sec b" for a b
    using that unfolding tv_normal_def PJ_TIME_VAL_MSEC_def by linarith
  show ?thesis
    using lt [OF assms] lt [OF assms(2,1)] by (cases "tv_sec t1" "tv_sec t2" rule: linorder_cases) (auto simp: time_val_le_iff PJ_TIME_VAL_MSEC_def)
qed

lemma add_sub_total:
  "PJ_TIME_VAL_MSEC (PJ_TIME_VAL_ADD a b) = PJ_TIME_VAL_MSEC a + PJ_TIME_VAL_MSEC b"
  "PJ_TIME_VAL_MSEC (PJ_TIME_VAL_SUB a b) = PJ_TIME_VAL_MSEC a - PJ_TIME_VAL_MSEC b"
  by (simp_all add: PJ_TIME_VAL_ADD_def PJ_TIME_VAL_SUB_def normalize_total) (simp_all add: PJ_TIME_VAL_MSEC_def)

lemma add_sub_normal: "tv_normal (PJ_TIME_VAL_ADD a b)" "tv_normal (PJ_TIME_VAL_SUB a b)"
  by (simp_all add: PJ_TIME_VAL_ADD_def PJ_TIME_VAL_SUB_def normalize_normal)

section \<open>Property\<close>

text \<open>Adding and subtracting time values, whatever their fields, adds and subtracts the times in milliseconds;
  the results are normal, and comparing two of them field by field is comparing their times.\<close>

theorem time_val_add_sub:
  "PJ_TIME_VAL_MSEC (PJ_TIME_VAL_ADD t1 t2) = PJ_TIME_VAL_MSEC t1 + PJ_TIME_VAL_MSEC t2 \<and>
   PJ_TIME_VAL_MSEC (PJ_TIME_VAL_SUB t1 t2) = PJ_TIME_VAL_MSEC t1 - PJ_TIME_VAL_MSEC t2 \<and>
   tv_normal (PJ_TIME_VAL_ADD t1 t2) \<and> tv_normal (PJ_TIME_VAL_SUB t1 t2) \<and>
   (PJ_TIME_VAL_ADD t1 t2 \<le> PJ_TIME_VAL_ADD t3 t4 \<longleftrightarrow>
      PJ_TIME_VAL_MSEC t1 + PJ_TIME_VAL_MSEC t2 \<le> PJ_TIME_VAL_MSEC t3 + PJ_TIME_VAL_MSEC t4)"
  using tv_normal_le_iff [OF add_sub_normal(1) add_sub_normal(1)] by (simp add: add_sub_total add_sub_normal)

end
