(* ===== verification/Rtcp.thy ===== *)
theory Rtcp
  imports Rtp Rtcp_Fb Math_Stat Time_Val
begin

text \<open>
  The RTCP session of \<open>pjmedia/src/pjmedia/rtcp.c\<close>: the statistics of received and sent RTP packets, over
  the sequence tracker of \<open>Rtp\<close>; sender and receiver reports, source descriptions and goodbyes,
  built and parsed. The configuration is the default one: no extended reports, no raw jitter and no
  delay variation statistics.

  Fields hold what the C structures hold, those of the cached report packets in network byte order. The
  strings of \<open>peer_sdes\<close> are pointers into \<open>peer_sdes_buf_\<close>: an offset and a length, \<open>None\<close> for a null pointer.
  The clock frequency and the clock rate divide; where one is zero the division traps and the result
  is \<open>None\<close>, as for a read outside the received data.

  Arguments of the model are what a call reads from the clocks, and the mean of the round trip times, which is
  floating-point. Not modelled: the name of a session, the loss type, logging.
\<close>

section \<open>State\<close>

record stream_stat =
  ss_update :: pj_time_val
  ss_update_cnt :: u32
  ss_pkt :: u32
  ss_bytes :: u32
  ss_discard :: u32
  ss_loss :: u32
  ss_reorder :: u32
  ss_dup :: u32
  ss_loss_period :: math_stat
  ss_jitter :: math_stat

record 's rtcp_sdes =
  sd_cname :: 's
  sd_name :: 's
  sd_email :: 's
  sd_phone :: 's
  sd_loc :: 's
  sd_tool :: 's
  sd_note :: 's

type_synonym sdes_ref = "(nat \<times> nat) option"

record rtcp_stat =
  rt_start :: pj_time_val
  rt_tx :: stream_stat
  rt_rx :: stream_stat
  rt_rtt :: math_stat
  rt_peer_sdes :: "sdes_ref rtcp_sdes"
  rt_sdes_buf :: "u8 list"

record rtcp_session =
  rs_sr_pkt :: rtcp_sr_pkt
  rs_rr_pkt :: rtcp_rr_pkt
  rs_seq_ctrl :: rtp_seq_session
  rs_rtp_last_ts :: u32
  rs_clock_rate :: u32
  rs_pkt_size :: u32
  rs_received :: u32
  rs_exp_prior :: u32
  rs_rx_prior :: u32
  rs_transit :: u32
  rs_jitter :: u32
  rs_tv_base :: pj_time_val
  rs_ts_base :: u64
  rs_ts_freq :: u64
  rs_rtp_ts_base :: u32
  rs_rx_lsr :: u32
  rs_rx_lsr_time :: u64
  rs_peer_ssrc :: u32
  rs_stat :: rtcp_stat

text \<open>\<open>PJMEDIA_RTCP_RX_SDES_BUF_LEN\<close>\<close>

abbreviation SDES_BUF_LEN :: nat where "SDES_BUF_LEN \<equiv> 64"

text \<open>
  What a call reads: \<open>pj_get_timestamp\<close>, the reading of it in \<open>pjmedia_rtcp_get_ntp_time\<close>,
  \<open>pj_gettimeofday\<close>, and the field \<open>stat.rtt.mean\<close>.
\<close>

record rtcp_clock =
  ck_ts :: u64
  ck_ntp_ts :: u64
  ck_tod :: pj_time_val
  ck_rtt_mean :: int

definition upd_stat :: "(rtcp_stat \<Rightarrow> rtcp_stat) \<Rightarrow> rtcp_session \<Rightarrow> rtcp_session" where
  "upd_stat f s = s\<lparr>rs_stat := f (rs_stat s)\<rparr>"

definition upd_rx :: "(stream_stat \<Rightarrow> stream_stat) \<Rightarrow> rtcp_session \<Rightarrow> rtcp_session" where
  "upd_rx f = upd_stat (\<lambda>t. t\<lparr>rt_rx := f (rt_rx t)\<rparr>)"

definition upd_tx :: "(stream_stat \<Rightarrow> stream_stat) \<Rightarrow> rtcp_session \<Rightarrow> rtcp_session" where
  "upd_tx f = upd_stat (\<lambda>t. t\<lparr>rt_tx := f (rt_tx t)\<rparr>)"

section \<open>Time\<close>

text \<open>Seconds between 1900-01-01 and 1970-01-01.\<close>

abbreviation JAN_1970 :: u32 where "JAN_1970 \<equiv> 2208988800"

text \<open>The high and the low word of the NTP time.\<close>

definition pjmedia_rtcp_get_ntp_time :: "rtcp_session \<Rightarrow> u64 \<Rightarrow> (u32 \<times> u32) option" where
  "pjmedia_rtcp_get_ntp_time s ts =
    (if rs_ts_freq s = 0 then None
     else (let el = ts - rs_ts_base s;
               hi = ucast (el div rs_ts_freq s) + word_of_int (tv_sec (rs_tv_base s)) + JAN_1970;
               lo = ucast (push_bit 32 (el mod rs_ts_freq s) div rs_ts_freq s)
           in Some (hi, lo)))"

text \<open>Samples to microseconds; the two places in the source differ in the comparison at 4294.\<close>

definition samples_to_usec :: "u32 \<Rightarrow> u32 \<Rightarrow> u32" where
  "samples_to_usec rate n = (if n < 4294 then n * 1000000 div rate else n * 1000 div rate * 1000)"

definition samples_to_usec_tx :: "u32 \<Rightarrow> u32 \<Rightarrow> u32" where
  "samples_to_usec_tx rate n = (if n \<le> 4294 then n * 1000000 div rate else n * 1000 div rate * 1000)"

section \<open>Initialisation\<close>

record rtcp_session_setting =
  rset_clock_rate :: u32
  rset_samples_per_frame :: u32
  rset_ssrc :: u32
  rset_rtp_ts_base :: u32

definition pjmedia_rtcp_session_setting_default :: rtcp_session_setting where
  "pjmedia_rtcp_session_setting_default =
     \<lparr>rset_clock_rate = 0, rset_samples_per_frame = 0, rset_ssrc = 0, rset_rtp_ts_base = 0\<rparr>"

definition zero_stream_stat :: stream_stat where
  "zero_stream_stat =
     \<lparr>ss_update = Time_Val 0 0, ss_update_cnt = 0, ss_pkt = 0, ss_bytes = 0, ss_discard = 0, ss_loss = 0,
      ss_reorder = 0, ss_dup = 0, ss_loss_period = math_stat_init, ss_jitter = math_stat_init\<rparr>"

definition zero_sdes :: "sdes_ref rtcp_sdes" where
  "zero_sdes = \<lparr>sd_cname = None, sd_name = None, sd_email = None, sd_phone = None, sd_loc = None,
     sd_tool = None, sd_note = None\<rparr>"

definition pjmedia_rtcp_init_stat :: "pj_time_val \<Rightarrow> rtcp_stat" where
  "pjmedia_rtcp_init_stat now =
     \<lparr>rt_start = now, rt_tx = zero_stream_stat, rt_rx = zero_stream_stat, rt_rtt = math_stat_init,
      rt_peer_sdes = zero_sdes, rt_sdes_buf = replicate SDES_BUF_LEN 0\<rparr>"

definition zero_rr :: rtcp_rr where
  "zero_rr = \<lparr>rr_ssrc = 0, rr_fract_lost = 0, rr_total_lost_2 = 0, rr_total_lost_1 = 0, rr_total_lost_0 = 0,
     rr_last_seq = 0, rr_jitter = 0, rr_lsr = 0, rr_dlsr = 0\<rparr>"

definition zero_sr :: rtcp_sr where
  "zero_sr = \<lparr>sr_ntp_sec = 0, sr_ntp_frac = 0, sr_rtp_ts = 0, sr_sender_pcount = 0, sr_sender_bcount = 0\<rparr>"

definition pjmedia_rtcp_init2 :: "rtcp_clock \<Rightarrow> u64 \<Rightarrow> rtcp_session_setting \<Rightarrow> rtcp_session" where
  "pjmedia_rtcp_init2 ck freq cfg =
    (let common = \<lparr>rc_count = 1, rc_p = 0, rc_version = 2, rc_pt = 200, rc_length = htons 12,
           rc_ssrc = htonl (rset_ssrc cfg)\<rparr>
     in \<lparr>rs_sr_pkt = \<lparr>srp_common = common, srp_sr = zero_sr, srp_rr = zero_rr\<rparr>,
         rs_rr_pkt = \<lparr>rrp_common = common\<lparr>rc_pt := 201, rc_length := htons 7\<rparr>, rrp_rr = zero_rr\<rparr>,
         rs_seq_ctrl = zero_seq, rs_rtp_last_ts = - 1,
         rs_clock_rate = rset_clock_rate cfg, rs_pkt_size = rset_samples_per_frame cfg,
         rs_received = 0, rs_exp_prior = 0, rs_rx_prior = 0, rs_transit = 0, rs_jitter = 0,
         rs_tv_base = ck_tod ck, rs_ts_base = ck_ts ck, rs_ts_freq = freq,
         rs_rtp_ts_base = rset_rtp_ts_base cfg, rs_rx_lsr = 0, rs_rx_lsr_time = 0, rs_peer_ssrc = 0,
         rs_stat = pjmedia_rtcp_init_stat (ck_tod ck)\<rparr>)"

definition pjmedia_rtcp_init :: "rtcp_clock \<Rightarrow> u64 \<Rightarrow> u32 \<Rightarrow> u32 \<Rightarrow> u32 \<Rightarrow> rtcp_session" where
  "pjmedia_rtcp_init ck freq clock_rate samples_per_frame ssrc =
     pjmedia_rtcp_init2 ck freq
       (pjmedia_rtcp_session_setting_default\<lparr>rset_clock_rate := clock_rate,
          rset_samples_per_frame := samples_per_frame, rset_ssrc := ssrc\<rparr>)"

section \<open>Received and sent RTP packets\<close>

definition rtcp_init_seq :: "rtcp_session \<Rightarrow> rtcp_session" where
  "rtcp_init_seq s =
     s\<lparr>rs_received := 0, rs_exp_prior := 0, rs_rx_prior := 0, rs_transit := 0, rs_jitter := 0\<rparr>"

text \<open>The difference is a \<open>pj_uint16_t\<close>; the period is passed on as an \<open>int\<close>.\<close>

definition rx_loss_period :: "rtcp_session \<Rightarrow> u16 \<Rightarrow> rtcp_session option" where
  "rx_loss_period s diff =
    (if diff > 1 then
       (if rs_clock_rate s = 0 then None
        else (let count = ucast diff - 1;
                  period = count * rs_pkt_size s * 1000 div rs_clock_rate s * 1000
              in Some (upd_rx (\<lambda>r. r\<lparr>ss_loss := ss_loss r + count,
                   ss_loss_period := math_stat_update (ss_loss_period r) (sint period)\<rparr>) s)))
     else Some s)"

text \<open>Interarrival jitter; \<open>transit\<close> is a \<open>pj_int32_t\<close>, kept as a word and read with \<open>sint\<close>.\<close>

definition transit_dist :: "u32 \<Rightarrow> u32 \<Rightarrow> u32" where
  "transit_dist a b = (let d = a - b in if sint d < 0 then - d else d)"

definition jitter_step :: "u32 \<Rightarrow> u32 \<Rightarrow> u32" where
  "jitter_step j d = j + (d - drop_bit 4 (j + 8))"

definition rx_jitter :: "rtcp_clock \<Rightarrow> rtcp_session \<Rightarrow> u16 \<Rightarrow> u32 \<Rightarrow> rtcp_session option" where
  "rx_jitter ck s diff rtp_ts =
    (if diff = 1 \<and> rtp_ts \<noteq> rs_rtp_last_ts s then
       (if rs_ts_freq s = 0 then None
        else (let arrival = ucast (ck_ts ck * ucast (rs_clock_rate s) div rs_ts_freq s);
                  transit = arrival - rtp_ts
              in if rs_transit s = 0 \<or> rs_received s < 25 then
                   Some (upd_rx (\<lambda>r. r\<lparr>ss_jitter := (ss_jitter r)\<lparr>stat_min := - 1\<rparr>\<rparr>) (s\<lparr>rs_transit := transit\<rparr>))
                 else if rs_clock_rate s = 0 then None
                 else (let j = jitter_step (rs_jitter s) (transit_dist transit (rs_transit s));
                           usec = samples_to_usec (rs_clock_rate s) (drop_bit 4 j)
                       in Some (upd_rx (\<lambda>r. r\<lparr>ss_jitter := math_stat_update (ss_jitter r) (sint usec)\<rparr>)
                                  (s\<lparr>rs_jitter := j, rs_transit := transit\<rparr>)))))
     else Some s)"

text \<open>The counters of the flags.\<close>

definition rx_flags :: "rtcp_session \<Rightarrow> rtp_flags \<Rightarrow> rtcp_session" where
  "rx_flags s fl =
    (let s1 = (if fl_restart fl then rtcp_init_seq s else s);
         s2 = (if fl_dup fl then upd_rx (\<lambda>r. r\<lparr>ss_dup := ss_dup r + 1\<rparr>) s1 else s1)
     in if fl_outorder fl \<and> \<not> fl_probation fl then upd_rx (\<lambda>r. r\<lparr>ss_reorder := ss_reorder r + 1\<rparr>) s2 else s2)"

definition pjmedia_rtcp_rx_rtp2 ::
  "rtcp_clock \<Rightarrow> rtcp_session \<Rightarrow> u32 \<Rightarrow> u32 \<Rightarrow> u32 \<Rightarrow> rtcp_session option" where
  "pjmedia_rtcp_rx_rtp2 ck s seq rtp_ts nbytes =
    (let s1 = (if ss_pkt (rt_rx (rs_stat s)) = 0 then s\<lparr>rs_seq_ctrl := rtp_seq_init (rs_seq_ctrl s) (ucast seq)\<rparr> else s);
         s2 = upd_rx (\<lambda>r. r\<lparr>ss_pkt := ss_pkt r + 1, ss_bytes := ss_bytes r + nbytes\<rparr>) s1;
         (ctrl, st) = rtp_seq_update (rs_seq_ctrl s2) (ucast seq);
         s3 = rx_flags (s2\<lparr>rs_seq_ctrl := ctrl\<rparr>) (st_flags st)
     in if fl_bad (st_flags st) then Some (upd_rx (\<lambda>r. r\<lparr>ss_discard := ss_discard r + 1\<rparr>) s3)
        else do { s4 \<leftarrow> rx_loss_period (s3\<lparr>rs_received := rs_received s3 + 1\<rparr>) (st_diff st);
                  s5 \<leftarrow> rx_jitter ck s4 (st_diff st) rtp_ts;
                  Some (s5\<lparr>rs_rtp_last_ts := rtp_ts\<rparr>) })"

definition pjmedia_rtcp_rx_rtp ::
  "rtcp_clock \<Rightarrow> rtcp_session \<Rightarrow> u32 \<Rightarrow> u32 \<Rightarrow> u32 \<Rightarrow> rtcp_session option" where
  "pjmedia_rtcp_rx_rtp ck s seq rtp_ts nbytes = pjmedia_rtcp_rx_rtp2 ck s seq rtp_ts nbytes"

definition pjmedia_rtcp_tx_rtp :: "rtcp_session \<Rightarrow> u32 \<Rightarrow> rtcp_session" where
  "pjmedia_rtcp_tx_rtp s n = upd_tx (\<lambda>t. t\<lparr>ss_pkt := ss_pkt t + 1, ss_bytes := ss_bytes t + n\<rparr>) s"

section \<open>Parsing reports\<close>

text \<open>The report block at \<open>r\<close>.\<close>

definition save_lsr :: "rtcp_clock \<Rightarrow> rtcp_session \<Rightarrow> u8 list \<Rightarrow> nat \<Rightarrow> rtcp_session option" where
  "save_lsr ck s mem p =
    do { sec \<leftarrow> ld32 mem p; frac \<leftarrow> ld32 mem (p + 4);
         Some (s\<lparr>rs_rx_lsr := push_bit 16 (ntohl sec AND 0xFFFF) OR (drop_bit 16 (ntohl frac) AND 0xFFFF),
                 rs_rx_lsr_time := ck_ts ck\<rparr>) }"

definition rr_loss :: "rtcp_session \<Rightarrow> u32 \<Rightarrow> rtcp_session option" where
  "rr_loss s loss =
    (let last_loss = ss_loss (rt_tx (rs_stat s)); s' = upd_tx (\<lambda>t. t\<lparr>ss_loss := loss\<rparr>) s
     in if loss > last_loss then
          (if rs_clock_rate s = 0 then None
           else (let period = (loss - last_loss) * rs_pkt_size s * 1000 div rs_clock_rate s * 1000
                 in Some (upd_tx (\<lambda>t. t\<lparr>ss_loss_period := math_stat_update (ss_loss_period t) (sint period)\<rparr>) s')))
        else Some s')"

definition rr_jitter_stat :: "rtcp_session \<Rightarrow> u32 \<Rightarrow> rtcp_session option" where
  "rr_jitter_stat s jit =
    (if rs_clock_rate s = 0 then None
     else Some (upd_tx (\<lambda>t. t\<lparr>ss_jitter :=
            math_stat_update (ss_jitter t) (sint (samples_to_usec_tx (rs_clock_rate s) jit))\<rparr>) s))"

text \<open>
  The round trip delay in microseconds from a delay in units of 1/65536 second, computed in 64 bits.
\<close>

definition ee_usec :: "u64 \<Rightarrow> u64" where
  "ee_usec d = (if d < 4294 then drop_bit 16 (d * 1000000) else drop_bit 16 (d * 1000) * 1000)"

definition rr_rtt :: "rtcp_clock \<Rightarrow> rtcp_session \<Rightarrow> u32 \<Rightarrow> u32 \<Rightarrow> rtcp_session option" where
  "rr_rtt ck s lsr_field dlsr_field =
    (if lsr_field \<noteq> 0 \<and> dlsr_field \<noteq> 0 then
       do { (hi, lo) \<leftarrow> pjmedia_rtcp_get_ntp_time s (ck_ntp_ts ck);
         (let lsr = ntohl lsr_field; dlsr = ntohl dlsr_field;
              now = push_bit 16 (hi AND 0xFFFF) + drop_bit 16 lo;
              eedelay = ee_usec (ucast (now - lsr - dlsr))
          in if now - dlsr \<ge> lsr then
               (if eedelay > 30000000 then Some s
                else (let rtt = (ucast eedelay :: u32); cap = word_of_int (ck_rtt_mean ck) * 3;
                          rtt' = (if rtt > cap \<and> stat_n (rt_rtt (rs_stat s)) \<noteq> 0 then cap else rtt)
                      in Some (upd_stat (\<lambda>t. t\<lparr>rt_rtt := math_stat_update (rt_rtt t) (sint rtt')\<rparr>) s)))
             else Some s) }
     else Some s)"

definition parse_rr :: "rtcp_clock \<Rightarrow> rtcp_session \<Rightarrow> u8 list \<Rightarrow> nat \<Rightarrow> rtcp_session option" where
  "parse_rr ck s mem r =
    do { l2 \<leftarrow> rd8 mem (r + 5); l1 \<leftarrow> rd8 mem (r + 6); l0 \<leftarrow> rd8 mem (r + 7);
         s1 \<leftarrow> rr_loss s (push_bit 16 (ucast l2) + push_bit 8 (ucast l1) + ucast l0);
         jit \<leftarrow> ld32 mem (r + 12);
         s2 \<leftarrow> rr_jitter_stat s1 (ntohl jit);
         lsr \<leftarrow> ld32 mem (r + 16); dlsr \<leftarrow> ld32 mem (r + 20);
         s3 \<leftarrow> rr_rtt ck s2 lsr dlsr;
         Some (upd_tx (\<lambda>t. t\<lparr>ss_update := ck_tod ck, ss_update_cnt := ss_update_cnt t + 1\<rparr>) s3) }"

definition parse_rtcp_report ::
  "rtcp_clock \<Rightarrow> rtcp_session \<Rightarrow> u8 list \<Rightarrow> nat \<Rightarrow> nat \<Rightarrow> rtcp_session option" where
  "parse_rtcp_report ck s mem p sz =
    do { pt \<leftarrow> rd_pt mem p; count \<leftarrow> rd_count mem p;
         s1 \<leftarrow> (if pt = 200 then save_lsr ck s mem (p + 8) else Some s);
         (if pt = 200 \<and> count > 0 \<and> sz \<ge> 52 then parse_rr ck s1 mem (p + 28)
          else if pt = 201 \<and> count > 0 then parse_rr ck s1 mem (p + 8)
          else Some s1) }"

section \<open>Parsing source descriptions, goodbyes and feedback\<close>

definition sdes_set :: "u8 \<Rightarrow> 's \<Rightarrow> 's rtcp_sdes \<Rightarrow> 's rtcp_sdes" where
  "sdes_set ty v d =
    (if ty = 1 then d\<lparr>sd_cname := v\<rparr> else if ty = 2 then d\<lparr>sd_name := v\<rparr>
     else if ty = 3 then d\<lparr>sd_email := v\<rparr> else if ty = 4 then d\<lparr>sd_phone := v\<rparr>
     else if ty = 5 then d\<lparr>sd_loc := v\<rparr> else if ty = 6 then d\<lparr>sd_tool := v\<rparr>
     else if ty = 7 then d\<lparr>sd_note := v\<rparr> else d)"

text \<open>The loop over the items: \<open>p\<close>, \<open>p_end\<close>, \<open>b\<close>, the buffer and the description.\<close>

function sdes_loop :: "u8 list \<Rightarrow> nat \<Rightarrow> nat \<Rightarrow> nat \<Rightarrow> u8 list \<Rightarrow> sdes_ref rtcp_sdes
    \<Rightarrow> (u8 list \<times> sdes_ref rtcp_sdes) option" where
  "sdes_loop mem p p_end b sbuf d =
    (if p < p_end then
       (case rd8 mem p of None \<Rightarrow> None | Some ty \<Rightarrow>
         if ty = 0 \<or> p + 1 = p_end then Some (sbuf, d)
         else (case rd8 mem (p + 1) of None \<Rightarrow> None | Some len \<Rightarrow>
           if p + 2 + unat len > p_end then Some (sbuf, d)
           else if b + unat len < SDES_BUF_LEN then
             (case rd_bytes mem (p + 2) (unat len) of None \<Rightarrow> None | Some v \<Rightarrow>
               sdes_loop mem (p + 2 + unat len) p_end (b + unat len) (write_at sbuf b v)
                 (sdes_set ty (Some (b, unat len)) d))
           else sdes_loop mem (p + 2 + unat len) p_end b sbuf d))
     else Some (sbuf, d))"
  by pat_completeness auto
termination by (relation "measure (\<lambda>(mem, p, p_end, b, sbuf, d). p_end - p)") auto

declare sdes_loop.simps [simp del]

definition parse_rtcp_sdes :: "rtcp_session \<Rightarrow> u8 list \<Rightarrow> nat \<Rightarrow> nat \<Rightarrow> rtcp_session option" where
  "parse_rtcp_sdes s mem p sz =
    do { (sbuf, d) \<leftarrow> sdes_loop mem (p + 8) (p + sz) 0 (rt_sdes_buf (rs_stat s)) zero_sdes;
         Some (upd_stat (\<lambda>t. t\<lparr>rt_peer_sdes := d, rt_sdes_buf := sbuf\<rparr>) s) }"

definition parse_rtcp_bye :: "rtcp_session \<Rightarrow> u8 list \<Rightarrow> nat \<Rightarrow> nat \<Rightarrow> rtcp_session option" where
  "parse_rtcp_bye s mem p sz =
    (if sz > 8 then
       do { len \<leftarrow> rd8 mem (p + 8);
            v \<leftarrow> rd_bytes mem (p + 9) (min SDES_BUF_LEN (unat len));
            Some (upd_stat (\<lambda>t. t\<lparr>rt_sdes_buf := write_at (rt_sdes_buf t) 0 v\<rparr>) s) }
     else Some s)"

text \<open>
  A NACK is published as an event. Its content is the parsed message, or indeterminate when the packet
  had none: the code does not look at the number of messages parsed.
\<close>

datatype rtcp_event = Rx_Nack "fb_nack option"

definition parse_rtcp_fb :: "u8 list \<Rightarrow> nat \<Rightarrow> nat \<Rightarrow> rtcp_event list option" where
  "parse_rtcp_fb mem p sz =
    (case pjmedia_rtcp_fb_parse_nack mem p sz 1 of
       None \<Rightarrow> None
     | Some (Inr nacks) \<Rightarrow> Some [Rx_Nack (case nacks of [] \<Rightarrow> None | n # _ \<Rightarrow> Some n)]
     | Some (Inl e) \<Rightarrow> Some [])"

section \<open>Received packets\<close>

definition rx_one :: "rtcp_clock \<Rightarrow> rtcp_session \<Rightarrow> u8 list \<Rightarrow> nat \<Rightarrow> nat \<Rightarrow> u8
    \<Rightarrow> (rtcp_session \<times> rtcp_event list) option" where
  "rx_one ck s mem p len pt =
    (if pt = 200 \<or> pt = 201 \<or> pt = 207 then map_option (\<lambda>s. (s, [])) (parse_rtcp_report ck s mem p len)
     else if pt = 202 then map_option (\<lambda>s. (s, [])) (parse_rtcp_sdes s mem p len)
     else if pt = 203 then map_option (\<lambda>s. (s, [])) (parse_rtcp_bye s mem p len)
     else if pt = 205 \<or> pt = 206 then map_option (\<lambda>ev. (s, ev)) (parse_rtcp_fb mem p len)
     else Some (s, []))"

text \<open>The loop over the packets of a compound; \<open>ck i\<close> is what the processing of packet \<open>i\<close> reads.\<close>

function rx_rtcp_loop :: "(nat \<Rightarrow> rtcp_clock) \<Rightarrow> nat \<Rightarrow> rtcp_session \<Rightarrow> u8 list \<Rightarrow> nat \<Rightarrow> nat
    \<Rightarrow> (rtcp_session \<times> rtcp_event list) option" where
  "rx_rtcp_loop ck i s mem p p_end =
    (if p < p_end then
       (case (rd_length mem p, rd_pt mem p) of
          (Some words, Some pt) \<Rightarrow>
            (let len = (unat words + 1) * 4
             in case rx_one (ck i) s mem p len pt of None \<Rightarrow> None
                | Some (s', ev) \<Rightarrow>
                    map_option (\<lambda>(s'', ev'). (s'', ev @ ev')) (rx_rtcp_loop ck (i + 1) s' mem (p + len) p_end))
        | _ \<Rightarrow> None)
     else Some (s, []))"
  by pat_completeness auto
termination by (relation "measure (\<lambda>(ck, i, s, mem, p, p_end). p_end - p)") auto

declare rx_rtcp_loop.simps [simp del]

definition pjmedia_rtcp_rx_rtcp :: "(nat \<Rightarrow> rtcp_clock) \<Rightarrow> rtcp_session \<Rightarrow> u8 list \<Rightarrow> nat
    \<Rightarrow> (rtcp_session \<times> rtcp_event list) option" where
  "pjmedia_rtcp_rx_rtcp ck s mem sz = rx_rtcp_loop ck 0 s mem 0 sz"

section \<open>Building reports\<close>

text \<open>
  The sender block. The milliseconds of the source are a \<open>double\<close> quotient truncated; the quotient is not closer to the
  next integer than the rounding error unless it is one, so it is the integer quotient.
\<close>

definition build_sr :: "rtcp_session \<Rightarrow> u32 \<Rightarrow> u32 \<Rightarrow> rtcp_sr" where
  "build_sr s hi lo =
    (let sec = hi - word_of_int (tv_sec (rs_tv_base s)) - JAN_1970;
         msec = (of_nat (unat lo * 1000 div 0xFFFFFFFF) :: u32);
         tx = rt_tx (rs_stat s)
     in \<lparr>sr_ntp_sec = htonl hi, sr_ntp_frac = htonl lo,
         sr_rtp_ts = htonl (rs_rtp_ts_base s + rs_clock_rate s * sec + rs_clock_rate s * msec div 1000),
         sr_sender_pcount = htonl (ss_pkt tx), sr_sender_bcount = htonl (ss_bytes tx)\<rparr>)"

definition fraction_lost :: "u32 \<Rightarrow> u32 \<Rightarrow> u8" where
  "fraction_lost expected got =
    (let lost = (if expected \<ge> got then expected - got else 0)
     in if expected = 0 \<or> lost = 0 then 0 else ucast (push_bit 8 lost div expected))"

text \<open>The last SR and the delay since then, both 0 before any SR was received.\<close>

definition lsr_fields :: "rtcp_clock \<Rightarrow> rtcp_session \<Rightarrow> (u32 \<times> u32) option" where
  "lsr_fields ck s =
    (if rs_rx_lsr_time s = 0 \<or> rs_rx_lsr s = 0 then Some (0, 0)
     else if rs_ts_freq s = 0 then None
     else (let lsr_time = push_bit 16 (rs_rx_lsr_time s) div rs_ts_freq s;
               now = push_bit 16 (ck_ts ck) div rs_ts_freq s
           in Some (htonl (rs_rx_lsr s), htonl (ucast (now - lsr_time)))))"

text \<open>
  \<open>last_seq\<close> is set in the block that will be sent and increased in both, as in the code; the block gets the rest of the
  fields. \<open>True\<close> in the result stands for the sender report, whose packet is then the cached one.
\<close>

definition pjmedia_rtcp_build_rtcp :: "rtcp_clock \<Rightarrow> rtcp_session \<Rightarrow> (rtcp_session \<times> bool) option" where
  "pjmedia_rtcp_build_rtcp ck s =
    do { (hi, lo) \<leftarrow> pjmedia_rtcp_get_ntp_time s (ck_ntp_ts ck);
         let is_sr = (ss_pkt (rt_tx (rs_stat s)) \<noteq> ntohl (sr_sender_pcount (srp_sr (rs_sr_pkt s))));
         let ctrl = rs_seq_ctrl s;
         let last_seq = (cycles ctrl AND 0xFFFF0000) + ucast (max_seq ctrl);
         let expected = last_seq - base_seq ctrl;
         let loss = ss_loss (rt_rx (rs_stat s));
         (lsr, dlsr) \<leftarrow> lsr_fields ck s;
         let blk = \<lparr>rr_ssrc = htonl (rs_peer_ssrc s),
               rr_fract_lost = fraction_lost (expected - rs_exp_prior s) (rs_received s - rs_rx_prior s),
               rr_total_lost_2 = ucast (drop_bit 16 loss AND 0xFF),
               rr_total_lost_1 = ucast (drop_bit 8 loss AND 0xFF), rr_total_lost_0 = ucast (loss AND 0xFF),
               rr_last_seq = htonl last_seq, rr_jitter = htonl (drop_bit 4 (rs_jitter s)),
               rr_lsr = lsr, rr_dlsr = dlsr\<rparr>;
         let bump = (\<lambda>r. r\<lparr>rr_last_seq := rr_last_seq r + ucast (max_seq ctrl)\<rparr>);
         let srp = rs_sr_pkt s; let rrp = rs_rr_pkt s;
         let s1 = (if is_sr then
               s\<lparr>rs_sr_pkt := srp\<lparr>srp_sr := build_sr s hi lo, srp_rr := blk\<rparr>,
                 rs_rr_pkt := rrp\<lparr>rrp_rr := bump (rrp_rr rrp)\<rparr>\<rparr>
             else s\<lparr>rs_sr_pkt := srp\<lparr>srp_rr := bump (srp_rr srp)\<rparr>, rs_rr_pkt := rrp\<lparr>rrp_rr := blk\<rparr>\<rparr>);
         Some (upd_rx (\<lambda>r. r\<lparr>ss_update := ck_tod ck, ss_update_cnt := ss_update_cnt r + 1\<rparr>)
                 (s1\<lparr>rs_exp_prior := expected, rs_rx_prior := rs_received s\<rparr>), is_sr) }"

definition report_bytes :: "rtcp_session \<times> bool \<Rightarrow> u8 list" where
  "report_bytes r = (if snd r then rtcp_sr_pkt_bytes (rs_sr_pkt (fst r)) else rtcp_rr_pkt_bytes (rs_rr_pkt (fst r)))"

section \<open>Building source descriptions and goodbyes\<close>

definition sdes_items :: "u8 list rtcp_sdes \<Rightarrow> (u8 \<times> u8 list) list" where
  "sdes_items d = [(1, sd_cname d), (2, sd_name d), (3, sd_email d), (4, sd_phone d), (5, sd_loc d),
     (6, sd_tool d), (7, sd_note d)]"

definition sdes_item_bytes :: "u8 \<times> u8 list \<Rightarrow> u8 list" where
  "sdes_item_bytes = (\<lambda>(ty, v). if v \<noteq> [] then [ty, of_nat (length v)] @ v else [])"

definition sdes_item_len :: "u8 \<times> u8 list \<Rightarrow> nat" where
  "sdes_item_len = (\<lambda>(ty, v). if v \<noteq> [] then length v + 2 else 0)"

definition pad4 :: "u8 list \<Rightarrow> u8 list" where
  "pad4 bs = bs @ replicate ((4 - length bs mod 4) mod 4) 0"

text \<open>The session's part is the common header of its cached sender report; the result is what was written and \<open>*length\<close>.\<close>

definition pjmedia_rtcp_build_rtcp_sdes ::
  "rtcp_common \<Rightarrow> nat \<Rightarrow> u8 list rtcp_sdes \<Rightarrow> pj_status + u8 list \<times> nat" where
  "pjmedia_rtcp_build_rtcp_sdes common room d =
    (if \<exists>(ty, v) \<in> set (sdes_items d). length v > 255 then Inl PJ_EINVAL
     else (let len = (8 + sum_list (map sdes_item_len (sdes_items d)) + 1 + 3) div 4 * 4
           in if len > room then Inl PJ_ETOOSMALL
              else Inr (pad4 (rtcp_common_bytes (common\<lparr>rc_pt := 202, rc_length := htons (of_nat (len div 4 - 1))\<rparr>)
                              @ concat (map sdes_item_bytes (sdes_items d)) @ [0]), len)))"

definition pjmedia_rtcp_build_rtcp_bye ::
  "rtcp_common \<Rightarrow> nat \<Rightarrow> u8 list option \<Rightarrow> pj_status + u8 list \<times> nat" where
  "pjmedia_rtcp_build_rtcp_bye common room reason =
    (let txt = (case reason of None \<Rightarrow> [] | Some r \<Rightarrow> r)
     in if length txt > 255 then Inl PJ_EINVAL
        else (let len = (8 + (if txt \<noteq> [] then length txt + 1 else 0) + 3) div 4 * 4
              in if len > room then Inl PJ_ETOOSMALL
                 else Inr (pad4 (rtcp_common_bytes (common\<lparr>rc_pt := 203, rc_length := htons (of_nat (len div 4 - 1))\<rparr>)
                                 @ (if txt \<noteq> [] then of_nat (length txt) # txt else [])), len)))"

text \<open>Extended reports are not compiled in.\<close>

definition pjmedia_rtcp_enable_xr :: "rtcp_session \<Rightarrow> bool \<Rightarrow> pj_status" where
  "pjmedia_rtcp_enable_xr s enable = PJ_ENOTSUP"

end
