(* ===== verification/Rtcp_Stat.thy ===== *)
theory Rtcp_Stat
  imports Rtcp
begin

text \<open>
  The statistics an RTCP session keeps of received packets, and the reports it builds of them, against an
  abstract account on natural numbers: the highest sequence number, and how many packets
  were ahead of it, repeated it or came late. The account gives the numbers of every report block.
\<close>

section \<open>The tracker on one packet\<close>

lemma seq_update_window:
  assumes t: "rtp_tracks c H" and lo: "H < e + 100" and hi: "e < H + 3000"
  obtains c' where "rtp_seq_update c (of_nat e) =
      (c', \<lparr>st_flags = no_flags\<lparr>fl_dup := (e = H), fl_outorder := (e < H)\<rparr>, st_diff = of_nat (e - H)\<rparr>)"
    "rtp_tracks c' (max H e)" "base_seq c' = base_seq c"
proof -
  have p: "probation c = 0" "max_seq c = of_nat H" using t by (auto simp: rtp_tracks_def)
  note U = rtp_seq_update_tracks [OF assms]
  have "st_flags (snd (rtp_seq_update c (of_nat e))) = no_flags\<lparr>fl_dup := (e = H), fl_outorder := (e < H)\<rparr>"
  proof (cases e H rule: linorder_cases)
    case less
    have "unat (of_nat e - max_seq c) = 65536 - (H - e)"
      unfolding p(2) using less lo by (intro udelta_behind) auto
    then have "rtp_seq_update c (of_nat e) = (c, \<lparr>st_flags = no_flags\<lparr>fl_outorder := True\<rparr>, st_diff = 0\<rparr>)"
      using p(1) less lo by (intro rtp_seq_update_late) auto
    then show ?thesis using less by (simp add: no_flags_def)
  next
    case equal
    then have "rtp_seq_update c (of_nat e) = (c, \<lparr>st_flags = no_flags\<lparr>fl_dup := True\<rparr>, st_diff = 0\<rparr>)"
      using p by (intro rtp_seq_update_dup) auto
    then show ?thesis using equal by (simp add: no_flags_def)
  next
    case greater
    have "unat (of_nat e - max_seq c) = e - H"
      unfolding p(2) using greater hi by (intro udelta_ahead) auto
    then have "snd (rtp_seq_update c (of_nat e)) = \<lparr>st_flags = no_flags, st_diff = of_nat e - max_seq c\<rparr>"
      using p(1) greater hi by (subst rtp_seq_update_ahead) auto
    then show ?thesis using greater by (simp add: no_flags_def)
  qed
  then show ?thesis
    using U by (intro that [of "fst (rtp_seq_update c (of_nat e))"]) (simp_all add: prod_eq_iff)
qed

section \<open>What the steps of a reception keep\<close>

lemma upd_simps [simp]:
  "rs_seq_ctrl (upd_rx f s) = rs_seq_ctrl s" "rs_received (upd_rx f s) = rs_received s"
  "rs_exp_prior (upd_rx f s) = rs_exp_prior s" "rs_rx_prior (upd_rx f s) = rs_rx_prior s"
  "rs_clock_rate (upd_rx f s) = rs_clock_rate s" "rs_ts_freq (upd_rx f s) = rs_ts_freq s"
  "rs_pkt_size (upd_rx f s) = rs_pkt_size s" "rs_rx_lsr_time (upd_rx f s) = rs_rx_lsr_time s"
  "rs_sr_pkt (upd_rx f s) = rs_sr_pkt s" "rs_rr_pkt (upd_rx f s) = rs_rr_pkt s"
  "rs_jitter (upd_rx f s) = rs_jitter s" "rs_transit (upd_rx f s) = rs_transit s"
  "rt_rx (rs_stat (upd_rx f s)) = f (rt_rx (rs_stat s))" "rt_tx (rs_stat (upd_rx f s)) = rt_tx (rs_stat s)"
  by (simp_all add: upd_rx_def upd_stat_def)

text \<open>The part of a session the account speaks of.\<close>

definition rtcp_core :: "rtcp_session \<Rightarrow> rtp_seq_session \<times> u32 list" where
  "rtcp_core s = (rs_seq_ctrl s,
     [rs_received s, rs_exp_prior s, rs_rx_prior s, rs_clock_rate s,
      ss_pkt (rt_rx (rs_stat s)), ss_loss (rt_rx (rs_stat s)), ss_dup (rt_rx (rs_stat s)),
      ss_reorder (rt_rx (rs_stat s)), ss_discard (rt_rx (rs_stat s))])"

lemma rx_loss_period_core:
  assumes "rs_clock_rate s \<noteq> 0"
  obtains s' where "rx_loss_period s d = Some s'" "rs_ts_freq s' = rs_ts_freq s"
    "rtcp_core s' = rtcp_core (upd_rx (\<lambda>r. r\<lparr>ss_loss := ss_loss r + (if d > 1 then ucast d - 1 else 0)\<rparr>) s)"
  using assms that by (cases "d > 1") (simp_all add: rx_loss_period_def rtcp_core_def Let_def)

lemma rx_jitter_core:
  assumes "rs_clock_rate s \<noteq> 0" "rs_ts_freq s \<noteq> 0"
  shows "\<exists>s'. rx_jitter ck s d ts = Some s' \<and> rs_ts_freq s' = rs_ts_freq s \<and> rtcp_core s' = rtcp_core s"
  using assms by (auto simp: rx_jitter_def rtcp_core_def Let_def)

text \<open>A good packet, in terms of what the tracker says of it.\<close>

definition rx_counted :: "rtcp_session \<Rightarrow> u32 \<Rightarrow> rtp_seq_session \<Rightarrow> rtp_status \<Rightarrow> rtcp_session" where
  "rx_counted s nb c st =
    (let s2 = upd_rx (\<lambda>r. r\<lparr>ss_pkt := ss_pkt r + 1, ss_bytes := ss_bytes r + nb\<rparr>) s;
         s3 = rx_flags (s2\<lparr>rs_seq_ctrl := c\<rparr>) (st_flags st);
         gap = (if st_diff st > 1 then ucast (st_diff st) - 1 else 0)
     in upd_rx (\<lambda>r. r\<lparr>ss_loss := ss_loss r + gap\<rparr>) (s3\<lparr>rs_received := rs_received s3 + 1\<rparr>))"

lemma rx_flags_simps [simp]:
  "rs_clock_rate (rx_flags s fl) = rs_clock_rate s" "rs_ts_freq (rx_flags s fl) = rs_ts_freq s"
  by (simp_all add: rx_flags_def rtcp_init_seq_def Let_def)

lemma rx_rtp_core:
  assumes k: "rs_clock_rate s \<noteq> 0" "rs_ts_freq s \<noteq> 0"
    and u: "rtp_seq_update (if ss_pkt (rt_rx (rs_stat s)) = 0 then rtp_seq_init (rs_seq_ctrl s) (ucast seq)
        else rs_seq_ctrl s) (ucast seq) = (c, st)"
    and nobad: "\<not> fl_bad (st_flags st)"
  shows "\<exists>s'. pjmedia_rtcp_rx_rtp2 ck s seq ts nb = Some s' \<and> rs_ts_freq s' = rs_ts_freq s \<and>
    rtcp_core s' = rtcp_core (rx_counted s nb c st)"
proof -
  define s1 where "s1 = (if ss_pkt (rt_rx (rs_stat s)) = 0 then s\<lparr>rs_seq_ctrl := rtp_seq_init (rs_seq_ctrl s) (ucast seq)\<rparr> else s)"
  define s2 where "s2 = upd_rx (\<lambda>r. r\<lparr>ss_pkt := ss_pkt r + 1, ss_bytes := ss_bytes r + nb\<rparr>) s1"
  define s3 where "s3 = rx_flags (s2\<lparr>rs_seq_ctrl := c\<rparr>) (st_flags st)"
  define s3' where "s3' = s3\<lparr>rs_received := rs_received s3 + 1\<rparr>"
  have k3: "rs_clock_rate s3' \<noteq> 0" "rs_ts_freq s3' \<noteq> 0" "rs_ts_freq s3' = rs_ts_freq s"
    using k by (simp_all add: s3'_def s3_def s2_def s1_def)
  obtain s4 where s4: "rx_loss_period s3' (st_diff st) = Some s4" "rs_ts_freq s4 = rs_ts_freq s3'"
    "rtcp_core s4 = rtcp_core (upd_rx (\<lambda>r. r\<lparr>ss_loss := ss_loss r + (if st_diff st > 1 then ucast (st_diff st) - 1 else 0)\<rparr>) s3')"
    using rx_loss_period_core [OF k3(1), of "st_diff st"] by blast
  have k4: "rs_clock_rate s4 \<noteq> 0" "rs_ts_freq s4 \<noteq> 0" using s4(2,3) k3 by (simp_all add: rtcp_core_def)
  obtain s5 where s5: "rx_jitter ck s4 (st_diff st) ts = Some s5" "rs_ts_freq s5 = rs_ts_freq s4"
    "rtcp_core s5 = rtcp_core s4"
    using rx_jitter_core [OF k4] by metis
  have "rtp_seq_update (rs_seq_ctrl s2) (ucast seq) = (c, st)"
    using u by (auto simp: s2_def s1_def split: if_splits)
  then have "pjmedia_rtcp_rx_rtp2 ck s seq ts nb = Some (s5\<lparr>rs_rtp_last_ts := ts\<rparr>)"
    unfolding pjmedia_rtcp_rx_rtp2_def Let_def s1_def [symmetric] s2_def [symmetric]
    using nobad s4(1) s5(1) by (simp add: s3_def [symmetric] s3'_def [symmetric])
  moreover have "s2\<lparr>rs_seq_ctrl := c\<rparr> =
      (upd_rx (\<lambda>r. r\<lparr>ss_pkt := ss_pkt r + 1, ss_bytes := ss_bytes r + nb\<rparr>) s)\<lparr>rs_seq_ctrl := c\<rparr>"
    by (simp add: s2_def s1_def upd_rx_def upd_stat_def)
  then have "rtcp_core (rx_counted s nb c st) = rtcp_core s4"
    unfolding s4(3) rx_counted_def Let_def s3'_def s3_def by simp
  moreover have "rs_ts_freq s5 = rs_ts_freq s" using s5(2) s4(2) k3(3) by simp
  ultimately show ?thesis using s5(3) by (intro exI [of _ "s5\<lparr>rs_rtp_last_ts := ts\<rparr>"]) (simp add: rtcp_core_def)
qed

section \<open>The account\<close>

text \<open>
  \<open>ac_first\<close> is the first sequence number, \<open>ac_high\<close> the highest one, without wrapping around. The first two packets
  validate the source; of those that follow \<open>ac_ahead\<close> were ahead of the highest, \<open>ac_dup\<close> repeated it,
  \<open>ac_late\<close> came after it. \<open>ac_exp\<close> and \<open>ac_rcv\<close> are the packets expected and received at the last report.
\<close>

record rtcp_account =
  ac_first :: nat
  ac_high :: nat
  ac_ahead :: nat
  ac_dup :: nat
  ac_late :: nat
  ac_exp :: nat
  ac_rcv :: nat

definition ac_received :: "rtcp_account \<Rightarrow> nat" where
  "ac_received a = 2 + ac_ahead a + ac_dup a + ac_late a"

definition ac_lost :: "rtcp_account \<Rightarrow> nat" where
  "ac_lost a = ac_high a - (ac_first a + 1) - ac_ahead a"

definition ac_receive :: "nat \<Rightarrow> rtcp_account \<Rightarrow> rtcp_account" where
  "ac_receive e a =
    (if e > ac_high a then a\<lparr>ac_high := e, ac_ahead := ac_ahead a + 1\<rparr>
     else if e = ac_high a then a\<lparr>ac_dup := ac_dup a + 1\<rparr>
     else a\<lparr>ac_late := ac_late a + 1\<rparr>)"

definition ac_expected :: "rtcp_account \<Rightarrow> nat" where
  "ac_expected a = ac_high a - ac_first a"

definition ac_fraction :: "rtcp_account \<Rightarrow> nat" where
  "ac_fraction a = (let ex = ac_expected a - ac_exp a; got = ac_received a - ac_rcv a
     in if ex \<le> got then 0 else (ex - got) * 256 div ex)"

definition ac_report :: "rtcp_account \<Rightarrow> rtcp_account" where
  "ac_report a = a\<lparr>ac_exp := ac_expected a, ac_rcv := ac_received a\<rparr>"

definition ac_ok :: "rtcp_account \<Rightarrow> bool" where
  "ac_ok a \<longleftrightarrow> ac_first a + 1 + ac_ahead a \<le> ac_high a \<and> ac_high a < 2 ^ 24 \<and> ac_received a < 2 ^ 32 \<and>
     ac_exp a \<le> ac_expected a \<and> ac_rcv a \<le> ac_received a \<and>
     (ac_rcv a = ac_received a \<longrightarrow> ac_exp a = ac_expected a)"

text \<open>The session agrees with the account.\<close>

definition accounts :: "rtcp_session \<Rightarrow> rtcp_account \<Rightarrow> bool" where
  "accounts s a \<longleftrightarrow> rs_clock_rate s \<noteq> 0 \<and> rs_ts_freq s \<noteq> 0 \<and> rtp_tracks (rs_seq_ctrl s) (ac_high a) \<and>
     base_seq (rs_seq_ctrl s) = of_nat (ac_first a) \<and>
     rs_received s = of_nat (ac_received a) \<and> ss_pkt (rt_rx (rs_stat s)) = of_nat (ac_received a) \<and>
     ss_loss (rt_rx (rs_stat s)) = of_nat (ac_lost a) \<and> ss_dup (rt_rx (rs_stat s)) = of_nat (ac_dup a) \<and>
     ss_reorder (rt_rx (rs_stat s)) = of_nat (ac_late a) \<and> ss_discard (rt_rx (rs_stat s)) = 0 \<and>
     rs_exp_prior s = of_nat (ac_exp a) \<and> rs_rx_prior s = of_nat (ac_rcv a)"

lemma accounts_core:
  "rtcp_core s = rtcp_core s' \<Longrightarrow> rs_ts_freq s = rs_ts_freq s' \<Longrightarrow> accounts s a = accounts s' a"
  by (simp add: accounts_def rtcp_core_def)

lemma ucast_gap:
  assumes "1 < n" "n < 65536"
  shows "ucast (of_nat n :: u16) - 1 = (of_nat (n - 1) :: u32)" "(1 :: u16) < of_nat n"
proof -
  have u: "unat (of_nat n :: u16) = n" using assms(2) by (simp add: unat_of_nat)
  have "(ucast (of_nat n :: u16) :: u32) = of_nat (unat (of_nat n :: u16))" by (rule of_nat_unat [symmetric])
  then show "ucast (of_nat n :: u16) - 1 = (of_nat (n - 1) :: u32)" using u assms(1) by (simp add: of_nat_diff)
  show "(1 :: u16) < of_nat n" using u assms(1) by (simp add: word_less_nat_alt)
qed

lemma rx_rtp_accounts:
  assumes A: "accounts s a" "ac_ok a" and e: "ac_high a < e + 100" "e < ac_high a + 3000" "e < 2 ^ 24"
    and n: "ac_received a + 1 < 2 ^ 32"
  shows "\<exists>s'. pjmedia_rtcp_rx_rtp2 ck s (of_nat e) ts nb = Some s' \<and> accounts s' (ac_receive e a) \<and> ac_ok (ac_receive e a)"
proof -
  have pk: "ss_pkt (rt_rx (rs_stat s)) \<noteq> 0"
  proof -
    have "unat (ss_pkt (rt_rx (rs_stat s))) = ac_received a" using A by (simp add: accounts_def ac_ok_def unat_of_nat)
    then show ?thesis by (auto simp: ac_received_def)
  qed
  have "(ucast (of_nat e :: u32) :: u16) = of_nat (unat (of_nat e :: u32))" by (rule of_nat_unat [symmetric])
  also have "unat (of_nat e :: u32) = e" using e(3) by (simp add: unat_of_nat)
  finally have e16: "(ucast (of_nat e :: u32) :: u16) = of_nat e" .
  let ?H = "ac_high a"
  let ?fl = "no_flags\<lparr>fl_dup := (e = ?H), fl_outorder := (e < ?H)\<rparr>"
  obtain c' where c': "rtp_seq_update (rs_seq_ctrl s) (of_nat e) = (c', \<lparr>st_flags = ?fl, st_diff = of_nat (e - ?H)\<rparr>)"
    "rtp_tracks c' (max ?H e)" "base_seq c' = base_seq (rs_seq_ctrl s)"
    using seq_update_window [of "rs_seq_ctrl s" ?H e] A(1) e(1,2) by (auto simp: accounts_def)
  let ?st = "\<lparr>st_flags = ?fl, st_diff = of_nat (e - ?H)\<rparr>"
  have "rs_clock_rate s \<noteq> 0" "rs_ts_freq s \<noteq> 0" "\<not> fl_bad (st_flags ?st)"
    using A(1) by (simp_all add: accounts_def no_flags_def)
  then obtain s' where s': "pjmedia_rtcp_rx_rtp2 ck s (of_nat e) ts nb = Some s'" "rs_ts_freq s' = rs_ts_freq s"
      "rtcp_core s' = rtcp_core (rx_counted s nb c' ?st)"
    using rx_rtp_core [where s = s and seq = "of_nat e" and c = c' and st = ?st and ck = ck and ts = ts and nb = nb]
      pk e16 c'(1) by auto
  have "accounts s' (ac_receive e a) = accounts (rx_counted s nb c' ?st) (ac_receive e a)"
    using s' by (intro accounts_core) (simp_all add: rx_counted_def Let_def)
  moreover have "accounts (rx_counted s nb c' ?st) (ac_receive e a) \<and> ac_ok (ac_receive e a)"
  proof (cases e ?H rule: linorder_cases)
    case less
    then show ?thesis using A c' n by (simp add: accounts_def ac_ok_def ac_receive_def ac_received_def ac_lost_def
          ac_expected_def rx_counted_def rx_flags_def no_flags_def Let_def max_def)
  next
    case equal
    then show ?thesis using A c' n by (simp add: accounts_def ac_ok_def ac_receive_def ac_received_def ac_lost_def
          ac_expected_def rx_counted_def rx_flags_def no_flags_def Let_def max_def)
  next
    case greater
    define d where "d = e - ?H"
    have g: "(if (of_nat d :: u16) > 1 then ucast (of_nat d :: u16) - 1 else (0 :: u32)) = of_nat (d - 1)"
      using ucast_gap [of d] greater e(2) by (cases "d = 1") (simp_all add: d_def)
    have l: "ac_lost (ac_receive e a) = ac_lost a + (d - 1)"
      using A(2) greater by (simp add: ac_lost_def ac_receive_def ac_ok_def d_def)
    have "accounts (rx_counted s nb c' ?st) (ac_receive e a)"
      unfolding d_def [symmetric] rx_counted_def Let_def rtp_status.simps g
      using A(1) c' greater by (simp add: accounts_def l rx_flags_def no_flags_def Let_def max_def
          del: of_nat_diff) (simp add: ac_receive_def ac_received_def)
    moreover have "ac_ok (ac_receive e a)"
      using A(2) greater e n by (simp add: ac_ok_def ac_receive_def ac_received_def ac_expected_def) linarith
    ultimately show ?thesis by simp
  qed
  ultimately show ?thesis using s'(1) by blast
qed

section \<open>Reports\<close>

definition rr_lost :: "rtcp_rr \<Rightarrow> nat" where
  "rr_lost r = unat (rr_total_lost_2 r) * 65536 + unat (rr_total_lost_1 r) * 256 + unat (rr_total_lost_0 r)"

text \<open>A report block as the receiver reads it: highest sequence number, packets lost, fraction lost.\<close>

definition rr_values :: "rtcp_rr \<Rightarrow> nat \<times> nat \<times> nat" where
  "rr_values r = (unat (ntohl (rr_last_seq r)), rr_lost r, unat (rr_fract_lost r))"

definition report_block :: "rtcp_session \<times> bool \<Rightarrow> rtcp_rr" where
  "report_block r = (if snd r then srp_rr (rs_sr_pkt (fst r)) else rrp_rr (rs_rr_pkt (fst r)))"

lemma unat_byte: "unat (ucast (drop_bit k (w :: u32) AND 0xFF) :: u8) = unat w div 2 ^ k mod 256"
proof -
  have ff: "(0xFF :: u32) = mask 8" by (simp add: mask_eq_decr_exp)
  have "(ucast (drop_bit k w AND 0xFF) :: u8) = ucast (drop_bit k w)"
    unfolding ff by (rule bit_word_eqI) (simp add: bit_simps)
  moreover have "unat (drop_bit k w) = unat w div 2 ^ k" by (simp only: unat_drop_bit_eq) (simp only: drop_bit_eq_div)
  ultimately show ?thesis by (simp add: unsigned_ucast_eq take_bit_eq_mod)
qed

lemma lost_value:
  fixes n :: nat
  assumes "n < 2 ^ 24"
  shows "n div 65536 mod 256 * 65536 + n div 256 mod 256 * 256 + n mod 256 = n"
proof -
  have "n = n div 256 * 256 + n mod 256" "n div 256 = n div 256 div 256 * 256 + n div 256 mod 256"
    by (rule div_mult_mod_eq [symmetric])+
  moreover have "n div 256 div 256 = n div 65536" by (simp flip: div_mult2_eq)
  moreover have "n div 65536 mod 256 = n div 65536" using assms by simp
  ultimately show ?thesis by linarith
qed

lemma cycles_mask:
  assumes "rtp_tracks c H"
  shows "cycles c AND 0xFFFF0000 = cycles c"
proof -
  have "cycles c = push_bit 16 (of_nat (H div 65536))" using assms by (simp add: rtp_tracks_def push_bit_eq_mult)
  moreover have m: "(0xFFFF0000 :: u32) = push_bit 16 (mask 16)" by (simp add: mask_eq_decr_exp)
  ultimately show ?thesis unfolding m
    by (simp only:) (rule bit_word_eqI, auto simp: bit_simps simp del: push_bit_minus_numeral)
qed

lemma fraction_value:
  assumes "ex < 2 ^ 24" "got < 2 ^ 32" "got = 0 \<longrightarrow> ex = 0"
  shows "unat (fraction_lost (of_nat ex) (of_nat got)) = (if ex \<le> got then 0 else (ex - got) * 256 div ex)"
proof (cases "ex \<le> got")
  case True
  then show ?thesis using assms by (simp add: fraction_lost_def word_le_nat_alt unat_of_nat Let_def)
next
  case False
  define l where "l = ex - got"
  have l: "0 < l" "l < ex" using False assms(3) by (auto simp: l_def)
  have u: "unat (of_nat ex :: u32) = ex" "unat (of_nat got :: u32) = got" using assms by (simp_all add: unat_of_nat)
  have ul: "unat (of_nat l :: u32) = l" using l(2) assms(1) by (simp add: unat_of_nat)
  have ne: "(of_nat ex :: u32) \<noteq> 0" "(of_nat l :: u32) \<noteq> 0"
    using l u(1) ul by (metis not_less0 unat_0) (metis l(1) less_irrefl ul unat_0)
  have le: "(of_nat got :: u32) \<le> of_nat ex" unfolding word_le_nat_alt u using False by simp
  have "push_bit 8 (of_nat l) = (of_nat (l * 256) :: u32)" by (simp add: push_bit_eq_mult)
  then have "unat (push_bit 8 (of_nat l :: u32)) = l * 256"
    using l assms(1) by (simp only: unat_of_nat) simp
  then have q: "unat (push_bit 8 (of_nat l) div (of_nat ex :: u32)) = l * 256 div ex" by (simp add: unat_div u)
  have "l * 256 div ex < 256" using l by (simp add: less_mult_imp_div_less)
  then have "unat (ucast (push_bit 8 (of_nat l) div (of_nat ex :: u32)) :: u8) = l * 256 div ex"
    by (simp add: unsigned_ucast_eq q take_bit_eq_mod)
  moreover have "(of_nat ex - of_nat got :: u32) = of_nat l" using False by (simp add: l_def of_nat_diff)
  ultimately have "unat (fraction_lost (of_nat ex) (of_nat got)) = l * 256 div ex"
    unfolding fraction_lost_def Let_def using ne le by (simp only: if_True simp_thms if_False)
  then show ?thesis using False by (simp add: l_def)
qed

definition ac_values :: "rtcp_account \<Rightarrow> nat \<times> nat \<times> nat" where
  "ac_values a = (ac_high a, ac_lost a, ac_fraction a)"

lemma build_rtcp_accounts:
  assumes A: "accounts s a" "ac_ok a"
  shows "\<exists>r. pjmedia_rtcp_build_rtcp ck s = Some r \<and> rr_values (report_block r) = ac_values a \<and>
    accounts (fst r) (ac_report a) \<and> ac_ok (ac_report a)"
proof -
  have rate: "rs_clock_rate s \<noteq> 0" "rs_ts_freq s \<noteq> 0" using A(1) by (simp_all add: accounts_def)
  obtain hi lo where ntp: "pjmedia_rtcp_get_ntp_time s (ck_ntp_ts ck) = Some (hi, lo)"
    using rate by (simp add: pjmedia_rtcp_get_ntp_time_def Let_def)
  obtain lsr dlsr where lsr: "lsr_fields ck s = Some (lsr, dlsr)"
    using rate by (simp add: lsr_fields_def Let_def) metis
  have tr: "rtp_tracks (rs_seq_ctrl s) (ac_high a)" using A(1) by (simp add: accounts_def)
  have last: "(cycles (rs_seq_ctrl s) AND 0xFFFF0000) + ucast (max_seq (rs_seq_ctrl s)) = of_nat (ac_high a)"
    using rtp_ext_seq_tracks [OF tr] by (simp add: cycles_mask [OF tr] rtp_ext_seq_def)
  define ex got where "ex = ac_expected a - ac_exp a" and "got = ac_received a - ac_rcv a"
  have expd: "of_nat (ac_high a) - base_seq (rs_seq_ctrl s) = (of_nat (ac_expected a) :: u32)"
    using A by (simp add: accounts_def ac_ok_def ac_expected_def)
  have iv: "of_nat (ac_expected a) - rs_exp_prior s = of_nat ex" "rs_received s - rs_rx_prior s = of_nat got"
    using A by (simp_all add: accounts_def ac_ok_def ex_def got_def)
  have fr: "unat (fraction_lost (of_nat ex) (of_nat got)) = ac_fraction a"
    using A(2) by (subst fraction_value) (auto simp: ac_ok_def ex_def got_def ac_expected_def ac_fraction_def Let_def)
  have l24: "ac_lost a < 2 ^ 24" using A(2) unfolding ac_ok_def ac_lost_def by linarith
  then have loss: "unat (ss_loss (rt_rx (rs_stat s))) = ac_lost a" "ac_lost a < 2 ^ 24"
    using A(1) by (simp_all add: accounts_def unat_of_nat)
  define blk where "blk = \<lparr>rr_ssrc = htonl (rs_peer_ssrc s), rr_fract_lost = fraction_lost (of_nat ex) (of_nat got),
               rr_total_lost_2 = ucast (drop_bit 16 (ss_loss (rt_rx (rs_stat s))) AND 0xFF),
               rr_total_lost_1 = ucast (drop_bit 8 (ss_loss (rt_rx (rs_stat s))) AND 0xFF),
               rr_total_lost_0 = ucast (ss_loss (rt_rx (rs_stat s)) AND 0xFF),
               rr_last_seq = htonl (of_nat (ac_high a)), rr_jitter = htonl (drop_bit 4 (rs_jitter s)),
               rr_lsr = lsr, rr_dlsr = dlsr\<rparr>"
  have "unat (of_nat (ac_high a) :: u32) = ac_high a" using A(2) by (simp add: ac_ok_def unat_of_nat)
  moreover have "rr_lost blk = ac_lost a"
    using unat_byte [of 0 "ss_loss (rt_rx (rs_stat s))"] unat_byte [of 8 "ss_loss (rt_rx (rs_stat s))"]
      unat_byte [of 16 "ss_loss (rt_rx (rs_stat s))"] lost_value [OF loss(2)]
    unfolding rr_lost_def blk_def loss(1) by (simp only: rtcp_rr.simps drop_bit_0 id_apply power_0 div_by_1) simp
  ultimately have vals: "rr_values blk = ac_values a"
    by (simp add: rr_values_def ac_values_def fr) (simp add: blk_def fr)
  obtain r where r: "pjmedia_rtcp_build_rtcp ck s = Some r" "report_block r = blk"
      "rtcp_core (fst r) = rtcp_core (s\<lparr>rs_exp_prior := of_nat (ac_expected a), rs_rx_prior := rs_received s\<rparr>)"
      "rs_ts_freq (fst r) = rs_ts_freq s"
    unfolding pjmedia_rtcp_build_rtcp_def Let_def ntp lsr last expd iv
    by (cases "ss_pkt (rt_tx (rs_stat s)) \<noteq> ntohl (sr_sender_pcount (srp_sr (rs_sr_pkt s)))")
      (simp_all add: blk_def report_block_def rtcp_core_def)
  have "accounts (fst r) (ac_report a) \<longleftrightarrow>
      accounts (s\<lparr>rs_exp_prior := of_nat (ac_expected a), rs_rx_prior := rs_received s\<rparr>) (ac_report a)"
    using r(3,4) by (intro accounts_core) simp_all
  moreover have "accounts (s\<lparr>rs_exp_prior := of_nat (ac_expected a), rs_rx_prior := rs_received s\<rparr>) (ac_report a)"
    using A(1) by (simp add: accounts_def ac_report_def ac_received_def ac_lost_def)
  moreover have "ac_ok (ac_report a)"
    using A(2) by (simp add: ac_ok_def ac_report_def ac_received_def ac_expected_def)
  ultimately show ?thesis using r(1,2) vals by blast
qed

section \<open>Runs\<close>

text \<open>Packets received, with their sequence number and timestamp, packets sent, and reports built.\<close>

datatype rtcp_ev =
    Ev_Rx rtcp_clock nat u32 u32
  | Ev_Tx u32
  | Ev_Report rtcp_clock

definition rtcp_step :: "(rtcp_session \<times> rtcp_rr list) option \<Rightarrow> rtcp_ev \<Rightarrow> (rtcp_session \<times> rtcp_rr list) option" where
  "rtcp_step x ev = do { (s, rs) \<leftarrow> x;
     (case ev of
        Ev_Rx ck e ts nb \<Rightarrow> map_option (\<lambda>s'. (s', rs)) (pjmedia_rtcp_rx_rtp ck s (of_nat e) ts nb)
      | Ev_Tx nb \<Rightarrow> Some (pjmedia_rtcp_tx_rtp s nb, rs)
      | Ev_Report ck \<Rightarrow> map_option (\<lambda>r. (fst r, rs @ [report_block r])) (pjmedia_rtcp_build_rtcp ck s)) }"

fun ac_step :: "rtcp_account \<times> (nat \<times> nat \<times> nat) list \<Rightarrow> rtcp_ev \<Rightarrow> rtcp_account \<times> (nat \<times> nat \<times> nat) list" where
  "ac_step (a, vs) (Ev_Rx ck e ts nb) = (ac_receive e a, vs)"
| "ac_step (a, vs) (Ev_Tx nb) = (a, vs)"
| "ac_step (a, vs) (Ev_Report ck) = (ac_report a, vs @ [ac_values a])"

definition ac_start :: "nat \<Rightarrow> rtcp_account" where
  "ac_start f = \<lparr>ac_first = f, ac_high = f + 1, ac_ahead = 0, ac_dup = 0, ac_late = 0, ac_exp = 0, ac_rcv = 0\<rparr>"

text \<open>No packet is as far off as the tracker takes for a restart, and sequence numbers stay below \<open>2 ^ 24\<close>.\<close>

fun rx_window :: "rtcp_account \<Rightarrow> rtcp_ev list \<Rightarrow> bool" where
  "rx_window a [] \<longleftrightarrow> True"
| "rx_window a (Ev_Rx ck e ts nb # evs) \<longleftrightarrow>
     ac_high a < e + 100 \<and> e < ac_high a + 3000 \<and> e < 2 ^ 24 \<and> rx_window (ac_receive e a) evs"
| "rx_window a (Ev_Tx nb # evs) \<longleftrightarrow> rx_window a evs"
| "rx_window a (Ev_Report ck # evs) \<longleftrightarrow> rx_window (ac_report a) evs"

lemma rtcp_step_simps [simp]:
  "rtcp_step (Some (s, rs)) (Ev_Rx ck e ts nb) =
     map_option (\<lambda>s'. (s', rs)) (pjmedia_rtcp_rx_rtp2 ck s (of_nat e) ts nb)"
  "rtcp_step (Some (s, rs)) (Ev_Tx nb) = Some (pjmedia_rtcp_tx_rtp s nb, rs)"
  "rtcp_step (Some (s, rs)) (Ev_Report ck) =
     map_option (\<lambda>r. (fst r, rs @ [report_block r])) (pjmedia_rtcp_build_rtcp ck s)"
  by (simp_all add: rtcp_step_def pjmedia_rtcp_rx_rtp_def)

lemma tx_rtp_accounts: "accounts (pjmedia_rtcp_tx_rtp s n) a = accounts s a"
  by (intro accounts_core) (simp_all add: pjmedia_rtcp_tx_rtp_def upd_tx_def upd_stat_def rtcp_core_def)

lemma received_receive: "ac_received (ac_receive e a) = ac_received a + 1"
  by (simp add: ac_received_def ac_receive_def)

lemma rtcp_run_accounts:
  assumes "accounts s a" "ac_ok a" "rx_window a evs" "ac_received a + length evs < 2 ^ 32" "map rr_values rs = vs"
  shows "\<exists>s' rs'. foldl rtcp_step (Some (s, rs)) evs = Some (s', rs') \<and>
    map rr_values rs' = snd (foldl ac_step (a, vs) evs) \<and> accounts s' (fst (foldl ac_step (a, vs) evs))"
  using assms
proof (induction evs arbitrary: s a rs vs)
  case Nil
  then show ?case by simp
next
  case (Cons ev evs)
  show ?case
  proof (cases ev)
    case (Ev_Rx ck e ts nb)
    obtain s' where s': "pjmedia_rtcp_rx_rtp2 ck s (of_nat e) ts nb = Some s'" "accounts s' (ac_receive e a)"
        "ac_ok (ac_receive e a)"
      using rx_rtp_accounts [of s a e ck ts nb] Cons.prems Ev_Rx by auto
    have "rx_window (ac_receive e a) evs" "ac_received (ac_receive e a) + length evs < 2 ^ 32"
      using Cons.prems(3,4) Ev_Rx by (simp_all add: received_receive)
    then show ?thesis using Cons.IH [OF s'(2,3) _ _ Cons.prems(5)] s'(1) Ev_Rx by simp
  next
    case (Ev_Tx nb)
    then show ?thesis using Cons.IH [of "pjmedia_rtcp_tx_rtp s nb" a rs vs] Cons.prems by (simp add: tx_rtp_accounts)
  next
    case (Ev_Report ck)
    obtain r where r: "pjmedia_rtcp_build_rtcp ck s = Some r" "rr_values (report_block r) = ac_values a"
        "accounts (fst r) (ac_report a)" "ac_ok (ac_report a)"
      using build_rtcp_accounts [OF Cons.prems(1,2)] by blast
    have "rx_window (ac_report a) evs" "ac_received (ac_report a) + length evs < 2 ^ 32"
      using Cons.prems(3,4) Ev_Report by (simp_all add: ac_received_def ac_report_def)
    then show ?thesis using Cons.IH [OF r(3,4), of "rs @ [report_block r]" "vs @ [ac_values a]"] Cons.prems(5) r Ev_Report
      by simp
  qed
qed

text \<open>The first two packets of a session, in sequence, validate the source.\<close>

lemma rx_start_accounts:
  assumes k: "rset_clock_rate cfg \<noteq> 0" "freq \<noteq> 0" and f: "0 < f" "f < 65535"
  shows "\<exists>s. foldl rtcp_step (Some (pjmedia_rtcp_init2 ck freq cfg, [])) [Ev_Rx k1 f t1 n1, Ev_Rx k2 (f + 1) t2 n2] =
    Some (s, []) \<and> accounts s (ac_start f)"
proof -
  let ?s0 = "pjmedia_rtcp_init2 ck freq cfg"
  define c0 where "c0 = rtp_seq_init (rs_seq_ctrl ?s0) (of_nat f)"
  let ?st1 = "\<lparr>st_flags = no_flags\<lparr>fl_probation := True\<rparr>, st_diff = 1\<rparr>"
  let ?st2 = "\<lparr>st_flags = no_flags, st_diff = 1\<rparr>"
  have e16: "(ucast (of_nat e :: u32) :: u16) = of_nat e" if "e < 65536" for e
  proof -
    have "(ucast (of_nat e :: u32) :: u16) = of_nat (unat (of_nat e :: u32))" by (rule of_nat_unat [symmetric])
    then show ?thesis using that by (simp add: unat_of_nat)
  qed
  have u: "unat (of_nat f :: u16) = f" "unat (of_nat (f + 1) :: u16) = f + 1"
    using f by (simp_all only: unat16_of_nat) simp_all
  have ne: "(of_nat f :: u16) \<noteq> 0" using u(1) f(1) by (metis unat_0 less_irrefl)
  define c1 where "c1 = c0\<lparr>probation := 1, max_seq := of_nat f\<rparr>"
  define c2 where "c2 = c1\<lparr>probation := 0, max_seq := of_nat (f + 1)\<rparr>"
  have m0: "unat (of_nat f - 1 :: u16) + 1 = f" using ne u(1) f(1) by (simp add: unat_minus_one)
  have u1: "rtp_seq_update c0 (of_nat f) = (c1, ?st1)"
    using m0 u(1) by (simp add: rtp_seq_update_def c0_def rtp_seq_init_def rtp_seq_restart_def c1_def Let_def)
  have u2: "rtp_seq_update c1 (of_nat (f + 1)) = (c2, ?st2)"
    using u by (simp add: rtp_seq_update_def c1_def c2_def Let_def no_flags_def del: of_nat_add of_nat_Suc)
  have r0: "rs_clock_rate ?s0 \<noteq> 0" "rs_ts_freq ?s0 \<noteq> 0" "ss_pkt (rt_rx (rs_stat ?s0)) = 0"
    using k by (simp_all add: pjmedia_rtcp_init2_def pjmedia_rtcp_init_stat_def zero_stream_stat_def Let_def)
  have "\<exists>s1. pjmedia_rtcp_rx_rtp2 k1 ?s0 (of_nat f) t1 n1 = Some s1 \<and> rs_ts_freq s1 = rs_ts_freq ?s0 \<and>
      rtcp_core s1 = rtcp_core (rx_counted ?s0 n1 c1 ?st1)"
    using r0 u1 e16 [of f] f by (intro rx_rtp_core) (simp_all add: c0_def no_flags_def)
  then obtain s1 where s1: "pjmedia_rtcp_rx_rtp2 k1 ?s0 (of_nat f) t1 n1 = Some s1" "rs_ts_freq s1 = freq"
      "rtcp_core s1 = rtcp_core (rx_counted ?s0 n1 c1 ?st1)"
    by (auto simp: pjmedia_rtcp_init2_def Let_def)
  note inits = pjmedia_rtcp_init2_def pjmedia_rtcp_init_stat_def zero_stream_stat_def rx_counted_def rx_flags_def
    no_flags_def Let_def rtcp_core_def
  have r1: "rs_clock_rate s1 \<noteq> 0" "rs_ts_freq s1 \<noteq> 0" "ss_pkt (rt_rx (rs_stat s1)) \<noteq> 0" "rs_seq_ctrl s1 = c1"
    using s1(2,3) k by (simp_all add: inits)
  have "\<exists>s2. pjmedia_rtcp_rx_rtp2 k2 s1 (of_nat (f + 1)) t2 n2 = Some s2 \<and> rs_ts_freq s2 = rs_ts_freq s1 \<and>
      rtcp_core s2 = rtcp_core (rx_counted s1 n2 c2 ?st2)"
    using r1 u2 e16 [of "f + 1"] f by (intro rx_rtp_core) (simp_all add: no_flags_def del: of_nat_add of_nat_Suc)
  then obtain s2 where s2: "pjmedia_rtcp_rx_rtp2 k2 s1 (of_nat (f + 1)) t2 n2 = Some s2" "rs_ts_freq s2 = freq"
      "rtcp_core s2 = rtcp_core (rx_counted s1 n2 c2 ?st2)"
    using s1(2) by auto
  have "(ucast (of_nat f :: u16) :: u32) = of_nat (unat (of_nat f :: u16))" by (rule of_nat_unat [symmetric])
  then have tr: "rtp_tracks c2 (f + 1)" "base_seq c2 = of_nat f"
    using f u(1)
    by (simp_all add: rtp_tracks_def c2_def c1_def c0_def rtp_seq_init_def rtp_seq_restart_def)
  have "accounts s2 (ac_start f)"
    using s2(2,3) s1(3) k tr by (simp add: inits accounts_def ac_start_def ac_received_def ac_lost_def)
  then show ?thesis using s1(1) s2(1) by simp
qed

text \<open>
  C32. A session that starts with two packets in sequence and then receives packets in any order that the
  tracker does not take for a restart, while it sends packets and builds reports, always returns, and
  agrees with the account on natural numbers: the packets lost are the gaps before the highest
  sequence number, every packet is counted once, none is discarded, and each report block carries the highest sequence number, the
  packets lost and the lost part in 256ths of those expected since the report before.
\<close>

theorem rtcp_reports_refine:
  assumes "rset_clock_rate cfg \<noteq> 0" "freq \<noteq> 0" "0 < f" "f < 65535"
    and "rx_window (ac_start f) evs" "length evs < 2 ^ 32 - 2"
  shows "\<exists>s rs. foldl rtcp_step (Some (pjmedia_rtcp_init2 ck freq cfg, []))
        (Ev_Rx k1 f t1 n1 # Ev_Rx k2 (f + 1) t2 n2 # evs) = Some (s, rs) \<and>
      (let (a, vs) = foldl ac_step (ac_start f, []) evs; rx = rt_rx (rs_stat s)
       in map rr_values rs = vs \<and> ss_pkt rx = of_nat (2 + ac_ahead a + ac_dup a + ac_late a) \<and>
          ss_loss rx = of_nat (ac_high a - (f + 1) - ac_ahead a) \<and>
          ss_dup rx = of_nat (ac_dup a) \<and> ss_reorder rx = of_nat (ac_late a) \<and> ss_discard rx = 0)"
proof -
  obtain s0 where s0: "foldl rtcp_step (Some (pjmedia_rtcp_init2 ck freq cfg, []))
      [Ev_Rx k1 f t1 n1, Ev_Rx k2 (f + 1) t2 n2] = Some (s0, [])" "accounts s0 (ac_start f)"
    using rx_start_accounts [OF assms(1-4)] by blast
  have "ac_ok (ac_start f)" "ac_received (ac_start f) + length evs < 2 ^ 32"
    using assms(4,6) by (simp_all add: ac_ok_def ac_start_def ac_received_def ac_expected_def)
  from rtcp_run_accounts [OF s0(2) this(1) assms(5) this(2), of "[]" "[]"]
  obtain s rs where r: "foldl rtcp_step (Some (s0, [])) evs = Some (s, rs)"
      "map rr_values rs = snd (foldl ac_step (ac_start f, []) evs)" "accounts s (fst (foldl ac_step (ac_start f, []) evs))"
    by auto
  have "ac_first (fst (foldl ac_step (a, vs) evs)) = ac_first a" for a vs
  proof (induction evs arbitrary: a vs)
    case (Cons ev evs)
    then show ?case by (cases ev) (simp_all add: ac_receive_def ac_report_def)
  qed simp
  then have "ac_first (fst (foldl ac_step (ac_start f, []) evs)) = f" by (simp add: ac_start_def)
  then show ?thesis using r s0(1)
    by (auto simp: split_beta Let_def accounts_def ac_lost_def ac_received_def simp del: of_nat_diff of_nat_add)
qed

theorem rtcp_reports_refine_witness:
  "\<exists>s rs. foldl rtcp_step (Some (pjmedia_rtcp_init2 (\<lparr>ck_ts = 9, ck_ntp_ts = 9, ck_tod = Time_Val 1 0, ck_rtt_mean = 0\<rparr>)
        1000 \<lparr>rset_clock_rate = 8000, rset_samples_per_frame = 160, rset_ssrc = 7, rset_rtp_ts_base = 0\<rparr>, []))
        (map (\<lambda>e. Ev_Rx \<lparr>ck_ts = 20, ck_ntp_ts = 20, ck_tod = Time_Val 1 0, ck_rtt_mean = 0\<rparr> e 160 160) [10, 11, 13, 12]
         @ [Ev_Report \<lparr>ck_ts = 30, ck_ntp_ts = 30, ck_tod = Time_Val 1 0, ck_rtt_mean = 0\<rparr>,
            Ev_Rx \<lparr>ck_ts = 40, ck_ntp_ts = 40, ck_tod = Time_Val 1 0, ck_rtt_mean = 0\<rparr> 16 160 160,
            Ev_Report \<lparr>ck_ts = 30, ck_ntp_ts = 30, ck_tod = Time_Val 1 0, ck_rtt_mean = 0\<rparr>]) = Some (s, rs) \<and>
      map rr_values rs = [(13, 1, 0), (16, 3, 170)] \<and> ss_reorder (rt_rx (rs_stat s)) = 1"
proof -
  let ?c = "\<lambda>t. \<lparr>ck_ts = t, ck_ntp_ts = t, ck_tod = Time_Val 1 0, ck_rtt_mean = 0\<rparr>"
  let ?evs = "[Ev_Rx (?c 20) 13 160 160, Ev_Rx (?c 20) 12 160 160, Ev_Report (?c 30),
    Ev_Rx (?c 40) 16 160 160, Ev_Report (?c 30)]"
  have v: "foldl ac_step (ac_start 10, []) ?evs = (\<lparr>ac_first = 10, ac_high = 16, ac_ahead = 2, ac_dup = 0, ac_late = 1,
      ac_exp = 6, ac_rcv = 5\<rparr>, [(13, 1, 0), (16, 3, 170)])" "rx_window (ac_start 10) ?evs"
    by (simp_all add: ac_start_def ac_receive_def ac_report_def ac_values_def ac_lost_def ac_fraction_def ac_expected_def
        ac_received_def Let_def)
  show ?thesis
    using rtcp_reports_refine [where cfg = "\<lparr>rset_clock_rate = 8000, rset_samples_per_frame = 160, rset_ssrc = 7, rset_rtp_ts_base = 0\<rparr>"
        and freq = 1000 and f = 10 and evs = ?evs and ck = "?c 9" and ?k1.0 = "?c 20" and ?k2.0 = "?c 20"
        and ?t1.0 = 160 and ?n1.0 = 160 and ?t2.0 = 160 and ?n2.0 = 160] v
    by (simp add: Let_def) (elim exE conjE, intro exI conjI, assumption+)
qed

end
