(* ===== verification/Rtcp_Jitter.thy ===== *)
theory Rtcp_Jitter
  imports Rtcp_Stat
begin

text \<open>
  The interarrival jitter of an RTCP session: its bound over any run, and the minimum that a restart of
  the source spoils.
\<close>

section \<open>One step of the estimate\<close>

lemma jitter_step_bound:
  assumes j: "unat j \<le> 16 * D + 7" and d: "unat d \<le> D" and D: "D < 2 ^ 27"
  shows "unat (jitter_step j d) \<le> 16 * D + 7"
proof -
  have "unat (j + 8) = unat j + 8" using j D by (simp add: unat_word_ariths)
  then have q: "unat (drop_bit 4 (j + 8)) = (unat j + 8) div 16" by (simp only: unat_drop_bit_eq) (simp only: drop_bit_eq_div, simp)
  have le: "(unat j + 8) div 16 \<le> unat j + unat d"
  proof (cases "unat j = 0")
    case False
    then have "0 < unat j" by simp
    then have "unat j + 8 < 16 * (unat j + 1)" by simp
    then have "(unat j + 8) div 16 < unat j + 1" by (simp add: less_mult_imp_div_less mult.commute)
    then show ?thesis by simp
  qed simp
  have "j + (d - drop_bit 4 (j + 8)) = (of_nat (unat j + unat d) :: u32) - of_nat ((unat j + 8) div 16)"
    by (simp add: q [symmetric])
  also have "\<dots> = of_nat (unat j + unat d - (unat j + 8) div 16)" using le by (simp only: of_nat_diff)
  finally have "unat (jitter_step j d) = unat (of_nat (unat j + unat d - (unat j + 8) div 16) :: u32)"
    by (simp only: jitter_step_def)
  also have "\<dots> = unat j + unat d - (unat j + 8) div 16"
    using j d D by (simp only: unat_of_nat) simp
  finally have "unat (jitter_step j d) = unat j + unat d - (unat j + 8) div 16" .
  moreover have "unat j + unat d - (unat j + 8) div 16 \<le> 16 * D + 7"
  proof (cases "16 * D \<le> unat j + 8")
    case True
    then have "D \<le> (unat j + 8) div 16" by simp
    then show ?thesis using j d by linarith
  next
    case False
    have "unat j + 8 < 16 * ((unat j + 8) div 16) + 16" using mult_div_mod_eq [of 16 "unat j + 8"] mod_less_divisor [of 16 "unat j + 8"] by linarith
    then show ?thesis using False d by linarith
  qed
  ultimately show ?thesis by simp
qed

lemma transit_dist_bound:
  assumes "unat (a - t) \<le> D" "unat (b - t) \<le> D" "D < 2 ^ 27"
  shows "unat (transit_dist a b) \<le> D"
proof -
  define x y where "x = unat (a - t)" and "y = unat (b - t)"
  have xy: "x \<le> D" "y \<le> D" using assms by (simp_all add: x_def y_def)
  have w: "a - b = (of_nat x :: u32) - of_nat y" by (simp add: x_def y_def)
  define k where "k = int x - int y"
  have k: "a - b = word_of_int k" "\<bar>k\<bar> \<le> int D" using w xy by (simp_all add: k_def)
  then have s: "sint (a - b) = k" using assms(3)
    by (simp only: sint_sbintrunc') (rule signed_take_bit_int_eq_self, simp_all)
  have u: "unat (word_of_int (\<bar>k\<bar>) :: u32) = nat \<bar>k\<bar>"
    using k(2) assms(3) by (simp add: unat_eq_nat_uint uint_word_of_int)
  have "transit_dist a b = word_of_int \<bar>k\<bar>"
    using s k(1) by (auto simp: transit_dist_def Let_def)
  then show ?thesis using u k(2) by simp
qed

section \<open>A session\<close>

text \<open>The transit time the code computes for a packet: arrival in units of the RTP clock, less the timestamp.\<close>

definition packet_transit :: "u32 \<Rightarrow> u64 \<Rightarrow> rtcp_clock \<Rightarrow> u32 \<Rightarrow> u32" where
  "packet_transit rate freq ck ts = ucast (ck_ts ck * ucast rate div freq) - ts"

definition jitter_ok :: "u32 \<Rightarrow> u64 \<Rightarrow> u32 \<Rightarrow> nat \<Rightarrow> rtcp_session \<Rightarrow> bool" where
  "jitter_ok rate freq t D s \<longleftrightarrow> rs_clock_rate s = rate \<and> rs_ts_freq s = freq \<and>
     unat (rs_jitter s) \<le> 16 * D + 7 \<and> (rs_transit s = 0 \<or> unat (rs_transit s - t) \<le> D)"

lemma jitter_ok_upd [simp]:
  "jitter_ok rate freq t D (upd_rx f s) = jitter_ok rate freq t D s"
  "jitter_ok rate freq t D (s\<lparr>rs_seq_ctrl := c\<rparr>) = jitter_ok rate freq t D s"
  "jitter_ok rate freq t D (s\<lparr>rs_received := r\<rparr>) = jitter_ok rate freq t D s"
  "jitter_ok rate freq t D (s\<lparr>rs_rtp_last_ts := ts\<rparr>) = jitter_ok rate freq t D s"
  by (simp_all add: jitter_ok_def)

lemma jitter_ok_flags: "jitter_ok rate freq t D s \<Longrightarrow> jitter_ok rate freq t D (rx_flags s fl)"
  by (simp add: rx_flags_def Let_def) (simp add: jitter_ok_def rtcp_init_seq_def)

lemma rx_jitter_ok:
  assumes k: "rate \<noteq> 0" "freq \<noteq> 0" and D: "D < 2 ^ 27" and J: "jitter_ok rate freq t D s"
    and tr: "unat (packet_transit rate freq ck ts - t) \<le> D"
  shows "\<exists>s'. rx_jitter ck s d ts = Some s' \<and> jitter_ok rate freq t D s'"
proof -
  let ?T = "packet_transit rate freq ck ts"
  have r: "rs_clock_rate s = rate" "rs_ts_freq s = freq" using J by (simp_all add: jitter_ok_def)
  consider "\<not> (d = 1 \<and> ts \<noteq> rs_rtp_last_ts s)" | "d = 1" "ts \<noteq> rs_rtp_last_ts s" "rs_transit s = 0 \<or> rs_received s < 25"
    | "d = 1" "ts \<noteq> rs_rtp_last_ts s" "rs_transit s \<noteq> 0" "\<not> rs_received s < 25" by blast
  then show ?thesis
  proof cases
    case 1
    then show ?thesis using J by (auto simp: rx_jitter_def)
  next
    case 2
    then have "rx_jitter ck s d ts = Some (upd_rx (\<lambda>r. r\<lparr>ss_jitter := (ss_jitter r)\<lparr>stat_min := - 1\<rparr>\<rparr>) (s\<lparr>rs_transit := ?T\<rparr>))"
      using k r by (simp add: rx_jitter_def packet_transit_def Let_def)
    moreover have "jitter_ok rate freq t D (s\<lparr>rs_transit := ?T\<rparr>)" using J tr by (simp add: jitter_ok_def)
    ultimately show ?thesis by simp
  next
    case 3
    define j where "j = jitter_step (rs_jitter s) (transit_dist ?T (rs_transit s))"
    have "unat (transit_dist ?T (rs_transit s)) \<le> D"
      using transit_dist_bound [OF tr _ D] J 3(3) by (simp add: jitter_ok_def)
    then have "unat j \<le> 16 * D + 7" using jitter_step_bound [OF _ _ D] J by (simp add: j_def jitter_ok_def)
    then have "jitter_ok rate freq t D (s\<lparr>rs_jitter := j, rs_transit := ?T\<rparr>)" using J tr by (simp add: jitter_ok_def)
    moreover have "\<exists>f. rx_jitter ck s d ts = Some (upd_rx f (s\<lparr>rs_jitter := j, rs_transit := ?T\<rparr>))"
      using 3 k r by (simp add: rx_jitter_def packet_transit_def Let_def j_def) blast
    ultimately show ?thesis by auto
  qed
qed

lemma rx_rtp_jitter_ok:
  assumes k: "rate \<noteq> 0" "freq \<noteq> 0" and D: "D < 2 ^ 27" and J: "jitter_ok rate freq t D s"
    and tr: "unat (packet_transit rate freq ck ts - t) \<le> D"
  shows "\<exists>s'. pjmedia_rtcp_rx_rtp2 ck s seq ts nb = Some s' \<and> jitter_ok rate freq t D s'"
proof -
  let ?s1 = "if ss_pkt (rt_rx (rs_stat s)) = 0 then s\<lparr>rs_seq_ctrl := rtp_seq_init (rs_seq_ctrl s) (ucast seq)\<rparr> else s"
  define s2 where "s2 = upd_rx (\<lambda>r. r\<lparr>ss_pkt := ss_pkt r + 1, ss_bytes := ss_bytes r + nb\<rparr>) ?s1"
  obtain c st where u: "rtp_seq_update (rs_seq_ctrl s2) (ucast seq) = (c, st)" by fastforce
  define s3 where "s3 = rx_flags (s2\<lparr>rs_seq_ctrl := c\<rparr>) (st_flags st)"
  have "jitter_ok rate freq t D s2" using J by (simp add: s2_def)
  then have J3: "jitter_ok rate freq t D s3" by (simp add: s3_def jitter_ok_flags)
  show ?thesis
  proof (cases "fl_bad (st_flags st)")
    case True
    have "pjmedia_rtcp_rx_rtp2 ck s seq ts nb = Some (upd_rx (\<lambda>r. r\<lparr>ss_discard := ss_discard r + 1\<rparr>) s3)"
      unfolding pjmedia_rtcp_rx_rtp2_def Let_def s2_def [symmetric]
      using u True by (simp add: s3_def [symmetric])
    then show ?thesis using J3 by simp
  next
    case False
    have "\<exists>s4. rx_loss_period (s3\<lparr>rs_received := rs_received s3 + 1\<rparr>) (st_diff st) = Some s4 \<and> jitter_ok rate freq t D s4"
      using J3 k by (auto simp: rx_loss_period_def Let_def) (simp add: jitter_ok_def)
    then obtain s4 where s4: "rx_loss_period (s3\<lparr>rs_received := rs_received s3 + 1\<rparr>) (st_diff st) = Some s4"
        "jitter_ok rate freq t D s4" by blast
    obtain s5 where s5: "rx_jitter ck s4 (st_diff st) ts = Some s5" "jitter_ok rate freq t D s5"
      using rx_jitter_ok [OF k D s4(2) tr] by blast
    have "pjmedia_rtcp_rx_rtp2 ck s seq ts nb = Some (s5\<lparr>rs_rtp_last_ts := ts\<rparr>)"
      unfolding pjmedia_rtcp_rx_rtp2_def Let_def s2_def [symmetric]
      using u False s4(1) s5(1) by (simp add: s3_def [symmetric])
    then show ?thesis using s5(2) by simp
  qed
qed

text \<open>
  C37. Whatever packets a fresh session receives, in sequence, lost, late or from a restarted source: if
  their transit times lie within an interval of width \<open>D\<close>, the session processes all of them and the jitter it would report is at
  most \<open>D\<close>.
\<close>

theorem rtcp_jitter_bounded:
  assumes "rset_clock_rate cfg \<noteq> 0" "freq \<noteq> 0" "D < 2 ^ 27"
    and "\<forall>(ck, seq, ts, nb) \<in> set ps. unat (packet_transit (rset_clock_rate cfg) freq ck ts - t) \<le> D"
  shows "\<exists>s. foldl (\<lambda>x (ck, seq, ts, nb). Option.bind x (\<lambda>s. pjmedia_rtcp_rx_rtp2 ck s seq ts nb))
      (Some (pjmedia_rtcp_init2 ck0 freq cfg)) ps = Some s \<and> unat (drop_bit 4 (rs_jitter s)) \<le> D"
proof -
  let ?rate = "rset_clock_rate cfg"
  have run: "\<exists>s'. foldl (\<lambda>x (ck, seq, ts, nb). Option.bind x (\<lambda>s. pjmedia_rtcp_rx_rtp2 ck s seq ts nb)) (Some s) ps = Some s'
      \<and> jitter_ok ?rate freq t D s'" if "jitter_ok ?rate freq t D s" for s
    using that assms(4)
  proof (induction ps arbitrary: s)
    case (Cons p ps)
    obtain ck seq ts nb where p: "p = (ck, seq, ts, nb)" by (cases p)
    obtain s1 where "pjmedia_rtcp_rx_rtp2 ck s seq ts nb = Some s1" "jitter_ok ?rate freq t D s1"
      using rx_rtp_jitter_ok [OF assms(1-3) Cons.prems(1), of ck ts seq nb] Cons.prems(2) p by auto
    then show ?case using Cons.IH [of s1] Cons.prems(2) p by simp
  qed simp
  have "jitter_ok ?rate freq t D (pjmedia_rtcp_init2 ck0 freq cfg)"
    by (simp add: jitter_ok_def pjmedia_rtcp_init2_def Let_def)
  from run [OF this] obtain s where s: "foldl (\<lambda>x (ck, seq, ts, nb). Option.bind x (\<lambda>s. pjmedia_rtcp_rx_rtp2 ck s seq ts nb))
      (Some (pjmedia_rtcp_init2 ck0 freq cfg)) ps = Some s" "jitter_ok ?rate freq t D s" by blast
  have "unat (drop_bit 4 (rs_jitter s)) = unat (rs_jitter s) div 16"
    by (simp only: unat_drop_bit_eq) (simp only: drop_bit_eq_div, simp)
  then show ?thesis using s by (auto simp: jitter_ok_def)
qed

theorem rtcp_jitter_bounded_witness:
  "\<exists>s. foldl (\<lambda>x (ck, seq, ts, nb). Option.bind x (\<lambda>s. pjmedia_rtcp_rx_rtp2 ck s seq ts nb))
      (Some (pjmedia_rtcp_init2 \<lparr>ck_ts = 9, ck_ntp_ts = 9, ck_tod = Time_Val 1 0, ck_rtt_mean = 0\<rparr> 1000
        \<lparr>rset_clock_rate = 8000, rset_samples_per_frame = 160, rset_ssrc = 7, rset_rtp_ts_base = 0\<rparr>))
      [(\<lparr>ck_ts = 20, ck_ntp_ts = 20, ck_tod = Time_Val 1 0, ck_rtt_mean = 0\<rparr>, 10, 160, 160),
       (\<lparr>ck_ts = 41, ck_ntp_ts = 41, ck_tod = Time_Val 1 0, ck_rtt_mean = 0\<rparr>, 11, 320, 160)] = Some s \<and>
    unat (drop_bit 4 (rs_jitter s)) \<le> 8"
  using rtcp_jitter_bounded [where cfg = "\<lparr>rset_clock_rate = 8000, rset_samples_per_frame = 160, rset_ssrc = 7, rset_rtp_ts_base = 0\<rparr>"
      and freq = 1000 and D = 8 and t = 0 and ?ck0.0 = "\<lparr>ck_ts = 9, ck_ntp_ts = 9, ck_tod = Time_Val 1 0, ck_rtt_mean = 0\<rparr>"
      and ps = "[(\<lparr>ck_ts = 20, ck_ntp_ts = 20, ck_tod = Time_Val 1 0, ck_rtt_mean = 0\<rparr>, 10, 160, 160),
       (\<lparr>ck_ts = 41, ck_ntp_ts = 41, ck_tod = Time_Val 1 0, ck_rtt_mean = 0\<rparr>, 11, 320, 160)]"]
  by (simp add: packet_transit_def)

section \<open>The minimum after a restart\<close>

text \<open>
  The first packets set the minimum to -1, as a value above all others; but the fields are signed, and only the very first
  sample replaces it. When a source restarts, \<open>received\<close> starts again from 0 and the minimum is set again, after
  samples were taken: no later sample can raise it.
\<close>

lemma rtcp_jitter_min_lost:
  assumes "rs_ts_freq s \<noteq> 0" "rs_received s < 25" "ts \<noteq> rs_rtp_last_ts s" "stat_n (ss_jitter (rt_rx (rs_stat s))) > 0"
    and "\<forall>v \<in> set vs. 0 \<le> v"
  shows "\<exists>s'. rx_jitter ck s 1 ts = Some s' \<and>
    stat_min (foldl math_stat_update (ss_jitter (rt_rx (rs_stat s'))) vs) = - 1"
proof -
  have "stat_min (foldl math_stat_update m vs) = - 1" if "stat_n m > 0" "stat_min m = - 1" for m
    using that assms(5)
  proof (induction vs arbitrary: m)
    case (Cons v vs)
    then show ?case using Cons.IH [of "math_stat_update m v"] by (simp add: math_stat_update_fields min_def)
  qed simp
  then show ?thesis using assms by (simp add: rx_jitter_def Let_def)
qed

end
