(* ===== verification/Rtcp_Packets.thy ===== *)
theory Rtcp_Packets
  imports Rtcp Machine
begin

text \<open>
  What a session makes of received RTCP packets: a source description that was built is read back, the
  strings of the peer stay inside their buffer whatever is received, and a compound of complete
  packets is processed to its end.
\<close>

section \<open>Source descriptions\<close>

definition sdes_get :: "u8 \<Rightarrow> 's rtcp_sdes \<Rightarrow> 's" where
  "sdes_get ty d =
    (if ty = 1 then sd_cname d else if ty = 2 then sd_name d else if ty = 3 then sd_email d
     else if ty = 4 then sd_phone d else if ty = 5 then sd_loc d else if ty = 6 then sd_tool d else sd_note d)"

text \<open>The strings a session holds of its peer.\<close>

definition sdes_text :: "u8 list \<Rightarrow> sdes_ref \<Rightarrow> u8 list" where
  "sdes_text sbuf r = (case r of None \<Rightarrow> [] | Some (b, n) \<Rightarrow> take n (drop b sbuf))"

definition stored_sdes :: "rtcp_stat \<Rightarrow> u8 list rtcp_sdes" where
  "stored_sdes t = (let f = sdes_text (rt_sdes_buf t); d = rt_peer_sdes t
     in \<lparr>sd_cname = f (sd_cname d), sd_name = f (sd_name d), sd_email = f (sd_email d), sd_phone = f (sd_phone d),
         sd_loc = f (sd_loc d), sd_tool = f (sd_tool d), sd_note = f (sd_note d)\<rparr>)"

definition sdes_types :: "u8 set" where "sdes_types = {1, 2, 3, 4, 5, 6, 7}"

lemma sdes_get_set:
  "a \<in> sdes_types \<Longrightarrow> b \<in> sdes_types \<Longrightarrow> sdes_get a (sdes_set b v d) = (if a = b then v else sdes_get a d)"
  by (auto simp: sdes_types_def sdes_get_def sdes_set_def)

text \<open>Where the items go: \<open>b\<close> is the next free place of the buffer.\<close>

fun sdes_place :: "nat \<Rightarrow> (u8 \<times> u8 list) list \<Rightarrow> sdes_ref rtcp_sdes \<Rightarrow> sdes_ref rtcp_sdes" where
  "sdes_place b [] d = d"
| "sdes_place b ((ty, v) # its) d =
     sdes_place (b + length v) its (if v = [] then d else sdes_set ty (Some (b, length v)) d)"

lemma sdes_place_other:
  "fst ` set its \<subseteq> sdes_types \<Longrightarrow> a \<in> sdes_types \<Longrightarrow> a \<notin> fst ` set its \<Longrightarrow>
     sdes_get a (sdes_place b its d) = sdes_get a d"
  by (induction b its d rule: sdes_place.induct) (auto simp: sdes_get_set)

lemma sdes_place_text:
  assumes "fst ` set its \<subseteq> sdes_types" "distinct (map fst its)" "(a, v) \<in> set its" "sdes_get a d = None"
    and "length pre = b"
  shows "sdes_text (pre @ concat (map snd its) @ post) (sdes_get a (sdes_place b its d)) = v"
  using assms
proof (induction b its d arbitrary: pre rule: sdes_place.induct)
  case (2 b ty w its d)
  let ?d = "if w = [] then d else sdes_set ty (Some (b, length w)) d"
  have ty: "ty \<in> sdes_types" "a \<in> sdes_types" using "2.prems"(1,3) by auto
  show ?case
  proof (cases "a = ty")
    case True
    then have "v = w" "a \<notin> fst ` set its" using "2.prems"(2,3) by (auto simp: image_iff)
    then have "sdes_get a (sdes_place (b + length w) its ?d) = (if w = [] then None else Some (b, length w))"
      using "2.prems"(1,4) ty True by (subst sdes_place_other) (auto simp: sdes_get_set)
    then show ?thesis using \<open>v = w\<close> "2.prems"(5) by (auto simp: sdes_text_def)
  next
    case False
    then have "sdes_get a ?d = None" using "2.prems"(4) ty by (simp add: sdes_get_set)
    then show ?thesis using "2.IH" [of "pre @ w"] "2.prems" False by auto
  qed
qed simp

lemma write_at_append:
  "length sbuf = n \<Longrightarrow> b + length v + length w \<le> n \<Longrightarrow>
     write_at (write_at sbuf b v) (b + length v) w = write_at sbuf b (v @ w)"
  by (simp add: write_at_def add_ac)

lemma sdes_loop_items:
  assumes "fst ` set its \<subseteq> sdes_types" "\<forall>(ty, v) \<in> set its. length v \<le> 255" "length pre = p"
    and "p + length (concat (map sdes_item_bytes its)) < p_end" "length sbuf = SDES_BUF_LEN"
    and "b + length (concat (map snd its)) < SDES_BUF_LEN"
  shows "sdes_loop (pre @ concat (map sdes_item_bytes its) @ 0 # post) p p_end b sbuf d =
    Some (write_at sbuf b (concat (map snd its)), sdes_place b its d)"
  using assms
proof (induction its arbitrary: pre p b sbuf d)
  case Nil
  have "rd8 (pre @ 0 # post) p = Some 0" using Nil.prems(3) by (simp add: rd8_def nth_append)
  then show ?case using Nil.prems by (subst sdes_loop.simps) (simp add: write_at_def)
next
  case (Cons it its)
  obtain ty v where it: "it = (ty, v)" by (cases it)
  show ?case
  proof (cases "v = []")
    case True
    then show ?thesis using Cons.IH [of pre p sbuf b d] Cons.prems it by (simp add: sdes_item_bytes_def)
  next
    case False
    let ?rest = "concat (map sdes_item_bytes its) @ 0 # post"
    have lv: "length v \<le> 255" "unat (of_nat (length v) :: u8) = length v"
      using Cons.prems(2) it by (simp_all add: unat_of_nat)
    have nz: "ty \<noteq> 0" using Cons.prems(1) it by (auto simp: sdes_types_def)
    have mem: "pre @ concat (map sdes_item_bytes (it # its)) @ 0 # post =
        pre @ [ty, of_nat (length v)] @ v @ ?rest"
      using False it by (simp add: sdes_item_bytes_def)
    have rd: "rd8 (pre @ [ty, of_nat (length v)] @ v @ ?rest) p = Some ty"
      "rd8 (pre @ [ty, of_nat (length v)] @ v @ ?rest) (p + 1) = Some (of_nat (length v))"
      "rd_bytes (pre @ [ty, of_nat (length v)] @ v @ ?rest) (p + 2) (length v) = Some v"
      using Cons.prems(3) by (simp_all add: rd8_def rd_bytes_def nth_append)
    have pe: "p + 2 + length v + length (concat (map sdes_item_bytes its)) < p_end"
      using Cons.prems(4) False it by (simp add: sdes_item_bytes_def)
    have "sdes_loop ((pre @ [ty, of_nat (length v)] @ v) @ ?rest) (p + 2 + length v) p_end (b + length v)
        (write_at sbuf b v) (sdes_set ty (Some (b, length v)) d) =
      Some (write_at (write_at sbuf b v) (b + length v) (concat (map snd its)),
        sdes_place (b + length v) its (sdes_set ty (Some (b, length v)) d))"
      using Cons.prems it pe by (intro Cons.IH) auto
    then show ?thesis unfolding mem
      using rd lv nz pe Cons.prems(5,6) False it
      by (subst sdes_loop.simps) (simp add: write_at_append [of sbuf SDES_BUF_LEN])
  qed
qed

lemma length_pad4: "length (pad4 bs) = (length bs + 3) div 4 * 4"
proof -
  define q r where "q = length bs div 4" and "r = length bs mod 4"
  have l: "length bs = 4 * q + r" "r < 4" by (simp_all add: q_def r_def)
  then have "(length bs + 3) div 4 = q + (if r = 0 then 0 else 1)" by (auto intro!: div_nat_eqI)
  then show ?thesis using l by (simp add: pad4_def r_def [symmetric])
qed

lemma sdes_item_length:
  "length (concat (map sdes_item_bytes its)) = sum_list (map sdes_item_len its)"
  by (induction its) (auto simp: sdes_item_bytes_def sdes_item_len_def)

text \<open>One packet of a compound.\<close>

lemma rx_rtcp_single:
  assumes "rd_length mem p = Some words" "rd_pt mem p = Some pt" "(unat words + 1) * 4 = n" "rx_one (ck 0) s mem p n pt = Some (s', ev)"
  shows "rx_rtcp_loop ck 0 s mem p (p + n) = Some (s', ev)"
proof -
  have "0 < n" using assms(3) by auto
  moreover have "rx_rtcp_loop ck (Suc 0) s' mem (p + n) (p + n) = Some (s', [])" by (subst rx_rtcp_loop.simps) simp
  ultimately show ?thesis using assms by (subst rx_rtcp_loop.simps) (simp add: Let_def)
qed

lemma header_words:
  assumes "n < 65536 * 4" "n div 4 * 4 = n" "0 < n"
  shows "(unat (of_nat (n div 4 - 1) :: u16) + 1) * 4 = n"
proof -
  have "0 < n div 4" using assms(2,3) by (metis gr0I mult_0)
  moreover have "unat (of_nat (n div 4 - 1) :: u16) = n div 4 - 1"
    using assms(1) by (simp only: unat16_of_nat) simp
  ultimately show ?thesis using assms(2) by simp
qed

lemma sdes_items_types: "fst ` set (sdes_items d) \<subseteq> sdes_types" "distinct (map fst (sdes_items d))"
  by (auto simp: sdes_items_def sdes_types_def)

text \<open>
  C36. A source description whose strings fit the receiver's buffer, built by one session and received by
  another, gives the receiver exactly these strings, whatever it held before.
\<close>

theorem rtcp_sdes_roundtrip:
  assumes "length (concat (map snd (sdes_items d))) < SDES_BUF_LEN"
    and "(8 + sum_list (map sdes_item_len (sdes_items d)) + 4) div 4 * 4 \<le> room"
    and "length (rt_sdes_buf (rs_stat s)) = SDES_BUF_LEN"
  shows "\<exists>pkt n s'. pjmedia_rtcp_build_rtcp_sdes common room d = Inr (pkt, n) \<and> length pkt = n \<and>
    pjmedia_rtcp_rx_rtcp ck s (pkt @ rest) n = Some (s', []) \<and> stored_sdes (rs_stat s') = d"
proof -
  let ?its = "sdes_items d"
  define n where "n = (8 + sum_list (map sdes_item_len ?its) + 1 + 3) div 4 * 4"
  define h where "h = common\<lparr>rc_pt := 202, rc_length := htons (of_nat (n div 4 - 1))\<rparr>"
  define body where "body = concat (map sdes_item_bytes ?its)"
  define pkt where "pkt = pad4 (rtcp_common_bytes h @ body @ [0])"
  have short: "length v < SDES_BUF_LEN" if "(ty, v) \<in> set ?its" for ty v
    using that assms(1) by (auto simp: sdes_items_def)
  then have "\<forall>(ty, v) \<in> set ?its. length v \<le> 255" by fastforce
  then have short': "\<not> (\<exists>(ty, v) \<in> set ?its. length v > 255)" by fastforce
  have built: "pjmedia_rtcp_build_rtcp_sdes common room d = Inr (pkt, n)"
    unfolding pjmedia_rtcp_build_rtcp_sdes_def Let_def n_def [symmetric]
    using short' assms(2) by (simp add: n_def pkt_def h_def body_def)
  have bl: "length body = sum_list (map sdes_item_len ?its)" by (simp add: body_def sdes_item_length)
  have lp: "length pkt = n" by (simp add: pkt_def length_pad4 n_def bl)
  have "sum_list (map sdes_item_len ?its) \<le> length (concat (map snd ?its)) + 14"
    by (auto simp: sdes_items_def sdes_item_len_def)
  then have n: "n < 65536 * 4" "n div 4 * 4 = n" "0 < n" "8 + length body < n"
    using assms(1) bl by (auto simp: n_def)
  obtain zs where mem: "pkt @ rest = rtcp_common_bytes h @ body @ 0 # zs"
    unfolding pkt_def pad4_def by simp
  have hd: "rd_length (pkt @ rest) 0 = Some (of_nat (n div 4 - 1))" "rd_pt (pkt @ rest) 0 = Some 202"
    using rd_common [of "[]" 0 h "body @ 0 # zs"] by (simp_all add: mem h_def)
  have "sdes_loop (pkt @ rest) 8 n 0 (rt_sdes_buf (rs_stat s)) zero_sdes =
      Some (write_at (rt_sdes_buf (rs_stat s)) 0 (concat (map snd ?its)), sdes_place 0 ?its zero_sdes)"
    unfolding mem body_def using sdes_items_types short assms(1,3) n(4) body_def
    by (intro sdes_loop_items) force+
  then obtain s' where s': "rx_one (ck 0) s (pkt @ rest) 0 n 202 = Some (s', [])"
      "rt_sdes_buf (rs_stat s') = write_at (rt_sdes_buf (rs_stat s)) 0 (concat (map snd ?its))"
      "rt_peer_sdes (rs_stat s') = sdes_place 0 ?its zero_sdes"
    by (simp add: rx_one_def parse_rtcp_sdes_def upd_stat_def)
  have run: "pjmedia_rtcp_rx_rtcp ck s (pkt @ rest) n = Some (s', [])"
    using rx_rtcp_single [where ck = ck, OF hd header_words [OF n(1-3)] s'(1)] by (simp add: pjmedia_rtcp_rx_rtcp_def)
  have texts: "sdes_text (rt_sdes_buf (rs_stat s')) (sdes_get ty (rt_peer_sdes (rs_stat s'))) = v"
    if "(ty, v) \<in> set ?its" for ty v
    using sdes_place_text [OF sdes_items_types that, where d = zero_sdes and pre = "[]" and b = 0]
    by (simp add: s'(2,3) write_at_def sdes_get_def zero_sdes_def)
  have "stored_sdes (rs_stat s') = d"
    using texts [of 1] texts [of 2] texts [of 3] texts [of 4] texts [of 5] texts [of 6] texts [of 7]
    by (simp add: stored_sdes_def sdes_items_def sdes_get_def Let_def)
  then show ?thesis using built lp run by blast
qed

theorem rtcp_sdes_roundtrip_witness:
  "let s0 = pjmedia_rtcp_init2 \<lparr>ck_ts = 9, ck_ntp_ts = 9, ck_tod = Time_Val 1 0, ck_rtt_mean = 0\<rparr> 1000
        pjmedia_rtcp_session_setting_default;
       d = \<lparr>sd_cname = [97, 64, 98], sd_name = [], sd_email = [], sd_phone = [49], sd_loc = [], sd_tool = [112], sd_note = []\<rparr>
   in \<exists>pkt n s'. pjmedia_rtcp_build_rtcp_sdes (srp_common (rs_sr_pkt s0)) 200 d = Inr (pkt, n) \<and> length pkt = n \<and>
     pjmedia_rtcp_rx_rtcp (\<lambda>_. \<lparr>ck_ts = 9, ck_ntp_ts = 9, ck_tod = Time_Val 1 0, ck_rtt_mean = 0\<rparr>) s0 (pkt @ []) n
       = Some (s', []) \<and> stored_sdes (rs_stat s') = d"
  unfolding Let_def
  by (intro rtcp_sdes_roundtrip)
    (simp_all add: sdes_items_def sdes_item_len_def pjmedia_rtcp_init2_def pjmedia_rtcp_init_stat_def Let_def)

section \<open>The strings stay in their buffer\<close>

definition ref_ok :: "sdes_ref \<Rightarrow> bool" where
  "ref_ok r \<longleftrightarrow> (case r of None \<Rightarrow> True | Some (b, n) \<Rightarrow> b + n \<le> SDES_BUF_LEN)"

definition sdes_refs :: "sdes_ref rtcp_sdes \<Rightarrow> sdes_ref list" where
  "sdes_refs d = [sd_cname d, sd_name d, sd_email d, sd_phone d, sd_loc d, sd_tool d, sd_note d]"

definition sdes_ok :: "rtcp_session \<Rightarrow> bool" where
  "sdes_ok s \<longleftrightarrow> length (rt_sdes_buf (rs_stat s)) = SDES_BUF_LEN \<and> list_all ref_ok (sdes_refs (rt_peer_sdes (rs_stat s)))"

lemma sdes_ok_upd [simp]:
  "sdes_ok (upd_rx f s) = sdes_ok s" "sdes_ok (upd_tx f s) = sdes_ok s"
  "sdes_ok (s\<lparr>rs_seq_ctrl := c\<rparr>) = sdes_ok s" "sdes_ok (s\<lparr>rs_received := w\<rparr>) = sdes_ok s"
  "sdes_ok (s\<lparr>rs_rtp_last_ts := w\<rparr>) = sdes_ok s" "sdes_ok (s\<lparr>rs_transit := w\<rparr>) = sdes_ok s"
  "sdes_ok (s\<lparr>rs_jitter := w\<rparr>) = sdes_ok s" "sdes_ok (rtcp_init_seq s) = sdes_ok s"
  "sdes_ok (s\<lparr>rs_rx_lsr := w, rs_rx_lsr_time := v\<rparr>) = sdes_ok s"
  "sdes_ok (s\<lparr>rs_exp_prior := w, rs_rx_prior := x\<rparr>) = sdes_ok s"
  "sdes_ok (s\<lparr>rs_sr_pkt := a, rs_rr_pkt := b\<rparr>) = sdes_ok s"
  by (simp_all add: sdes_ok_def upd_rx_def upd_tx_def upd_stat_def rtcp_init_seq_def)

lemma sdes_ok_rx_rtp:
  assumes "sdes_ok s" "pjmedia_rtcp_rx_rtp2 ck s seq ts nb = Some s'"
  shows "sdes_ok s'"
proof -
  have f: "sdes_ok (rx_flags s fl) = sdes_ok s" for s fl by (simp add: rx_flags_def Let_def)
  have l: "sdes_ok s1 \<Longrightarrow> rx_loss_period s1 d = Some s2 \<Longrightarrow> sdes_ok s2" for s1 s2 d
    by (auto simp: rx_loss_period_def Let_def split: if_splits)
  have j: "sdes_ok s1 \<Longrightarrow> rx_jitter ck s1 d ts = Some s2 \<Longrightarrow> sdes_ok s2" for s1 s2 d
    by (auto simp: rx_jitter_def Let_def split: if_splits)
  let ?s1 = "if ss_pkt (rt_rx (rs_stat s)) = 0 then s\<lparr>rs_seq_ctrl := rtp_seq_init (rs_seq_ctrl s) (ucast seq)\<rparr> else s"
  define s2 where "s2 = upd_rx (\<lambda>r. r\<lparr>ss_pkt := ss_pkt r + 1, ss_bytes := ss_bytes r + nb\<rparr>) ?s1"
  obtain c st where u: "rtp_seq_update (rs_seq_ctrl s2) (ucast seq) = (c, st)" by fastforce
  define s3 where "s3 = rx_flags (s2\<lparr>rs_seq_ctrl := c\<rparr>) (st_flags st)"
  have s3: "sdes_ok s3" using assms(1) by (simp add: s3_def s2_def f)
  show ?thesis
  proof (cases "fl_bad (st_flags st)")
    case True
    then have "s' = upd_rx (\<lambda>r. r\<lparr>ss_discard := ss_discard r + 1\<rparr>) s3"
      using assms(2) u unfolding pjmedia_rtcp_rx_rtp2_def Let_def s2_def [symmetric] by (simp add: s3_def)
    then show ?thesis using s3 by simp
  next
    case False
    then obtain s4 s5 where r: "rx_loss_period (s3\<lparr>rs_received := rs_received s3 + 1\<rparr>) (st_diff st) = Some s4"
        "rx_jitter ck s4 (st_diff st) ts = Some s5" "s' = s5\<lparr>rs_rtp_last_ts := ts\<rparr>"
      using assms(2) u unfolding pjmedia_rtcp_rx_rtp2_def Let_def s2_def [symmetric]
      by (auto simp: s3_def bind_eq_Some_conv)
    have "sdes_ok s4" by (rule l [OF _ r(1)]) (simp add: s3)
    then show ?thesis using j [OF _ r(2)] r(3) by simp
  qed
qed

lemma sdes_ok_report:
  assumes "sdes_ok s" "parse_rtcp_report ck s mem p n = Some s'"
  shows "sdes_ok s'"
proof -
  have l: "sdes_ok s1 \<Longrightarrow> rr_loss s1 w = Some s2 \<Longrightarrow> sdes_ok s2" for s1 s2 w
    by (auto simp: rr_loss_def Let_def split: if_splits)
  have j: "sdes_ok s1 \<Longrightarrow> rr_jitter_stat s1 w = Some s2 \<Longrightarrow> sdes_ok s2" for s1 s2 w
    by (auto simp: rr_jitter_stat_def split: if_splits)
  have t: "sdes_ok s1 \<Longrightarrow> rr_rtt ck s1 v w = Some s2 \<Longrightarrow> sdes_ok s2" for s1 s2 v w
    by (auto simp: rr_rtt_def Let_def bind_eq_Some_conv sdes_ok_def upd_stat_def split: if_splits)
  have r: "sdes_ok s1 \<Longrightarrow> parse_rr ck s1 mem q = Some s2 \<Longrightarrow> sdes_ok s2" for s1 s2 q
    by (auto simp: parse_rr_def bind_eq_Some_conv) (blast intro: l j t)
  have v: "sdes_ok s1 \<Longrightarrow> save_lsr ck s1 mem q = Some s2 \<Longrightarrow> sdes_ok s2" for s1 s2 q
    by (auto simp: save_lsr_def bind_eq_Some_conv)
  obtain pt count s1 where b: "rd_pt mem p = Some pt" "rd_count mem p = Some count"
      "(if pt = 200 then save_lsr ck s mem (p + 8) else Some s) = Some s1"
      "(if pt = 200 \<and> count > 0 \<and> n \<ge> 52 then parse_rr ck s1 mem (p + 28)
        else if pt = 201 \<and> count > 0 then parse_rr ck s1 mem (p + 8) else Some s1) = Some s'"
    using assms(2) unfolding parse_rtcp_report_def bind_eq_Some_conv by blast
  have "sdes_ok s1" using b(3) v [OF assms(1)] assms(1) by (cases "pt = 200") auto
  then show ?thesis using b(4) r by (cases "pt = 200"; cases "count > 0"; cases "n \<ge> 52"; cases "pt = 201") auto
qed

lemma sdes_set_ok:
  "list_all ref_ok (sdes_refs d) \<Longrightarrow> ref_ok r \<Longrightarrow> list_all ref_ok (sdes_refs (sdes_set ty r d))"
  by (simp add: sdes_set_def sdes_refs_def)

lemma sdes_loop_ok:
  assumes "sdes_loop mem p p_end b sbuf d = Some (sbuf', d')" "length sbuf = SDES_BUF_LEN" "list_all ref_ok (sdes_refs d)"
  shows "length sbuf' = SDES_BUF_LEN \<and> list_all ref_ok (sdes_refs d')"
  using assms
proof (induction mem p p_end b sbuf d rule: sdes_loop.induct)
  case (1 mem p p_end b sbuf d)
  consider "sbuf' = sbuf" "d' = d"
    | ty len v where "rd8 mem p = Some ty" "rd8 mem (p + 1) = Some len" "p < p_end" "\<not> (ty = 0 \<or> p + 1 = p_end)"
        "\<not> p + 2 + unat len > p_end" "b + unat len < SDES_BUF_LEN" "rd_bytes mem (p + 2) (unat len) = Some v"
        "sdes_loop mem (p + 2 + unat len) p_end (b + unat len) (write_at sbuf b v) (sdes_set ty (Some (b, unat len)) d) = Some (sbuf', d')"
    | ty len where "rd8 mem p = Some ty" "rd8 mem (p + 1) = Some len" "p < p_end" "\<not> (ty = 0 \<or> p + 1 = p_end)"
        "\<not> p + 2 + unat len > p_end" "\<not> b + unat len < SDES_BUF_LEN"
        "sdes_loop mem (p + 2 + unat len) p_end b sbuf d = Some (sbuf', d')"
    using "1.prems"(1) by (subst (asm) sdes_loop.simps) (auto split: if_splits option.splits)
  then show ?case
  proof cases
    case 1
    then show ?thesis using "1.prems" by simp
  next
    case 2
    then have "length v = unat len" by (auto simp: rd_bytes_def split: if_splits)
    then have "length (write_at sbuf b v) = SDES_BUF_LEN" using 2(6) "1.prems"(2) by simp
    moreover have "list_all ref_ok (sdes_refs (sdes_set ty (Some (b, unat len)) d))"
      using sdes_set_ok [OF "1.prems"(3)] 2(6) by (simp add: ref_ok_def)
    ultimately show ?thesis using "1.IH"(1) [OF 2(3,1,4,2,5,6,7,8)] by blast
  next
    case 3
    then show ?thesis using "1.IH"(2) [OF 3(3,1,4,2,5,6,7)] "1.prems"(2,3) by blast
  qed
qed

lemma sdes_ok_one:
  assumes "sdes_ok s" "rx_one ck s mem p n pt = Some (s', ev)"
  shows "sdes_ok s'"
proof -
  have d: "sdes_ok s'" if D: "parse_rtcp_sdes s mem p n = Some s'" for s'
  proof -
    obtain sbuf d where b: "sdes_loop mem (p + 8) (p + n) 0 (rt_sdes_buf (rs_stat s)) zero_sdes = Some (sbuf, d)"
        "s' = upd_stat (\<lambda>t. t\<lparr>rt_peer_sdes := d, rt_sdes_buf := sbuf\<rparr>) s"
      using D by (cases "sdes_loop mem (p + 8) (p + n) 0 (rt_sdes_buf (rs_stat s)) zero_sdes")
        (auto simp: parse_rtcp_sdes_def)
    have "list_all ref_ok (sdes_refs zero_sdes)" by (simp add: sdes_refs_def zero_sdes_def ref_ok_def)
    then show ?thesis using sdes_loop_ok [OF b(1)] assms(1) by (simp add: b(2) sdes_ok_def upd_stat_def)
  qed
  have b: "sdes_ok s'" if "parse_rtcp_bye s mem p n = Some s'" for s'
    using that assms(1)
    by (auto simp: parse_rtcp_bye_def bind_eq_Some_conv rd_bytes_def sdes_ok_def upd_stat_def split: if_splits)
  show ?thesis using assms(2) d b sdes_ok_report [OF assms(1)] assms(1)
    unfolding rx_one_def by (auto split: if_splits)
qed

lemma sdes_ok_rx_loop:
  "sdes_ok s \<Longrightarrow> rx_rtcp_loop ck i s mem p p_end = Some (s', ev) \<Longrightarrow> sdes_ok s'"
proof (induction ck i s mem p p_end arbitrary: s' ev rule: rx_rtcp_loop.induct)
  case (1 ck i s mem p p_end)
  show ?case
  proof (cases "p < p_end")
    case False
    then show ?thesis using "1.prems" by (subst (asm) rx_rtcp_loop.simps) simp
  next
    case True
    then obtain words pt s1 ev1 ev2 where s: "rd_length mem p = Some words" "rd_pt mem p = Some pt"
        "rx_one (ck i) s mem p ((unat words + 1) * 4) pt = Some (s1, ev1)"
        "rx_rtcp_loop ck (i + 1) s1 mem (p + (unat words + 1) * 4) p_end = Some (s', ev2)"
      using "1.prems"(2) by (subst (asm) rx_rtcp_loop.simps) (auto simp: Let_def split: option.splits prod.splits)
    show ?thesis using "1.IH" s True sdes_ok_one [OF "1.prems"(1) s(3)] by blast
  qed
qed

text \<open>The calls on a session.\<close>

datatype rtcp_call =
    Call_Rx_Rtp rtcp_clock u32 u32 u32
  | Call_Tx_Rtp u32
  | Call_Rx_Rtcp "nat \<Rightarrow> rtcp_clock" "u8 list" nat
  | Call_Build rtcp_clock

definition rtcp_call_step :: "rtcp_session option \<Rightarrow> rtcp_call \<Rightarrow> rtcp_session option" where
  "rtcp_call_step x c = do { s \<leftarrow> x;
     (case c of
        Call_Rx_Rtp ck seq ts nb \<Rightarrow> pjmedia_rtcp_rx_rtp2 ck s seq ts nb
      | Call_Tx_Rtp nb \<Rightarrow> Some (pjmedia_rtcp_tx_rtp s nb)
      | Call_Rx_Rtcp ck mem n \<Rightarrow> map_option fst (pjmedia_rtcp_rx_rtcp ck s mem n)
      | Call_Build ck \<Rightarrow> map_option fst (pjmedia_rtcp_build_rtcp ck s)) }"

lemma sdes_ok_build:
  assumes "sdes_ok s" "pjmedia_rtcp_build_rtcp ck s = Some (s', b)"
  shows "sdes_ok s'"
proof -
  obtain hi lo lsr dlsr where "pjmedia_rtcp_get_ntp_time s (ck_ntp_ts ck) = Some (hi, lo)" "lsr_fields ck s = Some (lsr, dlsr)"
    using assms(2) unfolding pjmedia_rtcp_build_rtcp_def Let_def
    by (cases "pjmedia_rtcp_get_ntp_time s (ck_ntp_ts ck)"; cases "lsr_fields ck s") auto
  then have "rs_stat s' = rs_stat (upd_rx (\<lambda>r. r\<lparr>ss_update := ck_tod ck, ss_update_cnt := ss_update_cnt r + 1\<rparr>) s)"
    using assms(2) unfolding pjmedia_rtcp_build_rtcp_def Let_def
    by (auto simp: upd_rx_def upd_stat_def split: if_splits)
  then have "sdes_ok s' = sdes_ok (upd_rx (\<lambda>r. r\<lparr>ss_update := ck_tod ck, ss_update_cnt := ss_update_cnt r + 1\<rparr>) s)"
    unfolding sdes_ok_def by (simp only:)
  then show ?thesis using assms(1) by simp
qed

lemma sdes_ok_call:
  assumes "\<forall>s. x = Some s \<longrightarrow> sdes_ok s"
  shows "\<forall>s. rtcp_call_step x c = Some s \<longrightarrow> sdes_ok s"
proof (intro allI impI)
  fix s' assume "rtcp_call_step x c = Some s'"
  then obtain s where s: "x = Some s" and c: "rtcp_call_step (Some s) c = Some s'"
    by (auto simp: rtcp_call_step_def bind_eq_Some_conv)
  have ok: "sdes_ok s" using assms s by simp
  show "sdes_ok s'"
  proof (cases c)
    case (Call_Rx_Rtp ck seq ts nb)
    then show ?thesis using sdes_ok_rx_rtp [OF ok] c by (simp add: rtcp_call_step_def)
  next
    case (Call_Tx_Rtp nb)
    then show ?thesis using ok c by (auto simp: rtcp_call_step_def pjmedia_rtcp_tx_rtp_def)
  next
    case (Call_Rx_Rtcp ck mem n)
    then show ?thesis using sdes_ok_rx_loop [OF ok] c
      by (auto simp: rtcp_call_step_def pjmedia_rtcp_rx_rtcp_def)
  next
    case (Call_Build ck)
    then show ?thesis using sdes_ok_build [OF ok] c by (auto simp: rtcp_call_step_def)
  qed
qed

interpretation rtcp_machine: event_machine rtcp_call_step "\<lambda>x. \<forall>s. x = Some s \<longrightarrow> sdes_ok s" "\<lambda>_. True"
  by unfold_locales (rule sdes_ok_call)

text \<open>
  C35. Whatever is sent to a session, well-formed or not, and whatever else is called on it: as long as no
  read has left the received data, the buffer of the peer's strings has its size, so nothing was written past its end,
  and every string lies inside it.
\<close>

theorem rtcp_sdes_in_buffer:
  assumes "foldl rtcp_call_step (Some (pjmedia_rtcp_init2 ck freq cfg)) calls = Some s"
  shows "length (rt_sdes_buf (rs_stat s)) = SDES_BUF_LEN \<and>
    (\<forall>b n. Some (b, n) \<in> set (sdes_refs (rt_peer_sdes (rs_stat s))) \<longrightarrow> b + n \<le> SDES_BUF_LEN)"
proof -
  have "sdes_ok (pjmedia_rtcp_init2 ck freq cfg)"
    by (simp add: sdes_ok_def pjmedia_rtcp_init2_def pjmedia_rtcp_init_stat_def sdes_refs_def zero_sdes_def
        ref_ok_def Let_def)
  then have "\<forall>s. foldl rtcp_call_step (Some (pjmedia_rtcp_init2 ck freq cfg)) calls = Some s \<longrightarrow> sdes_ok s"
    by (intro rtcp_machine.mrun_inv) simp_all
  then have "sdes_ok s" using assms by blast
  then show ?thesis by (auto simp: sdes_ok_def list_all_iff ref_ok_def)
qed

lemma bye_packet:
  fixes reason :: "u8 list"
  assumes "length reason < 64" "mem = rtcp_common_bytes h @ of_nat (length reason) # reason @ post" "8 < n"
  shows "parse_rtcp_bye s mem 0 n =
    Some (upd_stat (\<lambda>t. t\<lparr>rt_sdes_buf := write_at (rt_sdes_buf t) 0 reason\<rparr>) s)"
proof -
  have "unat (of_nat (length reason) :: u8) = length reason" using assms(1) by (simp add: unat_of_nat)
  then show ?thesis using assms
    by (simp add: parse_rtcp_bye_def rd8_def rd_bytes_def nth_append)
qed

text \<open>
  The reason of a goodbye is copied to the start of the buffer of the peer's strings, which still points there: the strings
  change.
\<close>

lemma rtcp_bye_overwrites_sdes:
  assumes "length reason < 64" "mem = rtcp_common_bytes h @ of_nat (length reason) # reason @ post" "8 < n"
    and "sd_cname (rt_peer_sdes (rs_stat s)) = Some (0, k)" "k \<le> length reason"
  shows "\<exists>s'. parse_rtcp_bye s mem 0 n = Some s' \<and> sd_cname (stored_sdes (rs_stat s')) = take k reason"
  using assms(4,5) bye_packet [OF assms(1-3)]
  by (simp add: upd_stat_def stored_sdes_def Let_def sdes_text_def write_at_def)

theorem rtcp_sdes_in_buffer_witness:
  "\<exists>s :: rtcp_session. length (rt_sdes_buf (rs_stat s)) = SDES_BUF_LEN \<and>
    (\<forall>b n. Some (b, n) \<in> set (sdes_refs (rt_peer_sdes (rs_stat s))) \<longrightarrow> b + n \<le> SDES_BUF_LEN) \<and>
    take 2 (rt_sdes_buf (rs_stat s)) = [98, 121]"
proof -
  let ?ck = "\<lparr>ck_ts = 9, ck_ntp_ts = 9, ck_tod = Time_Val 1 0, ck_rtt_mean = 0\<rparr>"
  let ?s0 = "pjmedia_rtcp_init2 ?ck 1000 pjmedia_rtcp_session_setting_default"
  define h :: rtcp_common where "h = \<lparr>rc_count = 1, rc_p = 0, rc_version = 2, rc_pt = 203, rc_length = htons 2, rc_ssrc = 0\<rparr>"
  define mem :: "u8 list" where "mem = rtcp_common_bytes h @ of_nat (length [98, 121 :: u8]) # [98, 121] @ [0]"
  have hd: "rd_length mem 0 = Some 2" "rd_pt mem 0 = Some 203"
    using rd_common [of "[]" 0 h "of_nat (length [98, 121 :: u8]) # [98, 121] @ [0]"] by (simp_all add: mem_def h_def)
  let ?s1 = "upd_stat (\<lambda>t. t\<lparr>rt_sdes_buf := write_at (rt_sdes_buf t) 0 [98, 121]\<rparr>) ?s0"
  have "rx_one ?ck ?s0 mem 0 12 203 = Some (?s1, [])"
    using bye_packet [of "[98, 121]" mem h "[0]" 12 ?s0] by (simp add: rx_one_def mem_def)
  then have "rx_rtcp_loop (\<lambda>_. ?ck) 0 ?s0 mem 0 (0 + 12) = Some (?s1, [])"
    using hd by (intro rx_rtcp_single [where words = 2 and pt = 203]) simp_all
  then have r: "foldl rtcp_call_step (Some ?s0) [Call_Rx_Rtcp (\<lambda>_. ?ck) mem 12] = Some ?s1"
    by (simp add: rtcp_call_step_def pjmedia_rtcp_rx_rtcp_def)
  have "take 2 (rt_sdes_buf (rs_stat ?s1)) = [98, 121]" by (simp add: upd_stat_def write_at_def)
  then show ?thesis using rtcp_sdes_in_buffer [OF r]
    by (intro exI [of _ ?s1]) (elim conjE, intro conjI, assumption+)
qed

section \<open>Complete packets\<close>

text \<open>
  What the parsers rely on without checking it: that a packet is inside the data and has the fields its type
  and count announce.
\<close>

definition complete :: "u8 list \<Rightarrow> nat \<Rightarrow> nat \<Rightarrow> u8 \<Rightarrow> bool" where
  "complete mem p n pt \<longleftrightarrow> p + n \<le> length mem \<and>
     (pt = 200 \<longrightarrow> 16 \<le> n) \<and>
     (pt = 201 \<longrightarrow> mem ! p AND 31 > 0 \<longrightarrow> 32 \<le> n) \<and>
     (pt = 203 \<longrightarrow> 8 < n \<longrightarrow> 9 + unat (mem ! (p + 8)) \<le> n) \<and>
     (pt = 205 \<longrightarrow> n \<noteq> 8)"

inductive compound :: "u8 list \<Rightarrow> nat \<Rightarrow> nat \<Rightarrow> bool" for mem where
  Compound_End: "compound mem p p"
| Compound_Packet: "rd_length mem p = Some words \<Longrightarrow> rd_pt mem p = Some pt \<Longrightarrow> n = (unat words + 1) * 4 \<Longrightarrow>
    complete mem p n pt \<Longrightarrow> compound mem (p + n) p_end \<Longrightarrow> compound mem p p_end"

definition clocks_ok :: "rtcp_session \<Rightarrow> bool" where
  "clocks_ok s \<longleftrightarrow> rs_clock_rate s \<noteq> 0 \<and> rs_ts_freq s \<noteq> 0"

lemma clocks_ok_upd [simp]:
  "clocks_ok (upd_rx f s) = clocks_ok s" "clocks_ok (upd_tx f s) = clocks_ok s" "clocks_ok (upd_stat g s) = clocks_ok s"
  "clocks_ok (s\<lparr>rs_rx_lsr := w, rs_rx_lsr_time := v\<rparr>) = clocks_ok s"
  by (simp_all add: clocks_ok_def upd_rx_def upd_tx_def upd_stat_def)

lemma parse_rr_total:
  assumes s: "clocks_ok s" and m: "r + 24 \<le> length mem"
  shows "\<exists>s'. parse_rr ck s mem r = Some s' \<and> clocks_ok s'"
proof -
  have l: "\<exists>s'. rr_loss s w = Some s' \<and> clocks_ok s'" if "clocks_ok s" for s w
    using that by (auto simp: rr_loss_def Let_def) (simp add: clocks_ok_def)
  have j: "\<exists>s'. rr_jitter_stat s w = Some s' \<and> clocks_ok s'" if "clocks_ok s" for s w
    using that by (auto simp: rr_jitter_stat_def) (simp add: clocks_ok_def)
  have t: "\<exists>s'. rr_rtt ck s v w = Some s' \<and> clocks_ok s'" if C: "clocks_ok s" for s v w
  proof -
    obtain hi lo where "pjmedia_rtcp_get_ntp_time s (ck_ntp_ts ck) = Some (hi, lo)"
      using C by (auto simp: pjmedia_rtcp_get_ntp_time_def clocks_ok_def Let_def)
    then show ?thesis using C by (auto simp: rr_rtt_def Let_def)
  qed
  have b: "rd8 mem (r + k) = Some (mem ! (r + k))" if "k < 24" for k using m that by (simp add: rd8_def)
  have w: "\<exists>v. ld32 mem (r + k) = Some v" if "k \<le> 20" for k using m that by (simp add: ld32_def)
  obtain jit lsr dlsr where v: "ld32 mem (r + 12) = Some jit" "ld32 mem (r + 16) = Some lsr" "ld32 mem (r + 20) = Some dlsr"
    using w [of 12] w [of 16] w [of 20] by auto
  define w24 :: u32 where "w24 = push_bit 16 (ucast (mem ! (r + 5))) + push_bit 8 (ucast (mem ! (r + 6))) + ucast (mem ! (r + 7))"
  obtain s1 where s1: "rr_loss s w24 = Some s1" "clocks_ok s1" using l [OF s] by blast
  obtain s2 where s2: "rr_jitter_stat s1 (ntohl jit) = Some s2" "clocks_ok s2" using j [OF s1(2)] by blast
  obtain s3 where s3: "rr_rtt ck s2 lsr dlsr = Some s3" "clocks_ok s3" using t [OF s2(2)] by blast
  show ?thesis using b [of 5] b [of 6] b [of 7] v s1 s2 s3 by (simp add: parse_rr_def w24_def)
qed

lemma sdes_loop_total: "p_end \<le> length mem \<Longrightarrow> \<exists>res. sdes_loop mem p p_end b sbuf d = Some res"
proof (induction mem p p_end b sbuf d rule: sdes_loop.induct)
  case (1 mem p p_end b sbuf d)
  show ?case
  proof (cases "p < p_end \<and> \<not> (mem ! p = 0 \<or> p + 1 = p_end)")
    case False
    then show ?thesis using "1.prems" by (subst sdes_loop.simps) (auto simp: rd8_def)
  next
    case True
    then have rd: "rd8 mem p = Some (mem ! p)" "rd8 mem (p + 1) = Some (mem ! (p + 1))"
      using "1.prems" by (auto simp: rd8_def)
    let ?n = "unat (mem ! (p + 1))"
    consider "p + 2 + ?n > p_end" | "p + 2 + ?n \<le> p_end" "b + ?n < SDES_BUF_LEN" | "p + 2 + ?n \<le> p_end" "\<not> b + ?n < SDES_BUF_LEN"
      by linarith
    then show ?thesis
    proof cases
      case 1
      then show ?thesis using rd True by (subst sdes_loop.simps) simp
    next
      case 2
      then have v: "rd_bytes mem (p + 2) ?n = Some (take ?n (drop (p + 2) mem))" using "1.prems" by (simp add: rd_bytes_def)
      have "\<not> p + 2 + ?n > p_end" using 2 by simp
      from "1.IH"(1) [OF _ rd(1) _ rd(2) this 2(2) v "1.prems"] True rd v 2 show ?thesis
        by (subst sdes_loop.simps) auto
    next
      case 3
      have "\<not> p + 2 + ?n > p_end" using 3 by simp
      from "1.IH"(2) [OF _ rd(1) _ rd(2) this 3(2) "1.prems"] True rd 3 show ?thesis
        by (subst sdes_loop.simps) auto
    qed
  qed
qed

lemma report_total:
  assumes s: "clocks_ok s" and k: "complete mem p n pt" and pt: "rd_pt mem p = Some pt" and c: "rd_count mem p = Some (mem ! p AND 31)"
  shows "\<exists>s'. parse_rtcp_report ck s mem p n = Some s' \<and> clocks_ok s'"
proof -
  have m: "p + n \<le> length mem" using k by (simp add: complete_def)
  have "\<exists>s1. (if pt = 200 then save_lsr ck s mem (p + 8) else Some s) = Some s1 \<and> clocks_ok s1"
  proof (cases "pt = 200")
    case True
    then have "p + 16 \<le> length mem" using k m by (simp add: complete_def)
    then have "ld32 mem (p + 8) \<noteq> None" "ld32 mem (p + 8 + 4) \<noteq> None" by (simp_all add: ld32_def)
    then obtain v w where "ld32 mem (p + 8) = Some v" "ld32 mem (p + 8 + 4) = Some w" by blast
    then show ?thesis unfolding save_lsr_def using True s by (simp del: add_numeral_left)
  qed (simp add: s)
  then obtain s1 where s1: "(if pt = 200 then save_lsr ck s mem (p + 8) else Some s) = Some s1" "clocks_ok s1" by blast
  have rr: "\<exists>s2. parse_rr ck s1 mem q = Some s2 \<and> clocks_ok s2" if "q + 24 \<le> length mem" for q
    using parse_rr_total [OF s1(2) that] .
  have rb: "pt = 201 \<and> mem ! p AND 31 > 0 \<longrightarrow> p + 8 + 24 \<le> length mem" using k m by (auto simp: complete_def)
  have "\<exists>s2. (if pt = 200 \<and> mem ! p AND 31 > 0 \<and> n \<ge> 52 then parse_rr ck s1 mem (p + 28)
      else if pt = 201 \<and> mem ! p AND 31 > 0 then parse_rr ck s1 mem (p + 8) else Some s1) = Some s2 \<and> clocks_ok s2"
    using rr [of "p + 28"] rr [of "p + 8"] rb m s1(2) by simp
  then show ?thesis using s1(1) pt c by (auto simp: parse_rtcp_report_def)
qed

lemma rx_one_total:
  assumes s: "clocks_ok s" and k: "complete mem p n pt" and pt: "rd_pt mem p = Some pt"
    and w: "rd_length mem p = Some words" "n = (unat words + 1) * 4"
  shows "\<exists>s' ev. rx_one ck s mem p n pt = Some (s', ev) \<and> clocks_ok s'"
proof -
  have m: "p + n \<le> length mem" using k by (simp add: complete_def)
  have "4 \<le> n" using w(2) by simp
  then have "p < length mem" using m by linarith
  then have c: "rd_count mem p = Some (mem ! p AND 31)" by (simp add: rd_count_def rd8_def)
  obtain sbuf d where "sdes_loop mem (p + 8) (p + n) 0 (rt_sdes_buf (rs_stat s)) zero_sdes = Some (sbuf, d)"
    using sdes_loop_total [OF m, of "p + 8" 0 "rt_sdes_buf (rs_stat s)" zero_sdes] by auto
  then have "\<exists>s'. parse_rtcp_sdes s mem p n = Some s' \<and> clocks_ok s'"
    using s by (simp add: parse_rtcp_sdes_def)
  moreover have "\<exists>s'. parse_rtcp_bye s mem p n = Some s' \<and> clocks_ok s'" if "pt = 203"
    using k m s that by (auto simp: parse_rtcp_bye_def complete_def rd8_def rd_bytes_def min_def)
  moreover have "\<exists>ev. parse_rtcp_fb mem p n = Some ev" if "pt = 205 \<or> pt = 206"
  proof -
    have "\<exists>r. pjmedia_rtcp_fb_parse_nack mem p n 1 = Some r"
    proof (cases "n < 8 \<or> pt \<noteq> 205 \<or> mem ! p AND 31 \<noteq> 1")
      case True
      then show ?thesis using pt c w(1) by (auto simp: pjmedia_rtcp_fb_parse_nack_def)
    next
      case False
      then have "12 \<le> n" using k w(2) by (auto simp: complete_def)
      then have "\<exists>r. rd_nacks mem (p + 8) (min 1 j) = Some r" for j
        using m by (cases j) (simp_all add: ld16_def)
      then show ?thesis using False pt c w(1) by (auto simp: pjmedia_rtcp_fb_parse_nack_def Let_def)
    qed
    then show ?thesis by (auto simp: parse_rtcp_fb_def split: sum.splits)
  qed
  ultimately show ?thesis using report_total [OF s k pt c, of ck] s by (auto simp: rx_one_def)
qed

text \<open>
  C34. A compound of complete packets is processed to its end without a read outside the data: the loop
  always ends, and the only packets that read outside are those that are cut short or announce more than they
  hold.
\<close>

theorem rtcp_rx_returns:
  assumes "compound mem 0 n" "rs_clock_rate s \<noteq> 0" "rs_ts_freq s \<noteq> 0"
  shows "\<exists>s' ev. pjmedia_rtcp_rx_rtcp ck s mem n = Some (s', ev)"
proof -
  have "\<exists>s' ev. rx_rtcp_loop ck i s mem p q = Some (s', ev)" if "compound mem p q" "clocks_ok s" for i s p q
    using that
  proof (induction arbitrary: i s rule: compound.induct)
    case (Compound_End p)
    then show ?case by (subst rx_rtcp_loop.simps) simp
  next
    case (Compound_Packet p words pt n q)
    obtain s1 ev1 where s1: "rx_one (ck i) s mem p n pt = Some (s1, ev1)" "clocks_ok s1"
      using rx_one_total [OF Compound_Packet.prems Compound_Packet.hyps(4,2,1,3)] by blast
    obtain s2 ev2 where "rx_rtcp_loop ck (i + 1) s1 mem (p + n) q = Some (s2, ev2)"
      using Compound_Packet.IH [OF s1(2)] by blast
    then show ?case using Compound_Packet.hyps(1-3) s1(1)
      by (subst rx_rtcp_loop.simps) (auto simp: Let_def)
  qed
  then show ?thesis using assms by (auto simp: pjmedia_rtcp_rx_rtcp_def clocks_ok_def)
qed

theorem rtcp_rx_returns_witness:
  "\<exists>s' ev. pjmedia_rtcp_rx_rtcp (\<lambda>_. \<lparr>ck_ts = 9, ck_ntp_ts = 9, ck_tod = Time_Val 1 0, ck_rtt_mean = 0\<rparr>)
     (pjmedia_rtcp_init \<lparr>ck_ts = 9, ck_ntp_ts = 9, ck_tod = Time_Val 1 0, ck_rtt_mean = 0\<rparr> 1000 8000 160 7)
     (rtcp_common_bytes \<lparr>rc_count = 0, rc_p = 0, rc_version = 2, rc_pt = 201, rc_length = htons 1, rc_ssrc = 0\<rparr>
      @ rtcp_common_bytes \<lparr>rc_count = 1, rc_p = 0, rc_version = 2, rc_pt = 203, rc_length = htons 1, rc_ssrc = 0\<rparr>) 16
   = Some (s', ev)"
proof -
  let ?a = "\<lparr>rc_count = 0, rc_p = 0, rc_version = 2, rc_pt = 201, rc_length = htons 1, rc_ssrc = 0\<rparr> :: rtcp_common"
  let ?b = "\<lparr>rc_count = 1, rc_p = 0, rc_version = 2, rc_pt = 203, rc_length = htons 1, rc_ssrc = 0\<rparr> :: rtcp_common"
  define mem where "mem = rtcp_common_bytes ?a @ rtcp_common_bytes ?b"
  have a: "rd_length mem 0 = Some 1" "rd_pt mem 0 = Some 201" "rd_count mem 0 = Some 0"
    using rd_common [of "[]" 0 ?a "rtcp_common_bytes ?b"] by (simp_all add: mem_def)
  have b: "rd_length mem 8 = Some 1" "rd_pt mem 8 = Some 203"
    using rd_common [of "rtcp_common_bytes ?a" 8 ?b "[]"] by (simp_all add: mem_def)
  have l: "length mem = 16" by (simp add: mem_def)
  have "mem ! 0 AND 31 = 0" using a(3) l by (simp add: rd_count_def rd8_def)
  then have c: "complete mem 0 8 201" "complete mem 8 8 203" using l by (simp_all add: complete_def)
  have "compound mem 8 16"
    by (rule Compound_Packet [OF b _ c(2)]) (simp_all add: Compound_End)
  then have "compound mem 0 16"
    by (intro Compound_Packet [OF a(1,2) _ c(1)]) simp_all
  then show ?thesis
    using rtcp_rx_returns [of mem 16 "pjmedia_rtcp_init \<lparr>ck_ts = 9, ck_ntp_ts = 9, ck_tod = Time_Val 1 0, ck_rtt_mean = 0\<rparr> 1000 8000 160 7"
        "\<lambda>_. \<lparr>ck_ts = 9, ck_ntp_ts = 9, ck_tod = Time_Val 1 0, ck_rtt_mean = 0\<rparr>"]
    by (simp add: mem_def pjmedia_rtcp_init_def pjmedia_rtcp_init2_def pjmedia_rtcp_session_setting_default_def Let_def)
qed

text \<open>A receiver report that announces a block it does not hold is read past its end.\<close>

lemma rtcp_rr_overrun:
  assumes "rc_pt h = 201" "rc_count h = 1"
  shows "parse_rtcp_report ck s (rtcp_common_bytes h) 0 8 = None"
  using rd_common [of "[]" 0 h "[]"] assms by (simp add: parse_rtcp_report_def parse_rr_def rd8_def)

end
