(* ===== verification/Rtcp_Exchange.thy ===== *)
theory Rtcp_Exchange
  imports Rtcp_Packets
begin

text \<open>
  An exchange of reports between two sessions: what one writes is what the other reads, and the round trip
  time the first computes is the time that passed at its end less the time the other held the
  report.
\<close>

section \<open>Reading what was written\<close>

definition rr_apply :: "rtcp_clock \<Rightarrow> rtcp_session \<Rightarrow> rtcp_rr \<Rightarrow> rtcp_session option" where
  "rr_apply ck s r =
    do { s1 \<leftarrow> rr_loss s (push_bit 16 (ucast (rr_total_lost_2 r)) + push_bit 8 (ucast (rr_total_lost_1 r)) + ucast (rr_total_lost_0 r));
         s2 \<leftarrow> rr_jitter_stat s1 (ntohl (rr_jitter r));
         s3 \<leftarrow> rr_rtt ck s2 (rr_lsr r) (rr_dlsr r);
         Some (upd_tx (\<lambda>t. t\<lparr>ss_update := ck_tod ck, ss_update_cnt := ss_update_cnt t + 1\<rparr>) s3) }"

lemma ld32_Cons [simp]: "0 < p \<Longrightarrow> ld32 (b # m) p = ld32 m (p - 1)"
  using ld_shift(2) [of "[b]" p m] by simp

lemma parse_rr_bytes:
  assumes "length xs = p"
  shows "parse_rr ck s (xs @ rtcp_rr_bytes r @ ys) p = rr_apply ck s r"
proof -
  let ?m = "xs @ rtcp_rr_bytes r @ ys"
  have "rd8 ?m (p + 5) = Some (rr_total_lost_2 r)" "rd8 ?m (p + 6) = Some (rr_total_lost_1 r)"
    "rd8 ?m (p + 7) = Some (rr_total_lost_0 r)"
    using assms by (simp_all add: rd8_def rtcp_rr_bytes_def nth_append le32_bytes)
  moreover have "ld32 ?m (p + 12) = Some (rr_jitter r)" "ld32 ?m (p + 16) = Some (rr_lsr r)" "ld32 ?m (p + 20) = Some (rr_dlsr r)"
    using assms by (simp_all add: ld_shift rtcp_rr_bytes_def ld_here(2) [where xs = "[]", simplified])
  ultimately show ?thesis by (simp add: parse_rr_def rr_apply_def)
qed

text \<open>The headers of the cached packets, as they are initialised.\<close>

definition report_headers :: "rtcp_session \<Rightarrow> bool" where
  "report_headers s \<longleftrightarrow> rc_pt (srp_common (rs_sr_pkt s)) = 200 \<and> rc_count (srp_common (rs_sr_pkt s)) = 1 \<and>
     rc_length (srp_common (rs_sr_pkt s)) = htons 12 \<and>
     rc_pt (rrp_common (rs_rr_pkt s)) = 201 \<and> rc_count (rrp_common (rs_rr_pkt s)) = 1 \<and>
     rc_length (rrp_common (rs_rr_pkt s)) = htons 7"

lemma init_report_headers: "report_headers (pjmedia_rtcp_init2 ck freq cfg)"
  by (simp add: report_headers_def pjmedia_rtcp_init2_def Let_def)

definition lsr_of :: "rtcp_sr \<Rightarrow> u32" where
  "lsr_of r = push_bit 16 (ntohl (sr_ntp_sec r) AND 0xFFFF) OR (drop_bit 16 (ntohl (sr_ntp_frac r)) AND 0xFFFF)"

lemma rx_rtcp_one:
  assumes "rd_length mem 0 = Some words" "rd_pt mem 0 = Some pt" "(unat words + 1) * 4 = n"
  shows "pjmedia_rtcp_rx_rtcp ck s mem n = rx_one (ck 0) s mem 0 n pt"
proof -
  have "rx_rtcp_loop ck (Suc 0) s' mem n n = Some (s', [])" for s' by (subst rx_rtcp_loop.simps) simp
  moreover have "0 < n" using assms(3) by auto
  ultimately show ?thesis unfolding pjmedia_rtcp_rx_rtcp_def using assms
    by (subst rx_rtcp_loop.simps) (simp add: Let_def split: option.splits)
qed

lemma rx_sr_packet:
  assumes "rc_pt (srp_common k) = 200" "rc_count (srp_common k) = 1" "rc_length (srp_common k) = htons 12"
  shows "pjmedia_rtcp_rx_rtcp ck s (rtcp_sr_pkt_bytes k) 52 =
    map_option (\<lambda>s. (s, [])) (rr_apply (ck 0) (s\<lparr>rs_rx_lsr := lsr_of (srp_sr k), rs_rx_lsr_time := ck_ts (ck 0)\<rparr>) (srp_rr k))"
proof -
  let ?m = "rtcp_sr_pkt_bytes k"
  let ?h = "srp_common k"
  have m: "?m = rtcp_common_bytes ?h @ rtcp_sr_bytes (srp_sr k) @ rtcp_rr_bytes (srp_rr k)" by (simp add: rtcp_sr_pkt_bytes_def)
  have h: "rd_length ?m 0 = Some 12" "rd_pt ?m 0 = Some 200" "rd_count ?m 0 = Some 1"
    using rd_common [of "[]" 0 ?h "rtcp_sr_bytes (srp_sr k) @ rtcp_rr_bytes (srp_rr k)"] assms by (simp_all add: m)
  have sr: "ld32 ?m 8 = Some (sr_ntp_sec (srp_sr k))" "ld32 ?m (8 + 4) = Some (sr_ntp_frac (srp_sr k))"
    by (simp_all add: m ld_shift rtcp_sr_bytes_def ld_here(2) [where xs = "[]", simplified])
  have "parse_rr c t ?m 28 = rr_apply c t (srp_rr k)" for c t
    using parse_rr_bytes [of "rtcp_common_bytes ?h @ rtcp_sr_bytes (srp_sr k)" 28 c t "srp_rr k" "[]"] by (simp add: m)
  then have "parse_rtcp_report (ck 0) s ?m 0 52 =
      rr_apply (ck 0) (s\<lparr>rs_rx_lsr := lsr_of (srp_sr k), rs_rx_lsr_time := ck_ts (ck 0)\<rparr>) (srp_rr k)"
    using h(2,3) sr by (simp add: parse_rtcp_report_def save_lsr_def lsr_of_def del: ld32_Cons)
  moreover have "(unat (12 :: u16) + 1) * 4 = 52" by simp
  ultimately show ?thesis using rx_rtcp_one [OF h(1,2), of 52 ck s] by (simp add: rx_one_def)
qed

lemma rx_rr_packet:
  assumes "rc_pt (rrp_common k) = 201" "rc_count (rrp_common k) = 1" "rc_length (rrp_common k) = htons 7"
  shows "pjmedia_rtcp_rx_rtcp ck s (rtcp_rr_pkt_bytes k) 32 = map_option (\<lambda>s. (s, [])) (rr_apply (ck 0) s (rrp_rr k))"
proof -
  let ?m = "rtcp_rr_pkt_bytes k"
  let ?h = "rrp_common k"
  have m: "?m = rtcp_common_bytes ?h @ rtcp_rr_bytes (rrp_rr k)" by (simp add: rtcp_rr_pkt_bytes_def)
  have h: "rd_length ?m 0 = Some 7" "rd_pt ?m 0 = Some 201" "rd_count ?m 0 = Some 1"
    using rd_common [of "[]" 0 ?h "rtcp_rr_bytes (rrp_rr k)"] assms by (simp_all add: m)
  have "parse_rr c t ?m 8 = rr_apply c t (rrp_rr k)" for c t
    using parse_rr_bytes [of "rtcp_common_bytes ?h" 8 c t "rrp_rr k" "[]"] by (simp add: m)
  then have "parse_rtcp_report (ck 0) s ?m 0 32 = rr_apply (ck 0) s (rrp_rr k)"
    using h(2,3) by (simp add: parse_rtcp_report_def)
  moreover have "(unat (7 :: u16) + 1) * 4 = 32" by simp
  ultimately show ?thesis using rx_rtcp_one [OF h(1,2), of 32 ck s] by (simp add: rx_one_def)
qed

section \<open>NTP time in units of 1/65536 second\<close>

definition units :: "nat \<Rightarrow> nat \<Rightarrow> nat" where "units t f = t * 65536 div f"

lemma units_split:
  assumes "0 < f"
  shows "65536 * (t div f) + (t mod f) * 2 ^ 32 div f div 65536 = units t f"
proof -
  have "t * 65536 = (t div f) * f * 65536 + (t mod f) * 65536"
    by (metis div_mult_mod_eq distrib_right)
  then have "units t f = (65536 * (t div f) * f + (t mod f) * 65536) div f"
    by (simp add: units_def mult_ac)
  also have "\<dots> = 65536 * (t div f) + (t mod f) * 65536 div f" using assms by simp
  also have "(t mod f) * 65536 div f = (t mod f) * 2 ^ 32 div f div 65536"
  proof -
    have "(t mod f) * 2 ^ 32 div f div 65536 = (t mod f) * 65536 * 65536 div (65536 * f)"
      by (simp add: div_mult2_eq [symmetric] mult_ac)
    also have "\<dots> = (t mod f) * 65536 div f" by (simp add: mult.commute [of _ 65536])
    finally show ?thesis by simp
  qed
  finally show ?thesis by simp
qed

text \<open>The middle of the NTP time at a session's clock reading.\<close>

definition ntp_mid :: "u32 \<times> u32 \<Rightarrow> u32" where
  "ntp_mid = (\<lambda>(hi, lo). push_bit 16 (hi AND 0xFFFF) + drop_bit 16 lo)"

lemma push16_low: "push_bit 16 ((w :: u32) AND 0xFFFF) = push_bit 16 w"
proof -
  have m: "(0xFFFF :: u32) = mask 16" by (simp add: mask_eq_decr_exp)
  show ?thesis unfolding m take_bit_eq_mask [symmetric]
    by (rule bit_word_eqI) (auto simp: bit_push_bit_iff bit_take_bit_iff)
qed

lemma ntp_mid_or: "push_bit 16 (hi AND 0xFFFF) OR (drop_bit 16 lo AND 0xFFFF) = ntp_mid (hi, lo :: u32)"
proof -
  have m: "(0xFFFF :: u32) = mask 16" by (simp add: mask_eq_decr_exp)
  have "drop_bit 16 lo AND 0xFFFF = drop_bit 16 lo"
    unfolding m by (rule bit_word_eqI) (auto simp: bit_simps dest: bit_imp_le_length)
  moreover have "push_bit 16 (hi AND 0xFFFF) + drop_bit 16 lo = push_bit 16 (hi AND 0xFFFF) OR drop_bit 16 lo"
    by (rule disjunctive_add_eq_or, rule bit_word_eqI) (auto simp: bit_simps dest: bit_imp_le_length)
  ultimately show ?thesis by (simp add: ntp_mid_def)
qed

lemma ntp_mid_units:
  assumes f: "rs_ts_freq s \<noteq> 0" "unat (rs_ts_freq s) \<le> 2 ^ 32"
  shows "\<exists>hi lo. pjmedia_rtcp_get_ntp_time s ts = Some (hi, lo) \<and>
    ntp_mid (hi, lo) = of_nat (units (unat (ts - rs_ts_base s)) (unat (rs_ts_freq s)))
      + push_bit 16 (word_of_int (tv_sec (rs_tv_base s)) + JAN_1970)"
proof -
  define t F where "t = unat (ts - rs_ts_base s)" and "F = unat (rs_ts_freq s)"
  have F: "0 < F" "F \<le> 2 ^ 32" using f by (simp_all add: F_def unat_gt_0)
  define c where "c = word_of_int (tv_sec (rs_tv_base s)) + JAN_1970"
  have "(ucast ((ts - rs_ts_base s) div rs_ts_freq s) :: u32) = of_nat (t div F)"
    by (metis F_def of_nat_unat t_def unat_div)
  then have hi: "ucast ((ts - rs_ts_base s) div rs_ts_freq s) + word_of_int (tv_sec (rs_tv_base s)) + JAN_1970 =
      of_nat (t div F) + c" by (simp add: c_def)
  have rem: "(t mod F) * 2 ^ 32 < 2 ^ 64"
  proof -
    have "(t mod F) * 2 ^ 32 < F * 2 ^ 32" using F(1) by simp
    also have "\<dots> \<le> 2 ^ 32 * 2 ^ 32" using F(2) by (rule mult_le_mono1)
    finally show ?thesis by simp
  qed
  have "push_bit 32 ((ts - rs_ts_base s) mod rs_ts_freq s) = of_nat ((t mod F) * 2 ^ 32)"
    by (simp add: push_bit_eq_mult t_def F_def unat_mod [symmetric] mult.commute)
  then have "unat (push_bit 32 ((ts - rs_ts_base s) mod rs_ts_freq s)) = (t mod F) * 2 ^ 32"
    using rem by (simp only: unat_of_nat) simp
  then have q: "unat (push_bit 32 ((ts - rs_ts_base s) mod rs_ts_freq s) div rs_ts_freq s) = (t mod F) * 2 ^ 32 div F"
    by (simp add: unat_div F_def)
  define lo :: u32 where "lo = ucast (push_bit 32 ((ts - rs_ts_base s) mod rs_ts_freq s) div rs_ts_freq s)"
  have "(t mod F) * 2 ^ 32 div F < 2 ^ 32" using F(1) by (simp add: div_less_iff_less_mult)
  then have "unat lo = (t mod F) * 2 ^ 32 div F"
    by (simp add: lo_def unsigned_ucast_eq q take_bit_eq_mod)
  then have "unat (drop_bit 16 lo) = (t mod F) * 2 ^ 32 div F div 65536"
    by (simp only: unat_drop_bit_eq) (simp only: drop_bit_eq_div, simp)
  then have dl: "drop_bit 16 lo = of_nat ((t mod F) * 2 ^ 32 div F div 65536)" by (metis of_nat_unat ucast_id)
  have "ntp_mid (of_nat (t div F) + c, lo) = of_nat (65536 * (t div F) + (t mod F) * 2 ^ 32 div F div 65536) + push_bit 16 c"
    unfolding ntp_mid_def case_prod_conv push16_low dl by (simp add: push_bit_eq_mult algebra_simps)
  then have "ntp_mid (of_nat (t div F) + c, lo) = of_nat (units t F) + push_bit 16 c"
    by (simp only: units_split [OF F(1)])
  moreover have "pjmedia_rtcp_get_ntp_time s ts = Some (of_nat (t div F) + c, lo)"
    using f(1) hi by (simp add: pjmedia_rtcp_get_ntp_time_def Let_def lo_def)
  ultimately show ?thesis by (auto simp: t_def F_def c_def)
qed

section \<open>The fields of a report\<close>

definition same_clock :: "rtcp_session \<Rightarrow> rtcp_session \<Rightarrow> bool" where
  "same_clock s s' \<longleftrightarrow> rs_ts_freq s' = rs_ts_freq s \<and> rs_ts_base s' = rs_ts_base s \<and>
    rs_tv_base s' = rs_tv_base s \<and> rs_clock_rate s' = rs_clock_rate s"

lemma same_clock_ntp: "same_clock s s' \<Longrightarrow> pjmedia_rtcp_get_ntp_time s' ts = pjmedia_rtcp_get_ntp_time s ts"
  by (simp add: same_clock_def pjmedia_rtcp_get_ntp_time_def)

lemma build_report_fields:
  assumes "pjmedia_rtcp_build_rtcp ck s = Some (s', k)"
  shows "\<exists>hi lo blk. pjmedia_rtcp_get_ntp_time s (ck_ntp_ts ck) = Some (hi, lo) \<and>
    lsr_fields ck s = Some (rr_lsr blk, rr_dlsr blk) \<and>
    (if k then srp_sr (rs_sr_pkt s') = build_sr s hi lo \<and> srp_rr (rs_sr_pkt s') = blk else rrp_rr (rs_rr_pkt s') = blk) \<and>
    (report_headers s \<longrightarrow> report_headers s') \<and> same_clock s s' \<and> rt_rtt (rs_stat s') = rt_rtt (rs_stat s)"
proof -
  obtain hi lo lsr dlsr where f: "pjmedia_rtcp_get_ntp_time s (ck_ntp_ts ck) = Some (hi, lo)" "lsr_fields ck s = Some (lsr, dlsr)"
    using assms by (cases "lsr_fields ck s") (auto simp: pjmedia_rtcp_build_rtcp_def Let_def split: Option.bind_splits)
  show ?thesis using assms f
    by (cases k) (auto simp: pjmedia_rtcp_build_rtcp_def Let_def upd_rx_def upd_stat_def report_headers_def same_clock_def split: if_splits)
qed

lemma rr_apply_frame:
  assumes "rr_apply ck s r = Some s'"
  shows "rs_rx_lsr s' = rs_rx_lsr s" "rs_rx_lsr_time s' = rs_rx_lsr_time s" "same_clock s s'"
    "rs_sr_pkt s' = rs_sr_pkt s" "rs_rr_pkt s' = rs_rr_pkt s"
    "\<exists>s2 s3. same_clock s s2 \<and> rt_rtt (rs_stat s2) = rt_rtt (rs_stat s) \<and> rr_rtt ck s2 (rr_lsr r) (rr_dlsr r) = Some s3 \<and>
      rt_rtt (rs_stat s') = rt_rtt (rs_stat s3)"
proof -
  obtain loss s1 s2 s3 where s: "rr_loss s loss = Some s1" "rr_jitter_stat s1 (ntohl (rr_jitter r)) = Some s2"
    "rr_rtt ck s2 (rr_lsr r) (rr_dlsr r) = Some s3"
    "s' = upd_tx (\<lambda>t. t\<lparr>ss_update := ck_tod ck, ss_update_cnt := ss_update_cnt t + 1\<rparr>) s3"
    using assms by (auto simp: rr_apply_def split: Option.bind_splits)
  define same where "same = (\<lambda>x y :: rtcp_session. rs_rx_lsr y = rs_rx_lsr x \<and> rs_rx_lsr_time y = rs_rx_lsr_time x \<and> same_clock x y \<and>
    rs_sr_pkt y = rs_sr_pkt x \<and> rs_rr_pkt y = rs_rr_pkt x)"
  have 1: "same s s1 \<and> rt_rtt (rs_stat s1) = rt_rtt (rs_stat s)"
    using s(1) by (auto simp: rr_loss_def Let_def same_def same_clock_def upd_tx_def upd_stat_def split: if_splits)
  have 2: "same s1 s2 \<and> rt_rtt (rs_stat s2) = rt_rtt (rs_stat s1)"
    using s(2) by (auto simp: rr_jitter_stat_def same_def same_clock_def upd_tx_def upd_stat_def split: if_splits)
  have 3: "same s2 s3"
    using s(3) by (auto simp: rr_rtt_def Let_def same_def same_clock_def upd_stat_def split: if_splits Option.bind_splits)
  have 4: "same s3 s' \<and> rt_rtt (rs_stat s') = rt_rtt (rs_stat s3)"
    using s(4) by (simp add: same_def same_clock_def upd_tx_def upd_stat_def)
  show "rs_rx_lsr s' = rs_rx_lsr s" "rs_rx_lsr_time s' = rs_rx_lsr_time s" "same_clock s s'"
    "rs_sr_pkt s' = rs_sr_pkt s" "rs_rr_pkt s' = rs_rr_pkt s"
    using 1 2 3 4 by (simp_all add: same_def same_clock_def)
  have "same_clock s s2" using 1 2 by (simp add: same_def same_clock_def)
  then show "\<exists>s2 s3. same_clock s s2 \<and> rt_rtt (rs_stat s2) = rt_rtt (rs_stat s) \<and> rr_rtt ck s2 (rr_lsr r) (rr_dlsr r) = Some s3 \<and>
      rt_rtt (rs_stat s') = rt_rtt (rs_stat s3)"
    using 1 2 4 s(3) by (intro exI [of _ s2] exI [of _ s3]) simp
qed

section \<open>The round trip time\<close>

text \<open>The middle of the NTP time of a session at a clock reading, in units of 1/65536 second.\<close>

definition ntp_units :: "rtcp_session \<Rightarrow> u64 \<Rightarrow> u32" where
  "ntp_units s ts = of_nat (units (unat (ts - rs_ts_base s)) (unat (rs_ts_freq s)))
     + push_bit 16 (word_of_int (tv_sec (rs_tv_base s)) + JAN_1970)"

text \<open>Units of 1/65536 second as microseconds, by the two formulas of the code.\<close>

definition units_usec :: "nat \<Rightarrow> nat" where
  "units_usec d = (if d < 4294 then d * 1000000 div 65536 else d * 1000 div 65536 * 1000)"

lemma ee_usec_units:
  assumes "d \<le> 30 * 65536"
  shows "unat (ee_usec (of_nat d)) = units_usec d"
proof -
  have u: "unat (of_nat d :: u64) = d" using assms by (simp add: unat_of_nat)
  have m: "unat (of_nat d * 1000000 :: u64) = d * 1000000" "unat (of_nat d * 1000 :: u64) = d * 1000"
    using assms by (simp_all add: unat_word_ariths unat_of_nat)
  have l: "((of_nat d :: u64) < 4294) = (d < 4294)" using u by (simp add: word_less_nat_alt)
  have b: "unat (drop_bit 16 (of_nat d * 1000000 :: u64)) = d * 1000000 div 65536"
    "unat (drop_bit 16 (of_nat d * 1000 :: u64)) = d * 1000 div 65536"
    by (simp_all only: unat_drop_bit_eq m) (simp_all only: drop_bit_eq_div, simp_all)
  have "d * 1000 div 65536 * 1000 < 2 ^ 64" using assms by simp
  then have "unat (drop_bit 16 (of_nat d * 1000 :: u64) * 1000) = d * 1000 div 65536 * 1000"
    using b(2) by (simp add: unat_word_ariths)
  then show ?thesis using l b(1) by (simp add: ee_usec_def units_usec_def)
qed

lemma units_usec_close:
  "units_usec d * 65536 \<le> d * 1000000 \<and> d * 1000000 < (units_usec d + 1000) * 65536"
proof (cases "d < 4294")
  case True
  then show ?thesis using div_mult_mod_eq [of "d * 1000000" 65536] mod_less_divisor [of 65536 "d * 1000000"]
    by (simp add: units_usec_def)
next
  case False
  then show ?thesis using div_mult_mod_eq [of "d * 1000" 65536] mod_less_divisor [of 65536 "d * 1000"]
    by (simp add: units_usec_def)
qed


text \<open>The sample a session keeps: no more than three times the mean after the first.\<close>

definition rtt_sample :: "math_stat \<Rightarrow> int \<Rightarrow> nat \<Rightarrow> int" where
  "rtt_sample st mean us = (if stat_n st \<noteq> 0 then min (int us) (mean * 3) else int us)"

lemma sint_small:
  assumes "uint (w :: u32) < 2 ^ 31"
  shows "sint w = uint w"
proof -
  have "sint w = signed_take_bit 31 (uint w)" by (subst sint_uint) simp
  also have "\<dots> = uint w"
  proof (rule signed_take_bit_int_eq_self)
    show "- (2 ^ 31) \<le> uint w" by (rule order_trans [of _ 0]) simp_all
  qed (rule assms)
  finally show ?thesis .
qed

lemma bswap32_nonzero: "w \<noteq> 0 \<Longrightarrow> bswap32 w \<noteq> 0"
  by (metis bswap32_bswap32 bswap32_def push_bit_of_0 drop_bit_of_0 take_bit_of_0 or.right_neutral)

lemma rr_rtt_sample:
  assumes now: "ntp_units s (ck_ntp_ts ck) = lsr + of_nat D + of_nat d"
    and s: "rs_ts_freq s \<noteq> 0" "unat (rs_ts_freq s) \<le> 2 ^ 32"
    and lsr: "lsr \<noteq> 0" "unat lsr + d < 2 ^ 32" and D: "0 < D" "D < 2 ^ 32" and d30: "d \<le> 30 * 65536"
    and mean: "0 \<le> ck_rtt_mean ck" "ck_rtt_mean ck \<le> 700000000"
  shows "rr_rtt ck s (htonl lsr) (htonl (of_nat D)) =
    Some (upd_stat (\<lambda>t. t\<lparr>rt_rtt := math_stat_update (rt_rtt t) (rtt_sample (rt_rtt (rs_stat s)) (ck_rtt_mean ck) (units_usec d))\<rparr>) s)"
proof -
  have d: "units_usec d \<le> 30000000" "d \<le> 30 * 65536" using units_usec_close [of d] d30 by linarith+
  obtain hi lo where g: "pjmedia_rtcp_get_ntp_time s (ck_ntp_ts ck) = Some (hi, lo)"
    and "ntp_mid (hi, lo) = ntp_units s (ck_ntp_ts ck)"
    using ntp_mid_units [OF s, of "ck_ntp_ts ck"] by (auto simp: ntp_units_def)
  then have mid: "push_bit 16 (hi AND 0xFFFF) + drop_bit 16 lo = lsr + of_nat D + of_nat d"
    using now by (simp add: ntp_mid_def)
  have dl: "(of_nat D :: u32) \<noteq> 0" 
  proof -
    have "unat (of_nat D :: u32) = D" using D(2) by (simp add: unat_of_nat)
    then show ?thesis using D(1) by auto
  qed
  have ud: "unat (of_nat d :: u32) = d" using d(2) by (simp add: unat_of_nat)
  define now :: u32 where "now = lsr + of_nat D + of_nat d"
  have a: "now - lsr - of_nat D = of_nat d" "now - of_nat D = lsr + of_nat d" by (simp_all add: now_def)
  have "unat (lsr + of_nat d) = unat lsr + d" using lsr(2) ud by (simp add: unat_plus_if')
  then have ge: "lsr + of_nat d \<ge> lsr" by (simp add: word_le_nat_alt)
  have uc: "(ucast (of_nat d :: u32) :: u64) = of_nat d" by (metis of_nat_unat ud)
  define ee :: u64 where "ee = ee_usec (of_nat d)"
  have us: "unat ee = units_usec d" using ee_usec_units [OF d(2)] by (simp add: ee_def)
  then have le: "\<not> ee > 30000000" using d(1) by (simp add: word_less_nat_alt)
  define rtt :: u32 where "rtt = ucast ee"
  have r: "unat rtt = units_usec d" unfolding rtt_def using us d(1) by (simp add: unsigned_ucast_eq take_bit_eq_mod)
  then have ur: "uint rtt = int (units_usec d)" by (metis uint_nat)
  then have sr: "sint rtt = int (units_usec d)" using d(1) by (simp add: sint_small)
  define cap :: u32 where "cap = word_of_int (ck_rtt_mean ck) * 3"
  have "cap = word_of_int (ck_rtt_mean ck * 3)" by (simp add: cap_def)
  then have "uint cap = ck_rtt_mean ck * 3 mod 2 ^ 32" by (simp only: uint_word_of_int) simp
  moreover have "ck_rtt_mean ck * 3 mod 2 ^ 32 = ck_rtt_mean ck * 3" using mean by (intro mod_pos_pos_trivial) simp_all
  ultimately have "uint cap = ck_rtt_mean ck * 3" by simp
  then have c: "uint cap = ck_rtt_mean ck * 3" by simp
  then have sc: "sint cap = ck_rtt_mean ck * 3" using mean by (simp add: sint_small)
  have "(rtt > cap) = (int (units_usec d) > ck_rtt_mean ck * 3)" using ur c by (simp add: word_less_def)
  then have "sint (if rtt > cap \<and> stat_n (rt_rtt (rs_stat s)) \<noteq> 0 then cap else rtt) =
      rtt_sample (rt_rtt (rs_stat s)) (ck_rtt_mean ck) (units_usec d)"
    using sr sc by (auto simp: rtt_sample_def)
  moreover have nz: "bswap32 lsr \<noteq> 0" "bswap32 (of_nat D) \<noteq> 0" using lsr(1) dl by (simp_all add: bswap32_nonzero)
  have "rr_rtt ck s (htonl lsr) (htonl (of_nat D)) =
    Some (upd_stat (\<lambda>t. t\<lparr>rt_rtt := math_stat_update (rt_rtt t)
      (sint (if rtt > cap \<and> stat_n (rt_rtt (rs_stat s)) \<noteq> 0 then cap else rtt))\<rparr>) s)"
    unfolding rr_rtt_def bswap32_bswap32 g Let_def
    using nz ge le by (simp only: mid [folded now_def] a uc ee_def [symmetric] rtt_def [symmetric] cap_def [symmetric]
        bind.bind_lunit case_prod_conv simp_thms if_True if_False)
  ultimately show ?thesis by simp
qed


text \<open>The delay a session reports since the report it received.\<close>

lemma lsr_fields_units:
  assumes "rs_rx_lsr_time s \<noteq> 0" "rs_rx_lsr s \<noteq> 0" "rs_ts_freq s \<noteq> 0"
    and t: "unat (rs_rx_lsr_time s) < 2 ^ 48" "unat (ck_ts ck) < 2 ^ 48"
    and D: "units (unat (ck_ts ck)) (unat (rs_ts_freq s)) = units (unat (rs_rx_lsr_time s)) (unat (rs_ts_freq s)) + D" and D32: "D < 2 ^ 32"
  shows "lsr_fields ck s = Some (htonl (rs_rx_lsr s), htonl (of_nat D))"
proof -
  have u: "push_bit 16 w div rs_ts_freq s = of_nat (units (unat w) (unat (rs_ts_freq s)))" if "unat w < 2 ^ 48" for w
  proof -
    have "push_bit 16 w = of_nat (unat w * 65536)" by (simp add: push_bit_eq_mult)
    moreover have "unat w * 65536 < 2 ^ 64" using that by simp
    ultimately have "unat (push_bit 16 w) = unat w * 65536" by (simp only: unat_of_nat) simp
    then have "unat (push_bit 16 w div rs_ts_freq s) = units (unat w) (unat (rs_ts_freq s))" by (simp add: unat_div units_def)
    then show ?thesis by (metis of_nat_unat ucast_id)
  qed
  have "(ucast (of_nat D :: u64) :: u32) = of_nat D" 
  proof -
    have "unat (of_nat D :: u64) = D" using D32 by (simp add: unat_of_nat)
    then show ?thesis by (metis of_nat_unat)
  qed
  then show ?thesis using assms(1-3) by (simp add: lsr_fields_def Let_def u [OF t(1)] u [OF t(2)] D)
qed

lemma rr_apply_total: "clocks_ok s \<Longrightarrow> \<exists>s'. rr_apply ck s r = Some s'"
  using parse_rr_total [of s 0 "rtcp_rr_bytes r" ck] parse_rr_bytes [of "[]" 0 ck s r "[]"] by auto

lemma build_report_total: "rs_ts_freq s \<noteq> 0 \<Longrightarrow> \<exists>s' . pjmedia_rtcp_build_rtcp ck s =
    Some (s', ss_pkt (rt_tx (rs_stat s)) \<noteq> ntohl (sr_sender_pcount (srp_sr (rs_sr_pkt s))))"
  by (simp add: pjmedia_rtcp_build_rtcp_def pjmedia_rtcp_get_ntp_time_def lsr_fields_def Let_def)

lemma rx_report:
  assumes s: "report_headers s" "clocks_ok s'"
  shows "\<exists>s1 r. pjmedia_rtcp_rx_rtcp (\<lambda>_. ck) s' (report_bytes (s, k)) (length (report_bytes (s, k))) = Some (s1, []) \<and>
    same_clock s' r \<and> report_headers r = report_headers s' \<and> rt_rtt (rs_stat r) = rt_rtt (rs_stat s') \<and>
    rr_apply ck r (if k then srp_rr (rs_sr_pkt s) else rrp_rr (rs_rr_pkt s)) = Some s1 \<and>
    (k \<longrightarrow> rs_rx_lsr s1 = lsr_of (srp_sr (rs_sr_pkt s)) \<and> rs_rx_lsr_time s1 = ck_ts ck)"
proof (cases k)
  case True
  let ?r = "s'\<lparr>rs_rx_lsr := lsr_of (srp_sr (rs_sr_pkt s)), rs_rx_lsr_time := ck_ts ck\<rparr>"
  obtain s1 where s1: "rr_apply ck ?r (srp_rr (rs_sr_pkt s)) = Some s1"
    using rr_apply_total [of ?r ck] s(2) by auto
  have "pjmedia_rtcp_rx_rtcp (\<lambda>_. ck) s' (rtcp_sr_pkt_bytes (rs_sr_pkt s)) 52 = Some (s1, [])"
    using rx_sr_packet [of "rs_sr_pkt s" "\<lambda>_. ck" s'] s(1) s1 by (simp add: report_headers_def)
  moreover have "length (rtcp_sr_pkt_bytes (rs_sr_pkt s)) = 52" by (simp add: rtcp_sr_pkt_bytes_def)
  ultimately show ?thesis using True s1 rr_apply_frame(1,2) [OF s1]
    by (intro exI [of _ s1] exI [of _ ?r]) (simp add: report_bytes_def same_clock_def report_headers_def)
next
  case False
  obtain s1 where s1: "rr_apply ck s' (rrp_rr (rs_rr_pkt s)) = Some s1"
    using rr_apply_total [of s' ck] s(2) by auto
  have "pjmedia_rtcp_rx_rtcp (\<lambda>_. ck) s' (rtcp_rr_pkt_bytes (rs_rr_pkt s)) 32 = Some (s1, [])"
    using rx_rr_packet [of "rs_rr_pkt s" "\<lambda>_. ck" s'] s(1) s1 by (simp add: report_headers_def)
  moreover have "length (rtcp_rr_pkt_bytes (rs_rr_pkt s)) = 32" by (simp add: rtcp_rr_pkt_bytes_def)
  ultimately show ?thesis using False s1
    by (intro exI [of _ s1] exI [of _ s']) (simp add: report_bytes_def same_clock_def)
qed


text \<open>
  C33. Session \<open>a\<close> sends a sender report, \<open>b\<close> receives it, sends a report of its own, and \<open>a\<close> receives that: every
  step succeeds, and the round trip time \<open>a\<close> records is the time that passed on \<open>a\<close>'s clock from the first step to the last less the time that
  passed on \<open>b\<close>'s clock between the two steps in the middle, both in units of 1/65536 second, converted to microseconds
  and, from the second sample on, limited to three times the mean. The clocks of \<open>a\<close> and \<open>b\<close> are unrelated. The time \<open>b\<close> held the report
  must not be zero, nor the time of the report, or its low 16 bits of seconds wrap before the end: no sample is
  taken then.
\<close>

theorem rtcp_rtt_exchange:
  assumes a: "report_headers a" "rs_clock_rate a \<noteq> 0" "rs_ts_freq a \<noteq> 0" "unat (rs_ts_freq a) \<le> 2 ^ 32"
    and b: "report_headers b" "rs_clock_rate b \<noteq> 0" "rs_ts_freq b \<noteq> 0"
    and sent: "ss_pkt (rt_tx (rs_stat a)) \<noteq> ntohl (sr_sender_pcount (srp_sr (rs_sr_pkt a)))"
    and held: "units (unat (ck_ts ck2)) (unat (rs_ts_freq b)) = units (unat (ck_ts ck1)) (unat (rs_ts_freq b)) + D"
      "0 < D" "D < 2 ^ 32" "ck_ts ck1 \<noteq> 0" "unat (ck_ts ck1) < 2 ^ 48" "unat (ck_ts ck2) < 2 ^ 48"
    and passed: "units (unat (ck_ntp_ts ck3 - rs_ts_base a)) (unat (rs_ts_freq a)) =
        units (unat (ck_ntp_ts ck0 - rs_ts_base a)) (unat (rs_ts_freq a)) + D + d" "d \<le> 30 * 65536"
    and mid: "ntp_units a (ck_ntp_ts ck0) \<noteq> 0" "unat (ntp_units a (ck_ntp_ts ck0)) + d < 2 ^ 32"
    and mean: "0 \<le> ck_rtt_mean ck3" "ck_rtt_mean ck3 \<le> 700000000"
  shows "\<exists>a1 b1 b2 k a2.
    pjmedia_rtcp_build_rtcp ck0 a = Some (a1, True) \<and>
    pjmedia_rtcp_rx_rtcp (\<lambda>_. ck1) b (report_bytes (a1, True)) (length (report_bytes (a1, True))) = Some (b1, []) \<and>
    pjmedia_rtcp_build_rtcp ck2 b1 = Some (b2, k) \<and>
    pjmedia_rtcp_rx_rtcp (\<lambda>_. ck3) a1 (report_bytes (b2, k)) (length (report_bytes (b2, k))) = Some (a2, []) \<and>
    rt_rtt (rs_stat a2) = math_stat_update (rt_rtt (rs_stat a))
      (rtt_sample (rt_rtt (rs_stat a)) (ck_rtt_mean ck3) (units_usec d))"
proof -
  let ?lsr = "ntp_units a (ck_ntp_ts ck0)"
  obtain a1 where a1: "pjmedia_rtcp_build_rtcp ck0 a = Some (a1, True)"
    using build_report_total [OF a(3), of ck0] sent by auto
  obtain hi lo where f1: "pjmedia_rtcp_get_ntp_time a (ck_ntp_ts ck0) = Some (hi, lo)"
    "srp_sr (rs_sr_pkt a1) = build_sr a hi lo" "report_headers a1" "same_clock a a1" "rt_rtt (rs_stat a1) = rt_rtt (rs_stat a)"
    using build_report_fields [OF a1] a(1) by auto
  have lsr: "lsr_of (srp_sr (rs_sr_pkt a1)) = ?lsr"
  proof -
    have "lsr_of (build_sr a hi lo) = ntp_mid (hi, lo)"
      by (simp only: lsr_of_def build_sr_def Let_def rtcp_sr.simps bswap32_bswap32 ntp_mid_or)
    then show ?thesis using ntp_mid_units [OF a(3,4), of "ck_ntp_ts ck0"] f1(1) by (auto simp: f1(2) ntp_units_def)
  qed
  have cb: "clocks_ok b" using b by (simp add: clocks_ok_def)
  obtain b1 r where b1: "pjmedia_rtcp_rx_rtcp (\<lambda>_. ck1) b (report_bytes (a1, True)) (length (report_bytes (a1, True))) = Some (b1, [])"
    "same_clock b r" "report_headers r" "rr_apply ck1 r (srp_rr (rs_sr_pkt a1)) = Some b1" "rs_rx_lsr b1 = ?lsr" "rs_rx_lsr_time b1 = ck_ts ck1"
    using rx_report [OF f1(3) cb, of ck1 True] lsr b(1) by auto
  have sb: "same_clock b b1" using b1(2) rr_apply_frame(3) [OF b1(4)] by (simp add: same_clock_def)
  have hb: "report_headers b1" using b1(3) rr_apply_frame(4,5) [OF b1(4)] by (simp add: report_headers_def)
  obtain b2 k where b2: "pjmedia_rtcp_build_rtcp ck2 b1 = Some (b2, k)"
    using build_report_total [of b1 ck2] sb b(3) by (auto simp: same_clock_def)
  have lf: "lsr_fields ck2 b1 = Some (htonl ?lsr, htonl (of_nat D))"
    using lsr_fields_units [of b1 ck2 D] b1(5,6) held sb mid(1) b(3) by (simp add: same_clock_def)
  let ?blk = "if k then srp_rr (rs_sr_pkt b2) else rrp_rr (rs_rr_pkt b2)"
  have f2: "rr_lsr ?blk = htonl ?lsr" "rr_dlsr ?blk = htonl (of_nat D)" "report_headers b2"
    using build_report_fields [OF b2] lf hb by (auto split: if_splits)
  have ca: "clocks_ok a1" using a f1(4) by (simp add: clocks_ok_def same_clock_def)
  obtain a2 r2 where a2: "pjmedia_rtcp_rx_rtcp (\<lambda>_. ck3) a1 (report_bytes (b2, k)) (length (report_bytes (b2, k))) = Some (a2, [])"
    "same_clock a1 r2" "rt_rtt (rs_stat r2) = rt_rtt (rs_stat a1)" "rr_apply ck3 r2 ?blk = Some a2"
    using rx_report [OF f2(3) ca, of ck3 k] by blast
  obtain s2 s3 where s: "same_clock r2 s2" "rt_rtt (rs_stat s2) = rt_rtt (rs_stat r2)"
    "rr_rtt ck3 s2 (htonl ?lsr) (htonl (of_nat D)) = Some s3" "rt_rtt (rs_stat a2) = rt_rtt (rs_stat s3)"
    using rr_apply_frame(6) [OF a2(4)] unfolding f2 by blast
  have sa: "same_clock a s2" using f1(4) a2(2) s(1) by (simp add: same_clock_def)
  have "ntp_units s2 (ck_ntp_ts ck3) = ?lsr + of_nat D + of_nat d"
    using sa passed(1) by (simp add: same_clock_def ntp_units_def)
  then have "s3 = upd_stat (\<lambda>t. t\<lparr>rt_rtt := math_stat_update (rt_rtt t)
      (rtt_sample (rt_rtt (rs_stat s2)) (ck_rtt_mean ck3) (units_usec d))\<rparr>) s2"
    using rr_rtt_sample [of s2 ck3 ?lsr D d] s(3) sa a(3,4) mid held(2,3) passed(2) mean by (simp add: same_clock_def)
  then have "rt_rtt (rs_stat a2) = math_stat_update (rt_rtt (rs_stat a))
      (rtt_sample (rt_rtt (rs_stat a)) (ck_rtt_mean ck3) (units_usec d))"
    using s(2,4) a2(3) f1(5) by (simp add: upd_stat_def)
  then show ?thesis using a1 b1(1) b2 a2(1) by blast
qed


theorem rtcp_rtt_exchange_witness:
  "\<exists>ck0 ck1 ck2 ck3 a b a1 b1 b2 k a2.
    pjmedia_rtcp_build_rtcp ck0 a = Some (a1, True) \<and>
    pjmedia_rtcp_rx_rtcp (\<lambda>_. ck1) b (report_bytes (a1, True)) (length (report_bytes (a1, True))) = Some (b1, []) \<and>
    pjmedia_rtcp_build_rtcp ck2 b1 = Some (b2, k) \<and>
    pjmedia_rtcp_rx_rtcp (\<lambda>_. ck3) a1 (report_bytes (b2, k)) (length (report_bytes (b2, k))) = Some (a2, []) \<and>
    rt_rtt (rs_stat a2) = math_stat_update math_stat_init 1000000"
proof -
  let ?ck = "\<lambda>ts. \<lparr>ck_ts = ts, ck_ntp_ts = ts, ck_tod = Time_Val 1 0, ck_rtt_mean = 0\<rparr>"
  let ?cfg = "pjmedia_rtcp_session_setting_default\<lparr>rset_clock_rate := 8000, rset_samples_per_frame := 160\<rparr>"
  define b where "b = pjmedia_rtcp_init2 (?ck 5) 1000 ?cfg"
  define a where "a = pjmedia_rtcp_tx_rtp b 160"
  have b: "report_headers b" "rs_clock_rate b = 8000" "rs_ts_freq b = 1000"
    by (simp_all add: b_def init_report_headers) (simp_all add: pjmedia_rtcp_init2_def Let_def)
  have a: "report_headers a" "rs_clock_rate a = 8000" "rs_ts_freq a = 1000" "rs_ts_base a = 5" "tv_sec (rs_tv_base a) = 1"
    "ss_pkt (rt_tx (rs_stat a)) = 1" "sr_sender_pcount (srp_sr (rs_sr_pkt a)) = 0" "rt_rtt (rs_stat a) = math_stat_init"
    using b(1) by (simp_all add: a_def b_def pjmedia_rtcp_tx_rtp_def upd_tx_def upd_stat_def report_headers_def
        pjmedia_rtcp_init2_def Let_def pjmedia_rtcp_init_stat_def zero_stream_stat_def zero_sr_def)
  have u: "ntp_units a 1005 = 2122448896" using a by (simp add: ntp_units_def units_def push_bit_eq_mult)
  have s: "units_usec 65536 = 1000000" "stat_n math_stat_init = 0" by (simp_all add: units_usec_def math_stat_init_def)
  have "ntohl 0 = (0 :: u32)" by (simp add: bswap32_def)
  then show ?thesis
    using rtcp_rtt_exchange [of a b "?ck 3000" "?ck 1000" 131072 "?ck 4005" "?ck 1005" 65536] a b u s
    by (simp add: units_def rtt_sample_def) blast
qed

end
