(* ===== verification/Circ_Buf.thy ===== *)
theory Circ_Buf
  imports Ring "HOL-Library.While_Combinator"
begin

text \<open>
  The circular sample buffer (\<open>pjmedia_circ_buf\<close> of \<open>pjmedia/include/pjmedia/circbuf.h\<close>): an array of
  \<open>capacity\<close> samples with the index of the first one and their number. A region handed out by the
  code as a pointer and a length is an index and a length; \<open>cb_abs\<close> reads the buffered samples as a
  list, oldest first, and every operation is described on that list.
\<close>

type_synonym s16 = "16 word"

record pjmedia_circ_buf =
  cb_buf :: "s16 list"
  cb_capacity :: nat
  cb_start :: nat
  cb_len :: nat

definition pjmedia_circ_buf_create :: "nat \<Rightarrow> pjmedia_circ_buf" where
  "pjmedia_circ_buf_create capacity =
     \<lparr>cb_buf = replicate capacity 0, cb_capacity = capacity, cb_start = 0, cb_len = 0\<rparr>"

definition pjmedia_circ_buf_reset :: "pjmedia_circ_buf \<Rightarrow> pjmedia_circ_buf" where
  "pjmedia_circ_buf_reset cb = cb\<lparr>cb_start := 0, cb_len := 0\<rparr>"

definition pjmedia_circ_buf_set_len :: "pjmedia_circ_buf \<Rightarrow> nat \<Rightarrow> pjmedia_circ_buf" where
  "pjmedia_circ_buf_set_len cb n = cb\<lparr>cb_len := n\<rparr>"

definition pjmedia_circ_buf_adv_read_ptr :: "pjmedia_circ_buf \<Rightarrow> nat \<Rightarrow> pjmedia_circ_buf" where
  "pjmedia_circ_buf_adv_read_ptr cb count =
     (if count \<ge> cb_len cb then pjmedia_circ_buf_reset cb
      else
        (let start = cb_start cb + count;
             start = (if start \<ge> cb_capacity cb then start - cb_capacity cb else start)
         in cb\<lparr>cb_start := start, cb_len := cb_len cb - count\<rparr>))"

definition pjmedia_circ_buf_adv_write_ptr ::
  "pjmedia_circ_buf \<Rightarrow> nat \<Rightarrow> pjmedia_circ_buf \<times> pj_status" where
  "pjmedia_circ_buf_adv_write_ptr cb count =
     (if count + cb_len cb > cb_capacity cb then (cb, PJ_ETOOBIG)
      else (cb\<lparr>cb_len := cb_len cb + count\<rparr>, PJ_SUCCESS))"

text \<open>Index and length of the two regions; a second region of length 0 is a null pointer.\<close>

definition pjmedia_circ_buf_get_read_regions :: "pjmedia_circ_buf \<Rightarrow> (nat \<times> nat) \<times> nat \<times> nat" where
  "pjmedia_circ_buf_get_read_regions cb =
     (if cb_start cb + cb_len cb > cb_capacity cb
      then ((cb_start cb, cb_capacity cb - cb_start cb),
            (0, cb_len cb - (cb_capacity cb - cb_start cb)))
      else ((cb_start cb, cb_len cb), (0, 0)))"

definition pjmedia_circ_buf_get_write_regions :: "pjmedia_circ_buf \<Rightarrow> (nat \<times> nat) \<times> nat \<times> nat" where
  "pjmedia_circ_buf_get_write_regions cb =
     (let reg1 = cb_start cb + cb_len cb;
          reg1 = (if reg1 \<ge> cb_capacity cb then reg1 - cb_capacity cb else reg1);
          n = cb_capacity cb - cb_len cb
      in if reg1 + n > cb_capacity cb then ((reg1, cb_capacity cb - reg1), (0, cb_start cb))
         else ((reg1, n), (0, 0)))"

definition samples_at :: "pjmedia_circ_buf \<Rightarrow> nat \<Rightarrow> nat \<Rightarrow> s16 list" where
  "samples_at cb i n = take n (drop i (cb_buf cb))"

text \<open>The second component of a read is what is copied to the caller, \<open>None\<close> when nothing is.\<close>

definition pjmedia_circ_buf_read :: "pjmedia_circ_buf \<Rightarrow> nat \<Rightarrow> pjmedia_circ_buf \<times> s16 list option" where
  "pjmedia_circ_buf_read cb count =
     (if count > cb_len cb then (cb, None)
      else
        (case pjmedia_circ_buf_get_read_regions cb of ((reg1, reg1cnt), (reg2, reg2cnt)) \<Rightarrow>
           (let data = (if reg1cnt \<ge> count then samples_at cb reg1 count
                        else samples_at cb reg1 reg1cnt @ samples_at cb reg2 (count - reg1cnt))
            in (pjmedia_circ_buf_adv_read_ptr cb count, Some data))))"

definition pjmedia_circ_buf_write :: "pjmedia_circ_buf \<Rightarrow> s16 list \<Rightarrow> nat \<Rightarrow> pjmedia_circ_buf \<times> pj_status" where
  "pjmedia_circ_buf_write cb data count =
     (if count > cb_capacity cb - cb_len cb then (cb, PJ_ETOOBIG)
      else
        (case pjmedia_circ_buf_get_write_regions cb of ((reg1, reg1cnt), (reg2, reg2cnt)) \<Rightarrow>
           (let buf = (if reg1cnt \<ge> count then write_at (cb_buf cb) reg1 (take count data)
                       else write_at (write_at (cb_buf cb) reg1 (take reg1cnt data)) reg2
                              (take (count - reg1cnt) (drop reg1cnt data)))
            in pjmedia_circ_buf_adv_write_ptr (cb\<lparr>cb_buf := buf\<rparr>) count)))"

definition pjmedia_circ_buf_copy :: "pjmedia_circ_buf \<Rightarrow> nat \<Rightarrow> nat \<Rightarrow> s16 list option" where
  "pjmedia_circ_buf_copy cb start_idx count =
     (if count + start_idx > cb_len cb then None
      else
        (case pjmedia_circ_buf_get_read_regions cb of ((reg1, reg1cnt), (reg2, reg2cnt)) \<Rightarrow>
           Some (if reg1cnt > start_idx then
                   (let tmp_len = (if reg1cnt - start_idx > count then count else reg1cnt - start_idx)
                    in samples_at cb (reg1 + start_idx) tmp_len @
                       (if tmp_len < count then samples_at cb reg2 (count - tmp_len) else []))
                 else samples_at cb (reg2 + start_idx - reg1cnt) count)))"

text \<open>
  \<open>pjmedia_circ_buf_pack_buffer\<close>. The loop's state is the gap, the array, the index and length of the
  first region and the length of the second, which starts at index 0.
\<close>

definition circ_roll_step ::
  "nat \<times> s16 list \<times> nat \<times> nat \<times> nat \<Rightarrow> nat \<times> s16 list \<times> nat \<times> nat \<times> nat" where
  "circ_roll_step s =
     (case s of (gap, buf, reg1, reg1cnt, reg2cnt) \<Rightarrow>
        (let gap = (if gap > reg2cnt then reg2cnt else gap);
             buf = write_at buf (reg1 - gap) (take reg1cnt (drop reg1 buf));
             buf = write_at buf (reg1 + reg1cnt - gap) (take gap buf);
             buf = (if gap < reg2cnt then write_at buf 0 (take (reg2cnt - gap) (drop gap buf)) else buf)
         in (gap, buf, reg1 - gap, reg1cnt + gap, reg2cnt - gap)))"

definition circ_roll ::
  "nat \<times> s16 list \<times> nat \<times> nat \<times> nat \<Rightarrow> (nat \<times> s16 list \<times> nat \<times> nat \<times> nat) option" where
  "circ_roll s = while_option (\<lambda>(gap, buf, reg1, reg1cnt, reg2cnt). reg2cnt > 0) circ_roll_step
     (circ_roll_step s)"

definition pjmedia_circ_buf_pack_buffer :: "pjmedia_circ_buf \<Rightarrow> (pjmedia_circ_buf \<times> pj_status) option" where
  "pjmedia_circ_buf_pack_buffer cb =
     (case pjmedia_circ_buf_get_read_regions cb of ((reg1, reg1cnt), (reg2, reg2cnt)) \<Rightarrow>
        (let gap = cb_capacity cb - cb_len cb;
             finish = (\<lambda>buf reg1. (cb\<lparr>cb_buf := (if reg1 \<noteq> 0
                 then write_at buf 0 (take (cb_len cb) (drop reg1 buf)) else buf),
               cb_start := 0\<rparr>, PJ_SUCCESS))
         in if reg2cnt \<noteq> 0 then
              (if gap = 0 then Some (cb, PJ_ETOOBIG)
               else map_option (\<lambda>(_, buf, reg1, _, _). finish buf reg1)
                      (circ_roll (gap, cb_buf cb, reg1, reg1cnt, reg2cnt)))
            else Some (finish (cb_buf cb) reg1)))"

section \<open>The buffered samples\<close>

definition cb_abs :: "pjmedia_circ_buf \<Rightarrow> s16 list" where
  "cb_abs cb = rwin ((!) (cb_buf cb)) (cb_capacity cb) (cb_start cb) (cb_len cb)"

definition cb_inv :: "pjmedia_circ_buf \<Rightarrow> bool" where
  "cb_inv cb \<longleftrightarrow> 0 < cb_capacity cb \<and> length (cb_buf cb) = cb_capacity cb \<and>
     cb_start cb < cb_capacity cb \<and> cb_len cb \<le> cb_capacity cb"

lemma length_cb_abs [simp]: "length (cb_abs cb) = cb_len cb"
  by (simp add: cb_abs_def)

lemma cb_invD:
  assumes "cb_inv cb"
  shows "0 < cb_capacity cb" "length (cb_buf cb) = cb_capacity cb" "cb_start cb < cb_capacity cb"
    "cb_len cb \<le> cb_capacity cb"
  using assms by (simp_all add: cb_inv_def)

lemma pjmedia_circ_buf_create_inv:
  "0 < n \<Longrightarrow> cb_inv (pjmedia_circ_buf_create n) \<and> cb_abs (pjmedia_circ_buf_create n) = []"
  by (simp add: cb_inv_def pjmedia_circ_buf_create_def cb_abs_def)

lemma pjmedia_circ_buf_reset_inv:
  "cb_inv cb \<Longrightarrow> cb_inv (pjmedia_circ_buf_reset cb) \<and> cb_abs (pjmedia_circ_buf_reset cb) = []"
  by (simp add: cb_inv_def pjmedia_circ_buf_reset_def cb_abs_def)

lemma pjmedia_circ_buf_set_len_inv:
  "cb_inv cb \<Longrightarrow> n \<le> cb_len cb \<Longrightarrow>
     cb_inv (pjmedia_circ_buf_set_len cb n) \<and> cb_abs (pjmedia_circ_buf_set_len cb n) = take n (cb_abs cb)"
  by (simp add: cb_inv_def pjmedia_circ_buf_set_len_def cb_abs_def rwin_take)

lemma wrap_mod: "(i::nat) < c + c \<Longrightarrow> (if i \<ge> c then i - c else i) = i mod c"
  by (simp add: le_mod_geq)

lemma pjmedia_circ_buf_adv_read_ptr_abs:
  assumes "cb_inv cb"
  shows "cb_inv (pjmedia_circ_buf_adv_read_ptr cb count)"
    "cb_abs (pjmedia_circ_buf_adv_read_ptr cb count) = drop count (cb_abs cb)"
    "cb_capacity (pjmedia_circ_buf_adv_read_ptr cb count) = cb_capacity cb"
proof -
  note I = cb_invD [OF assms]
  show "cb_capacity (pjmedia_circ_buf_adv_read_ptr cb count) = cb_capacity cb"
    by (simp add: pjmedia_circ_buf_adv_read_ptr_def pjmedia_circ_buf_reset_def Let_def)
  show "cb_inv (pjmedia_circ_buf_adv_read_ptr cb count)"
    "cb_abs (pjmedia_circ_buf_adv_read_ptr cb count) = drop count (cb_abs cb)"
  proof (atomize (full), cases "count \<ge> cb_len cb")
    case True
    then show "cb_inv (pjmedia_circ_buf_adv_read_ptr cb count) \<and>
        cb_abs (pjmedia_circ_buf_adv_read_ptr cb count) = drop count (cb_abs cb)"
      using pjmedia_circ_buf_reset_inv [OF assms] by (simp add: pjmedia_circ_buf_adv_read_ptr_def)
  next
    case False
    then have "(if cb_start cb + count \<ge> cb_capacity cb then cb_start cb + count - cb_capacity cb
        else cb_start cb + count) = (cb_start cb + count) mod cb_capacity cb"
      using I by (intro wrap_mod) simp
    then show "cb_inv (pjmedia_circ_buf_adv_read_ptr cb count) \<and>
        cb_abs (pjmedia_circ_buf_adv_read_ptr cb count) = drop count (cb_abs cb)"
      using False I rwin_drop [of count "cb_len cb" "(!) (cb_buf cb)" "cb_capacity cb" "cb_start cb"]
      by (simp add: pjmedia_circ_buf_adv_read_ptr_def cb_abs_def cb_inv_def)
  qed
qed

text \<open>The read regions are the buffered samples.\<close>

lemma cb_abs_regions:
  assumes "cb_inv cb" "pjmedia_circ_buf_get_read_regions cb = ((r1, n1), (r2, n2))"
  shows "cb_abs cb = samples_at cb r1 n1 @ samples_at cb r2 n2" "n1 + n2 = cb_len cb"
    "length (samples_at cb r1 n1) = n1" "length (samples_at cb r2 n2) = n2" "r2 = 0"
    "r1 + n1 \<le> cb_capacity cb" "n2 \<le> r1" "n2 \<noteq> 0 \<Longrightarrow> r1 + n1 = cb_capacity cb" "r1 = cb_start cb"
    "n2 = 0 \<Longrightarrow> n1 = cb_len cb"
  using assms cb_invD [OF assms(1)] rwin_regions [of "cb_start cb" "cb_buf cb" "cb_len cb"]
  by (auto simp: cb_abs_def pjmedia_circ_buf_get_read_regions_def samples_at_def add.commute split: if_splits)

lemma take_append_split:
  "length a = n \<Longrightarrow> take c (a @ b) = (if n \<ge> c then take c a else a @ take (c - n) b)"
  by auto

lemma samples_at_0 [simp]: "samples_at cb i 0 = []"
  by (simp add: samples_at_def)

lemma samples_at_take: "m \<le> n \<Longrightarrow> take m (samples_at cb i n) = samples_at cb i m"
  by (simp add: samples_at_def min_def)

lemma circ_read_abs:
  assumes "cb_inv cb"
  shows "pjmedia_circ_buf_read cb count =
    (if count > cb_len cb then (cb, None)
     else (pjmedia_circ_buf_adv_read_ptr cb count, Some (take count (cb_abs cb))))"
proof (cases "count > cb_len cb")
  case True
  then show ?thesis by (simp add: pjmedia_circ_buf_read_def)
next
  case False
  obtain r1 n1 r2 n2 where R: "pjmedia_circ_buf_get_read_regions cb = ((r1, n1), (r2, n2))"
    by (metis surj_pair)
  note A = cb_abs_regions [OF assms R]
  have "take count (cb_abs cb) = (if n1 \<ge> count then samples_at cb r1 count
      else samples_at cb r1 n1 @ samples_at cb r2 (count - n1))"
    unfolding A(1) using False A(2) by (subst take_append_split [OF A(3)]) (simp add: samples_at_take)
  then show ?thesis
    using False R by (simp add: pjmedia_circ_buf_read_def)
qed

lemma circ_copy_abs:
  assumes "cb_inv cb" "start_idx + count \<le> cb_len cb"
  shows "pjmedia_circ_buf_copy cb start_idx count = Some (take count (drop start_idx (cb_abs cb)))"
proof -
  obtain r1 n1 r2 n2 where R: "pjmedia_circ_buf_get_read_regions cb = ((r1, n1), (r2, n2))"
    by (metis surj_pair)
  note A = cb_abs_regions [OF assms(1) R]
  have sub: "take c (drop i (samples_at cb r n)) = samples_at cb (r + i) c" if "i + c \<le> n" for r n i c
    using that by (simp add: samples_at_def drop_take min_def add.commute)
  have "take count (drop start_idx (cb_abs cb)) =
      (if n1 > start_idx then
         (let tmp_len = (if n1 - start_idx > count then count else n1 - start_idx)
          in samples_at cb (r1 + start_idx) tmp_len @
             (if tmp_len < count then samples_at cb r2 (count - tmp_len) else []))
       else samples_at cb (r2 + start_idx - n1) count)"
  proof (cases "n1 > start_idx")
    case True
    have d: "drop start_idx (samples_at cb r1 n1) = samples_at cb (r1 + start_idx) (n1 - start_idx)"
      by (simp add: samples_at_def drop_take add.commute)
    then have "length (samples_at cb (r1 + start_idx) (n1 - start_idx)) = n1 - start_idx"
      using A(3) by (metis length_drop)
    then show ?thesis
      unfolding A(1) using True assms(2) A(2,3) d
      by (auto simp: Let_def samples_at_take)
  next
    case False
    then show ?thesis
      unfolding A(1) using assms(2) A(2,3) sub [of "start_idx - n1" count n2 r2] by simp
  qed
  then show ?thesis
    using assms(2) R by (simp add: pjmedia_circ_buf_copy_def)
qed

lemma circ_write_abs:
  assumes "cb_inv cb" "count \<le> length data" "count \<le> cb_capacity cb - cb_len cb"
  shows "\<exists>cb'. pjmedia_circ_buf_write cb data count = (cb', PJ_SUCCESS) \<and> cb_inv cb' \<and>
    cb_abs cb' = cb_abs cb @ take count data \<and> cb_capacity cb' = cb_capacity cb"
proof -
  note I = cb_invD [OF assms(1)]
  let ?c = "cb_capacity cb" and ?h = "cb_start cb" and ?n = "cb_len cb"
  obtain r1 n1 r2 n2 where R: "pjmedia_circ_buf_get_write_regions cb = ((r1, n1), (r2, n2))"
    by (metis surj_pair)
  have r1: "r1 = (?h + ?n) mod ?c"
    using R I wrap_mod [of "?h + ?n" ?c]
    by (auto simp: pjmedia_circ_buf_get_write_regions_def Let_def split: if_splits)
  have n12: "n1 + n2 = ?c - ?n" "r2 = 0" "r1 + n1 \<le> ?c" "n2 \<noteq> 0 \<Longrightarrow> r1 + n1 = ?c"
    using R I by (auto simp: pjmedia_circ_buf_get_write_regions_def Let_def split: if_splits)
  have n2: "n2 \<le> r1" using n12 by (cases "n2 = 0") auto
  define buf where "buf = (if n1 \<ge> count then write_at (cb_buf cb) r1 (take count data)
      else write_at (write_at (cb_buf cb) r1 (take n1 data)) r2 (take (count - n1) (drop n1 data)))"
  have len: "length buf = ?c"
    using I n12 assms(2,3) n2 by (auto simp: buf_def)
  define cb' where "cb' = cb\<lparr>cb_buf := buf, cb_len := ?n + count\<rparr>"
  have w: "pjmedia_circ_buf_write cb data count = (cb', PJ_SUCCESS)"
    using R assms(3) I(4) by (simp add: pjmedia_circ_buf_write_def pjmedia_circ_buf_adv_write_ptr_def
        cb'_def buf_def Let_def)
  define slot where "slot k = (?h + ?n + k) mod ?c" for k
  have slot: "slot k = (if k < n1 then r1 + k else k - n1)" if k: "k < count" for k
  proof -
    have "slot k = (r1 + k) mod ?c" by (simp add: slot_def r1 mod_simps)
    moreover have "k < n1 + n2" using k assms(3) n12 by simp
    ultimately show ?thesis
      using n12 n2 k by (cases "k < n1") (auto simp: le_mod_geq)
  qed
  have nth: "buf ! ((?h + i) mod ?c) = (if i < ?n then cb_buf cb ! ((?h + i) mod ?c) else data ! (i - ?n))"
    if i: "i < ?n + count" for i
  proof (cases "i < ?n")
    case True
    define p where "p = (?h + i) mod ?c"
    have p: "p < ?c" using I by (simp add: p_def)
    have ns: "slot k \<noteq> p" if k: "k < count" for k
    proof -
      have "?n + k < ?c" "i < ?c" using k assms(3) True I(4) by linarith+
      then show ?thesis
        using ring_index_inj [of ?h i ?c "?n + k"] True by (auto simp: slot_def p_def add.assoc)
    qed
    have "\<not> (r1 \<le> p \<and> p < r1 + min count n1)"
    proof
      assume a: "r1 \<le> p \<and> p < r1 + min count n1"
      then have "p - r1 < count" "p - r1 < n1" by auto
      then show False using slot [of "p - r1"] ns [of "p - r1"] a by simp
    qed
    moreover have "\<not> (n1 < count \<and> p < count - n1)"
    proof
      assume a: "n1 < count \<and> p < count - n1"
      then have "n1 + p < count" by linarith
      then show False using slot [of "n1 + p"] ns [of "n1 + p"] by simp
    qed
    ultimately have "buf ! p = cb_buf cb ! p"
      using p I n12 assms(2,3) n2 by (auto simp: buf_def nth_write_at min_def)
    then show ?thesis using True by (simp add: p_def)
  next
    case False
    then have k: "i - ?n < count" "?h + i = ?h + ?n + (i - ?n)" using i by simp_all
    have "buf ! slot (i - ?n) = data ! (i - ?n)"
    proof (cases "i - ?n < n1")
      case True
      then show ?thesis
        unfolding slot [OF k(1)] using k(1) I n12 assms(2,3) n2
        by (auto simp: buf_def nth_write_at)
    next
      case False
      define m where "m = i - ?n - n1"
      have m: "i - ?n = n1 + m" using False by (simp add: m_def)
      then have mc: "m < count - n1" "n1 < count" using k(1) by linarith+
      have "buf = write_at (write_at (cb_buf cb) r1 (take n1 data)) 0 (take (count - n1) (drop n1 data))"
        using mc n12(2) by (simp add: buf_def)
      moreover have "0 + length (take (count - n1) (drop n1 data)) \<le> length (write_at (cb_buf cb) r1 (take n1 data))"
        "m < length (write_at (cb_buf cb) r1 (take n1 data))"
        using I n12 assms(2,3) n2 mc by simp_all
      ultimately have "buf ! m = take (count - n1) (drop n1 data) ! m"
        using mc assms(2) by (simp add: nth_write_at)
      then show ?thesis
        using slot [OF k(1)] mc assms(2) by (simp add: m)
    qed
    moreover have "slot (i - ?n) = (?h + i) mod ?c"
      unfolding slot_def k(2) [symmetric] ..
    ultimately show ?thesis using False by simp
  qed
  have "cb_abs cb' = rwin ((!) buf) ?c ?h (?n + count)" by (simp add: cb_abs_def cb'_def)
  also have "\<dots> = cb_abs cb @ take count data"
    using assms(2) nth by (intro nth_equalityI) (auto simp: nth_append cb_abs_def)
  finally have "cb_abs cb' = cb_abs cb @ take count data" .
  moreover have "cb_inv cb'" using I len assms(3) by (simp add: cb_inv_def cb'_def)
  ultimately show ?thesis using w by (simp add: cb'_def)
qed

section \<open>Packing\<close>

definition roll_inv :: "s16 list \<Rightarrow> nat \<Rightarrow> nat \<times> s16 list \<times> nat \<times> nat \<times> nat \<Rightarrow> bool" where
  "roll_inv L c s \<longleftrightarrow> (case s of (gap, buf, reg1, reg1cnt, reg2cnt) \<Rightarrow>
     length buf = c \<and> reg1 + reg1cnt = c \<and> 0 < gap \<and>
     (0 < reg2cnt \<longrightarrow> reg1 = reg2cnt + gap) \<and>
     take reg1cnt (drop reg1 buf) @ take reg2cnt buf = L)"

lemma roll_step_inv:
  assumes "roll_inv L c (gap, buf, r1, n1, n2)" "0 < n2"
  shows "\<exists>gap' buf' r1' n1' n2'. circ_roll_step (gap, buf, r1, n1, n2) = (gap', buf', r1', n1', n2') \<and>
    roll_inv L c (gap', buf', r1', n1', n2') \<and> n2' < n2"
proof -
  have I: "length buf = c" "r1 + n1 = c" "0 < gap" "r1 = n2 + gap"
    "take n1 (drop r1 buf) @ take n2 buf = L"
    using assms by (auto simp: roll_inv_def)
  define g where "g = min gap n2"
  have g: "(if gap > n2 then n2 else gap) = g" "0 < g" "g \<le> n2" "g \<le> r1" "n2 \<le> r1 - g" "g < n2 \<Longrightarrow> g = gap"
    using I assms(2) by (auto simp: g_def)
  define A where "A = take n1 (drop r1 buf)"
  have lA: "length A = n1" using I by (simp add: A_def)
  define b1 where "b1 = write_at buf (r1 - g) A"
  have b1: "b1 = take (r1 - g) buf @ A @ drop (r1 - g + n1) buf"
    by (simp add: b1_def write_at_def lA)
  define b2 where "b2 = write_at b1 (r1 + n1 - g) (take g b1)"
  have tg: "take g b1 = take g buf"
    using g I by (simp add: b1 min_def)
  have "take (r1 + n1 - g) b1 = take (r1 - g) buf @ A"
    using g I lA by (simp add: b1)
  moreover have "drop (r1 + n1 - g + g) b1 = []"
    using g I lA by (simp add: b1)
  ultimately have b2: "b2 = take (r1 - g) buf @ A @ take g buf"
    using g I unfolding b2_def write_at_def tg by (simp add: min_def)
  have lb2: "length b2 = c" using g I lA by (simp add: b2)
  define b3 where "b3 = (if g < n2 then write_at b2 0 (take (n2 - g) (drop g b2)) else b2)"
  have tb: "take (n2 - g) (drop g b2) = take (n2 - g) (drop g buf)"
  proof -
    have "drop g b2 = drop g (take (r1 - g) buf) @ A @ take g buf"
      using g I by (simp add: b2)
    moreover have "n2 - g \<le> length (drop g (take (r1 - g) buf))"
      using g I by simp
    ultimately have "take (n2 - g) (drop g b2) = take (n2 - g) (drop g (take (r1 - g) buf))"
      by simp
    then show ?thesis
      using g by (simp add: drop_take min_def)
  qed
  define X where "X = take (n2 - g) (drop g buf)"
  have lX: "length X = n2 - g" using g I by (simp add: X_def)
  then have "write_at b2 0 X = X @ drop (n2 - g) b2"
    by (simp add: write_at_def)
  moreover have "n2 - g + (r1 - g - (n2 - g)) = r1 - g"
    using g by linarith
  then have "drop (r1 - g) (X @ drop (n2 - g) b2) = drop (r1 - g) b2"
    using g lX by (simp add: add.commute)
  moreover have b3e: "b3 = X @ drop (n2 - g) b2"
  proof (cases "g < n2")
    case True
    then show ?thesis by (simp add: b3_def tb lX write_at_def flip: X_def)
  next
    case False
    then show ?thesis using lX by (simp add: b3_def)
  qed
  ultimately have b3: "drop (r1 - g) b3 = drop (r1 - g) b2" by simp
  have b3': "take (n2 - g) b3 = take (n2 - g) (drop g buf)" "length b3 = c"
    using lX lb2 g I by (simp_all add: b3e flip: X_def)
  have "drop (r1 - g) b2 = A @ take g buf"
    using g I by (simp add: b2)
  then have "take (n1 + g) (drop (r1 - g) b3) = A @ take g buf"
    using b3 lA g I by simp
  moreover have "take g buf @ take (n2 - g) (drop g buf) = take n2 buf"
    using g by (metis le_add_diff_inverse take_add)
  ultimately have L: "take (n1 + g) (drop (r1 - g) b3) @ take (n2 - g) b3 = L"
    using I(5) by (simp add: A_def b3'(1))
  have "circ_roll_step (gap, buf, r1, n1, n2) = (g, b3, r1 - g, n1 + g, n2 - g)"
    unfolding circ_roll_step_def prod.case Let_def g(1) A_def [symmetric] b1_def [symmetric]
      b2_def [symmetric] b3_def [symmetric] ..
  moreover have "roll_inv L c (g, b3, r1 - g, n1 + g, n2 - g)"
    using L g I b3'(2) by (simp add: roll_inv_def)
  ultimately show ?thesis using g assms(2) by fastforce
qed

lemma roll_loop:
  assumes "roll_inv L c (gap, buf, r1, n1, n2)"
  shows "\<exists>gap' buf' r1' n1'. while_option (\<lambda>(gap, buf, reg1, reg1cnt, reg2cnt). reg2cnt > 0) circ_roll_step
      (gap, buf, r1, n1, n2) = Some (gap', buf', r1', n1', 0) \<and> roll_inv L c (gap', buf', r1', n1', 0)"
  using assms
proof (induction n2 arbitrary: gap buf r1 n1 rule: less_induct)
  case (less n2)
  show ?case
  proof (cases "n2 = 0")
    case True
    then show ?thesis using less.prems by (subst while_option_unfold) simp
  next
    case False
    then obtain g' b' r' n' m' where S: "circ_roll_step (gap, buf, r1, n1, n2) = (g', b', r', n', m')"
      "roll_inv L c (g', b', r', n', m')" "m' < n2"
      using roll_step_inv [OF less.prems] by auto
    from less.IH [OF S(3,2)] show ?thesis
      using False S(1) by (subst while_option_unfold) simp
  qed
qed

lemma circ_pack_abs:
  assumes "cb_inv cb"
  shows "\<exists>cb' st. pjmedia_circ_buf_pack_buffer cb = Some (cb', st) \<and> cb_inv cb' \<and> cb_abs cb' = cb_abs cb \<and>
    (st = PJ_ETOOBIG \<longleftrightarrow> cb_len cb = cb_capacity cb \<and> cb_start cb \<noteq> 0) \<and>
    (st \<noteq> PJ_ETOOBIG \<longrightarrow> st = PJ_SUCCESS \<and> cb_start cb' = 0 \<and> take (cb_len cb) (cb_buf cb') = cb_abs cb)"
proof -
  note I = cb_invD [OF assms]
  let ?c = "cb_capacity cb" and ?n = "cb_len cb"
  obtain r1 n1 r2 n2 where R: "pjmedia_circ_buf_get_read_regions cb = ((r1, n1), (r2, n2))"
    by (metis surj_pair)
  note A = cb_abs_regions [OF assms R]
  define fin where "fin buf reg1 = cb\<lparr>cb_buf := (if reg1 \<noteq> 0
      then write_at buf 0 (take ?n (drop reg1 buf)) else buf), cb_start := 0\<rparr>" for buf reg1
  have fin: "cb_inv (fin buf reg1) \<and> cb_abs (fin buf reg1) = cb_abs cb \<and> cb_start (fin buf reg1) = 0 \<and>
      take ?n (cb_buf (fin buf reg1)) = cb_abs cb"
    if len: "length buf = ?c" and tk: "take ?n (drop reg1 buf) = cb_abs cb" for buf reg1
  proof -
    have tk': "take ?n (cb_buf (fin buf reg1)) = cb_abs cb"
      using tk by (cases "reg1 = 0") (simp_all add: fin_def write_at_def)
    have l: "length (cb_buf (fin buf reg1)) = ?c"
      using len tk I by (simp add: fin_def)
    have fc: "cb_capacity (fin buf reg1) = length (cb_buf (fin buf reg1))" "cb_start (fin buf reg1) = 0"
      "cb_len (fin buf reg1) = ?n"
      using l by (simp_all add: fin_def)
    have "cb_abs (fin buf reg1) = take ?n (cb_buf (fin buf reg1))"
      unfolding cb_abs_def fc using rwin_regions [of 0 "cb_buf (fin buf reg1)" ?n] I unfolding l by simp
    then show ?thesis using tk' l I by (simp add: cb_inv_def fin_def)
  qed
  show ?thesis
  proof (cases "n2 = 0")
    case True
    then have "take ?n (drop r1 (cb_buf cb)) = cb_abs cb"
      using A by (simp add: samples_at_def)
    from fin [OF I(2) this] have f: "cb_inv (fin (cb_buf cb) r1)" "cb_abs (fin (cb_buf cb) r1) = cb_abs cb"
      "cb_start (fin (cb_buf cb) r1) = 0" "take ?n (cb_buf (fin (cb_buf cb) r1)) = cb_abs cb" by auto
    have "\<not> (?n = ?c \<and> cb_start cb \<noteq> 0)"
      using True R I by (auto simp: pjmedia_circ_buf_get_read_regions_def split: if_splits)
    moreover have "pjmedia_circ_buf_pack_buffer cb = Some (fin (cb_buf cb) r1, PJ_SUCCESS)"
      using True R by (simp add: pjmedia_circ_buf_pack_buffer_def Let_def fin_def)
    ultimately show ?thesis using f by auto
  next
    case n2: False
    have st: "cb_start cb \<noteq> 0 \<or> ?n \<noteq> ?c"
      using n2 A(6-9) by auto
    show ?thesis
    proof (cases "?n = ?c")
      case True
      then show ?thesis
        using n2 R st assms by (auto simp: pjmedia_circ_buf_pack_buffer_def)
    next
      case False
      let ?s = "(?c - ?n, cb_buf cb, r1, n1, n2)"
      have "roll_inv (cb_abs cb) ?c ?s"
        using A n2 I False by (auto simp: roll_inv_def samples_at_def)
      then obtain g b r n m where S: "circ_roll_step ?s = (g, b, r, n, m)" "roll_inv (cb_abs cb) ?c (g, b, r, n, m)"
        using roll_step_inv n2 by blast
      obtain g' b' r' n' where L: "circ_roll ?s = Some (g', b', r', n', 0)"
        "roll_inv (cb_abs cb) ?c (g', b', r', n', 0)"
        using roll_loop [OF S(2)] by (auto simp: circ_roll_def S(1))
      have b': "length b' = ?c" "take n' (drop r' b') = cb_abs cb" "r' + n' = ?c"
        using L(2) by (auto simp: roll_inv_def)
      then have "n' = ?n" by (metis diff_add_inverse length_cb_abs length_drop length_take min.idem)
      then have "take ?n (drop r' b') = cb_abs cb" using b'(2) by simp
      from fin [OF b'(1) this] have f: "cb_inv (fin b' r')" "cb_abs (fin b' r') = cb_abs cb"
        "cb_start (fin b' r') = 0" "take ?n (cb_buf (fin b' r')) = cb_abs cb" by auto
      have "pjmedia_circ_buf_pack_buffer cb = Some (fin b' r', PJ_SUCCESS)"
        using n2 R False L(1) I(4) by (simp add: pjmedia_circ_buf_pack_buffer_def Let_def fin_def)
      then show ?thesis using f False by auto
    qed
  qed
qed

end
