(* ===== verification/Drift.thy ===== *)
theory Drift
  imports Circ_Buf Machine
begin

text \<open>
  The interface between the delay buffer and its drift processor (\<open>pjmedia/include/pjmedia/wsola.h\<close>):
  the operations the buffer calls, and the laws it relies on. The null implementation of
  \<open>pjmedia/src/pjmedia/wsola.c\<close> is an instance here, the overlap-add implementation in the theory
  \<open>Wsola\<close>.
\<close>

text \<open>
  \<open>ws_save\<close> may rewrite the frame it is given, so it returns the frame as it leaves it;
  \<open>ws_generate\<close> returns the frame it fills; \<open>ws_discard\<close> rewrites the two regions in place and
  returns them with the number of samples it has taken out.
\<close>

record 'w wsola_ops =
  ws_save :: "'w \<Rightarrow> s16 list \<Rightarrow> 'w \<times> s16 list \<times> pj_status"
  ws_generate :: "'w \<Rightarrow> 'w \<times> s16 list \<times> pj_status"
  ws_discard :: "'w \<Rightarrow> s16 list \<Rightarrow> s16 list \<Rightarrow> nat \<Rightarrow> 'w \<times> s16 list \<times> s16 list \<times> nat \<times> pj_status"
  ws_reset :: "'w \<Rightarrow> 'w"

text \<open>
  Every operation keeps the processor's own invariant \<open>winv\<close>; a frame is \<open>spf\<close> samples, and given at
  least a frame a discard takes out no more samples than there were.
\<close>

locale drift_processor =
  fixes ops :: "'w wsola_ops" and winv :: "'w \<Rightarrow> bool" and spf :: nat
  assumes save_keeps: "winv w \<Longrightarrow> length frame = spf \<Longrightarrow> ws_save ops w frame = (w', frame', st) \<Longrightarrow>
      winv w' \<and> length frame' = spf"
    and generate_keeps: "winv w \<Longrightarrow> ws_generate ops w = (w', frame, st) \<Longrightarrow>
      winv w' \<and> (st = PJ_SUCCESS \<longrightarrow> length frame = spf)"
    and discard_keeps: "winv w \<Longrightarrow> ws_discard ops w x1 x2 e = (w', y1, y2, e', st) \<Longrightarrow>
      winv w' \<and> length y1 = length x1 \<and> length y2 = length x2"
    and discard_count: "winv w \<Longrightarrow> ws_discard ops w x1 x2 e = (w', y1, y2, e', PJ_SUCCESS) \<Longrightarrow>
      spf \<le> length x1 + length x2 \<Longrightarrow> e' \<le> length x1 + length x2"
    and reset_keeps: "winv w \<Longrightarrow> winv (ws_reset ops w)"

text \<open>The null implementation; its state is the number of samples per frame.\<close>

definition wsola_null :: "nat wsola_ops" where
  "wsola_null = \<lparr>ws_save = (\<lambda>w frame. (w, frame, PJ_SUCCESS)),
     ws_generate = (\<lambda>w. (w, replicate w 0, PJ_SUCCESS)),
     ws_discard = (\<lambda>w x1 x2 e. (w, x1, x2, w, PJ_SUCCESS)),
     ws_reset = (\<lambda>w. w)\<rparr>"

interpretation null_drift: drift_processor wsola_null "(=) spf" spf for spf
  by unfold_locales (auto simp: wsola_null_def)

end
