(* ===== verification/Delay_Buf.thy ===== *)
theory Delay_Buf
  imports Drift
begin

text \<open>
  The delay buffer (\<open>pjmedia/src/pjmedia/delaybuf.c\<close>): a circular sample buffer between a producer
  and a consumer of frames, whose target length is learnt from the bursts of the two, and which is
  shortened and filled up by a drift processor, any one of the interface \<open>drift_processor\<close>. The mutex
  that makes each call atomic is left out.
\<close>

section \<open>State and operations\<close>

datatype delay_op = DB_Put | DB_Get

record 'w delay_buf =
  db_spf :: nat
  db_ptime :: nat
  db_channels :: nat
  db_circ :: pjmedia_circ_buf
  db_max_cnt :: nat
  db_eff_cnt :: nat
  db_level :: nat
  db_last_op :: delay_op
  db_recalc :: int
  db_max_level :: nat
  db_wsola :: "'w option"

definition RECALC_TIME :: int where "RECALC_TIME = 2000"

definition DEFAULT_MAX_DELAY :: nat where "DEFAULT_MAX_DELAY = 400"

text \<open>
  \<open>pjmedia_delay_buf_create\<close>. \<open>wsola\<close> is the drift processor that was created, \<open>None\<close> under the
  option \<open>PJMEDIA_DELAY_BUF_SIMPLE_FIFO\<close>. The result \<open>None\<close> is a division by zero, which is what a frame
  time below one millisecond leads to. The products are those of \<open>unsigned\<close>. In the functions below the
  sums of lengths do not wrap: a length is below \<open>2 ^ 31\<close> by the invariant, and the shift in \<open>AGC\<close>
  keeps the effective count near \<open>2 ^ 30\<close> at most.
\<close>

definition pjmedia_delay_buf_create ::
  "nat \<Rightarrow> nat \<Rightarrow> nat \<Rightarrow> nat \<Rightarrow> 'w option \<Rightarrow> (pj_status + 'w delay_buf) option" where
  "pjmedia_delay_buf_create clock_rate samples_per_frame channel_count max_delay wsola =
     (if samples_per_frame = 0 \<or> clock_rate = 0 \<or> channel_count = 0 then Some (Inl PJ_EINVAL)
      else
        (let ptime = uwrap (samples_per_frame * 1000) div clock_rate div channel_count;
             max_delay = (if max_delay < ptime then max DEFAULT_MAX_DELAY ptime else max_delay)
         in if ptime = 0 then None
            else
              (let max_cnt = uwrap (samples_per_frame * max_delay) div ptime
               in Some (Inr \<lparr>db_spf = samples_per_frame, db_ptime = ptime, db_channels = channel_count,
                    db_circ = pjmedia_circ_buf_create max_cnt, db_max_cnt = max_cnt,
                    db_eff_cnt = max_cnt div 2, db_level = 0, db_last_op = DB_Put,
                    db_recalc = RECALC_TIME, db_max_level = 0, db_wsola = wsola\<rparr>))))"

definition shrink_buffer :: "'w wsola_ops \<Rightarrow> 'w delay_buf \<Rightarrow> nat \<Rightarrow> 'w delay_buf" where
  "shrink_buffer ops b erase_cnt =
     (case db_wsola b of
        None \<Rightarrow> b
      | Some w \<Rightarrow>
          (case pjmedia_circ_buf_get_read_regions (db_circ b) of ((r1, n1), (r2, n2)) \<Rightarrow>
             (case ws_discard ops w (samples_at (db_circ b) r1 n1) (samples_at (db_circ b) r2 n2) erase_cnt of
                (w', x1, x2, erased, status) \<Rightarrow>
                  (let cb = (db_circ b)\<lparr>cb_buf := write_at (write_at (cb_buf (db_circ b)) r1 x1) r2 x2\<rparr>;
                       cb = (if status = PJ_SUCCESS \<and> erased > 0
                             then pjmedia_circ_buf_set_len cb (usub32 (cb_len cb) erased) else cb)
                   in b\<lparr>db_wsola := Some w', db_circ := cb\<rparr>))))"

definition AGC :: "nat \<Rightarrow> nat \<Rightarrow> nat" where
  "AGC cur target = (if cur < target then uwrap (cur + target * 3) div 4 else uwrap (cur * 3 + target) div 4)"

definition delay_update :: "'w wsola_ops \<Rightarrow> 'w delay_buf \<Rightarrow> delay_op \<Rightarrow> 'w delay_buf" where
  "delay_update ops b op =
     (if op = db_last_op b then b\<lparr>db_level := uwrap (db_level b + 1)\<rparr>
      else
        (let b = (if db_level b > db_max_level b then b\<lparr>db_max_level := db_level b\<rparr> else b);
             b = b\<lparr>db_recalc := db_recalc b - int (uwrap (db_level b * db_ptime b) div 2),
                   db_last_op := op, db_level := 1\<rparr>;
             b = (if db_recalc b \<le> 0 then
                    (let eff = AGC (db_eff_cnt b) (uwrap (db_max_level b * db_spf b));
                         eff = (if eff mod db_channels b \<noteq> 0
                                then eff + (db_channels b - eff mod db_channels b) else eff)
                     in b\<lparr>db_eff_cnt := eff, db_max_level := 0, db_recalc := RECALC_TIME\<rparr>)
                  else b)
         in if op = DB_Put \<and> cb_len (db_circ b) > db_spf b + db_eff_cnt b
            then shrink_buffer ops b (db_spf b div 2) else b))"

text \<open>
  \<open>pjmedia_delay_buf_put\<close>. The drift processor may rewrite the frame in place before it is stored.
\<close>

definition pjmedia_delay_buf_put ::
  "'w wsola_ops \<Rightarrow> 'w delay_buf \<Rightarrow> s16 list \<Rightarrow> 'w delay_buf \<times> pj_status" where
  "pjmedia_delay_buf_put ops b frame =
     (let (b, frame, status) =
            (case db_wsola b of
               None \<Rightarrow> (b, frame, PJ_SUCCESS)
             | Some _ \<Rightarrow>
                 (let b = delay_update ops b DB_Put
                  in case db_wsola b of
                       None \<Rightarrow> (b, frame, PJ_SUCCESS)
                     | Some w \<Rightarrow>
                         (case ws_save ops w frame of
                            (w', frame', status) \<Rightarrow> (b\<lparr>db_wsola := Some w'\<rparr>, frame', status))))
      in if status \<noteq> PJ_SUCCESS then (b, status)
         else
           (let need = (\<lambda>b. cb_len (db_circ b) + db_spf b - db_max_cnt b);
                over = (\<lambda>b. cb_len (db_circ b) + db_spf b > db_max_cnt b);
                b = (if over b then
                       (let b = (if db_wsola b \<noteq> None then shrink_buffer ops b (need b) else b)
                        in if over b
                           then b\<lparr>db_circ := pjmedia_circ_buf_adv_read_ptr (db_circ b) (need b)\<rparr>
                           else b)
                     else b)
            in (b\<lparr>db_circ := fst (pjmedia_circ_buf_write (db_circ b) frame (db_spf b))\<rparr>, PJ_SUCCESS)))"

text \<open>
  \<open>pjmedia_delay_buf_get\<close>, with the frame it stores for the caller. Where the final read fails, the
  caller's frame keeps what is in it: the generated frame when there is one, else \<open>old\<close>.
\<close>

definition db_read_frame :: "'w delay_buf \<Rightarrow> s16 list \<Rightarrow> 'w delay_buf \<times> s16 list" where
  "db_read_frame b old =
     (case pjmedia_circ_buf_read (db_circ b) (db_spf b) of
        (cb, Some data) \<Rightarrow> (b\<lparr>db_circ := cb\<rparr>, data)
      | (cb, None) \<Rightarrow> (b\<lparr>db_circ := cb\<rparr>, old))"

definition db_drain :: "'w delay_buf \<Rightarrow> 'w delay_buf \<times> s16 list" where
  "db_drain b =
     (case pjmedia_circ_buf_read (db_circ b) (cb_len (db_circ b)) of
        (cb, data) \<Rightarrow>
          (b\<lparr>db_circ := pjmedia_circ_buf_reset cb\<rparr>,
           (case data of None \<Rightarrow> [] | Some d \<Rightarrow> d) @ replicate (db_spf b - cb_len (db_circ b)) 0))"

definition pjmedia_delay_buf_get ::
  "'w wsola_ops \<Rightarrow> 'w delay_buf \<Rightarrow> s16 list \<Rightarrow> 'w delay_buf \<times> s16 list" where
  "pjmedia_delay_buf_get ops b old =
     (let b = (if db_wsola b \<noteq> None then delay_update ops b DB_Get else b)
      in if cb_len (db_circ b) < db_spf b then
           (case db_wsola b of
              None \<Rightarrow> db_drain b
            | Some w \<Rightarrow>
                (case ws_generate ops w of (w', frame, status) \<Rightarrow>
                   (let b = b\<lparr>db_wsola := Some w'\<rparr>
                    in if status = PJ_SUCCESS then
                         (if cb_len (db_circ b) = 0 then (b, frame)
                          else db_read_frame (b\<lparr>db_circ :=
                            fst (pjmedia_circ_buf_write (db_circ b) frame (db_spf b))\<rparr>) frame)
                       else db_drain b)))
         else db_read_frame b old)"

definition pjmedia_delay_buf_reset :: "'w wsola_ops \<Rightarrow> 'w delay_buf \<Rightarrow> 'w delay_buf" where
  "pjmedia_delay_buf_reset ops b =
     b\<lparr>db_recalc := RECALC_TIME, db_circ := pjmedia_circ_buf_reset (db_circ b),
       db_wsola := map_option (ws_reset ops) (db_wsola b)\<rparr>"

section \<open>Invariant\<close>

text \<open>The buffer holds at least two frames, which every maximum delay of two frame times gives.\<close>

definition db_inv :: "nat \<Rightarrow> 'w delay_buf \<Rightarrow> bool" where
  "db_inv spf b \<longleftrightarrow> db_spf b = spf \<and> 0 < spf \<and> cb_inv (db_circ b) \<and>
     cb_capacity (db_circ b) = db_max_cnt b \<and> 2 * spf \<le> db_max_cnt b \<and> db_max_cnt b < 2 ^ 31"

lemma db_invD:
  assumes "db_inv spf b"
  shows "db_spf b = spf" "0 < spf" "cb_inv (db_circ b)" "cb_capacity (db_circ b) = db_max_cnt b"
    "2 * spf \<le> db_max_cnt b" "cb_len (db_circ b) \<le> db_max_cnt b" "db_max_cnt b < 2 ^ 31"
  using assms by (auto simp: db_inv_def cb_inv_def)

lemma db_inv_updates [simp]:
  "db_inv spf (b\<lparr>db_level := n\<rparr>) = db_inv spf b" "db_inv spf (b\<lparr>db_max_level := n\<rparr>) = db_inv spf b"
  "db_inv spf (b\<lparr>db_recalc := t\<rparr>) = db_inv spf b" "db_inv spf (b\<lparr>db_last_op := u\<rparr>) = db_inv spf b"
  "db_inv spf (b\<lparr>db_eff_cnt := n\<rparr>) = db_inv spf b" "db_inv spf (b\<lparr>db_wsola := w\<rparr>) = db_inv spf b"
  by (simp_all add: db_inv_def)

lemma db_inv_circ:
  "db_inv spf b \<Longrightarrow> cb_inv cb \<Longrightarrow> cb_capacity cb = db_max_cnt b \<Longrightarrow> db_inv spf (b\<lparr>db_circ := cb\<rparr>)"
  by (simp add: db_inv_def)

lemma db_drain_frame:
  assumes "db_inv spf b" "cb_len (db_circ b) < spf" "db_drain b = (b', frame)"
  shows "db_inv spf b'" "cb_abs (db_circ b') = []"
    "frame = cb_abs (db_circ b) @ replicate (spf - cb_len (db_circ b)) 0"
proof -
  note I = db_invD [OF assms(1)]
  let ?cb = "pjmedia_circ_buf_adv_read_ptr (db_circ b) (cb_len (db_circ b))"
  note A = pjmedia_circ_buf_adv_read_ptr_abs [OF I(3), of "cb_len (db_circ b)"]
  have r: "pjmedia_circ_buf_read (db_circ b) (cb_len (db_circ b)) = (?cb, Some (cb_abs (db_circ b)))"
    using circ_read_abs [OF I(3), of "cb_len (db_circ b)"] by simp
  have b': "b' = b\<lparr>db_circ := pjmedia_circ_buf_reset ?cb\<rparr>"
    "frame = cb_abs (db_circ b) @ replicate (spf - cb_len (db_circ b)) 0"
    using assms(3) r I(1) by (simp_all add: db_drain_def)
  show "frame = cb_abs (db_circ b) @ replicate (spf - cb_len (db_circ b)) 0" by (rule b'(2))
  show "db_inv spf b'"
    using pjmedia_circ_buf_reset_inv [OF A(1)] A(3) I(4) assms(1)
    by (auto simp: b'(1) intro!: db_inv_circ simp: pjmedia_circ_buf_reset_def)
  show "cb_abs (db_circ b') = []"
    using pjmedia_circ_buf_reset_inv [OF A(1)] by (simp add: b'(1))
qed

lemma db_read_frame_abs:
  assumes "db_inv spf b" "spf \<le> cb_len (db_circ b)" "db_read_frame b old = (b', frame)"
  shows "db_inv spf b'" "frame = take spf (cb_abs (db_circ b))"
    "cb_abs (db_circ b') = drop spf (cb_abs (db_circ b))"
proof -
  note I = db_invD [OF assms(1)]
  let ?cb = "pjmedia_circ_buf_adv_read_ptr (db_circ b) spf"
  note A = pjmedia_circ_buf_adv_read_ptr_abs [OF I(3), of spf]
  have "pjmedia_circ_buf_read (db_circ b) spf = (?cb, Some (take spf (cb_abs (db_circ b))))"
    using circ_read_abs [OF I(3), of spf] assms(2) by simp
  then have b': "b' = b\<lparr>db_circ := ?cb\<rparr>" "frame = take spf (cb_abs (db_circ b))"
    using assms(3) I(1) by (simp_all add: db_read_frame_def)
  show "frame = take spf (cb_abs (db_circ b))" "cb_abs (db_circ b') = drop spf (cb_abs (db_circ b))"
    using A(2) by (simp_all add: b')
  show "db_inv spf b'" using A assms(1) I(4) by (simp add: b' db_inv_circ)
qed

lemma db_make_room:
  assumes "db_inv spf b" "cb_len (db_circ b) + spf > db_max_cnt b"
  shows "db_inv spf (b\<lparr>db_circ := pjmedia_circ_buf_adv_read_ptr (db_circ b)
      (cb_len (db_circ b) + spf - db_max_cnt b)\<rparr>)"
    "cb_abs (pjmedia_circ_buf_adv_read_ptr (db_circ b) (cb_len (db_circ b) + spf - db_max_cnt b)) =
      drop (cb_len (db_circ b) + spf - db_max_cnt b) (cb_abs (db_circ b))"
    "cb_len (pjmedia_circ_buf_adv_read_ptr (db_circ b) (cb_len (db_circ b) + spf - db_max_cnt b)) + spf
      \<le> db_max_cnt b"
proof -
  note I = db_invD [OF assms(1)]
  note A = pjmedia_circ_buf_adv_read_ptr_abs [OF I(3), of "cb_len (db_circ b) + spf - db_max_cnt b"]
  show "db_inv spf (b\<lparr>db_circ := pjmedia_circ_buf_adv_read_ptr (db_circ b)
      (cb_len (db_circ b) + spf - db_max_cnt b)\<rparr>)"
    using A assms(1) I(4) by (simp add: db_inv_circ)
  show "cb_abs (pjmedia_circ_buf_adv_read_ptr (db_circ b) (cb_len (db_circ b) + spf - db_max_cnt b)) =
      drop (cb_len (db_circ b) + spf - db_max_cnt b) (cb_abs (db_circ b))" by (rule A(2))
  have "cb_len (pjmedia_circ_buf_adv_read_ptr (db_circ b) (cb_len (db_circ b) + spf - db_max_cnt b)) =
      cb_len (db_circ b) - (cb_len (db_circ b) + spf - db_max_cnt b)"
    using A(2) by (metis length_cb_abs length_drop)
  then show "cb_len (pjmedia_circ_buf_adv_read_ptr (db_circ b) (cb_len (db_circ b) + spf - db_max_cnt b)) + spf
      \<le> db_max_cnt b" using I assms(2) by simp
qed

lemma db_write_frame:
  assumes "db_inv spf b" "cb_len (db_circ b) + spf \<le> db_max_cnt b" "length frame = spf"
  shows "db_inv spf (b\<lparr>db_circ := fst (pjmedia_circ_buf_write (db_circ b) frame spf)\<rparr>)"
    "cb_abs (fst (pjmedia_circ_buf_write (db_circ b) frame spf)) = cb_abs (db_circ b) @ frame"
proof -
  note I = db_invD [OF assms(1)]
  obtain cb' where "pjmedia_circ_buf_write (db_circ b) frame spf = (cb', PJ_SUCCESS)" "cb_inv cb'"
    "cb_abs cb' = cb_abs (db_circ b) @ take spf frame" "cb_capacity cb' = cb_capacity (db_circ b)"
    using circ_write_abs [OF I(3), of spf frame] assms(2,3) I(4) by fastforce
  then show "db_inv spf (b\<lparr>db_circ := fst (pjmedia_circ_buf_write (db_circ b) frame spf)\<rparr>)"
    "cb_abs (fst (pjmedia_circ_buf_write (db_circ b) frame spf)) = cb_abs (db_circ b) @ frame"
    using assms(1,3) I(4) by (simp_all add: db_inv_circ)
qed

text \<open>What shrinking and the learning of the delay keep of a buffer.\<close>

definition db_drift_ok :: "('w \<Rightarrow> bool) \<Rightarrow> 'w delay_buf \<Rightarrow> bool" where
  "db_drift_ok winv b \<longleftrightarrow> (case db_wsola b of None \<Rightarrow> True | Some w \<Rightarrow> winv w)"

lemma db_drift_ok_simps [simp]:
  "db_wsola b = None \<Longrightarrow> db_drift_ok winv b"
  "db_wsola b = Some w \<Longrightarrow> db_drift_ok winv b = winv w"
  by (simp_all add: db_drift_ok_def)

lemma db_drift_ok_cong: "db_wsola b' = db_wsola b \<Longrightarrow> db_drift_ok winv b' = db_drift_ok winv b"
  by (simp add: db_drift_ok_def)

definition db_shrunk :: "('w \<Rightarrow> bool) \<Rightarrow> nat \<Rightarrow> 'w delay_buf \<Rightarrow> 'w delay_buf \<Rightarrow> bool" where
  "db_shrunk winv spf b b' \<longleftrightarrow> db_inv spf b' \<and> db_drift_ok winv b' \<and>
     cb_len (db_circ b') \<le> cb_len (db_circ b) \<and>
     (db_wsola b = None \<longrightarrow> db_wsola b' = None \<and> db_circ b' = db_circ b) \<and>
     (db_wsola b' = None \<longrightarrow> db_wsola b = None) \<and> db_max_cnt b' = db_max_cnt b"

text \<open>A get learns the delay but never shrinks.\<close>

lemma delay_update_get [simp]:
  "db_circ (delay_update ops b DB_Get) = db_circ b" "db_wsola (delay_update ops b DB_Get) = db_wsola b"
  "db_max_cnt (delay_update ops b DB_Get) = db_max_cnt b" "db_spf (delay_update ops b DB_Get) = db_spf b"
  by (auto simp: delay_update_def Let_def)

lemma delay_update_get_inv [simp]: "db_inv spf (delay_update ops b DB_Get) = db_inv spf b"
  by (simp add: db_inv_def)

context drift_processor
begin

lemma shrink_buffer_shrunk:
  assumes "db_inv spf b" "db_drift_ok winv b" "spf \<le> cb_len (db_circ b)"
  shows "db_shrunk winv spf b (shrink_buffer ops b e)"
proof (cases "db_wsola b")
  case None
  then show ?thesis using assms by (simp add: shrink_buffer_def db_shrunk_def)
next
  case (Some w)
  note I = db_invD [OF assms(1)]
  obtain r1 n1 r2 n2 where R: "pjmedia_circ_buf_get_read_regions (db_circ b) = ((r1, n1), (r2, n2))"
    by (metis surj_pair)
  note A = cb_abs_regions [OF I(3) R]
  obtain w' y1 y2 e' st where D: "ws_discard ops w (samples_at (db_circ b) r1 n1)
      (samples_at (db_circ b) r2 n2) e = (w', y1, y2, e', st)"
    by (metis surj_pair)
  have w: "winv w" using assms(2) Some by simp
  have len: "winv w'" "length y1 = n1" "length y2 = n2"
    using discard_keeps [OF w D] A(3,4) by simp_all
  have e': "e' \<le> cb_len (db_circ b)" if "st = PJ_SUCCESS"
    using discard_count [OF w D [unfolded that]] A(2-4) assms(3) by simp
  define cb where "cb = (db_circ b)\<lparr>cb_buf := write_at (write_at (cb_buf (db_circ b)) r1 y1) r2 y2\<rparr>"
  have cb: "cb_inv cb" "cb_capacity cb = db_max_cnt b" "cb_len cb = cb_len (db_circ b)"
    using I(3,4) A(5-7) len cb_invD [OF I(3)] by (auto simp: cb_inv_def cb_def)
  have u: "usub32 (cb_len cb) e' = cb_len cb - e'" if "st = PJ_SUCCESS"
    using e' [OF that] I(6,7) cb(3) by simp
  have "shrink_buffer ops b e = b\<lparr>db_wsola := Some w', db_circ :=
      (if st = PJ_SUCCESS \<and> e' > 0 then pjmedia_circ_buf_set_len cb (usub32 (cb_len cb) e') else cb)\<rparr>"
    using Some R D by (simp add: shrink_buffer_def cb_def Let_def)
  then show ?thesis
    using cb u pjmedia_circ_buf_set_len_inv [OF cb(1), of "cb_len cb - e'"] assms(1) Some len(1)
    by (auto simp: db_shrunk_def pjmedia_circ_buf_set_len_def intro!: db_inv_circ)
qed

lemma delay_update_shrunk:
  assumes "db_inv spf b" "db_drift_ok winv b"
  shows "db_shrunk winv spf b (delay_update ops b op)"
proof -
  define b1 where "b1 = (if db_level b > db_max_level b then b\<lparr>db_max_level := db_level b\<rparr> else b)"
  define b2 where "b2 = b1\<lparr>db_recalc := db_recalc b1 - int (uwrap (db_level b1 * db_ptime b1) div 2),
      db_last_op := op, db_level := 1\<rparr>"
  define eff where "eff = AGC (db_eff_cnt b2) (uwrap (db_max_level b2 * db_spf b2))"
  define b3 where "b3 = (if db_recalc b2 \<le> 0 then
      b2\<lparr>db_eff_cnt := (if eff mod db_channels b2 \<noteq> 0 then eff + (db_channels b2 - eff mod db_channels b2) else eff),
         db_max_level := 0, db_recalc := RECALC_TIME\<rparr> else b2)"
  have b3: "db_inv spf b3" "db_circ b3 = db_circ b" "db_wsola b3 = db_wsola b" "db_max_cnt b3 = db_max_cnt b"
    "db_spf b3 = spf"
    using assms(1) db_invD(1) [OF assms(1)] by (simp_all add: b3_def b2_def b1_def)
  have w3: "db_drift_ok winv b3" using assms(2) by (simp add: db_drift_ok_cong [OF b3(3)])
  have wl: "db_drift_ok winv (b\<lparr>db_level := n\<rparr>)" for n
    using assms(2) by (simp add: db_drift_ok_def)
  have eq: "delay_update ops b op = (if op = db_last_op b then b\<lparr>db_level := uwrap (db_level b + 1)\<rparr>
      else if op = DB_Put \<and> cb_len (db_circ b3) > db_spf b3 + db_eff_cnt b3
           then shrink_buffer ops b3 (db_spf b3 div 2) else b3)"
    unfolding delay_update_def b3_def eff_def b2_def b1_def Let_def by simp
  have "db_shrunk winv spf b3 (shrink_buffer ops b3 (db_spf b3 div 2))" if "cb_len (db_circ b3) > db_spf b3 + db_eff_cnt b3"
    using that b3 by (intro shrink_buffer_shrunk w3) simp_all
  then show ?thesis
    unfolding eq using assms b3 w3 wl by (auto simp: db_shrunk_def)
qed

text \<open>The frame a put stores, as the drift processor leaves it.\<close>

lemma delay_put:
  assumes "db_inv spf b" "db_drift_ok winv b" "length frame = spf" "pjmedia_delay_buf_put ops b frame = (b', st)"
    and upd: "b1 = delay_update ops b DB_Put"
    and saved: "saved = (case db_wsola b1 of None \<Rightarrow> frame | Some w \<Rightarrow> fst (snd (ws_save ops w frame)))"
  shows "db_inv spf b' \<and> db_drift_ok winv b' \<and> db_max_cnt b' = db_max_cnt b \<and>
    (db_wsola b' = None \<longleftrightarrow> db_wsola b = None) \<and>
    (if st = PJ_SUCCESS
     then \<exists>kept. cb_abs (db_circ b') = kept @ saved \<and> length kept \<le> cb_len (db_circ b1) \<and>
       (cb_len (db_circ b1) + spf \<le> db_max_cnt b \<or> db_wsola b = None \<longrightarrow>
          kept = drop (cb_len (db_circ b1) + spf - db_max_cnt b) (cb_abs (db_circ b1)))
     else cb_abs (db_circ b') = cb_abs (db_circ b1))"
proof -
  define p where "p = (case db_wsola b of
       None \<Rightarrow> (b, frame, PJ_SUCCESS)
     | Some _ \<Rightarrow>
         (let b = delay_update ops b DB_Put
          in case db_wsola b of
               None \<Rightarrow> (b, frame, PJ_SUCCESS)
             | Some w \<Rightarrow> (case ws_save ops w frame of
                 (w', frame', status) \<Rightarrow> (b\<lparr>db_wsola := Some w'\<rparr>, frame', status))))"
  obtain b0 fr s0 where p: "p = (b0, fr, s0)" by (metis surj_pair)
  have sh1: "db_shrunk winv spf b b1" unfolding upd by (rule delay_update_shrunk [OF assms(1,2)])
  have "db_shrunk winv spf b b0 \<and> db_circ b0 = db_circ b1 \<and> fr = saved \<and> length saved = spf"
  proof (cases "db_wsola b")
    case None
    then show ?thesis
      using p sh1 assms(1-3) by (auto simp: p_def db_shrunk_def saved)
  next
    case (Some v)
    then obtain w where w: "db_wsola b1 = Some w" using sh1 by (auto simp: db_shrunk_def)
    obtain w' fr' st' where S: "ws_save ops w frame = (w', fr', st')" by (metis surj_pair)
    have "winv w" using sh1 w by (simp add: db_shrunk_def)
    note K = save_keeps [OF this assms(3) S]
    have "b0 = b1\<lparr>db_wsola := Some w'\<rparr>" "fr = fr'"
      using p Some w S by (simp_all add: p_def flip: upd)
    then show ?thesis using sh1 K w S by (auto simp: db_shrunk_def saved)
  qed
  then have P: "db_shrunk winv spf b b0" "db_circ b0 = db_circ b1" "fr = saved" "length saved = spf"
    by blast+
  have i1: "db_inv spf b0" "db_drift_ok winv b0" "db_max_cnt b0 = db_max_cnt b"
    "db_wsola b0 = None \<longleftrightarrow> db_wsola b = None"
    using P(1) by (auto simp: db_shrunk_def)
  show ?thesis
  proof (cases "s0 = PJ_SUCCESS")
    case False
    then show ?thesis
      using assms(4) i1 p P(2) by (simp add: pjmedia_delay_buf_put_def flip: p_def)
  next
    case True
    define need where "need x = cb_len (db_circ x) + db_spf x - db_max_cnt x" for x :: "'w delay_buf"
    define over where "over x \<longleftrightarrow> cb_len (db_circ x) + db_spf x > db_max_cnt x" for x :: "'w delay_buf"
    define b2 where "b2 = (if over b0 \<and> db_wsola b0 \<noteq> None then shrink_buffer ops b0 (need b0) else b0)"
    define b3 where "b3 = (if over b2 then b2\<lparr>db_circ := pjmedia_circ_buf_adv_read_ptr (db_circ b2) (need b2)\<rparr> else b2)"
    have "db_shrunk winv spf b0 b2"
    proof (cases "over b0 \<and> db_wsola b0 \<noteq> None")
      case True
      then have "spf \<le> cb_len (db_circ b0)"
        using db_invD [OF i1(1)] by (simp add: over_def)
      then show ?thesis using shrink_buffer_shrunk [OF i1(1,2)] True by (simp add: b2_def)
    next
      case False
      then show ?thesis using i1 by (auto simp: b2_def db_shrunk_def)
    qed
    then have i2: "db_inv spf b2" "cb_len (db_circ b2) \<le> cb_len (db_circ b1)" "db_max_cnt b2 = db_max_cnt b"
      "db_wsola b2 = None \<longleftrightarrow> db_wsola b = None" "db_drift_ok winv b2"
      using i1 P(2) by (auto simp: db_shrunk_def)
    have i3: "db_inv spf b3" "cb_len (db_circ b3) + spf \<le> db_max_cnt b3" "cb_len (db_circ b3) \<le> cb_len (db_circ b2)"
      "db_max_cnt b3 = db_max_cnt b2" "db_wsola b3 = db_wsola b2"
      "cb_abs (db_circ b3) = drop (need b2) (cb_abs (db_circ b2))"
    proof -
      have l: "cb_len (db_circ b3) \<le> cb_len (db_circ b2)"
        using pjmedia_circ_buf_adv_read_ptr_abs(2) [OF db_invD(3) [OF i2(1)], of "need b2"]
        by (simp add: b3_def) (metis diff_le_self length_cb_abs length_drop)
      show "db_inv spf b3" "cb_len (db_circ b3) + spf \<le> db_max_cnt b3" "cb_len (db_circ b3) \<le> cb_len (db_circ b2)"
        "db_max_cnt b3 = db_max_cnt b2" "db_wsola b3 = db_wsola b2"
        "cb_abs (db_circ b3) = drop (need b2) (cb_abs (db_circ b2))"
        using l db_make_room [OF i2(1)] i2(1) db_invD(1) [OF i2(1)]
        by (auto simp: b3_def over_def need_def)
    qed
    have drift3: "db_drift_ok winv b3" using i2(5) by (simp add: db_drift_ok_cong [OF i3(5)])
    have R: "b' = b3\<lparr>db_circ := fst (pjmedia_circ_buf_write (db_circ b3) saved spf)\<rparr>" "st = PJ_SUCCESS"
    proof -
      have "pjmedia_delay_buf_put ops b frame =
          (b3\<lparr>db_circ := fst (pjmedia_circ_buf_write (db_circ b3) saved (db_spf b3))\<rparr>, PJ_SUCCESS)"
        unfolding pjmedia_delay_buf_put_def p_def [symmetric] p True P(3)
        by (simp add: b3_def b2_def over_def need_def Let_def)
      then show "b' = b3\<lparr>db_circ := fst (pjmedia_circ_buf_write (db_circ b3) saved spf)\<rparr>" "st = PJ_SUCCESS"
        using assms(4) db_invD(1) [OF i3(1)] by simp_all
    qed
    note W = db_write_frame [OF i3(1,2) P(4)]
    have exact: "cb_abs (db_circ b3) = drop (cb_len (db_circ b1) + spf - db_max_cnt b) (cb_abs (db_circ b1))"
      if "cb_len (db_circ b1) + spf \<le> db_max_cnt b \<or> db_wsola b = None"
    proof -
      have "b2 = b0"
        using that i1(3,4) P(2) db_invD(1) [OF i1(1)] by (auto simp: b2_def over_def)
      then show ?thesis using i3(6) P(2) i1(3) db_invD(1) [OF i1(1)] by (simp add: need_def)
    qed
    have len3: "length (cb_abs (db_circ b3)) \<le> cb_len (db_circ b1)" using i3(3) i2(2) by simp
    have drift': "db_drift_ok winv b'" "db_wsola b' = db_wsola b3" "db_max_cnt b' = db_max_cnt b3"
      using drift3 R(1) by (simp_all add: db_drift_ok_def)
    have inv': "db_inv spf b'" "cb_abs (db_circ b') = cb_abs (db_circ b3) @ saved"
      using W R(1) by simp_all
    show ?thesis
      using inv' drift' len3 exact i2(3,4) i3(4,5) R(2) by auto
  qed
qed

lemma delay_get:
  assumes "db_inv spf b" "db_drift_ok winv b" "pjmedia_delay_buf_get ops b old = (b', frame)"
  shows "db_inv spf b' \<and> db_drift_ok winv b' \<and> (db_wsola b' = None \<longleftrightarrow> db_wsola b = None) \<and> length frame = spf \<and>
    frame @ cb_abs (db_circ b') = cb_abs (db_circ b) @
      (if spf \<le> cb_len (db_circ b) then []
       else case db_wsola b of
           None \<Rightarrow> replicate (spf - cb_len (db_circ b)) 0
         | Some w \<Rightarrow> (case ws_generate ops w of (w', gen, st) \<Rightarrow>
             if st = PJ_SUCCESS then gen else replicate (spf - cb_len (db_circ b)) 0))"
proof -
  define b1 where "b1 = (if db_wsola b \<noteq> None then delay_update ops b DB_Get else b)"
  note get = pjmedia_delay_buf_get_def [of ops b old, unfolded Let_def, folded b1_def]
  have i1: "db_inv spf b1" "db_wsola b1 = db_wsola b" "db_circ b1 = db_circ b"
    using assms(1) by (simp_all add: b1_def)
  note I = db_invD [OF i1(1)]
  have wd: "db_wsola (fst (db_drain x)) = db_wsola x" "db_wsola (fst (db_read_frame x y)) = db_wsola x"
    for x :: "'w delay_buf" and y
    by (simp_all add: db_drain_def db_read_frame_def split: prod.split option.split)
  show ?thesis
  proof (cases "spf \<le> cb_len (db_circ b)")
    case True
    then have r: "db_read_frame b1 old = (b', frame)"
      using assms(3) I(1) i1(3) by (simp add: get)
    note R = db_read_frame_abs [OF i1(1) True [folded i1(3)] r]
    have "db_wsola b' = db_wsola b" using wd(2) [of b1 old] r i1(2) by simp
    then show ?thesis using R True i1 assms(2) db_drift_ok_cong [of b' b] by simp
  next
    case under: False
    have drain: "db_inv spf b' \<and> length frame = spf \<and> db_wsola b' = db_wsola x \<and>
        frame @ cb_abs (db_circ b') = cb_abs (db_circ b) @ replicate (spf - cb_len (db_circ b)) 0"
      if d: "db_drain x = (b', frame)" "db_inv spf x" "db_circ x = db_circ b" for x
    proof -
      note D = db_drain_frame [OF d(2) _ d(1)]
      have "db_wsola b' = db_wsola x" using wd(1) [of x] d(1) by simp
      then show ?thesis using D under d(3) by auto
    qed
    show ?thesis
    proof (cases "db_wsola b")
      case None
      then have "db_drain b1 = (b', frame)"
        using assms(3) I(1) under i1 by (simp add: get)
      from drain [OF this i1(1,3)] show ?thesis using under None i1(2) by simp
    next
      case (Some w)
      have w: "winv w" using assms(2) Some by simp
      obtain w' gen st where G: "ws_generate ops w = (w', gen, st)" by (metis surj_pair)
      note K = generate_keeps [OF w G]
      define b2 where "b2 = b1\<lparr>db_wsola := Some w'\<rparr>"
      have i2: "db_inv spf b2" "db_circ b2 = db_circ b" "db_wsola b2 = Some w'"
        using i1 by (simp_all add: b2_def)
      have eq: "(b', frame) = (if st = PJ_SUCCESS then (if cb_len (db_circ b2) = 0 then (b2, gen)
            else db_read_frame (b2\<lparr>db_circ := fst (pjmedia_circ_buf_write (db_circ b2) gen (db_spf b2))\<rparr>) gen)
          else db_drain b2)"
        using assms(3) [symmetric] I(1) under Some G i1 by (simp add: get b2_def cong: if_cong split del: if_split)
      show ?thesis
      proof (cases "st = PJ_SUCCESS")
        case False
        then have "db_drain b2 = (b', frame)" using eq by simp
        from drain [OF this i2(1,2)] show ?thesis using under Some G False K i2(3) by simp
      next
        case True
        have lg: "length gen = spf" using K True by blast
        show ?thesis
        proof (cases "cb_len (db_circ b2) = 0")
          case True
          then have "cb_abs (db_circ b2) = []" by (simp flip: length_0_conv)
          then show ?thesis
            using eq \<open>st = PJ_SUCCESS\<close> True i2 lg under K Some G by simp
        next
          case False
          define b3 where "b3 = b2\<lparr>db_circ := fst (pjmedia_circ_buf_write (db_circ b2) gen spf)\<rparr>"
          have "cb_len (db_circ b2) + spf \<le> db_max_cnt b2"
            using under i2(2) db_invD(5) [OF i2(1)] by simp
          note W = db_write_frame [OF i2(1) this lg, folded b3_def]
          have a3: "cb_abs (db_circ b3) = cb_abs (db_circ b) @ gen" using W(2) i2(2) by (simp add: b3_def)
          then have l3: "spf \<le> cb_len (db_circ b3)" using lg by (metis le_add2 length_append length_cb_abs)
          have r: "db_read_frame b3 gen = (b', frame)"
            using eq \<open>st = PJ_SUCCESS\<close> False db_invD(1) [OF i2(1)] by (simp add: b3_def)
          note R = db_read_frame_abs [OF W(1) l3 r]
          have w': "db_wsola b' = Some w'" using wd(2) [of b3 gen] r i2(3) by (simp add: b3_def)
          have "frame @ cb_abs (db_circ b') = cb_abs (db_circ b) @ gen"
            unfolding R(2,3) a3 by (rule append_take_drop_id)
          moreover have "length frame = spf" using R(2) l3 by simp
          ultimately show ?thesis
            using R(1) w' K under Some G \<open>st = PJ_SUCCESS\<close> by simp
        qed
      qed
    qed
  qed
qed

end

section \<open>The simple queue\<close>

lemma fifo_put:
  assumes "db_inv spf b" "db_wsola b = None" "length frame = spf" "cb_len (db_circ b) + spf \<le> db_max_cnt b"
  shows "\<exists>b'. pjmedia_delay_buf_put ops b frame = (b', PJ_SUCCESS) \<and> db_inv spf b' \<and> db_wsola b' = None \<and>
    cb_abs (db_circ b') = cb_abs (db_circ b) @ frame"
proof -
  have "pjmedia_delay_buf_put ops b frame =
      (b\<lparr>db_circ := fst (pjmedia_circ_buf_write (db_circ b) frame spf)\<rparr>, PJ_SUCCESS)"
    using assms db_invD(1) [OF assms(1)] by (simp add: pjmedia_delay_buf_put_def)
  then show ?thesis
    using db_write_frame [OF assms(1,4,3)] assms(2) by simp
qed

lemma fifo_get:
  assumes "db_inv spf b" "db_wsola b = None" "spf \<le> cb_len (db_circ b)"
  shows "\<exists>b'. pjmedia_delay_buf_get ops b old = (b', take spf (cb_abs (db_circ b))) \<and> db_inv spf b' \<and>
    db_wsola b' = None \<and> cb_abs (db_circ b') = drop spf (cb_abs (db_circ b))"
proof -
  obtain b' frame where r: "db_read_frame b old = (b', frame)" by fastforce
  note R = db_read_frame_abs [OF assms(1,3) r]
  have "db_wsola b' = db_wsola b"
    using r by (auto simp: db_read_frame_def split: prod.splits option.splits)
  moreover have "pjmedia_delay_buf_get ops b old = (b', frame)"
    using assms(2,3) r db_invD(1) [OF assms(1)] by (simp add: pjmedia_delay_buf_get_def)
  ultimately show ?thesis using R assms(2) by simp
qed

datatype delay_event = Ev_DPut "s16 list" | Ev_DGet

fun delay_step :: "'w wsola_ops \<Rightarrow> 'w delay_buf \<Rightarrow> delay_event \<Rightarrow> 'w delay_buf \<times> s16 list list" where
  "delay_step ops b (Ev_DPut frame) = (fst (pjmedia_delay_buf_put ops b frame), [])"
| "delay_step ops b Ev_DGet =
     (case pjmedia_delay_buf_get ops b [] of (b', frame) \<Rightarrow> (b', [frame]))"

fun delay_ok :: "nat \<Rightarrow> 'w delay_buf \<Rightarrow> delay_event \<Rightarrow> bool" where
  "delay_ok spf b (Ev_DPut frame) \<longleftrightarrow> length frame = spf \<and> cb_len (db_circ b) + spf \<le> db_max_cnt b"
| "delay_ok spf b Ev_DGet \<longleftrightarrow> spf \<le> cb_len (db_circ b)"

fun samples_put :: "delay_event list \<Rightarrow> s16 list" where
  "samples_put [] = []"
| "samples_put (Ev_DPut frame # es) = frame @ samples_put es"
| "samples_put (Ev_DGet # es) = samples_put es"

lemma fifo_run:
  assumes "db_inv spf b" "db_wsola b = None" "guarded (delay_step ops) (delay_ok spf) b es"
    "orun (delay_step ops) b es = (b', outs)"
  shows "concat outs @ cb_abs (db_circ b') = cb_abs (db_circ b) @ samples_put es"
  using assms
proof (induction es arbitrary: b b' outs)
  case Nil
  then show ?case by simp
next
  case (Cons e es)
  show ?case
  proof (cases e)
    case (Ev_DPut frame)
    then obtain b1 where b1: "pjmedia_delay_buf_put ops b frame = (b1, PJ_SUCCESS)" "db_inv spf b1"
      "db_wsola b1 = None" "cb_abs (db_circ b1) = cb_abs (db_circ b) @ frame"
      using fifo_put [OF Cons.prems(1,2), of frame ops] Cons.prems(3) by auto
    have "guarded (delay_step ops) (delay_ok spf) b1 es" using Cons.prems(3) Ev_DPut b1(1) by simp
    from Cons.IH [OF b1(2,3) this, of b' outs] show ?thesis
      using Cons.prems(4) Ev_DPut b1 by (auto split: prod.splits)
  next
    case Ev_DGet
    then obtain b1 where b1: "pjmedia_delay_buf_get ops b [] = (b1, take spf (cb_abs (db_circ b)))" "db_inv spf b1"
      "db_wsola b1 = None" "cb_abs (db_circ b1) = drop spf (cb_abs (db_circ b))"
      using fifo_get [OF Cons.prems(1,2), of ops "[]"] Cons.prems(3) by auto
    have g: "guarded (delay_step ops) (delay_ok spf) b1 es" using Cons.prems(3) Ev_DGet b1(1) by simp
    obtain outs' where o: "orun (delay_step ops) b1 es = (b', outs')" "outs = take spf (cb_abs (db_circ b)) # outs'"
      using Cons.prems(4) Ev_DGet b1(1) by (auto split: prod.splits)
    from Cons.IH [OF b1(2,3) g o(1)] show ?thesis
      using Ev_DGet b1(4) o(2) by (metis append_assoc append_take_drop_id concat.simps(2) samples_put.simps(3))
  qed
qed

lemma create_inv:
  assumes "pjmedia_delay_buf_create rate spf chans max_delay ws = Some (Inr b)"
    "2 * (uwrap (spf * 1000) div rate div chans) \<le> max_delay" "spf * max_delay < 2 ^ 31"
  shows "db_inv spf b \<and> db_wsola b = ws \<and> cb_abs (db_circ b) = []"
proof -
  define p where "p = uwrap (spf * 1000) div rate div chans"
  have ok: "spf \<noteq> 0" "p \<noteq> 0" "\<not> max_delay < p"
    and b: "b = \<lparr>db_spf = spf, db_ptime = p, db_channels = chans,
                    db_circ = pjmedia_circ_buf_create (spf * max_delay div p), db_max_cnt = spf * max_delay div p,
                    db_eff_cnt = spf * max_delay div p div 2, db_level = 0, db_last_op = DB_Put,
                    db_recalc = RECALC_TIME, db_max_level = 0, db_wsola = ws\<rparr>"
    using assms unfolding pjmedia_delay_buf_create_def Let_def p_def [symmetric]
    by (auto split: if_splits)
  have "2 * spf * p \<le> spf * max_delay" using assms(2) by (simp add: p_def)
  then have "2 * spf \<le> spf * max_delay div p" using ok(2) by (simp add: less_eq_div_iff_mult_less_eq)
  moreover have "spf * max_delay div p < 2 ^ 31" using assms(3) by (meson div_le_dividend le_less_trans)
  ultimately show ?thesis
    using ok pjmedia_circ_buf_create_inv [of "spf * max_delay div p"]
    by (auto simp: b db_inv_def pjmedia_circ_buf_create_def)
qed

section \<open>Properties\<close>


definition delay_demo :: "nat delay_buf" where
  "delay_demo = \<lparr>db_spf = 2, db_ptime = 1, db_channels = 1, db_circ = pjmedia_circ_buf_create 5,
     db_max_cnt = 5, db_eff_cnt = 2, db_level = 0, db_last_op = DB_Put, db_recalc = RECALC_TIME,
     db_max_level = 0, db_wsola = Some 2\<rparr>"

lemma delay_demo_inv: "db_inv 2 delay_demo" "db_drift_ok ((=) 2) delay_demo"
  by (simp_all add: delay_demo_def db_inv_def cb_inv_def pjmedia_circ_buf_create_def)


text \<open>C10. A get on a well-formed delay buffer always hands out a whole frame, and the frame and what then stays in the buffer are
  the buffered samples, oldest first, followed by nothing when a whole frame was buffered, and otherwise by the frame the drift processor generates, or,
  in a simple queue or when the generation fails, by the zero samples that fill up the frame.\<close>

theorem delay_get_full_frame:
  assumes "drift_processor ops winv spf" "db_inv spf b" "db_drift_ok winv b"
    and "pjmedia_delay_buf_get ops b old = (b', frame)"
  shows "db_inv spf b' \<and> db_drift_ok winv b' \<and> length frame = spf \<and>
    frame @ cb_abs (db_circ b') = cb_abs (db_circ b) @
      (if spf \<le> cb_len (db_circ b) then []
       else case db_wsola b of
           None \<Rightarrow> replicate (spf - cb_len (db_circ b)) 0
         | Some w \<Rightarrow> (case ws_generate ops w of (w', gen, st) \<Rightarrow>
             if st = PJ_SUCCESS then gen else replicate (spf - cb_len (db_circ b)) 0))"
  using drift_processor.delay_get [OF assms] by blast

theorem delay_get_full_frame_witness:
  "\<exists>b' frame. pjmedia_delay_buf_get wsola_null delay_demo [] = (b', frame) \<and>
    db_inv 2 b' \<and> length frame = 2 \<and> frame @ cb_abs (db_circ b') = [0, 0]"
proof -
  obtain b' frame where g: "pjmedia_delay_buf_get wsola_null delay_demo [] = (b', frame)" by fastforce
  note F = delay_get_full_frame [OF null_drift.drift_processor_axioms delay_demo_inv g]
  have "cb_len (db_circ delay_demo) = 0" "db_wsola delay_demo = Some 2"
    by (simp_all add: delay_demo_def pjmedia_circ_buf_create_def)
  moreover from this have "cb_abs (db_circ delay_demo) = []" by (simp flip: length_0_conv)
  ultimately show ?thesis
    using F g by (simp add: wsola_null_def numeral_2_eq_2)
qed

text \<open>C11. A delay buffer created as a simple queue, with room for at least two frames, loses, adds and reorders nothing in any run
  whose puts find room and whose gets find a frame: the frames handed out, and then what is left, are exactly the samples put.\<close>

theorem delay_fifo_lossless:
  assumes "pjmedia_delay_buf_create rate spf chans max_delay None = Some (Inr b)"
    and "2 * (uwrap (spf * 1000) div rate div chans) \<le> max_delay" "spf * max_delay < 2 ^ 31"
    and "guarded (delay_step ops) (delay_ok spf) b es" "orun (delay_step ops) b es = (b', outs)"
  shows "concat outs @ cb_abs (db_circ b') = samples_put es"
  using fifo_run [OF _ _ assms(4,5)] create_inv [OF assms(1-3)] by simp

theorem delay_fifo_lossless_witness:
  "\<exists>b b' outs. pjmedia_delay_buf_create 1000 2 1 4 (None :: nat option) = Some (Inr b) \<and>
    orun (delay_step wsola_null) b [Ev_DPut [7, 8], Ev_DGet] = (b', outs) \<and>
    concat outs @ cb_abs (db_circ b') = samples_put [Ev_DPut [7, 8], Ev_DGet]"
proof -
  obtain b where b: "pjmedia_delay_buf_create 1000 2 1 4 (None :: nat option) = Some (Inr b)"
    by (simp add: pjmedia_delay_buf_create_def)
  have inv: "db_inv 2 b" "db_wsola b = None" "cb_abs (db_circ b) = []"
    using create_inv [OF b] by auto
  then have len: "cb_len (db_circ b) = 0" by (metis length_cb_abs list.size(3))
  have "cb_len (db_circ b) + 2 \<le> db_max_cnt b" using db_invD(5) [OF inv(1)] len by simp
  from fifo_put [OF inv(1,2) _ this, of "[7, 8]" "wsola_null"] obtain b1 where b1:
    "pjmedia_delay_buf_put wsola_null b [7, 8] = (b1, PJ_SUCCESS)"
    "cb_abs (db_circ b1) = cb_abs (db_circ b) @ [7, 8]" by auto
  have "cb_len (db_circ b1) = 2" using b1(2) inv(3) by (metis append_Nil length_cb_abs length_Cons list.size(3) numeral_2_eq_2)
  then have "guarded (delay_step wsola_null) (delay_ok 2) b [Ev_DPut [7, 8], Ev_DGet]"
    using \<open>cb_len (db_circ b) + 2 \<le> db_max_cnt b\<close> b1(1) by simp
  moreover obtain b' outs where "orun (delay_step wsola_null) b [Ev_DPut [7, 8], Ev_DGet] = (b', outs)"
    by fastforce
  moreover note delay_fifo_lossless [OF b _ _ calculation]
  ultimately show ?thesis using b by (intro exI [of _ b] exI [of _ b'] exI [of _ outs]) simp
qed

text \<open>C12. \<open>pjmedia_delay_buf_create\<close> divides by zero exactly for nonzero arguments whose frame,
  as computed in 32 bits, lasts less than a millisecond.\<close>

theorem delay_create_divides_by_zero:
  "pjmedia_delay_buf_create rate spf chans max_delay ws = None \<longleftrightarrow>
     0 < spf \<and> 0 < rate \<and> 0 < chans \<and> spf * 1000 mod 2 ^ 32 < rate * chans"
proof -
  have *: "n div rate div chans = 0 \<longleftrightarrow> n < rate * chans" if "0 < rate" "0 < chans" for n :: nat
    using that by (simp add: div_eq_0_iff div_less_iff_less_mult flip: div_mult2_eq)
  show ?thesis
  proof (cases "spf = 0 \<or> rate = 0 \<or> chans = 0")
    case True
    then show ?thesis by (auto simp: pjmedia_delay_buf_create_def)
  next
    case False
    define p where "p = uwrap (spf * 1000)"
    have "pjmedia_delay_buf_create rate spf chans max_delay ws = None \<longleftrightarrow> p div rate div chans = 0"
      unfolding pjmedia_delay_buf_create_def Let_def p_def [symmetric] using False
      by (simp split: if_split)
    also have "\<dots> \<longleftrightarrow> p < rate * chans" using False by (intro *) simp_all
    finally show ?thesis unfolding p_def using False neq0_conv by metis
  qed
qed

text \<open>\<open>pjmedia_circ_buf_pack_buffer\<close> always returns. It refuses exactly a full buffer that does not start at index 0; otherwise
  it rolls the samples in place, without changing their sequence, until they start at the first slot of the array.\<close>

theorem circ_pack_in_place:
  assumes "cb_inv cb"
  shows "\<exists>cb' st. pjmedia_circ_buf_pack_buffer cb = Some (cb', st) \<and> cb_inv cb' \<and> cb_abs cb' = cb_abs cb \<and>
    (st = PJ_ETOOBIG \<longleftrightarrow> cb_len cb = cb_capacity cb \<and> cb_start cb \<noteq> 0) \<and>
    (st \<noteq> PJ_ETOOBIG \<longrightarrow> cb_start cb' = 0 \<and> take (cb_len cb) (cb_buf cb') = cb_abs cb)"
  using circ_pack_abs [OF assms] by blast

theorem circ_pack_in_place_witness:
  "let cb = \<lparr>cb_buf = [3, 0, 1, 2], cb_capacity = 4, cb_start = 2, cb_len = 3\<rparr> in
    \<exists>cb' st. pjmedia_circ_buf_pack_buffer cb = Some (cb', st) \<and> cb_inv cb' \<and> cb_abs cb' = cb_abs cb \<and>
    (st = PJ_ETOOBIG \<longleftrightarrow> cb_len cb = cb_capacity cb \<and> cb_start cb \<noteq> 0) \<and>
    (st \<noteq> PJ_ETOOBIG \<longrightarrow> cb_start cb' = 0 \<and> take (cb_len cb) (cb_buf cb') = cb_abs cb)"
  unfolding Let_def by (rule circ_pack_in_place) (simp add: cb_inv_def)

end
