(* ===== verification/Timer_Heap.thy ===== *)
theory Timer_Heap
  imports Time_Val Machine "HOL-Library.Multiset"
begin

text \<open>
  The timer heap (\<open>pjlib/src/pj/timer.c\<close>): entries ordered by expiry in a binary heap in an array,
  with a parallel array that finds an entry's slot from its timer id and at the same time threads
  the free ids into a list of negated links. The timer entries and the group locks are objects of
  the application that the heap writes to; a pointer to one is a number, and the state holds their
  contents. Reads past the end of an array are outcomes of the model (\<open>None\<close>). Allocations from the
  pool are taken to succeed. The heap's own lock, which makes every call atomic except for the
  callbacks, is left out, and the callbacks are a parameter of \<open>pj_timer_heap_poll\<close>.
\<close>

section \<open>State\<close>

record timer_entry =
  te_id :: int
  te_cb :: bool
  te_timer_id :: int
  te_value :: pj_time_val
  te_grp :: "nat option"

text \<open>A slot of \<open>heap\<close> that has not been written yet holds 0; it is never read.\<close>

record timer_heap =
  th_max :: nat
  th_cur :: nat
  th_per_poll :: nat
  th_slots :: "nat list"
  th_ids :: "int list"
  th_free :: int
  th_entry :: "nat \<Rightarrow> timer_entry"
  th_refs :: "nat \<Rightarrow> int"

definition HEAP_PARENT :: "nat \<Rightarrow> nat" where
  "HEAP_PARENT x = (if x = 0 then 0 else (x - 1) div 2)"

definition HEAP_LEFT :: "nat \<Rightarrow> nat" where
  "HEAP_LEFT x = x + x + 1"

abbreviation th_val :: "timer_heap \<Rightarrow> nat \<Rightarrow> pj_time_val" where
  "th_val h e \<equiv> te_value (th_entry h e)"

abbreviation th_tid :: "timer_heap \<Rightarrow> nat \<Rightarrow> int" where
  "th_tid h e \<equiv> te_timer_id (th_entry h e)"

definition set_entry :: "timer_heap \<Rightarrow> nat \<Rightarrow> (timer_entry \<Rightarrow> timer_entry) \<Rightarrow> timer_heap" where
  "set_entry h e f = h\<lparr>th_entry := (th_entry h)(e := f (th_entry h e))\<rparr>"

section \<open>The heap array and the free list\<close>

definition copy_node :: "timer_heap \<Rightarrow> nat \<Rightarrow> nat \<Rightarrow> timer_heap" where
  "copy_node h slot moved_node =
     h\<lparr>th_slots := (th_slots h)[slot := moved_node],
       th_ids := (th_ids h)[nat (th_tid h moved_node) := int slot]\<rparr>"

definition pop_freelist :: "timer_heap \<Rightarrow> (timer_heap \<times> int) option" where
  "pop_freelist h =
     (if 0 \<le> th_free h \<and> nat (th_free h) < length (th_ids h)
      then Some (h\<lparr>th_free := - (th_ids h ! nat (th_free h))\<rparr>, th_free h)
      else None)"

definition push_freelist :: "timer_heap \<Rightarrow> int \<Rightarrow> timer_heap" where
  "push_freelist h old_id = h\<lparr>th_ids := (th_ids h)[nat old_id := - th_free h], th_free := old_id\<rparr>"

lemma copy_node_simps [simp]:
  "th_cur (copy_node h s m) = th_cur h" "th_max (copy_node h s m) = th_max h"
  "th_entry (copy_node h s m) = th_entry h" "th_free (copy_node h s m) = th_free h"
  "th_refs (copy_node h s m) = th_refs h" "th_per_poll (copy_node h s m) = th_per_poll h"
  by (simp_all add: copy_node_def)

text \<open>
  \<open>reheap_down\<close> is called with \<open>child = HEAP_LEFT(slot)\<close> and \<open>reheap_up\<close> with
  \<open>parent = HEAP_PARENT(slot)\<close>, and their loops keep it so; the two arguments are computed here.
\<close>

definition smaller_child :: "timer_heap \<Rightarrow> nat \<Rightarrow> nat" where
  "smaller_child h child =
     (if child + 1 < th_cur h \<and> th_val h (th_slots h ! (child + 1)) < th_val h (th_slots h ! child)
      then child + 1 else child)"

function reheap_down :: "timer_heap \<Rightarrow> nat \<Rightarrow> nat \<Rightarrow> timer_heap" where
  "reheap_down h moved_node slot =
     (if HEAP_LEFT slot < th_cur h then
        (let child = smaller_child h (HEAP_LEFT slot)
         in if th_val h (th_slots h ! child) < th_val h moved_node
            then reheap_down (copy_node h slot (th_slots h ! child)) moved_node child
            else copy_node h slot moved_node)
      else copy_node h slot moved_node)"
  by auto
termination
  by (relation "measure (\<lambda>(h, m, slot). th_cur h - slot)") (auto simp: smaller_child_def HEAP_LEFT_def)

function reheap_up :: "timer_heap \<Rightarrow> nat \<Rightarrow> nat \<Rightarrow> timer_heap" where
  "reheap_up h moved_node slot =
     (if slot > 0 \<and> th_val h moved_node < th_val h (th_slots h ! HEAP_PARENT slot)
      then reheap_up (copy_node h slot (th_slots h ! HEAP_PARENT slot)) moved_node (HEAP_PARENT slot)
      else copy_node h slot moved_node)"
  by auto
termination
  by (relation "measure (\<lambda>(h, m, slot). slot)") (auto simp: HEAP_PARENT_def)

declare reheap_down.simps [simp del] reheap_up.simps [simp del]

definition remove_node :: "timer_heap \<Rightarrow> nat \<Rightarrow> timer_heap \<times> nat" where
  "remove_node h slot =
     (let removed_node = th_slots h ! slot;
          h = push_freelist h (th_tid h removed_node);
          h = h\<lparr>th_cur := th_cur h - 1\<rparr>;
          h = set_entry h removed_node (te_timer_id_update (\<lambda>_. - 1))
      in if slot < th_cur h then
           (let moved_node = th_slots h ! th_cur h;
                h = copy_node h slot moved_node
            in (if th_val h moved_node \<ge> th_val h (th_slots h ! HEAP_PARENT slot)
                then reheap_down h moved_node slot
                else reheap_up h moved_node slot, removed_node))
         else (h, removed_node))"

definition grow_heap :: "timer_heap \<Rightarrow> timer_heap" where
  "grow_heap h =
     h\<lparr>th_slots := th_slots h @ replicate (th_max h) 0,
       th_ids := th_ids h @ map (\<lambda>i. - int (i + 1)) [th_max h..<2 * th_max h],
       th_max := 2 * th_max h\<rparr>"

definition insert_node :: "timer_heap \<Rightarrow> nat \<Rightarrow> timer_heap" where
  "insert_node h new_node =
     (let h = (if th_cur h + 2 \<ge> th_max h then grow_heap h else h);
          h = reheap_up h new_node (th_cur h)
      in h\<lparr>th_cur := th_cur h + 1\<rparr>)"

definition schedule_entry :: "timer_heap \<Rightarrow> nat \<Rightarrow> pj_time_val \<Rightarrow> (timer_heap \<times> pj_status) option" where
  "schedule_entry h entry future_time =
     (if th_cur h < th_max h then
        (case pop_freelist h of
           None \<Rightarrow> None
         | Some (h, new_id) \<Rightarrow>
             Some (insert_node (set_entry h entry (\<lambda>t. t\<lparr>te_timer_id := new_id, te_value := future_time\<rparr>)) entry,
                   PJ_SUCCESS))
      else Some (h, PJ_NEG1))"

text \<open>
  \<open>cancel\<close> is only called with \<open>F_DONT_CALL\<close>, so the heap's own callback is never called.
  \<open>None\<close> is a read past the end of \<open>timer_ids\<close> or \<open>heap\<close>: the range check lets the id \<open>max_size\<close> pass.
\<close>

definition cancel_entry :: "timer_heap \<Rightarrow> nat \<Rightarrow> (timer_heap \<times> nat) option" where
  "cancel_entry h entry =
     (let tid = th_tid h entry; idle = set_entry h entry (te_timer_id_update (\<lambda>_. - 1))
      in if tid < 0 \<or> nat tid > th_max h then Some (idle, 0)
         else if nat tid \<ge> length (th_ids h) then None
         else
           (let slot = th_ids h ! nat tid
            in if slot < 0 then Some (idle, 0)
               else if nat slot \<ge> length (th_slots h) then None
               else if entry \<noteq> th_slots h ! nat slot then Some (idle, 0)
               else Some (fst (remove_node h (nat slot)), 1)))"

section \<open>The calls\<close>

definition DEFAULT_MAX_TIMED_OUT_PER_POLL :: nat where "DEFAULT_MAX_TIMED_OUT_PER_POLL = 64"

text \<open>\<open>entries\<close> and \<open>refs\<close> are the application's timer entries and group lock counters.\<close>

definition pj_timer_heap_create :: "nat \<Rightarrow> (nat \<Rightarrow> timer_entry) \<Rightarrow> (nat \<Rightarrow> int) \<Rightarrow> timer_heap" where
  "pj_timer_heap_create cnt entries refs =
     \<lparr>th_max = cnt + 2, th_cur = 0, th_per_poll = DEFAULT_MAX_TIMED_OUT_PER_POLL,
      th_slots = replicate (cnt + 2) 0, th_ids = map (\<lambda>i. - int (i + 1)) [0..<cnt + 2],
      th_free = 1, th_entry = entries, th_refs = refs\<rparr>"

definition pj_timer_heap_set_max_timed_out_per_poll :: "timer_heap \<Rightarrow> nat \<Rightarrow> timer_heap \<times> nat" where
  "pj_timer_heap_set_max_timed_out_per_poll h cnt = (h\<lparr>th_per_poll := cnt\<rparr>, th_per_poll h)"

definition pj_timer_entry_init :: "int \<Rightarrow> bool \<Rightarrow> timer_entry \<Rightarrow> timer_entry" where
  "pj_timer_entry_init id_val cb t = t\<lparr>te_timer_id := - 1, te_id := id_val, te_cb := cb, te_grp := None\<rparr>"

definition pj_timer_entry_running :: "timer_heap \<Rightarrow> nat \<Rightarrow> bool" where
  "pj_timer_entry_running h entry \<longleftrightarrow> th_tid h entry \<ge> 1"

definition grp_lock_add_ref :: "nat option \<Rightarrow> int \<Rightarrow> timer_heap \<Rightarrow> timer_heap" where
  "grp_lock_add_ref grp n h =
     (case grp of None \<Rightarrow> h | Some g \<Rightarrow> h\<lparr>th_refs := (th_refs h)(g := th_refs h g + n)\<rparr>)"

definition schedule_w_grp_lock ::
  "timer_heap \<Rightarrow> pj_time_val \<Rightarrow> nat \<Rightarrow> pj_time_val \<Rightarrow> bool \<Rightarrow> int \<Rightarrow> nat option \<Rightarrow> (timer_heap \<times> pj_status) option" where
  "schedule_w_grp_lock h now entry delay set_id id_val grp_lock =
     (if \<not> te_cb (th_entry h entry) then Some (h, PJ_EINVAL)
      else if th_tid h entry \<ge> 1 then Some (h, PJ_EINVALIDOP)
      else
        (case schedule_entry h entry (PJ_TIME_VAL_ADD now delay) of
           None \<Rightarrow> None
         | Some (h, status) \<Rightarrow>
             Some (if status = PJ_SUCCESS
                   then grp_lock_add_ref grp_lock 1
                     (set_entry h entry (\<lambda>t. t\<lparr>te_id := (if set_id then id_val else te_id t), te_grp := grp_lock\<rparr>))
                   else h, status)))"

definition pj_timer_heap_schedule ::
  "timer_heap \<Rightarrow> pj_time_val \<Rightarrow> nat \<Rightarrow> pj_time_val \<Rightarrow> (timer_heap \<times> pj_status) option" where
  "pj_timer_heap_schedule h now entry delay = schedule_w_grp_lock h now entry delay False 1 None"

definition pj_timer_heap_schedule_w_grp_lock ::
  "timer_heap \<Rightarrow> pj_time_val \<Rightarrow> nat \<Rightarrow> pj_time_val \<Rightarrow> int \<Rightarrow> nat option \<Rightarrow> (timer_heap \<times> pj_status) option" where
  "pj_timer_heap_schedule_w_grp_lock h now entry delay id_val grp_lock =
     schedule_w_grp_lock h now entry delay True id_val grp_lock"

definition cancel_timer :: "timer_heap \<Rightarrow> nat \<Rightarrow> bool \<Rightarrow> int \<Rightarrow> (timer_heap \<times> nat) option" where
  "cancel_timer h entry set_id id_val =
     (case cancel_entry h entry of
        None \<Rightarrow> None
      | Some (h, cnt) \<Rightarrow>
          (let h = (if set_id then set_entry h entry (te_id_update (\<lambda>_. id_val)) else h);
               grp_lock = te_grp (th_entry h entry)
           in Some (grp_lock_add_ref grp_lock (- 1) (set_entry h entry (te_grp_update (\<lambda>_. None))), cnt)))"

definition pj_timer_heap_cancel :: "timer_heap \<Rightarrow> nat \<Rightarrow> (timer_heap \<times> nat) option" where
  "pj_timer_heap_cancel h entry = cancel_timer h entry False 0"

definition pj_timer_heap_cancel_if_active :: "timer_heap \<Rightarrow> nat \<Rightarrow> int \<Rightarrow> (timer_heap \<times> nat) option" where
  "pj_timer_heap_cancel_if_active h entry id_val = cancel_timer h entry True id_val"

text \<open>
  The loop of \<open>pj_timer_heap_poll\<close>. A callback gets the heap and the state of the application, and
  returns both; \<open>fired\<close> collects the entries whose timers have expired, so its
  length is \<open>count\<close>. A callback may change the heap and the number of entries per poll, so that the
  loop need not end. The result is \<open>None\<close> when it does not, or reads past the end of \<open>timer_ids\<close>.
\<close>

partial_function (option) poll_loop ::
  "(nat \<Rightarrow> timer_heap \<Rightarrow> 'a \<Rightarrow> (timer_heap \<times> 'a) option) \<Rightarrow> pj_time_val \<Rightarrow> timer_heap \<Rightarrow> 'a \<Rightarrow>
   nat list \<Rightarrow> (timer_heap \<times> 'a \<times> nat list) option" where
  "poll_loop cb now h app fired =
     (if 0 < th_cur h \<and> th_val h (th_slots h ! 0) \<le> now \<and> length fired < th_per_poll h
      then
        (let node = snd (remove_node h 0); h = fst (remove_node h 0)
         in Option.bind (pop_freelist h)
           (\<lambda>(h, node_timer_id).
              let grp_lock = te_grp (th_entry h node);
                  h = set_entry h node (te_grp_update (\<lambda>_. None))
              in Option.bind (if te_cb (th_entry h node) then cb node h app else Some (h, app))
                (\<lambda>(h, app). poll_loop cb now (push_freelist (grp_lock_add_ref grp_lock (- 1) h) node_timer_id)
                       app (fired @ [node]))))
      else Some (h, app, fired))"

declare poll_loop.simps [code]

definition PJ_MAXINT32 :: int where "PJ_MAXINT32 = 2147483647"

text \<open>The first test returns early only when the caller asks for the next delay.\<close>

definition pj_timer_heap_poll ::
  "(nat \<Rightarrow> timer_heap \<Rightarrow> 'a \<Rightarrow> (timer_heap \<times> 'a) option) \<Rightarrow> pj_time_val \<Rightarrow> timer_heap \<Rightarrow> 'a \<Rightarrow> bool \<Rightarrow>
   (timer_heap \<times> 'a \<times> nat list \<times> pj_time_val option) option" where
  "pj_timer_heap_poll cb now h app want_delay =
     (if th_cur h = 0 \<and> want_delay then Some (h, app, [], Some (Time_Val PJ_MAXINT32 PJ_MAXINT32))
      else
        (case poll_loop cb now h app [] of
           None \<Rightarrow> None
         | Some (h, app, fired) \<Rightarrow>
             Some (h, app, fired,
               if \<not> want_delay then None
               else if th_cur h > 0 then
                 (let d = PJ_TIME_VAL_SUB (th_val h (th_slots h ! 0)) now
                  in Some (if tv_sec d < 0 \<or> tv_msec d < 0 then Time_Val 0 0 else d))
               else Some (Time_Val PJ_MAXINT32 PJ_MAXINT32))))"

definition pj_timer_heap_count :: "timer_heap \<Rightarrow> nat" where
  "pj_timer_heap_count h = th_cur h"

definition pj_timer_heap_earliest_time :: "timer_heap \<Rightarrow> pj_status + pj_time_val" where
  "pj_timer_heap_earliest_time h =
     (if th_cur h = 0 then Inl PJ_ENOTFOUND else Inr (th_val h (th_slots h ! 0)))"

section \<open>Sifting in a list\<close>

text \<open>
  Both loops move a node through the heap by copying others into the place it leaves. Seen on the
  list that has the moved node in that place, each round is a swap. \<open>heap_upto f vs k\<close> is the heap order
  but for node \<open>k\<close> being possibly smaller than its parent, \<open>heap_downto f vs k\<close> but for \<open>k\<close> being
  possibly larger than its children.
\<close>

definition heap_ordered :: "('a \<Rightarrow> 'b::linorder) \<Rightarrow> 'a list \<Rightarrow> bool" where
  "heap_ordered f vs \<longleftrightarrow> (\<forall>i. 0 < i \<and> i < length vs \<longrightarrow> f (vs ! HEAP_PARENT i) \<le> f (vs ! i))"

definition heap_upto :: "('a \<Rightarrow> 'b::linorder) \<Rightarrow> 'a list \<Rightarrow> nat \<Rightarrow> bool" where
  "heap_upto f vs k \<longleftrightarrow>
     (\<forall>i. 0 < i \<and> i < length vs \<and> i \<noteq> k \<longrightarrow> f (vs ! HEAP_PARENT i) \<le> f (vs ! i)) \<and>
     (\<forall>i. 0 < k \<and> 0 < i \<and> i < length vs \<and> HEAP_PARENT i = k \<longrightarrow> f (vs ! HEAP_PARENT k) \<le> f (vs ! i))"

definition heap_downto :: "('a \<Rightarrow> 'b::linorder) \<Rightarrow> 'a list \<Rightarrow> nat \<Rightarrow> bool" where
  "heap_downto f vs k \<longleftrightarrow>
     (\<forall>i. 0 < i \<and> i < length vs \<and> HEAP_PARENT i \<noteq> k \<longrightarrow> f (vs ! HEAP_PARENT i) \<le> f (vs ! i)) \<and>
     (\<forall>i. 0 < k \<and> 0 < i \<and> i < length vs \<and> HEAP_PARENT i = k \<longrightarrow> f (vs ! HEAP_PARENT k) \<le> f (vs ! i))"

definition swap_at :: "'a list \<Rightarrow> nat \<Rightarrow> nat \<Rightarrow> 'a list" where
  "swap_at vs i j = vs[i := vs ! j, j := vs ! i]"

lemma HEAP_PARENT_less: "0 < i \<Longrightarrow> HEAP_PARENT i < i"
  by (auto simp: HEAP_PARENT_def)

lemma HEAP_PARENT_LEFT: "0 < i \<Longrightarrow> HEAP_PARENT i = k \<longleftrightarrow> i = HEAP_LEFT k \<or> i = HEAP_LEFT k + 1"
  by (simp add: HEAP_PARENT_def HEAP_LEFT_def) presburger

lemma length_swap_at [simp]: "length (swap_at vs i j) = length vs"
  by (simp add: swap_at_def)

lemma nth_swap_at:
  "i < length vs \<Longrightarrow> j < length vs \<Longrightarrow>
    swap_at vs i j ! k = (if k = j then vs ! i else if k = i then vs ! j else vs ! k)"
  by (auto simp: swap_at_def nth_list_update)

lemma mset_swap_at [simp]: "i < length vs \<Longrightarrow> j < length vs \<Longrightarrow> mset (swap_at vs i j) = mset vs"
  unfolding swap_at_def by (rule mset_swap)

lemma heap_upto_step:
  assumes "heap_upto f vs k" "0 < k" "k < length vs" "f (vs ! k) < f (vs ! HEAP_PARENT k)"
  shows "heap_upto f (swap_at vs k (HEAP_PARENT k)) (HEAP_PARENT k)"
proof -
  let ?p = "HEAP_PARENT k"
  have p: "?p < k" "?p < length vs" using HEAP_PARENT_less [OF assms(2)] assms(3) by auto
  note nth = nth_swap_at [OF assms(3) p(2)]
  have A: "f (vs ! HEAP_PARENT i) \<le> f (vs ! i)" if "0 < i" "i < length vs" "i \<noteq> k" for i
    using assms(1) that by (auto simp: heap_upto_def)
  have B: "f (vs ! ?p) \<le> f (vs ! i)" if "0 < i" "i < length vs" "HEAP_PARENT i = k" for i
    using assms(1,2) that by (auto simp: heap_upto_def)
  have 1: "f (swap_at vs k ?p ! HEAP_PARENT i) \<le> f (swap_at vs k ?p ! i)"
    if i: "0 < i" "i < length vs" "i \<noteq> ?p" for i
  proof (cases "i = k")
    case True
    then show ?thesis using assms(4) p by (simp add: nth)
  next
    case False
    then show ?thesis
      using A [OF i(1,2) False] B [OF i(1,2)] assms(4) i p by (auto simp: nth)
  qed
  have 2: "f (swap_at vs k ?p ! HEAP_PARENT ?p) \<le> f (swap_at vs k ?p ! i)"
    if i: "0 < ?p" "0 < i" "i < length vs" "HEAP_PARENT i = ?p" for i
  proof -
    have q: "HEAP_PARENT ?p < ?p" using HEAP_PARENT_less [OF i(1)] .
    have "i \<noteq> ?p" using HEAP_PARENT_less [OF i(2)] i(4) by auto
    moreover have "f (vs ! HEAP_PARENT ?p) \<le> f (vs ! ?p)" using A [OF i(1) p(2)] p(1) by simp
    moreover have "f (vs ! ?p) \<le> f (vs ! i)" if "i \<noteq> k" using A [OF i(2,3) that] i(4) by simp
    ultimately show ?thesis using q p by (auto simp: nth)
  qed
  show ?thesis using 1 2 by (simp add: heap_upto_def)
qed

lemma heap_upto_done:
  assumes "heap_upto f vs k" "k = 0 \<or> \<not> f (vs ! k) < f (vs ! HEAP_PARENT k)"
  shows "heap_ordered f vs"
  using assms by (auto simp: heap_upto_def heap_ordered_def not_less)

lemma heap_downto_step:
  assumes "heap_downto f vs k" "c < length vs" "0 < c" "HEAP_PARENT c = k" "f (vs ! c) < f (vs ! k)"
    and least: "\<And>i. 0 < i \<Longrightarrow> i < length vs \<Longrightarrow> HEAP_PARENT i = k \<Longrightarrow> f (vs ! c) \<le> f (vs ! i)"
  shows "heap_downto f (swap_at vs k c) c"
proof -
  have k: "k < c" "k < length vs" using HEAP_PARENT_less [OF assms(3)] assms(2,4) by auto
  note nth = nth_swap_at [OF k(2) assms(2)]
  have A: "f (vs ! HEAP_PARENT i) \<le> f (vs ! i)" if "0 < i" "i < length vs" "HEAP_PARENT i \<noteq> k" for i
    using assms(1) that by (auto simp: heap_downto_def)
  have 1: "f (swap_at vs k c ! HEAP_PARENT i) \<le> f (swap_at vs k c ! i)"
    if i: "0 < i" "i < length vs" "HEAP_PARENT i \<noteq> c" for i
  proof (cases "HEAP_PARENT i = k")
    case True
    then show ?thesis
      using least [OF i(1,2) True] assms(5) i k HEAP_PARENT_less [OF i(1)] by (auto simp: nth)
  next
    case False
    have up: "f (vs ! HEAP_PARENT k) \<le> f (vs ! c)" if "0 < k"
      using assms(1-4) that by (auto simp: heap_downto_def)
    have "i \<noteq> c" using False assms(4) by auto
    then show ?thesis using A [OF i(1,2) False] up False i k by (auto simp: nth)
  qed
  have 2: "f (swap_at vs k c ! HEAP_PARENT c) \<le> f (swap_at vs k c ! i)"
    if i: "0 < c" "0 < i" "i < length vs" "HEAP_PARENT i = c" for i
    using A [OF i(2,3)] i assms(4) k HEAP_PARENT_less [OF i(2)] by (auto simp: nth)
  show ?thesis using 1 2 by (simp add: heap_downto_def)
qed

lemma heap_downto_done:
  assumes "heap_downto f vs k"
    and "\<And>i. 0 < i \<Longrightarrow> i < length vs \<Longrightarrow> HEAP_PARENT i = k \<Longrightarrow> f (vs ! k) \<le> f (vs ! i)"
  shows "heap_ordered f vs"
  using assms by (auto simp: heap_downto_def heap_ordered_def)

lemma heap_ordered_root:
  assumes "heap_ordered f vs" "i < length vs"
  shows "f (vs ! 0) \<le> f (vs ! i)"
  using assms(2)
proof (induction i rule: less_induct)
  case (less i)
  show ?case
  proof (cases "i = 0")
    case False
    then have "f (vs ! 0) \<le> f (vs ! HEAP_PARENT i)"
      using less.IH [of "HEAP_PARENT i"] HEAP_PARENT_less [of i] less.prems by simp
    also have "\<dots> \<le> f (vs ! i)" using assms(1) False less.prems by (simp add: heap_ordered_def)
    finally show ?thesis .
  qed simp
qed

section \<open>The loops restore the heap\<close>

text \<open>
  \<open>sift_list h n slot m\<close> is the list of the first \<open>n\<close> nodes with \<open>m\<close> in the place the loop has reached;
  \<open>sift_state\<close> says that the timer ids locate all others, \<open>sift_result\<close> what a loop makes of it: a
  rearrangement that is ordered and located, with nothing else touched.
\<close>

definition sift_list :: "timer_heap \<Rightarrow> nat \<Rightarrow> nat \<Rightarrow> nat \<Rightarrow> nat list" where
  "sift_list h n slot m = (take n (th_slots h))[slot := m]"

definition sift_state :: "timer_heap \<Rightarrow> nat \<Rightarrow> nat \<Rightarrow> nat \<Rightarrow> bool" where
  "sift_state h n slot m \<longleftrightarrow> slot < n \<and> n \<le> length (th_slots h) \<and>
     distinct (sift_list h n slot m) \<and> inj_on (\<lambda>e. nat (th_tid h e)) (set (sift_list h n slot m)) \<and>
     (\<forall>e \<in> set (sift_list h n slot m). nat (th_tid h e) < length (th_ids h)) \<and>
     (\<forall>i<n. i \<noteq> slot \<longrightarrow> th_ids h ! nat (th_tid h (th_slots h ! i)) = int i)"

definition sift_result :: "timer_heap \<Rightarrow> nat \<Rightarrow> nat \<Rightarrow> nat \<Rightarrow> timer_heap \<Rightarrow> bool" where
  "sift_result h n slot m h' \<longleftrightarrow>
     h' = h\<lparr>th_slots := th_slots h', th_ids := th_ids h'\<rparr> \<and>
     length (th_slots h') = length (th_slots h) \<and> length (th_ids h') = length (th_ids h) \<and>
     mset (take n (th_slots h')) = mset (sift_list h n slot m) \<and>
     heap_ordered (th_val h) (take n (th_slots h')) \<and>
     (\<forall>i<n. th_ids h' ! nat (th_tid h (th_slots h' ! i)) = int i) \<and>
     (\<forall>j. j \<notin> (\<lambda>e. nat (th_tid h e)) ` set (sift_list h n slot m) \<longrightarrow> th_ids h' ! j = th_ids h ! j)"

lemma sift_list_nth:
  "i < n \<Longrightarrow> n \<le> length (th_slots h) \<Longrightarrow>
    sift_list h n slot m ! i = (if i = slot then m else th_slots h ! i)"
  by (simp add: sift_list_def nth_list_update)

lemma length_sift_list: "n \<le> length (th_slots h) \<Longrightarrow> length (sift_list h n slot m) = n"
  by (simp add: sift_list_def)

lemma sift_list_copy:
  assumes "slot < n" "p < n" "p \<noteq> slot" "n \<le> length (th_slots h)"
  shows "sift_list (copy_node h slot (th_slots h ! p)) n p m = swap_at (sift_list h n slot m) slot p"
  using assms by (intro nth_equalityI)
    (auto simp: sift_list_def copy_node_def swap_at_def nth_list_update)

lemma sift_copy:
  assumes S: "sift_state h n slot m" and p: "p < n" "p \<noteq> slot"
  defines "h1 \<equiv> copy_node h slot (th_slots h ! p)"
  shows "sift_state h1 n p m"
    and "sift_result h1 n p m h' \<Longrightarrow> sift_result h n slot m h'"
proof -
  let ?vs = "sift_list h n slot m"
  have n: "slot < n" "n \<le> length (th_slots h)" and d: "distinct ?vs"
    and inj: "inj_on (\<lambda>e. nat (th_tid h e)) (set ?vs)"
    and bnd: "\<forall>e \<in> set ?vs. nat (th_tid h e) < length (th_ids h)"
    and agree: "\<And>i. i < n \<Longrightarrow> i \<noteq> slot \<Longrightarrow> th_ids h ! nat (th_tid h (th_slots h ! i)) = int i"
    using S by (auto simp: sift_state_def)
  have len: "length ?vs = n" using n(2) by (rule length_sift_list)
  have vs1: "sift_list h1 n p m = swap_at ?vs slot p"
    unfolding h1_def by (rule sift_list_copy [OF n(1) p n(2)])
  then have ms: "mset (sift_list h1 n p m) = mset ?vs" using n(1) p(1) len by simp
  then have set: "set (sift_list h1 n p m) = set ?vs" by (metis set_mset_mset)
  have e: "th_slots h ! p \<in> set ?vs"
    using sift_list_nth [OF p(1) n(2), of slot m] p nth_mem [of p ?vs] len by simp
  have ag: "th_ids h1 ! nat (th_tid h1 (th_slots h1 ! i)) = int i" if "i < n" "i \<noteq> p" for i
  proof (cases "i = slot")
    case True
    then show ?thesis using e bnd n by (simp add: h1_def copy_node_def)
  next
    case False
    have "?vs ! i \<noteq> ?vs ! p" using d that(2) p(1) that(1) len by (simp add: nth_eq_iff_index_eq)
    then have "th_slots h ! i \<noteq> th_slots h ! p"
      using False p that n by (simp add: sift_list_nth)
    moreover have "th_slots h ! i \<in> set ?vs"
      using sift_list_nth [OF that(1) n(2), of slot m] False nth_mem [of i ?vs] len that(1) by simp
    ultimately have "nat (th_tid h (th_slots h ! p)) \<noteq> nat (th_tid h (th_slots h ! i))"
      using inj e by (metis inj_onD)
    then show ?thesis using agree [OF that(1) False] False by (simp add: h1_def copy_node_def)
  qed
  show "sift_state h1 n p m"
    unfolding sift_state_def set
    using ag p(1) n(2) inj bnd d ms by (auto simp: h1_def copy_node_def dest: mset_eq_imp_distinct_iff)
  have out: "th_ids h1 ! j = th_ids h ! j" if "j \<notin> (\<lambda>e. nat (th_tid h e)) ` set ?vs" for j
    using that e by (auto simp: h1_def copy_node_def intro!: nth_list_update_neq)
  show "sift_result h n slot m h'" if "sift_result h1 n p m h'"
    using that out unfolding sift_result_def ms set by (auto simp: h1_def copy_node_def)
qed

lemma sift_done:
  assumes S: "sift_state h n slot m" and "heap_ordered (th_val h) (sift_list h n slot m)"
  shows "sift_result h n slot m (copy_node h slot m)"
proof -
  let ?vs = "sift_list h n slot m"
  have n: "slot < n" "n \<le> length (th_slots h)" and d: "distinct ?vs"
    and inj: "inj_on (\<lambda>e. nat (th_tid h e)) (set ?vs)"
    and bnd: "\<forall>e \<in> set ?vs. nat (th_tid h e) < length (th_ids h)"
    and agree: "\<And>i. i < n \<Longrightarrow> i \<noteq> slot \<Longrightarrow> th_ids h ! nat (th_tid h (th_slots h ! i)) = int i"
    using S by (auto simp: sift_state_def)
  have len: "length ?vs = n" using n(2) by (rule length_sift_list)
  have m: "m \<in> set ?vs" using sift_list_nth [OF n, of slot m] nth_mem [of slot ?vs] len n(1) by simp
  have tk: "take n (th_slots (copy_node h slot m)) = ?vs"
    by (simp add: sift_list_def copy_node_def take_update_swap)
  have "th_ids (copy_node h slot m) ! nat (th_tid h (?vs ! i)) = int i" if "i < n" for i
  proof (cases "i = slot")
    case True
    then show ?thesis using m bnd n by (simp add: sift_list_nth copy_node_def)
  next
    case False
    have "?vs ! i \<noteq> ?vs ! slot" using d False that n(1) len by (simp add: nth_eq_iff_index_eq)
    then have "nat (th_tid h m) \<noteq> nat (th_tid h (?vs ! i))"
      using inj m nth_mem [of i ?vs] that len n by (metis inj_onD sift_list_nth)
    then show ?thesis using agree [OF that False] False that n(2) by (simp add: copy_node_def sift_list_nth)
  qed
  moreover have "th_slots (copy_node h slot m) ! i = ?vs ! i" if "i < n" for i
    using tk that by (metis nth_take)
  moreover have "th_ids (copy_node h slot m) ! j = th_ids h ! j" if "j \<notin> (\<lambda>e. nat (th_tid h e)) ` set ?vs" for j
    using that m by (auto simp: copy_node_def intro!: nth_list_update_neq)
  ultimately show ?thesis
    using assms(2) by (auto simp: sift_result_def tk) (auto simp: copy_node_def)
qed

lemma reheap_up_result:
  "sift_state h n slot m \<Longrightarrow> heap_upto (th_val h) (sift_list h n slot m) slot \<Longrightarrow>
    sift_result h n slot m (reheap_up h m slot)"
proof (induction h m slot rule: reheap_up.induct)
  case (1 h m slot)
  let ?p = "HEAP_PARENT slot"
  have n: "slot < n" "n \<le> length (th_slots h)" using "1.prems"(1) by (auto simp: sift_state_def)
  show ?case
  proof (cases "slot > 0 \<and> th_val h m < th_val h (th_slots h ! ?p)")
    case True
    have p: "?p < n" "?p \<noteq> slot" using True HEAP_PARENT_less [of slot] n(1) by auto
    note C = sift_copy [OF "1.prems"(1) p]
    have "heap_upto (th_val h) (swap_at (sift_list h n slot m) slot ?p) ?p"
      using heap_upto_step [OF "1.prems"(2)] True n p by (simp add: sift_list_nth length_sift_list)
    then have "heap_upto (th_val (copy_node h slot (th_slots h ! ?p)))
        (sift_list (copy_node h slot (th_slots h ! ?p)) n ?p m) ?p"
      by (simp add: sift_list_copy [OF n(1) p n(2)])
    then show ?thesis
      using C(2) [OF "1.IH" [OF True C(1)]] True by (subst reheap_up.simps) simp
  next
    case False
    have "heap_ordered (th_val h) (sift_list h n slot m)"
      using heap_upto_done [OF "1.prems"(2)] False n HEAP_PARENT_less [of slot]
      by (cases "slot = 0") (auto simp: sift_list_nth)
    then show ?thesis
      using sift_done [OF "1.prems"(1)] False by (subst reheap_up.simps) auto
  qed
qed

lemma smaller_child_least:
  assumes "HEAP_LEFT slot < th_cur h"
  shows "smaller_child h (HEAP_LEFT slot) < th_cur h" "slot < smaller_child h (HEAP_LEFT slot)"
    "HEAP_PARENT (smaller_child h (HEAP_LEFT slot)) = slot"
    "0 < i \<Longrightarrow> i < th_cur h \<Longrightarrow> HEAP_PARENT i = slot \<Longrightarrow>
      th_val h (th_slots h ! smaller_child h (HEAP_LEFT slot)) \<le> th_val h (th_slots h ! i)"
proof -
  show "smaller_child h (HEAP_LEFT slot) < th_cur h" "slot < smaller_child h (HEAP_LEFT slot)"
    using assms by (auto simp: smaller_child_def HEAP_LEFT_def)
  show "HEAP_PARENT (smaller_child h (HEAP_LEFT slot)) = slot"
    by (auto simp: smaller_child_def HEAP_LEFT_def HEAP_PARENT_def)
  show "0 < i \<Longrightarrow> i < th_cur h \<Longrightarrow> HEAP_PARENT i = slot \<Longrightarrow>
      th_val h (th_slots h ! smaller_child h (HEAP_LEFT slot)) \<le> th_val h (th_slots h ! i)"
    by (auto simp: smaller_child_def HEAP_PARENT_LEFT not_less)
qed

lemma reheap_down_result:
  "sift_state h (th_cur h) slot m \<Longrightarrow> heap_downto (th_val h) (sift_list h (th_cur h) slot m) slot \<Longrightarrow>
    sift_result h (th_cur h) slot m (reheap_down h m slot)"
proof (induction h m slot rule: reheap_down.induct)
  case (1 h m slot)
  let ?n = "th_cur h" and ?c = "smaller_child h (HEAP_LEFT slot)"
  let ?h1 = "copy_node h slot (th_slots h ! ?c)"
  have n: "slot < ?n" "?n \<le> length (th_slots h)" using "1.prems"(1) by (auto simp: sift_state_def)
  note L = smaller_child_least [of slot h]
  have sl: "sift_list h ?n slot m ! i = th_slots h ! i" if "0 < i" "i < ?n" "HEAP_PARENT i = slot" for i
    using that HEAP_PARENT_less [of i] n(2) by (simp add: sift_list_nth)
  show ?case
  proof (cases "HEAP_LEFT slot < ?n \<and> th_val h (th_slots h ! ?c) < th_val h m")
    case True
    note L = L [OF conjunct1 [OF True]]
    have p: "?c < ?n" "?c \<noteq> slot" using L(1,2) by auto
    note C = sift_copy [OF "1.prems"(1) p]
    have "heap_downto (th_val h) (swap_at (sift_list h ?n slot m) slot ?c) ?c"
      using heap_downto_step [OF "1.prems"(2), of ?c] True n L sl
      by (simp add: sift_list_nth length_sift_list)
    then have "heap_downto (th_val ?h1) (sift_list ?h1 (th_cur ?h1) ?c m) ?c"
      by (simp add: sift_list_copy [OF n(1) p n(2)])
    then have "sift_result ?h1 (th_cur ?h1) ?c m (reheap_down ?h1 m ?c)"
      using "1.IH" True C(1) by simp
    then show ?thesis
      using C(2) True by (subst reheap_down.simps) (simp add: Let_def)
  next
    case False
    have "th_val h m \<le> th_val h (sift_list h ?n slot m ! i)" if "0 < i" "i < ?n" "HEAP_PARENT i = slot" for i
    proof -
      have "HEAP_LEFT slot < ?n" using that by (auto simp: HEAP_PARENT_LEFT)
      then show ?thesis using False order_trans [OF _ L(4) [OF _ that]] sl [OF that] by (simp add: not_less)
    qed
    then have "heap_ordered (th_val h) (sift_list h ?n slot m)"
      using heap_downto_done [OF "1.prems"(2)] n by (simp add: length_sift_list sift_list_nth [of slot])
    then show ?thesis
      using sift_done [OF "1.prems"(1)] False by (subst reheap_down.simps) (auto simp: Let_def)
  qed
qed

end
