(* ===== verification/Timer_Calls.thy ===== *)
theory Timer_Calls
  imports Timer_Heap
begin

text \<open>
  The timer heap keeps its invariant: the free list of timer ids, the effect of every call on the
  scheduled entries, and polling, whose callbacks are described by a locale.
\<close>

section \<open>The free list\<close>

text \<open>
  \<open>free_chain ids f xs m\<close>: the free list that starts at \<open>f\<close> goes through the ids \<open>xs\<close> and ends at
  \<open>m\<close>. \<open>th_free_ok U h\<close>: it goes through all ids but those of \<open>U\<close> and ends just past the array.
  Id 0 is never handed out.
\<close>

fun free_chain :: "int list \<Rightarrow> int \<Rightarrow> nat list \<Rightarrow> nat \<Rightarrow> bool" where
  "free_chain ids f [] m \<longleftrightarrow> f = int m"
| "free_chain ids f (x # xs) m \<longleftrightarrow> f = int x \<and> free_chain ids (- (ids ! x)) xs m"

definition th_free_ok :: "nat set \<Rightarrow> timer_heap \<Rightarrow> bool" where
  "th_free_ok U h \<longleftrightarrow> length (th_ids h) = th_max h \<and> U \<subseteq> {1..<th_max h} \<and> th_ids h ! 0 < 0 \<and>
     (\<exists>xs. free_chain (th_ids h) (th_free h) xs (th_max h) \<and> distinct xs \<and> set xs = {1..<th_max h} - U)"

lemma free_chain_cong:
  "(\<And>x. x \<in> set xs \<Longrightarrow> ids' ! x = ids ! x) \<Longrightarrow> free_chain ids' f xs m = free_chain ids f xs m"
  by (induction xs arbitrary: f) auto

lemma free_chain_append:
  "free_chain ids f (xs @ ys) m \<longleftrightarrow> (\<exists>k. free_chain ids f xs k \<and> free_chain ids (int k) ys m)"
  if "xs \<noteq> [] \<or> 0 \<le> f"
  using that
proof (induction xs arbitrary: f)
  case Nil
  then show ?case by (auto intro: exI [of _ "nat f"])
next
  case (Cons x xs)
  show ?case
  proof (cases "xs = []")
    case True
    then show ?thesis using Cons by (cases ys) (auto simp: zero_le_imp_eq_int)
  next
    case False
    then show ?thesis using Cons.IH [of "- (ids ! x)"] by auto
  qed
qed

lemma th_free_ok_cong:
  assumes "th_free_ok U h" "th_max h' = th_max h" "th_free h' = th_free h" "length (th_ids h') = length (th_ids h)"
    and "\<And>x. x \<notin> U \<Longrightarrow> th_ids h' ! x = th_ids h ! x"
  shows "th_free_ok U h'"
proof -
  obtain xs where "free_chain (th_ids h) (th_free h) xs (th_max h)" "distinct xs" "set xs = {1..<th_max h} - U"
    using assms(1) by (auto simp: th_free_ok_def)
  moreover from this(3) have "free_chain (th_ids h') (th_free h) xs (th_max h) =
      free_chain (th_ids h) (th_free h) xs (th_max h)"
    using assms(5) by (intro free_chain_cong) auto
  moreover have "th_ids h' ! 0 < 0"
  proof -
    have "0 \<notin> U" "th_ids h ! 0 < 0" using assms(1) by (auto simp: th_free_ok_def)
    then show ?thesis using assms(5) by simp
  qed
  ultimately show ?thesis using assms by (auto simp: th_free_ok_def)
qed

lemma push_freelist_ok:
  assumes "th_free_ok U h" "x \<in> U"
  shows "th_free_ok (U - {x}) (push_freelist h (int x))"
proof -
  obtain xs where xs: "free_chain (th_ids h) (th_free h) xs (th_max h)" "distinct xs"
    "set xs = {1..<th_max h} - U"
    using assms(1) by (auto simp: th_free_ok_def)
  have x: "x \<in> {1..<th_max h}" "x < length (th_ids h)" using assms by (auto simp: th_free_ok_def)
  have "free_chain ((th_ids h)[x := - th_free h]) (th_free h) xs (th_max h)"
    using xs(1,3) assms(2) free_chain_cong [of xs "(th_ids h)[x := - th_free h]" "th_ids h"]
    by (metis DiffE nth_list_update_neq)
  then have "free_chain (th_ids (push_freelist h (int x))) (int x) (x # xs) (th_max h)"
    using x by (simp add: push_freelist_def)
  moreover have "distinct (x # xs)" using xs(2,3) assms(2) by simp
  moreover have "set (x # xs) = {1..<th_max h} - (U - {x})"
    unfolding set_simps xs(3) using x(1) assms(2) by blast
  moreover have "length (th_ids h) = th_max h" "U \<subseteq> {1..<th_max h}" "th_ids h ! 0 < 0" "x \<noteq> 0"
    using assms by (auto simp: th_free_ok_def)
  ultimately show ?thesis
    unfolding th_free_ok_def
    by (intro conjI exI [of _ "x # xs"]) (auto simp: push_freelist_def simp del: free_chain.simps)
qed

lemma pop_freelist_ok:
  assumes "th_free_ok U h" "U \<noteq> {1..<th_max h}"
  obtains x where "x \<in> {1..<th_max h}" "x \<notin> U"
    "pop_freelist h = Some (h\<lparr>th_free := - (th_ids h ! x)\<rparr>, int x)"
    "th_free_ok (insert x U) (h\<lparr>th_free := - (th_ids h ! x)\<rparr>)"
proof -
  obtain xs where xs: "free_chain (th_ids h) (th_free h) xs (th_max h)" "distinct xs"
    "set xs = {1..<th_max h} - U"
    using assms(1) by (auto simp: th_free_ok_def)
  have "U \<subseteq> {1..<th_max h}" using assms(1) by (simp add: th_free_ok_def)
  then have "xs \<noteq> []" using xs(3) assms(2) by (metis Diff_eq_empty_iff empty_set subset_antisym)
  then obtain x ys where ys: "xs = x # ys" by (cases xs) auto
  have x: "x \<in> {1..<th_max h}" "x \<notin> U" using xs(3) ys by auto
  have f: "th_free h = int x" "free_chain (th_ids h) (- (th_ids h ! x)) ys (th_max h)" using xs(1) ys by auto
  have "pop_freelist h = Some (h\<lparr>th_free := - (th_ids h ! x)\<rparr>, int x)"
  proof -
    have "length (th_ids h) = th_max h" using assms(1) by (simp add: th_free_ok_def)
    then show ?thesis using x(1) by (simp add: pop_freelist_def f(1))
  qed
  moreover have "th_free_ok (insert x U) (h\<lparr>th_free := - (th_ids h ! x)\<rparr>)"
  proof -
    have "length (th_ids h) = th_max h" "U \<subseteq> {1..<th_max h}" "th_ids h ! 0 < 0" using assms(1) by (auto simp: th_free_ok_def)
    moreover have "distinct ys" "set ys = {1..<th_max h} - insert x U" using xs(2,3) ys by auto
    ultimately show ?thesis using f(2) x(1) unfolding th_free_ok_def by (intro conjI exI [of _ ys]) simp_all
  qed
  ultimately show ?thesis using x that by blast
qed

lemma pop_freelist_empty:
  assumes "th_free_ok {1..<th_max h} h"
  shows "pop_freelist h = None"
  using assms by (auto simp: th_free_ok_def pop_freelist_def)

lemma grow_heap_ok:
  assumes "th_free_ok U h" "1 \<le> th_max h"
  shows "th_free_ok U (grow_heap h)"
proof -
  let ?m = "th_max h" and ?h = "grow_heap h"
  obtain xs where xs: "free_chain (th_ids h) (th_free h) xs ?m" "distinct xs" "set xs = {1..<?m} - U"
    using assms(1) by (auto simp: th_free_ok_def)
  have len: "length (th_ids h) = ?m" and U: "U \<subseteq> {1..<?m}" using assms(1) by (auto simp: th_free_ok_def)
  have old: "th_ids ?h ! x = th_ids h ! x" if "x < ?m" for x
    using that len by (simp add: grow_heap_def nth_append)
  have new: "th_ids ?h ! x = - int (x + 1)" if "?m \<le> x" "x < 2 * ?m" for x
    using that len by (simp add: grow_heap_def nth_append)
  have tail: "free_chain (th_ids ?h) (int k) [k..<2 * ?m] (2 * ?m)" if "?m \<le> k" "k \<le> 2 * ?m" for k
    using that(2,1)
  proof (induction k rule: inc_induct)
    case base
    then show ?case by simp
  next
    case (step k)
    then show ?case by (simp add: upt_conv_Cons new add.commute)
  qed
  have "free_chain (th_ids ?h) (th_free h) xs ?m"
    using xs(1,3) free_chain_cong [of xs "th_ids ?h" "th_ids h"] old by auto
  then have "free_chain (th_ids ?h) (th_free h) (xs @ [?m..<2 * ?m]) (2 * ?m)"
    using free_chain_append [of xs "th_free h" "th_ids ?h" "[?m..<2 * ?m]" "2 * ?m"] tail [of ?m]
    by (cases "xs = []") auto
  moreover have "distinct (xs @ [?m..<2 * ?m])" using xs by auto
  moreover have "set (xs @ [?m..<2 * ?m]) = {1..<2 * ?m} - U" using xs(3) U assms(2) by auto
  moreover have "th_ids ?h ! 0 < 0" using old [of 0] assms by (auto simp: th_free_ok_def)
  ultimately show ?thesis
    unfolding th_free_ok_def using U len
    by (intro conjI exI [of _ "xs @ [?m..<2 * ?m]"]) (auto simp: grow_heap_def)
qed

section \<open>The invariant\<close>

text \<open>
  \<open>th_inv H h\<close> for a heap with the ids \<open>H\<close> held by callbacks in progress: the nodes are distinct and in
  heap order, their timer ids locate them, no other entry has a timer id, every id is used, held
  or on the free list, and the arrays have room for two more nodes.
\<close>

definition th_nodes :: "timer_heap \<Rightarrow> nat list" where
  "th_nodes h = take (th_cur h) (th_slots h)"

definition th_used :: "timer_heap \<Rightarrow> nat list \<Rightarrow> nat set" where
  "th_used h es = (\<lambda>e. nat (th_tid h e)) ` set es"

definition th_inv :: "nat set \<Rightarrow> timer_heap \<Rightarrow> bool" where
  "th_inv H h \<longleftrightarrow> length (th_slots h) = th_max h \<and> th_cur h + 2 \<le> th_max h \<and> distinct (th_nodes h) \<and>
     (\<forall>e \<in> set (th_nodes h). 1 \<le> th_tid h e) \<and> (\<forall>e. e \<notin> set (th_nodes h) \<longrightarrow> th_tid h e < 1) \<and>
     (\<forall>i<th_cur h. th_ids h ! nat (th_tid h (th_slots h ! i)) = int i) \<and>
     heap_ordered (th_val h) (th_nodes h) \<and>
     th_used h (th_nodes h) \<inter> H = {} \<and> th_free_ok (th_used h (th_nodes h) \<union> H) h"

lemma th_invD:
  assumes "th_inv H h"
  shows "length (th_slots h) = th_max h" "length (th_ids h) = th_max h" "th_cur h + 2 \<le> th_max h"
    "distinct (th_nodes h)" "length (th_nodes h) = th_cur h"
    "i < th_cur h \<Longrightarrow> th_nodes h ! i = th_slots h ! i"
    "e \<in> set (th_nodes h) \<longleftrightarrow> 1 \<le> th_tid h e"
    "i < th_cur h \<Longrightarrow> th_ids h ! nat (th_tid h (th_slots h ! i)) = int i"
    "heap_ordered (th_val h) (th_nodes h)"
    "th_used h (th_nodes h) \<inter> H = {}" "th_free_ok (th_used h (th_nodes h) \<union> H) h"
    "e \<in> set (th_nodes h) \<Longrightarrow> nat (th_tid h e) < th_max h"
    "inj_on (\<lambda>e. nat (th_tid h e)) (set (th_nodes h))"
proof -
  show l: "length (th_slots h) = th_max h" "length (th_ids h) = th_max h" "th_cur h + 2 \<le> th_max h"
    and d: "distinct (th_nodes h)" and f: "th_free_ok (th_used h (th_nodes h) \<union> H) h"
    using assms by (auto simp: th_inv_def th_free_ok_def)
  show n: "length (th_nodes h) = th_cur h" using l by (simp add: th_nodes_def)
  show nt: "i < th_cur h \<Longrightarrow> th_nodes h ! i = th_slots h ! i" for i by (simp add: th_nodes_def)
  show loc: "i < th_cur h \<Longrightarrow> th_ids h ! nat (th_tid h (th_slots h ! i)) = int i" for i
    using assms by (auto simp: th_inv_def)
  show "e \<in> set (th_nodes h) \<longleftrightarrow> 1 \<le> th_tid h e" using assms unfolding th_inv_def by fastforce
  show "heap_ordered (th_val h) (th_nodes h)" "th_used h (th_nodes h) \<inter> H = {}"
    using assms by (auto simp: th_inv_def)
  show "e \<in> set (th_nodes h) \<Longrightarrow> nat (th_tid h e) < th_max h"
    using f by (auto simp: th_free_ok_def th_used_def)
  show "inj_on (\<lambda>e. nat (th_tid h e)) (set (th_nodes h))"
    by (intro inj_onI) (metis in_set_conv_nth loc n nt of_nat_eq_iff)
qed

lemma th_inv_sifted:
  assumes S: "sift_state h n slot m" "sift_result h n slot m h'"
    and len: "length (th_slots h) = th_max h" "n + 2 \<le> th_max h"
    and tid: "\<And>e. e \<in> set (sift_list h n slot m) \<longleftrightarrow> 1 \<le> th_tid h e"
    and H: "th_used h (sift_list h n slot m) \<inter> H = {}" "th_free_ok (th_used h (sift_list h n slot m) \<union> H) h"
  shows "th_inv H (h'\<lparr>th_cur := n\<rparr>)" "mset (th_nodes (h'\<lparr>th_cur := n\<rparr>)) = mset (sift_list h n slot m)"
    "h' = h\<lparr>th_slots := th_slots h', th_ids := th_ids h'\<rparr>"
proof -
  let ?vs = "sift_list h n slot m" and ?h = "h'\<lparr>th_cur := n\<rparr>"
  note R = S(2) [unfolded sift_result_def]
  show eq: "h' = h\<lparr>th_slots := th_slots h', th_ids := th_ids h'\<rparr>" using R by blast
  have ent: "th_entry h' = th_entry h" "th_max h' = th_max h" "th_free h' = th_free h" by (subst eq, simp)+
  have nodes: "th_nodes ?h = take n (th_slots h')" by (simp add: th_nodes_def)
  show ms: "mset (th_nodes ?h) = mset ?vs" using R nodes by simp
  then have set: "set (th_nodes ?h) = set ?vs" by (metis set_mset_mset)
  have used: "th_used ?h (th_nodes ?h) = th_used h ?vs" by (simp add: th_used_def set ent)
  have "th_free_ok (th_used h ?vs \<union> H) ?h"
    using R by (intro th_free_ok_cong [OF H(2)]) (auto simp: ent th_used_def)
  moreover have "distinct (th_nodes ?h)"
    using S(1) ms by (metis sift_state_def mset_eq_imp_distinct_iff)
  ultimately show "th_inv H ?h"
    unfolding th_inv_def used unfolding set using R len H(1) nodes tid by (auto simp: ent not_less)
qed

section \<open>The operations\<close>

lemma mset_hole:
  assumes "length vs = Suc n" "k < n"
  shows "mset ((take n vs)[k := vs ! n]) = mset vs - {# vs ! k #}"
proof -
  have vs: "vs = take n vs @ [vs ! n]" using assms(1) by (metis lessI take_Suc_conv_app_nth take_all order_refl)
  have "mset ((take n vs)[k := vs ! n]) = add_mset (vs ! n) (mset (take n vs) - {# vs ! k #})"
    using assms by (simp add: mset_update)
  also have "\<dots> = mset (take n vs @ [vs ! n]) - {# vs ! k #}"
    using assms nth_mem [of k "take n vs"] by simp
  finally show ?thesis using vs by simp
qed

lemma th_free_ok_frame [simp]:
  "th_free_ok U (h\<lparr>th_cur := n\<rparr>) = th_free_ok U h" "th_free_ok U (h\<lparr>th_slots := s\<rparr>) = th_free_ok U h"
  "th_free_ok U (set_entry h e f) = th_free_ok U h" "th_free_ok U (h\<lparr>th_refs := r\<rparr>) = th_free_ok U h"
  "th_free_ok U (h\<lparr>th_per_poll := n\<rparr>) = th_free_ok U h"
  by (simp_all add: th_free_ok_def set_entry_def)

text \<open>Changes of an entry that touch neither its timer id nor its time, and of the lock counters, are neutral.\<close>

lemma th_inv_set_entry:
  assumes "te_timer_id (f (th_entry h e)) = th_tid h e" "te_value (f (th_entry h e)) = th_val h e"
  shows "th_inv H (set_entry h e f) = th_inv H h" "th_nodes (set_entry h e f) = th_nodes h"
proof -
  have "th_tid (set_entry h e f) x = th_tid h x" "th_val (set_entry h e f) x = th_val h x" for x
    using assms by (auto simp: set_entry_def)
  moreover show n: "th_nodes (set_entry h e f) = th_nodes h" by (simp add: th_nodes_def set_entry_def)
  ultimately have "th_used (set_entry h e f) (th_nodes (set_entry h e f)) = th_used h (th_nodes h)"
    "th_val (set_entry h e f) = th_val h" by (auto simp: th_used_def)
  then show "th_inv H (set_entry h e f) = th_inv H h"
    unfolding th_inv_def n by (simp add: \<open>\<And>x. th_tid (set_entry h e f) x = th_tid h x\<close>) (simp add: set_entry_def)
qed

lemma th_inv_refs [simp]:
  "th_inv H (grp_lock_add_ref g k h) = th_inv H h" "th_nodes (grp_lock_add_ref g k h) = th_nodes h"
  "th_max (grp_lock_add_ref g k h) = th_max h" "th_cur (grp_lock_add_ref g k h) = th_cur h"
  "th_entry (grp_lock_add_ref g k h) = th_entry h" "th_per_poll (grp_lock_add_ref g k h) = th_per_poll h"
  "th_slots (grp_lock_add_ref g k h) = th_slots h" "th_ids (grp_lock_add_ref g k h) = th_ids h"
  "th_free (grp_lock_add_ref g k h) = th_free h"
  by (auto simp: grp_lock_add_ref_def th_inv_def th_nodes_def th_used_def split: option.splits)

text \<open>
  \<open>unlinked h slot\<close> is the heap after the first part of \<open>remove_node\<close>: the timer id of the node is on
  the free list again and the last place of the array is given up.
\<close>

definition unlinked :: "timer_heap \<Rightarrow> nat \<Rightarrow> timer_heap" where
  "unlinked h slot =
     set_entry ((push_freelist h (th_tid h (th_slots h ! slot)))\<lparr>th_cur := th_cur h - 1\<rparr>)
       (th_slots h ! slot) (te_timer_id_update (\<lambda>_. - 1))"

lemma unlinked_simps [simp]:
  "th_slots (unlinked h slot) = th_slots h" "th_cur (unlinked h slot) = th_cur h - 1"
  "th_max (unlinked h slot) = th_max h" "th_refs (unlinked h slot) = th_refs h"
  "th_per_poll (unlinked h slot) = th_per_poll h"
  "th_entry (unlinked h slot) = (th_entry h)(th_slots h ! slot := (th_entry h (th_slots h ! slot))\<lparr>te_timer_id := - 1\<rparr>)"
  "th_ids (unlinked h slot) = (th_ids h)[nat (th_tid h (th_slots h ! slot)) := - th_free h]"
  by (simp_all add: unlinked_def set_entry_def push_freelist_def)

lemma unlinked_val: "th_val (unlinked h slot) = th_val h"
  by auto

lemma remove_node_unlinked:
  assumes "0 < th_cur h"
  shows "remove_node h slot =
    (if slot < th_cur h - 1 then
       (let m = th_slots h ! (th_cur h - 1); h2 = copy_node (unlinked h slot) slot m
        in if th_val h m \<ge> th_val h (th_slots h2 ! HEAP_PARENT slot) then reheap_down h2 m slot
           else reheap_up h2 m slot)
     else unlinked h slot, th_slots h ! slot)"
proof -
  have "remove_node h slot =
    (let h1 = unlinked h slot
     in if slot < th_cur h1 then
          (let m = th_slots h1 ! th_cur h1; h2 = copy_node h1 slot m
           in (if th_val h2 m \<ge> th_val h2 (th_slots h2 ! HEAP_PARENT slot) then reheap_down h2 m slot
               else reheap_up h2 m slot, th_slots h ! slot))
        else (h1, th_slots h ! slot))"
    by (simp add: remove_node_def unlinked_def Let_def push_freelist_def)
  then show ?thesis by (simp add: Let_def unlinked_val)
qed

lemma unlinked_used:
  assumes I: "th_inv H h" and slot: "slot < th_cur h" and vs: "set vs = set (th_nodes h) - {th_slots h ! slot}"
  shows "th_used (unlinked h slot) vs = th_used h (th_nodes h) - {nat (th_tid h (th_slots h ! slot))}"
    and "th_used (unlinked h slot) vs \<inter> H = {}"
    and "th_free_ok (th_used (unlinked h slot) vs \<union> H) (unlinked h slot)"
    and "e \<in> set vs \<longleftrightarrow> 1 \<le> th_tid (unlinked h slot) e"
proof -
  let ?x = "th_slots h ! slot"
  note D = th_invD [OF I]
  have x: "?x \<in> set (th_nodes h)" using D(5,6) slot by (metis nth_mem)
  show u: "th_used (unlinked h slot) vs = th_used h (th_nodes h) - {nat (th_tid h ?x)}"
    unfolding th_used_def vs using D(13) x by (auto simp: inj_on_def)
  then show "th_used (unlinked h slot) vs \<inter> H = {}" using D(10) by auto
  have "nat (th_tid h ?x) \<in> th_used h (th_nodes h)" using x by (simp add: th_used_def)
  moreover from this have "(th_used h (th_nodes h) \<union> H) - {nat (th_tid h ?x)} =
      th_used (unlinked h slot) vs \<union> H" using D(10) u by auto
  moreover have "0 \<le> th_tid h ?x" using x D(7) by force
  ultimately show "th_free_ok (th_used (unlinked h slot) vs \<union> H) (unlinked h slot)"
    using push_freelist_ok [OF D(11), of "nat (th_tid h ?x)"] by (simp add: unlinked_def)
  show "e \<in> set vs \<longleftrightarrow> 1 \<le> th_tid (unlinked h slot) e" using vs D(7) by simp
qed

lemma unlinked_ids:
  assumes I: "th_inv H h" and "slot < th_cur h" "i < th_cur h" "i \<noteq> slot"
  shows "th_slots h ! i \<noteq> th_slots h ! slot"
    and "th_ids (unlinked h slot) ! nat (th_tid (unlinked h slot) (th_slots h ! i)) = int i"
proof -
  note D = th_invD [OF I]
  show ne: "th_slots h ! i \<noteq> th_slots h ! slot"
    using assms(2-4) D(4,5,6) by (metis nth_eq_iff_index_eq)
  moreover have "th_slots h ! i \<in> set (th_nodes h)" "th_slots h ! slot \<in> set (th_nodes h)"
    using D(5,6) assms(2,3) by (metis nth_mem)+
  ultimately have "nat (th_tid h (th_slots h ! slot)) \<noteq> nat (th_tid h (th_slots h ! i))"
    using D(13) by (metis inj_onD)
  then show "th_ids (unlinked h slot) ! nat (th_tid (unlinked h slot) (th_slots h ! i)) = int i"
    using D(8) [OF assms(3)] ne by simp
qed

lemma unlinked_last_inv:
  assumes I: "th_inv H h" and slot: "Suc slot = th_cur h"
  shows "th_inv H (unlinked h slot)"
    and "mset (th_nodes (unlinked h slot)) = mset (th_nodes h) - {# th_slots h ! slot #}"
proof -
  let ?h = "unlinked h slot"
  note D = th_invD [OF I]
  have s: "slot < th_cur h" using slot by simp
  have nodes: "th_nodes h = th_nodes ?h @ [th_slots h ! slot]"
  proof -
    have "slot < length (th_slots h)" using D(1,3) slot by linarith
    then show ?thesis by (simp add: th_nodes_def take_Suc_conv_app_nth flip: slot)
  qed
  then have set: "set (th_nodes ?h) = set (th_nodes h) - {th_slots h ! slot}" using D(4) by auto
  have len: "length (th_nodes ?h) = slot" using D(5) nodes slot by simp
  have "th_val h (th_nodes ?h ! HEAP_PARENT i) \<le> th_val h (th_nodes ?h ! i)" if "0 < i" "i < slot" for i
    using D(9) HEAP_PARENT_less [of i] that len unfolding heap_ordered_def nodes
    by (auto simp: nth_append dest!: spec [of _ i])
  then have ord: "heap_ordered (th_val ?h) (th_nodes ?h)" unfolding heap_ordered_def unlinked_val len by blast
  show "th_inv H ?h"
    unfolding th_inv_def
  proof (intro conjI ballI allI impI)
    show "length (th_slots ?h) = th_max ?h" "th_cur ?h + 2 \<le> th_max ?h" using D(1,3) by simp_all
    show "distinct (th_nodes ?h)" using D(4) nodes by (metis distinct_append)
    show "heap_ordered (th_val ?h) (th_nodes ?h)" by (rule ord)
    show "1 \<le> th_tid ?h e" if "e \<in> set (th_nodes ?h)" for e
      using unlinked_used(4) [OF I s set, of e] that by blast
    show "th_tid ?h e < 1" if "e \<notin> set (th_nodes ?h)" for e
      using unlinked_used(4) [OF I s set, of e] that by linarith
    show "th_ids ?h ! nat (th_tid ?h (th_slots ?h ! i)) = int i" if "i < th_cur ?h" for i
    proof -
      have "i < slot" using that by (simp flip: slot)
      then show ?thesis unfolding unlinked_simps(1) using s by (intro unlinked_ids(2) [OF I s]) simp_all
    qed
  qed (fact unlinked_used(2,3) [OF I s set])+
  show "mset (th_nodes ?h) = mset (th_nodes h) - {# th_slots h ! slot #}" using nodes by simp
qed

text \<open>Removing an inner node: the last node goes to its place and is sifted down or up.\<close>

lemma moved_last_state:
  assumes I: "th_inv H h" and n: "th_cur h = Suc n" "slot < n"
  defines "m \<equiv> th_slots h ! n"
  defines "h2 \<equiv> copy_node (unlinked h slot) slot m"
  shows "mset (sift_list h2 n slot m) = mset (th_nodes h) - {# th_slots h ! slot #}"
    and "set (sift_list h2 n slot m) = set (th_nodes h) - {th_slots h ! slot}"
    and "sift_state h2 n slot m"
    and "i < n \<Longrightarrow> sift_list h2 n slot m ! i = (if i = slot then m else th_slots h ! i)"
proof -
  let ?x = "th_slots h ! slot"
  note D = th_invD [OF I]
  have s: "slot < th_cur h" using n by simp
  have vs: "sift_list h2 n slot m = (take n (th_nodes h))[slot := th_nodes h ! n]"
    using D(6) [of n] n by (simp add: sift_list_def h2_def copy_node_def m_def th_nodes_def take_update_swap)
  show ms: "mset (sift_list h2 n slot m) = mset (th_nodes h) - {# ?x #}"
    unfolding vs using mset_hole [of "th_nodes h" n slot] D(5,6) n by simp
  show set: "set (sift_list h2 n slot m) = set (th_nodes h) - {?x}"
    using ms D(4) by (metis mset_eq_setD mset_remove1 set_remove1_eq)
  show "i < n \<Longrightarrow> sift_list h2 n slot m ! i = (if i = slot then m else th_slots h ! i)"
    using sift_list_nth [of i n h2 slot m] D(1,3) n by (simp add: h2_def copy_node_def)
  have dist: "distinct (sift_list h2 n slot m)"
    using ms D(4) by (metis distinct_remove1 mset_eq_imp_distinct_iff mset_remove1)
  have e: "th_entry h2 = th_entry (unlinked h slot)" by (simp add: h2_def)
  have inj: "inj_on (\<lambda>e. nat (th_tid h2 e)) (set (th_nodes h) - {?x})"
    using D(13) by (auto simp: inj_on_def e)
  have "nat (th_tid h2 e) < length (th_ids h2)" if "e \<in> set (th_nodes h) - {?x}" for e
    using D(12) [of e] that D(2) by (simp add: h2_def copy_node_def)
  moreover have "th_ids h2 ! nat (th_tid h2 (th_slots h2 ! i)) = int i" if i: "i < n" "i \<noteq> slot" for i
  proof -
    have "m \<in> set (th_nodes h) - {?x}" "th_slots h ! i \<in> set (th_nodes h) - {?x}" "th_slots h ! i \<noteq> m"
      using i n s unlinked_ids(1) [OF I s] unlinked_ids(1) [OF I, of n i] D(5,6) nth_mem [of _ "th_nodes h"]
      by (auto simp: m_def)
    then have "nat (th_tid h2 m) \<noteq> nat (th_tid h2 (th_slots h ! i))" using inj by (metis inj_onD)
    then show ?thesis
      using unlinked_ids(2) [OF I s, of i] i n by (simp add: h2_def copy_node_def)
  qed
  moreover have "n \<le> length (th_slots h2)" using D(1,3) n by (simp add: h2_def copy_node_def)
  ultimately show "sift_state h2 n slot m"
    unfolding sift_state_def set using n(2) dist inj by blast
qed

lemma moved_last_result:
  assumes I: "th_inv H h" and n: "th_cur h = Suc n" "slot < n" and r: "remove_node h slot = (h', e)"
  defines "m \<equiv> th_slots h ! n"
  shows "sift_result (copy_node (unlinked h slot) slot m) n slot m h'"
proof -
  note D = th_invD [OF I]
  define h2 where "h2 = copy_node (unlinked h slot) slot m"
  note M = moved_last_state [OF I n, folded m_def, folded h2_def]
  have h': "h' = (if th_val h m \<ge> th_val h (th_slots h2 ! HEAP_PARENT slot) then reheap_down h2 m slot
      else reheap_up h2 m slot)"
    using r n by (simp add: remove_node_unlinked h2_def m_def Let_def split: if_splits)
  have par: "th_slots h2 ! HEAP_PARENT slot = (if slot = 0 then m else th_slots h ! HEAP_PARENT slot)"
    using HEAP_PARENT_less [of slot] n D(1,3) by (auto simp: h2_def copy_node_def HEAP_PARENT_def nth_list_update)
  have old: "th_val h (th_slots h ! HEAP_PARENT i) \<le> th_val h (th_slots h ! i)" if "0 < i" "i \<le> n" for i
    using D(5,6,9) that n HEAP_PARENT_less [of i] by (auto simp: heap_ordered_def dest: spec [of _ i])
  have old2: "th_val h (th_slots h ! HEAP_PARENT slot) \<le> th_val h (th_slots h ! i)"
    if "0 < i" "i < n" "HEAP_PARENT i = slot" "0 < slot" for i
    using old [of slot] old [of i] that n(2) by (metis order_trans less_imp_le)
  have len: "length (sift_list h2 n slot m) = n"
    using M(3) by (intro length_sift_list) (simp add: sift_state_def)
  have v2: "th_val h2 = th_val h" and c2: "th_cur h2 = n" using n by (auto simp: h2_def)
  note less = HEAP_PARENT_less
  show ?thesis unfolding h2_def [symmetric]
  proof (cases "th_val h m \<ge> th_val h (th_slots h2 ! HEAP_PARENT slot)")
    case down: True
    have "heap_downto (th_val h2) (sift_list h2 n slot m) slot"
      unfolding heap_downto_def v2 len
    proof (intro conjI allI impI; elim conjE)
      fix i assume i: "0 < i" "i < n" "HEAP_PARENT i \<noteq> slot"
      show "th_val h (sift_list h2 n slot m ! HEAP_PARENT i) \<le> th_val h (sift_list h2 n slot m ! i)"
        using down par old [of i] i less [of i] M(4) [of i] M(4) [of "HEAP_PARENT i"] by (auto split: if_splits)
    next
      fix i assume i: "0 < slot" "0 < i" "i < n" "HEAP_PARENT i = slot"
      show "th_val h (sift_list h2 n slot m ! HEAP_PARENT slot) \<le> th_val h (sift_list h2 n slot m ! i)"
        using old2 [of i] i less [of slot] less [of i] M(4) [of i] M(4) [of "HEAP_PARENT slot"] n(2) by auto
    qed
    then show "sift_result h2 n slot m h'"
      using reheap_down_result [of h2 slot m] M(3) down h' by (simp add: c2)
  next
    case up: False
    then have sl: "0 < slot" using par by (cases "slot = 0") auto
    have "heap_upto (th_val h2) (sift_list h2 n slot m) slot"
      unfolding heap_upto_def v2 len
    proof (intro conjI allI impI; elim conjE)
      fix i assume i: "0 < i" "i < n" "i \<noteq> slot"
      have "th_val h m \<le> th_val h (th_slots h ! i)" if "HEAP_PARENT i = slot"
        using up par sl old2 [OF i(1,2) that sl] by (simp add: not_le)
      then show "th_val h (sift_list h2 n slot m ! HEAP_PARENT i) \<le> th_val h (sift_list h2 n slot m ! i)"
        using old [of i] i less [of i] M(4) [of i] M(4) [of "HEAP_PARENT i"] by (auto split: if_splits)
    next
      fix i assume i: "0 < slot" "0 < i" "i < n" "HEAP_PARENT i = slot"
      show "th_val h (sift_list h2 n slot m ! HEAP_PARENT slot) \<le> th_val h (sift_list h2 n slot m ! i)"
        using old2 [of i] i less [of slot] less [of i] M(4) [of i] M(4) [of "HEAP_PARENT slot"] n(2) by auto
    qed
    then show "sift_result h2 n slot m h'"
      using reheap_up_result [OF M(3)] up h' by simp
  qed
qed

text \<open>The entry of a slot is taken out, and nothing else changes of the nodes.\<close>

lemma remove_node_result:
  assumes I: "th_inv H h" and slot: "slot < th_cur h" and r: "remove_node h slot = (h', e)"
  shows "e = th_slots h ! slot" "th_inv H h'" "mset (th_nodes h') = mset (th_nodes h) - {# e #}"
    "th_entry h' = (th_entry h)(e := (th_entry h e)\<lparr>te_timer_id := - 1\<rparr>)" "th_cur h' = th_cur h - 1"
    "th_max h' = th_max h" "th_refs h' = th_refs h" "th_per_poll h' = th_per_poll h"
proof -
  note D = th_invD [OF I]
  obtain n where n: "th_cur h = Suc n" using slot by (cases "th_cur h") auto
  have e: "e = th_slots h ! slot" using r slot by (simp add: remove_node_unlinked split: if_splits)
  have "th_inv H h' \<and> mset (th_nodes h') = mset (th_nodes h) - {# e #} \<and>
    (\<exists>sl ids. h' = (unlinked h slot)\<lparr>th_slots := sl, th_ids := ids\<rparr>)"
  proof (cases "slot < n")
    case False
    then have s: "Suc slot = th_cur h" using n slot by simp
    then have "h' = unlinked h slot" using r n by (simp add: remove_node_unlinked)
    moreover from this have "h' = (unlinked h slot)\<lparr>th_slots := th_slots h', th_ids := th_ids h'\<rparr>" by simp
    ultimately show ?thesis using unlinked_last_inv [OF I s] e by blast
  next
    case True
    define m where "m = th_slots h ! n"
    define h2 where "h2 = copy_node (unlinked h slot) slot m"
    note M = moved_last_state [OF I n True, folded m_def, folded h2_def]
    note R = moved_last_result [OF I n True r, folded m_def, folded h2_def]
    note U = unlinked_used [OF I slot M(2)]
    have used: "th_used h2 vs = th_used (unlinked h slot) vs" for vs by (simp add: th_used_def h2_def)
    have "m \<in> set (sift_list h2 n slot m)"
      using M(4) [OF True] True length_sift_list [of n h2 slot m] M(3)
      by (metis nth_mem sift_state_def)
    then have "nat (th_tid (unlinked h slot) m) \<in> th_used (unlinked h slot) (sift_list h2 n slot m)"
      by (simp only: th_used_def) (rule imageI)
    then have "th_ids h2 ! j = th_ids (unlinked h slot) ! j"
      if "j \<notin> th_used (unlinked h slot) (sift_list h2 n slot m) \<union> H" for j
      using that unfolding h2_def copy_node_def by (cases "j = nat (th_tid (unlinked h slot) m)") auto
    then have "th_free_ok (th_used h2 (sift_list h2 n slot m) \<union> H) h2"
      unfolding used by (intro th_free_ok_cong [OF U(3)]) (simp_all add: h2_def copy_node_def unlinked_def push_freelist_def set_entry_def)
    then have T: "th_inv H (h'\<lparr>th_cur := n\<rparr>)" "mset (th_nodes (h'\<lparr>th_cur := n\<rparr>)) = mset (sift_list h2 n slot m)"
      "h' = h2\<lparr>th_slots := th_slots h', th_ids := th_ids h'\<rparr>"
      using th_inv_sifted [OF M(3) R, of H] U(2,4) D(1,3) n by (simp_all add: used) (simp_all add: h2_def copy_node_def)
    have "h'\<lparr>th_cur := n\<rparr> = h'" by (subst (1 2) T(3)) (simp add: h2_def n)
    then show ?thesis using T M(1) e by (auto simp: h2_def copy_node_def)
  qed
  then show "e = th_slots h ! slot" "th_inv H h'" "mset (th_nodes h') = mset (th_nodes h) - {# e #}"
    "th_entry h' = (th_entry h)(e := (th_entry h e)\<lparr>te_timer_id := - 1\<rparr>)" "th_cur h' = th_cur h - 1"
    "th_max h' = th_max h" "th_refs h' = th_refs h" "th_per_poll h' = th_per_poll h"
    using e by auto
qed

lemma th_used_card: "th_inv H h \<Longrightarrow> card (th_used h (th_nodes h)) = th_cur h"
  using th_invD(4,5,13) [of H h] by (simp add: th_used_def card_image distinct_card)

lemma th_ids_left:
  assumes "th_inv H h" "th_cur h + card H + 1 < th_max h"
  shows "th_used h (th_nodes h) \<union> H \<noteq> {1..<th_max h}"
  using assms(2) card_Un_le [of "th_used h (th_nodes h)" H] th_used_card [OF assms(1)] by auto

text \<open>The heap that \<open>reheap_up\<close> is called on: the entry has its new id, and the arrays have room.\<close>

lemma insert_node_state:
  fixes t :: pj_time_val
  assumes I: "th_inv H h" and e: "th_tid h e < 1" and x: "x \<in> {1..<th_max h}" "x \<notin> th_used h (th_nodes h) \<union> H"
    and F: "th_free_ok (insert x (th_used h (th_nodes h) \<union> H)) (h\<lparr>th_free := k\<rparr>)"
  defines "h2 \<equiv> set_entry (h\<lparr>th_free := k\<rparr>) e (\<lambda>u. u\<lparr>te_timer_id := int x, te_value := t\<rparr>)"
  defines "h3 \<equiv> (if th_cur h2 + 2 \<ge> th_max h2 then grow_heap h2 else h2)"
  shows "sift_list h3 (Suc (th_cur h)) (th_cur h) e = th_nodes h @ [e]"
    and "sift_state h3 (Suc (th_cur h)) (th_cur h) e"
    and "heap_upto (th_val h3) (th_nodes h @ [e]) (th_cur h)"
    and "length (th_slots h3) = th_max h3" "Suc (th_cur h) + 2 \<le> th_max h3" "th_max h \<le> th_max h3"
    and "th_used h3 (th_nodes h @ [e]) = insert x (th_used h (th_nodes h))"
    and "th_free_ok (insert x (th_used h (th_nodes h)) \<union> H) h3"
    and "th_entry h3 = (th_entry h)(e := (th_entry h e)\<lparr>te_timer_id := int x, te_value := t\<rparr>)"
    and "th_cur h3 = th_cur h" "th_refs h3 = th_refs h" "th_per_poll h3 = th_per_poll h"
proof -
  note D = th_invD [OF I]
  show ent: "th_entry h3 = (th_entry h)(e := (th_entry h e)\<lparr>te_timer_id := int x, te_value := t\<rparr>)"
    and fr: "th_cur h3 = th_cur h" "th_refs h3 = th_refs h" "th_per_poll h3 = th_per_poll h"
    by (simp_all add: h3_def h2_def set_entry_def grow_heap_def)
  have sl: "th_slots h3 ! i = th_slots h ! i" "th_ids h3 ! i = th_ids h ! i" if "i < th_max h" for i
    using that D(1,2) by (simp_all add: h3_def h2_def set_entry_def grow_heap_def nth_append)
  have len: "length (th_ids h3) = th_max h3"
    using D(2) by (simp add: h3_def h2_def set_entry_def grow_heap_def)
  show lens: "length (th_slots h3) = th_max h3" and mx: "Suc (th_cur h) + 2 \<le> th_max h3" "th_max h \<le> th_max h3"
    using D(1,3) by (auto simp: h3_def h2_def set_entry_def grow_heap_def)
  have out: "e \<notin> set (th_nodes h)" using e D(7) [of e] by linarith
  show vs: "sift_list h3 (Suc (th_cur h)) (th_cur h) e = th_nodes h @ [e]"
    using D(3,5,6) lens mx by (intro nth_equalityI)
      (auto simp: length_sift_list sift_list_nth nth_append sl less_Suc_eq)
  have tid: "th_tid h3 y = (if y = e then int x else th_tid h y)"
    "th_val h3 y = (if y = e then t else th_val h y)" for y by (simp_all add: ent)
  show used: "th_used h3 (th_nodes h @ [e]) = insert x (th_used h (th_nodes h))"
    using out unfolding th_used_def set_append list.set image_Un by (auto simp: tid)
  have "th_free_ok (insert x (th_used h (th_nodes h) \<union> H)) h2" using F by (simp add: h2_def)
  then show "th_free_ok (insert x (th_used h (th_nodes h)) \<union> H) h3"
    using grow_heap_ok [of _ h2] D(3) by (simp add: h3_def h2_def set_entry_def)
  have "inj_on (\<lambda>y. nat (th_tid h3 y)) (set (th_nodes h @ [e]))"
  proof -
    have "nat (th_tid h3 y) = nat (th_tid h y)" "nat (th_tid h y) \<noteq> x" if "y \<in> set (th_nodes h)" for y
      using that out x(2) by (auto simp: tid th_used_def)
    then show ?thesis using D(13) by (auto simp: inj_on_def tid)
  qed
  moreover have "nat (th_tid h3 y) < length (th_ids h3)" if "y \<in> set (th_nodes h @ [e])" for y
    using that D(12) [of y] x(1) mx len by (cases "y = e") (auto simp: tid)
  moreover have "th_ids h3 ! nat (th_tid h3 (th_slots h3 ! i)) = int i" if "i < th_cur h" for i
  proof -
    have "th_slots h ! i \<in> set (th_nodes h)" using D(5,6) that by (metis nth_mem)
    then show ?thesis using that D(8) [OF that] D(3) D(12) out sl by (auto simp: tid)
  qed
  ultimately show "sift_state h3 (Suc (th_cur h)) (th_cur h) e"
    unfolding sift_state_def vs using D(4) out lens mx by (auto simp: less_Suc_eq)
  have val: "th_val h3 ((th_nodes h @ [e]) ! i) = th_val h (th_nodes h ! i)" if "i < th_cur h" for i
    using that out D(5) tid(2) nth_mem [of i "th_nodes h"] by (auto simp: nth_append)
  show "heap_upto (th_val h3) (th_nodes h @ [e]) (th_cur h)"
    unfolding heap_upto_def
  proof (intro conjI allI impI; elim conjE)
    fix i assume i: "0 < i" "i < length (th_nodes h @ [e])" "i \<noteq> th_cur h"
    then have "i < th_cur h" using D(5) by simp
    then show "th_val h3 ((th_nodes h @ [e]) ! HEAP_PARENT i) \<le> th_val h3 ((th_nodes h @ [e]) ! i)"
      using val [of i] val [of "HEAP_PARENT i"] HEAP_PARENT_less [OF i(1)] D(5,9) i(1)
      by (simp add: heap_ordered_def)
  next
    fix i assume "0 < i" "i < length (th_nodes h @ [e])" "HEAP_PARENT i = th_cur h"
    then have False using HEAP_PARENT_less [of i] D(5) by simp
    then show "th_val h3 ((th_nodes h @ [e]) ! HEAP_PARENT (th_cur h)) \<le> th_val h3 ((th_nodes h @ [e]) ! i)" ..
  qed
qed

lemma schedule_entry_result:
  assumes I: "th_inv H h" and e: "th_tid h e < 1" and room: "th_cur h + card H + 1 < th_max h"
  shows "\<exists>h' x. schedule_entry h e t = Some (h', PJ_SUCCESS) \<and> th_inv H h' \<and>
    mset (th_nodes h') = add_mset e (mset (th_nodes h)) \<and>
    th_entry h' = (th_entry h)(e := (th_entry h e)\<lparr>te_timer_id := int x, te_value := t\<rparr>) \<and>
    th_cur h' = th_cur h + 1 \<and> th_max h \<le> th_max h' \<and> th_refs h' = th_refs h \<and> th_per_poll h' = th_per_poll h"
proof -
  note D = th_invD [OF I]
  obtain x where x: "x \<in> {1..<th_max h}" "x \<notin> th_used h (th_nodes h) \<union> H"
    "pop_freelist h = Some (h\<lparr>th_free := - (th_ids h ! x)\<rparr>, int x)"
    "th_free_ok (insert x (th_used h (th_nodes h) \<union> H)) (h\<lparr>th_free := - (th_ids h ! x)\<rparr>)"
    using pop_freelist_ok [OF D(11) th_ids_left [OF I room]] .
  define h2 where "h2 = set_entry (h\<lparr>th_free := - (th_ids h ! x)\<rparr>) e (\<lambda>u. u\<lparr>te_timer_id := int x, te_value := t\<rparr>)"
  define h3 where "h3 = (if th_cur h2 + 2 \<ge> th_max h2 then grow_heap h2 else h2)"
  note N = insert_node_state [OF I e x(1,2,4), of t, folded h2_def, folded h3_def]
  let ?h' = "reheap_up h3 e (th_cur h)"
  have s: "schedule_entry h e t = Some (?h'\<lparr>th_cur := th_cur ?h' + 1\<rparr>, PJ_SUCCESS)"
  proof -
    have "insert_node h2 e = (reheap_up h3 e (th_cur h3))\<lparr>th_cur := th_cur (reheap_up h3 e (th_cur h3)) + 1\<rparr>"
      unfolding insert_node_def h3_def Let_def ..
    then have "insert_node h2 e = ?h'\<lparr>th_cur := th_cur ?h' + 1\<rparr>" by (simp only: N(10))
    moreover have "schedule_entry h e t = Some (insert_node h2 e, PJ_SUCCESS)"
      using D(3) x(3) by (simp add: schedule_entry_def h2_def)
    ultimately show ?thesis by simp
  qed
  have "sift_result h3 (Suc (th_cur h)) (th_cur h) e ?h'"
    using reheap_up_result [OF N(2)] N(1,3) by simp
  note T = th_inv_sifted [OF N(2) this, of H, unfolded N(1) N(7)]
  have idle: "y \<in> set (th_nodes h @ [e]) \<longleftrightarrow> 1 \<le> th_tid h3 y" for y
    using D(7) [of y] x(1) by (auto simp: N(9))
  have H: "insert x (th_used h (th_nodes h)) \<inter> H = {}" using x(2) D(10) by auto
  have "th_cur ?h' = th_cur h" by (subst T(3) [OF N(4,5) idle H N(8)]) (simp add: N(10))
  moreover have "th_entry ?h' = th_entry h3" "th_max ?h' = th_max h3" "th_refs ?h' = th_refs h3"
    "th_per_poll ?h' = th_per_poll h3" by (subst T(3) [OF N(4,5) idle H N(8)], simp)+
  ultimately show ?thesis
    using s T(1,2) [OF N(4,5) idle H N(8)] N(6,9,11,12)
    by (intro exI [of _ "?h'\<lparr>th_cur := Suc (th_cur h)\<rparr>"] exI [of _ x]) simp
qed

lemma schedule_w_grp_lock_result:
  assumes I: "th_inv H h" and room: "th_cur h + card H + 1 < th_max h"
  shows "if te_cb (th_entry h e) \<and> e \<notin> set (th_nodes h)
    then \<exists>h' x. schedule_w_grp_lock h now e delay set_id id_val grp = Some (h', PJ_SUCCESS) \<and> th_inv H h' \<and>
      mset (th_nodes h') = add_mset e (mset (th_nodes h)) \<and>
      th_entry h' = (th_entry h)(e := (th_entry h e)\<lparr>te_timer_id := int x,
        te_value := PJ_TIME_VAL_ADD now delay, te_id := (if set_id then id_val else te_id (th_entry h e)), te_grp := grp\<rparr>) \<and>
      th_cur h' = th_cur h + 1 \<and> th_max h \<le> th_max h' \<and> th_per_poll h' = th_per_poll h \<and>
      th_refs h' = (case grp of None \<Rightarrow> th_refs h | Some g \<Rightarrow> (th_refs h)(g := th_refs h g + 1))
    else schedule_w_grp_lock h now e delay set_id id_val grp =
      Some (h, if te_cb (th_entry h e) then PJ_EINVALIDOP else PJ_EINVAL)"
proof (cases "te_cb (th_entry h e) \<and> e \<notin> set (th_nodes h)")
  case True
  then have tid: "th_tid h e < 1" using th_invD(7) [OF I, of e] by auto
  obtain h1 x where h1: "schedule_entry h e (PJ_TIME_VAL_ADD now delay) = Some (h1, PJ_SUCCESS)" "th_inv H h1"
    "mset (th_nodes h1) = add_mset e (mset (th_nodes h))"
    "th_entry h1 = (th_entry h)(e := (th_entry h e)\<lparr>te_timer_id := int x, te_value := PJ_TIME_VAL_ADD now delay\<rparr>)"
    "th_cur h1 = th_cur h + 1" "th_max h \<le> th_max h1" "th_refs h1 = th_refs h" "th_per_poll h1 = th_per_poll h"
    using schedule_entry_result [OF I tid room] by blast
  define h2 where "h2 = set_entry h1 e (\<lambda>t. t\<lparr>te_id := (if set_id then id_val else te_id t), te_grp := grp\<rparr>)"
  have h2: "th_inv H h2" "th_nodes h2 = th_nodes h1" "th_cur h2 = th_cur h1" "th_max h2 = th_max h1"
    "th_per_poll h2 = th_per_poll h1" "th_refs h2 = th_refs h1"
    "th_entry h2 = (th_entry h)(e := (th_entry h e)\<lparr>te_timer_id := int x,
        te_value := PJ_TIME_VAL_ADD now delay, te_id := (if set_id then id_val else te_id (th_entry h e)), te_grp := grp\<rparr>)"
    unfolding h2_def using h1(2,4) by (simp_all add: th_inv_set_entry) (simp_all add: set_entry_def)
  have refs: "th_refs (grp_lock_add_ref grp 1 h2) = (case grp of None \<Rightarrow> th_refs h | Some g \<Rightarrow> (th_refs h)(g := th_refs h g + 1))"
    using h2(6) h1(7) by (simp add: grp_lock_add_ref_def split: option.split)
  have "schedule_w_grp_lock h now e delay set_id id_val grp = Some (grp_lock_add_ref grp 1 h2, PJ_SUCCESS)"
    using True tid h1(1) by (simp add: schedule_w_grp_lock_def h2_def)
  then show ?thesis
    unfolding if_P [OF True] using h1 h2 refs
    by (intro exI [of _ "grp_lock_add_ref grp 1 h2"] exI [of _ x]) simp
next
  case False
  then show ?thesis
    using th_invD(7) [OF I, of e] by (auto simp: schedule_w_grp_lock_def)
qed

text \<open>Cancelling reports 1 exactly for a scheduled entry, and takes out just this one.\<close>

lemma cancel_entry_result:
  assumes I: "th_inv H h"
  shows "\<exists>h'. cancel_entry h e = Some (h', if e \<in> set (th_nodes h) then 1 else 0) \<and> th_inv H h' \<and>
    mset (th_nodes h') = mset (th_nodes h) - {# e #} \<and>
    th_entry h' = (th_entry h)(e := (th_entry h e)\<lparr>te_timer_id := - 1\<rparr>) \<and>
    th_cur h' = th_cur h - (if e \<in> set (th_nodes h) then 1 else 0) \<and>
    th_max h' = th_max h \<and> th_refs h' = th_refs h \<and> th_per_poll h' = th_per_poll h"
proof (cases "e \<in> set (th_nodes h)")
  case True
  note D = th_invD [OF I]
  obtain i where i: "i < th_cur h" "th_slots h ! i = e" using True D(5,6) by (metis in_set_conv_nth)
  have t: "1 \<le> th_tid h e" "nat (th_tid h e) < th_max h" "th_ids h ! nat (th_tid h e) = int i"
    using True D(7,12) D(8) [OF i(1)] i(2) by auto
  obtain h' where r: "remove_node h i = (h', e)"
    using remove_node_result(1) [OF I i(1)] i(2) by (metis surj_pair)
  have "cancel_entry h e = Some (h', 1)"
    using t i D(1,2,3) r by (simp add: cancel_entry_def Let_def)
  then show ?thesis using remove_node_result [OF I i(1) r] True by auto
next
  case False
  note D = th_invD [OF I]
  have neg: "th_tid h e < 1" using False D(7) [of e] by linarith
  define h' where "h' = set_entry h e (te_timer_id_update (\<lambda>_. - 1))"
  have "cancel_entry h e = Some (h', 0)"
  proof (cases "th_tid h e < 0")
    case True
    then show ?thesis by (simp add: cancel_entry_def h'_def)
  next
    case False
    then have "th_tid h e = 0" using neg by simp
    moreover have "th_ids h ! 0 < 0" using D(11) by (simp add: th_free_ok_def)
    ultimately show ?thesis using D(2,3) by (simp add: cancel_entry_def h'_def Let_def)
  qed
  moreover have "th_inv H h'"
  proof -
    have e: "th_entry h' y = th_entry h y" if "y \<noteq> e" for y using that by (simp add: h'_def set_entry_def)
    have n: "th_nodes h' = th_nodes h" by (simp add: h'_def th_nodes_def set_entry_def)
    have same: "th_tid h' y = th_tid h y" if "y \<in> set (th_nodes h)" for y
      using that False e [of y] by (cases "y = e") auto
    have "th_used h' (th_nodes h) = th_used h (th_nodes h)" using same by (simp add: th_used_def)
    moreover have "th_tid h' y < 1" if "y \<notin> set (th_nodes h)" for y
      using that D(7) [of y] e [of y] by (cases "y = e") (auto simp: h'_def set_entry_def)
    moreover have "th_val h' = th_val h" by (auto simp: h'_def set_entry_def)
    moreover have "th_ids h ! nat (th_tid h' (th_slots h ! i)) = int i" if "i < th_cur h" for i
      using D(8) [OF that] same [of "th_slots h ! i"] D(5,6) that by (metis nth_mem)
    ultimately show ?thesis
      unfolding th_inv_def n using D same by (auto simp: h'_def) (auto simp: set_entry_def)
  qed
  ultimately show ?thesis
    using False by (auto simp: h'_def set_entry_def th_nodes_def)
qed

lemma cancel_timer_result:
  assumes I: "th_inv H h"
  shows "\<exists>h'. cancel_timer h e set_id id_val = Some (h', if e \<in> set (th_nodes h) then 1 else 0) \<and> th_inv H h' \<and>
    mset (th_nodes h') = mset (th_nodes h) - {# e #} \<and>
    th_entry h' = (th_entry h)(e := (th_entry h e)\<lparr>te_timer_id := - 1,
      te_id := (if set_id then id_val else te_id (th_entry h e)), te_grp := None\<rparr>) \<and>
    th_cur h' \<le> th_cur h \<and> th_max h' = th_max h \<and> th_per_poll h' = th_per_poll h \<and>
    th_refs h' = (case te_grp (th_entry h e) of None \<Rightarrow> th_refs h | Some g \<Rightarrow> (th_refs h)(g := th_refs h g - 1))"
proof -
  obtain h1 where h1: "cancel_entry h e = Some (h1, if e \<in> set (th_nodes h) then 1 else 0)" "th_inv H h1"
    "mset (th_nodes h1) = mset (th_nodes h) - {# e #}"
    "th_entry h1 = (th_entry h)(e := (th_entry h e)\<lparr>te_timer_id := - 1\<rparr>)"
    "th_cur h1 = th_cur h - (if e \<in> set (th_nodes h) then 1 else 0)"
    "th_max h1 = th_max h" "th_refs h1 = th_refs h" "th_per_poll h1 = th_per_poll h"
    using cancel_entry_result [OF I] by blast
  define h2 where "h2 = (if set_id then set_entry h1 e (te_id_update (\<lambda>_. id_val)) else h1)"
  define h3 where "h3 = set_entry h2 e (te_grp_update (\<lambda>_. None))"
  have h3: "th_inv H h3" "th_nodes h3 = th_nodes h1" "th_cur h3 = th_cur h1" "th_max h3 = th_max h1"
    "th_per_poll h3 = th_per_poll h1" "th_refs h3 = th_refs h1"
    "th_entry h3 = (th_entry h)(e := (th_entry h e)\<lparr>te_timer_id := - 1,
      te_id := (if set_id then id_val else te_id (th_entry h e)), te_grp := None\<rparr>)"
    "te_grp (th_entry h2 e) = te_grp (th_entry h e)"
    unfolding h3_def h2_def using h1(2,4)
    by (simp_all add: th_inv_set_entry) (simp_all add: set_entry_def)
  have "cancel_timer h e set_id id_val = Some (grp_lock_add_ref (te_grp (th_entry h e)) (- 1) h3,
      if e \<in> set (th_nodes h) then 1 else 0)"
    unfolding cancel_timer_def h1(1) option.case prod.case Let_def h2_def [symmetric] h3(8) h3_def [symmetric] ..
  moreover have "th_refs (grp_lock_add_ref (te_grp (th_entry h e)) (- 1) h3) =
      (case te_grp (th_entry h e) of None \<Rightarrow> th_refs h | Some g \<Rightarrow> (th_refs h)(g := th_refs h g - 1))"
    using h3(6) h1(7) by (simp add: grp_lock_add_ref_def split: option.split)
  ultimately show ?thesis
    using h1 h3 by (intro exI [of _ "grp_lock_add_ref (te_grp (th_entry h e)) (- 1) h3"]) simp
qed

section \<open>Polling\<close>

text \<open>While a callback runs, the timer id of its entry is held; \<open>push_freelist\<close> releases it.\<close>

lemma th_nodes_frame [simp]:
  "th_nodes (h\<lparr>th_free := k\<rparr>) = th_nodes h" "th_nodes (push_freelist h k) = th_nodes h"
  by (simp_all add: th_nodes_def push_freelist_def)

lemma th_inv_hold:
  assumes I: "th_inv {} h"
  obtains x where "pop_freelist h = Some (h\<lparr>th_free := - (th_ids h ! x)\<rparr>, int x)"
    "th_inv {x} (h\<lparr>th_free := - (th_ids h ! x)\<rparr>)"
proof -
  note D = th_invD [OF I]
  have "th_cur h + card ({} :: nat set) + 1 < th_max h" using D(3) by simp
  note left = th_ids_left [OF I this]
  obtain x where x: "x \<notin> th_used h (th_nodes h)" "pop_freelist h = Some (h\<lparr>th_free := - (th_ids h ! x)\<rparr>, int x)"
    "th_free_ok (insert x (th_used h (th_nodes h))) (h\<lparr>th_free := - (th_ids h ! x)\<rparr>)"
    using pop_freelist_ok [OF D(11) left] by auto
  have "th_inv {x} (h\<lparr>th_free := - (th_ids h ! x)\<rparr>)"
    using I x(1,3) unfolding th_inv_def by (simp add: th_used_def)
  then show ?thesis using x(2) that by blast
qed

lemma th_inv_release:
  assumes I: "th_inv {x} h"
  shows "th_inv {} (push_freelist h (int x))"
proof -
  note D = th_invD [OF I]
  have u: "th_used (push_freelist h (int x)) (th_nodes h) = th_used h (th_nodes h)"
    by (simp add: th_used_def push_freelist_def)
  have "x \<notin> th_used h (th_nodes h)" using D(10) by auto
  then have "th_free_ok (th_used h (th_nodes h)) (push_freelist h (int x))"
    using push_freelist_ok [OF D(11), of x] by simp
  moreover have "th_ids (push_freelist h (int x)) ! nat (th_tid h (th_slots h ! i)) = int i" if "i < th_cur h" for i
  proof -
    have "th_slots h ! i \<in> set (th_nodes h)" using D(5,6) that by (metis nth_mem)
    then have "nat (th_tid h (th_slots h ! i)) \<noteq> x" using D(10) by (auto simp: th_used_def)
    then show ?thesis using D(8) [OF that] by (simp add: push_freelist_def)
  qed
  ultimately show ?thesis
    using I unfolding th_inv_def u th_nodes_frame by (simp add: u) (simp add: push_freelist_def)
qed

text \<open>
  What polling relies on of a callback: called while one timer id is held and one more is sure to be
  free, it returns and leaves the heap well-formed, keeps the application's own invariant, and does
  not raise the number of entries per poll.
\<close>

locale timer_callback =
  fixes cb :: "nat \<Rightarrow> timer_heap \<Rightarrow> 'a \<Rightarrow> (timer_heap \<times> 'a) option" and app_inv :: "'a \<Rightarrow> bool"
  assumes cb_result: "th_inv {x} h \<Longrightarrow> th_cur h + 3 \<le> th_max h \<Longrightarrow> app_inv app \<Longrightarrow>
    \<exists>h' app'. cb e h app = Some (h', app') \<and> app_inv app' \<and> th_inv {x} h' \<and> th_per_poll h' \<le> th_per_poll h"

text \<open>One round of the loop up to the callback.\<close>

lemma poll_round:
  assumes I: "th_inv {} h" and cur: "0 < th_cur h"
  shows "\<exists>x h1 node. poll_loop cb now h app fired =
      (if th_val h node \<le> now \<and> length fired < th_per_poll h
       then Option.bind (if te_cb (th_entry h node) then cb node h1 app else Some (h1, app))
         (\<lambda>(h', app'). poll_loop cb now (push_freelist (grp_lock_add_ref (te_grp (th_entry h node)) (- 1) h') (int x))
            app' (fired @ [node]))
       else Some (h, app, fired)) \<and>
    th_inv {x} h1 \<and> mset (th_nodes h) = add_mset node (mset (th_nodes h1)) \<and> th_cur h1 + 3 \<le> th_max h1 \<and>
    th_per_poll h1 = th_per_poll h \<and> th_val h1 = th_val h \<and>
    (\<forall>y \<in> set (th_nodes h). th_val h node \<le> th_val h y) \<and> node = th_slots h ! 0 \<and>
    (\<forall>y. te_cb (th_entry h1 y) = te_cb (th_entry h y))"
proof -
  note D = th_invD [OF I]
  define node where "node = th_slots h ! 0"
  obtain h0 where r: "remove_node h 0 = (h0, node)"
    using remove_node_result(1) [OF I cur] by (metis surj_pair node_def)
  note R = remove_node_result [OF I cur r]
  obtain x where x: "pop_freelist h0 = Some (h0\<lparr>th_free := - (th_ids h0 ! x)\<rparr>, int x)"
    "th_inv {x} (h0\<lparr>th_free := - (th_ids h0 ! x)\<rparr>)"
    using th_inv_hold [OF R(2)] by blast
  define h1 where "h1 = set_entry (h0\<lparr>th_free := - (th_ids h0 ! x)\<rparr>) node (te_grp_update (\<lambda>_. None))"
  have ent: "th_entry h1 = (th_entry h)(node := (th_entry h node)\<lparr>te_timer_id := - 1, te_grp := None\<rparr>)"
    using R(4) by (simp add: h1_def set_entry_def)
  have "node \<in># mset (th_nodes h)" using D(5) D(6) [of 0] cur by (metis node_def nth_mem set_mset_mset)
  then have m: "mset (th_nodes h) = add_mset node (mset (th_nodes h1))"
    using R(3) by (simp add: h1_def set_entry_def th_nodes_def)
  have inv: "th_inv {x} h1" unfolding h1_def using x(2) by (simp add: th_inv_set_entry)
  have low: "th_val h node \<le> th_val h y" if "y \<in> set (th_nodes h)" for y
    using that heap_ordered_root [OF D(9)] D(5,6) cur by (metis in_set_conv_nth node_def)
  have eq: "poll_loop cb now h app fired =
      (if th_val h node \<le> now \<and> length fired < th_per_poll h
       then Option.bind (if te_cb (th_entry h node) then cb node h1 app else Some (h1, app))
         (\<lambda>(h', app'). poll_loop cb now (push_freelist (grp_lock_add_ref (te_grp (th_entry h node)) (- 1) h') (int x))
            app' (fired @ [node]))
       else Some (h, app, fired))"
    using cur R(4) by (subst poll_loop.simps) (simp add: r x(1) h1_def set_entry_def Let_def flip: node_def)
  have "th_val h1 = th_val h" by (auto simp: ent)
  moreover have "\<forall>y. te_cb (th_entry h1 y) = te_cb (th_entry h y)" by (simp add: ent)
  moreover have "th_cur h1 + 3 \<le> th_max h1" "th_per_poll h1 = th_per_poll h"
    using D(3) R(5,6,8) cur by (simp_all add: h1_def set_entry_def)
  ultimately show ?thesis
    using eq inv m low node_def by (intro exI [of _ x] exI [of _ h1] exI [of _ node] conjI) simp_all
qed

context timer_callback
begin

lemma poll_loop_result:
  "th_inv {} h \<Longrightarrow> app_inv app \<Longrightarrow>
    \<exists>h' app' more. poll_loop cb now h app fired = Some (h', app', fired @ more) \<and> app_inv app' \<and> th_inv {} h' \<and>
    th_per_poll h' \<le> th_per_poll h \<and>
    (th_cur h' = 0 \<or> now < th_val h' (th_slots h' ! 0) \<or> th_per_poll h' \<le> length (fired @ more))"
proof (induction "th_per_poll h - length fired" arbitrary: h app fired rule: less_induct)
  case less
  note I = less.prems(1)
  show ?case
  proof (cases "th_cur h = 0")
    case True
    then show ?thesis using less.prems by (subst poll_loop.simps) auto
  next
    case False
    then have "0 < th_cur h" by simp
    then obtain x h1 node where P: "poll_loop cb now h app fired =
      (if th_val h node \<le> now \<and> length fired < th_per_poll h
       then Option.bind (if te_cb (th_entry h node) then cb node h1 app else Some (h1, app))
         (\<lambda>(h', app'). poll_loop cb now (push_freelist (grp_lock_add_ref (te_grp (th_entry h node)) (- 1) h') (int x))
            app' (fired @ [node]))
       else Some (h, app, fired))"
      "th_inv {x} h1" "th_cur h1 + 3 \<le> th_max h1" "th_per_poll h1 = th_per_poll h" "node = th_slots h ! 0"
      using poll_round [OF I, of cb now app fired] by blast
    show ?thesis
    proof (cases "th_val h node \<le> now \<and> length fired < th_per_poll h")
      case fire: True
      obtain h2 app2 where h2: "(if te_cb (th_entry h node) then cb node h1 app else Some (h1, app)) = Some (h2, app2)"
        "th_inv {x} h2" "th_per_poll h2 \<le> th_per_poll h" "app_inv app2"
        using cb_result [OF P(2,3) less.prems(2), of node] P(2,4) less.prems(2) by (cases "te_cb (th_entry h node)") auto
      define h3 where "h3 = push_freelist (grp_lock_add_ref (te_grp (th_entry h node)) (- 1) h2) (int x)"
      have h3: "th_inv {} h3" "th_per_poll h3 \<le> th_per_poll h"
        unfolding h3_def using th_inv_release [of x] h2(2,3) by simp_all (simp add: push_freelist_def)
      have "th_per_poll h3 - length (fired @ [node]) < th_per_poll h - length fired" using h3(2) conjunct2 [OF fire] by simp
      from less.hyps [OF this h3(1) h2(4)] obtain h' app' more where
        "poll_loop cb now h3 app2 (fired @ [node]) = Some (h', app', (fired @ [node]) @ more)" "app_inv app'" "th_inv {} h'"
        "th_per_poll h' \<le> th_per_poll h3"
        "th_cur h' = 0 \<or> now < th_val h' (th_slots h' ! 0) \<or> th_per_poll h' \<le> length ((fired @ [node]) @ more)"
        by blast
      then show ?thesis
        using P(1) fire h2(1) h3(2) by (intro exI [of _ h'] exI [of _ app'] exI [of _ "node # more"]) (simp add: h3_def)
    next
      case False
      then show ?thesis using P(1,5) less.prems by (intro exI [of _ h] exI [of _ app] exI [of _ "[]"]) auto
    qed
  qed
qed

end

text \<open>
  What polling does to the timers that the callbacks leave alone. \<open>touched\<close> are the entries the
  callbacks may schedule or cancel; they leave every other entry's time, and whether it is scheduled,
  as they find it.
\<close>

locale framed_callback = timer_callback cb app_inv
  for cb :: "nat \<Rightarrow> timer_heap \<Rightarrow> 'a \<Rightarrow> (timer_heap \<times> 'a) option" and app_inv :: "'a \<Rightarrow> bool" +
  fixes touched :: "nat set"
  assumes cb_frame: "th_inv {x} h \<Longrightarrow> th_cur h + 3 \<le> th_max h \<Longrightarrow> app_inv app \<Longrightarrow>
    cb e h app = Some (h', app') \<Longrightarrow> y \<notin> touched \<Longrightarrow>
    (y \<in> set (th_nodes h') \<longleftrightarrow> y \<in> set (th_nodes h)) \<and> th_val h' y = th_val h y"

lemma filter_mset_distinct:
  assumes "distinct xs" "distinct ys" "\<And>y. P y \<Longrightarrow> y \<in> set xs \<longleftrightarrow> y \<in> set ys"
  shows "filter_mset P (mset xs) = filter_mset P (mset ys)"
  using assms by (intro multiset_eqI) (auto simp: distinct_count_atmost_1)

definition poll_framed ::
  "nat set \<Rightarrow> pj_time_val \<Rightarrow> timer_heap \<Rightarrow> timer_heap \<Rightarrow> nat list \<Rightarrow> bool" where
  "poll_framed touched now h h' fired \<longleftrightarrow>
     (\<forall>y. y \<notin> touched \<longrightarrow> th_val h' y = th_val h y) \<and>
     filter_mset (\<lambda>y. y \<notin> touched) (mset (th_nodes h)) =
       filter_mset (\<lambda>y. y \<notin> touched) (mset fired) + filter_mset (\<lambda>y. y \<notin> touched) (mset (th_nodes h')) \<and>
     sorted (map (th_val h) (filter (\<lambda>y. y \<notin> touched) fired)) \<and>
     (\<forall>e \<in> set fired - touched. th_val h e \<le> now \<and> (\<forall>y \<in> set (th_nodes h') - touched. th_val h e \<le> th_val h y))"

lemma poll_framed_refl: "poll_framed touched now h h []"
  by (simp add: poll_framed_def)

text \<open>One more entry fired in front, the earliest of all.\<close>

lemma poll_framed_Cons:
  assumes later: "poll_framed touched now h3 h' rest" and now: "th_val h node \<le> now"
    and nodes: "mset (th_nodes h) = add_mset node (mset (th_nodes h1))"
    and low: "\<forall>y \<in> set (th_nodes h). th_val h node \<le> th_val h y"
    and frame: "filter_mset (\<lambda>y. y \<notin> touched) (mset (th_nodes h3)) = filter_mset (\<lambda>y. y \<notin> touched) (mset (th_nodes h1))"
    and val: "\<And>y. y \<notin> touched \<Longrightarrow> th_val h3 y = th_val h y"
  shows "poll_framed touched now h h' (node # rest)"
proof -
  let ?out = "\<lambda>y. y \<notin> touched"
  note L = later [unfolded poll_framed_def]
  have ms: "filter_mset ?out (mset (th_nodes h)) =
      filter_mset ?out (mset (node # rest)) + filter_mset ?out (mset (th_nodes h'))"
    using L frame by (simp add: nodes)
  have sub: "y \<in> set (th_nodes h)" if "y \<in> set (node # rest) \<union> set (th_nodes h')" "?out y" for y
  proof -
    have "y \<in># filter_mset ?out (mset (th_nodes h))" unfolding ms using that by auto
    then show ?thesis by simp
  qed
  have srt: "sorted (map (th_val h3) (filter ?out rest)) = sorted (map (th_val h) (filter ?out rest))"
    using val by (intro arg_cong [of _ _ sorted] map_cong) auto
  show ?thesis
    unfolding poll_framed_def
  proof (intro conjI)
    show "sorted (map (th_val h) (filter ?out (node # rest)))"
      using L srt low sub by auto
    show "\<forall>e \<in> set (node # rest) - touched.
        th_val h e \<le> now \<and> (\<forall>y \<in> set (th_nodes h') - touched. th_val h e \<le> th_val h y)"
      using L low sub now val by auto
    show "\<forall>y. ?out y \<longrightarrow> th_val h' y = th_val h y" using L val by simp
  qed (rule ms)
qed

context framed_callback
begin

lemma poll_loop_framed:
  "th_inv {} h \<Longrightarrow> app_inv app \<Longrightarrow> poll_loop cb now h app fired = Some (h', app', all) \<Longrightarrow>
    \<exists>more. all = fired @ more \<and> poll_framed touched now h h' more \<and>
      (length fired \<le> th_per_poll h \<longrightarrow> length all \<le> th_per_poll h)"
proof (induction "th_per_poll h - length fired" arbitrary: h app fired rule: less_induct)
  case less
  note I = less.prems(1)
  show ?case
  proof (cases "th_cur h = 0")
    case True
    then have "poll_loop cb now h app fired = Some (h, app, fired)" by (subst poll_loop.simps) simp
    then show ?thesis using less.prems(3) by (simp add: poll_framed_refl)
  next
    case False
    then have cur: "0 < th_cur h" by simp
    obtain x h1 node where P: "poll_loop cb now h app fired =
      (if th_val h node \<le> now \<and> length fired < th_per_poll h
       then Option.bind (if te_cb (th_entry h node) then cb node h1 app else Some (h1, app))
         (\<lambda>(h', app'). poll_loop cb now (push_freelist (grp_lock_add_ref (te_grp (th_entry h node)) (- 1) h') (int x))
            app' (fired @ [node]))
       else Some (h, app, fired))"
      "th_inv {x} h1" "mset (th_nodes h) = add_mset node (mset (th_nodes h1))" "th_cur h1 + 3 \<le> th_max h1"
      "th_per_poll h1 = th_per_poll h" "th_val h1 = th_val h" "\<forall>y \<in> set (th_nodes h). th_val h node \<le> th_val h y"
      using poll_round [OF I cur, of cb now app fired] by blast
    show ?thesis
    proof (cases "th_val h node \<le> now \<and> length fired < th_per_poll h")
      case fire: True
      obtain h2 app2 where h2: "(if te_cb (th_entry h node) then cb node h1 app else Some (h1, app)) = Some (h2, app2)"
        "th_inv {x} h2" "th_per_poll h2 \<le> th_per_poll h" "app_inv app2"
        using cb_result [OF P(2,4) less.prems(2), of node] P(2,5) less.prems(2) by (cases "te_cb (th_entry h node)") auto
      have fr: "(y \<in> set (th_nodes h2) \<longleftrightarrow> y \<in> set (th_nodes h1)) \<and> th_val h2 y = th_val h1 y" if "y \<notin> touched" for y
        using cb_frame [OF P(2,4) less.prems(2) _ that, of node h2 app2] h2(1)
        by (cases "te_cb (th_entry h node)") auto
      define h3 where "h3 = push_freelist (grp_lock_add_ref (te_grp (th_entry h node)) (- 1) h2) (int x)"
      have h3: "th_inv {} h3" "th_per_poll h3 \<le> th_per_poll h" "th_nodes h3 = th_nodes h2" "th_val h3 = th_val h2"
        unfolding h3_def using th_inv_release [of x] h2(2,3) by simp_all (simp_all add: push_freelist_def)
      have dec: "th_per_poll h3 - length (fired @ [node]) < th_per_poll h - length fired" using h3(2) conjunct2 [OF fire] by simp
      have "poll_loop cb now h3 app2 (fired @ [node]) = Some (h', app', all)"
        using less.prems(3) P(1) fire h2(1) by (simp add: h3_def)
      from less.hyps [OF dec h3(1) h2(4) this] obtain more where M: "all = (fired @ [node]) @ more"
        "poll_framed touched now h3 h' more"
        "length (fired @ [node]) \<le> th_per_poll h3 \<longrightarrow> length all \<le> th_per_poll h3" by blast
      have "filter_mset (\<lambda>y. y \<notin> touched) (mset (th_nodes h3)) = filter_mset (\<lambda>y. y \<notin> touched) (mset (th_nodes h1))"
        unfolding h3(3) using fr th_invD(4) [OF h2(2)] th_invD(4) [OF P(2)] by (intro filter_mset_distinct) auto
      moreover have "th_val h3 y = th_val h y" if "y \<notin> touched" for y
        using fr [OF that] by (metis h3(4) P(6))
      ultimately have "poll_framed touched now h h' (node # more)"
        using fire by (intro poll_framed_Cons [OF M(2) _ P(3,7)]) auto
      moreover have "length all \<le> th_per_poll h"
      proof (cases "length (fired @ [node]) \<le> th_per_poll h3")
        case True
        then show ?thesis using M(3) h3(2) by simp
      next
        case False
        then have "more = []"
          using M(1) \<open>poll_loop cb now h3 app2 (fired @ [node]) = Some (h', app', all)\<close>
          by (subst (asm) poll_loop.simps) simp
        then show ?thesis using M(1) fire by simp
      qed
      ultimately show ?thesis using M(1) by (intro exI [of _ "node # more"]) simp
    next
      case False
      then have "h' = h" "all = fired" using P(1) less.prems(3) by auto
      then show ?thesis by (simp add: poll_framed_refl)
    qed
  qed
qed

lemma poll_framed_result:
  assumes I: "th_inv {} h" and app: "app_inv app"
  shows "\<exists>h' app' fired d. pj_timer_heap_poll cb now h app want = Some (h', app', fired, d) \<and>
    th_inv {} h' \<and> app_inv app' \<and> poll_framed touched now h h' fired \<and> length fired \<le> th_per_poll h \<and>
    (length fired < th_per_poll h' \<longrightarrow> (\<forall>y \<in> set (th_nodes h'). now < th_val h' y))"
proof (cases "th_cur h = 0 \<and> want")
  case True
  then show ?thesis using assms by (simp add: pj_timer_heap_poll_def th_nodes_def poll_framed_refl)
next
  case False
  obtain h' app' fired where L: "poll_loop cb now h app [] = Some (h', app', fired)" "app_inv app'" "th_inv {} h'"
    "th_cur h' = 0 \<or> now < th_val h' (th_slots h' ! 0) \<or> th_per_poll h' \<le> length fired"
    using poll_loop_result [OF assms, of now "[]"] by auto
  then obtain d where p: "pj_timer_heap_poll cb now h app want = Some (h', app', fired, d)"
    using False by (auto simp: pj_timer_heap_poll_def)
  have fr: "poll_framed touched now h h' fired" "length fired \<le> th_per_poll h"
    using poll_loop_framed [OF assms L(1)] by auto
  note D = th_invD [OF L(3)]
  have "now < th_val h' y" if "length fired < th_per_poll h'" "y \<in> set (th_nodes h')" for y
  proof -
    have "0 < th_cur h'" using that(2) D(5) by (metis length_pos_if_in_set)
    then have "now < th_val h' (th_nodes h' ! 0)" using L(4) that(1) D(6) [of 0] by auto
    moreover have "th_val h' (th_nodes h' ! 0) \<le> th_val h' y"
      using that(2) heap_ordered_root [OF D(9)] by (metis in_set_conv_nth)
    ultimately show ?thesis by (rule less_le_trans)
  qed
  then show ?thesis
    using p L(2,3) fr by (intro exI [of _ h'] exI [of _ app'] exI [of _ fired] exI [of _ d]) simp
qed

end

text \<open>A callback that leaves the heap alone.\<close>

definition quiet_cb :: "nat \<Rightarrow> timer_heap \<Rightarrow> 'a \<Rightarrow> (timer_heap \<times> 'a) option" where
  "quiet_cb e h app = Some (h, app)"

interpretation quiet: framed_callback quiet_cb "\<lambda>_. True" "{}"
  by unfold_locales (simp_all add: quiet_cb_def)

text \<open>
  Callbacks as the library's own code writes them: they cancel some entries and then schedule at
  most one, typically their own.
\<close>

fun cancel_all :: "timer_heap \<Rightarrow> nat list \<Rightarrow> timer_heap option" where
  "cancel_all h [] = Some h"
| "cancel_all h (e # es) =
     (case pj_timer_heap_cancel h e of None \<Rightarrow> None | Some (h, _) \<Rightarrow> cancel_all h es)"

definition restart_cb ::
  "pj_time_val \<Rightarrow> (nat \<Rightarrow> nat list) \<Rightarrow> (nat \<Rightarrow> (nat \<times> pj_time_val) option) \<Rightarrow> nat \<Rightarrow> timer_heap \<Rightarrow> unit \<Rightarrow>
   (timer_heap \<times> unit) option" where
  "restart_cb now stops restart e h app =
     (case cancel_all h (stops e) of
        None \<Rightarrow> None
      | Some h \<Rightarrow>
          (case restart e of
             None \<Rightarrow> Some (h, app)
           | Some (e', delay) \<Rightarrow> map_option (\<lambda>(h, st). (h, app)) (pj_timer_heap_schedule h now e' delay)))"

lemma cancel_all_result:
  "th_inv H h \<Longrightarrow> \<exists>h'. cancel_all h es = Some h' \<and> th_inv H h' \<and> th_cur h' \<le> th_cur h \<and>
    th_max h' = th_max h \<and> th_per_poll h' = th_per_poll h"
proof (induction es arbitrary: h)
  case Nil
  then show ?case by simp
next
  case (Cons e es)
  obtain h1 k where "pj_timer_heap_cancel h e = Some (h1, k)" "th_inv H h1" "th_cur h1 \<le> th_cur h"
    "th_max h1 = th_max h" "th_per_poll h1 = th_per_poll h"
    using cancel_timer_result [OF Cons.prems] unfolding pj_timer_heap_cancel_def by blast
  then show ?case using Cons.IH [of h1] by fastforce
qed

lemma schedule_total:
  assumes "th_inv H h" "th_cur h + card H + 1 < th_max h"
  shows "\<exists>h' st. schedule_w_grp_lock h now e delay set_id id_val grp = Some (h', st) \<and> th_inv H h' \<and>
    th_per_poll h' = th_per_poll h \<and> th_cur h' \<le> th_cur h + 1 \<and> th_max h \<le> th_max h'"
  using schedule_w_grp_lock_result [OF assms, of e now delay set_id id_val grp] assms(1)
  by (cases "te_cb (th_entry h e) \<and> e \<notin> set (th_nodes h)") auto

interpretation restart: timer_callback "restart_cb now stops restart_map" "\<lambda>_. True" for now stops restart_map
proof
  fix x h e and app :: unit assume h: "th_inv {x} h" "th_cur h + 3 \<le> th_max h"
  obtain h1 where h1: "cancel_all h (stops e) = Some h1" "th_inv {x} h1" "th_cur h1 \<le> th_cur h"
    "th_max h1 = th_max h" "th_per_poll h1 = th_per_poll h"
    using cancel_all_result [OF h(1)] by blast
  have room: "th_cur h1 + card {x} + 1 < th_max h1" using h(2) h1(3,4) by simp
  show "\<exists>h' app'. restart_cb now stops restart_map e h app = Some (h', app') \<and> True \<and> th_inv {x} h' \<and>
      th_per_poll h' \<le> th_per_poll h"
  proof (cases "restart_map e")
    case None
    then show ?thesis using h1 by (simp add: restart_cb_def)
  next
    case (Some r)
    obtain e' d where r: "r = (e', d)" by fastforce
    obtain h2 st where "schedule_w_grp_lock h1 now e' d False 1 None = Some (h2, st)" "th_inv {x} h2"
      "th_per_poll h2 = th_per_poll h1"
      using schedule_total [OF h1(2) room] by blast
    then show ?thesis using h1 Some r by (simp add: restart_cb_def pj_timer_heap_schedule_def)
  qed
qed

text \<open>The entries these callbacks may cancel or schedule.\<close>

definition restart_touched :: "(nat \<Rightarrow> nat list) \<Rightarrow> (nat \<Rightarrow> (nat \<times> pj_time_val) option) \<Rightarrow> nat set" where
  "restart_touched stops restart_map =
     (\<Union>e. set (stops e)) \<union> {y. \<exists>e d. restart_map e = Some (y, d)}"

lemma in_set_add_mset:
  "mset xs = add_mset e (mset ys) \<Longrightarrow> y \<noteq> e \<Longrightarrow> y \<in> set xs \<longleftrightarrow> y \<in> set ys"
  by (metis insert_iff set_mset_add_mset_insert set_mset_mset)

lemma cancel_all_frame:
  "th_inv H h \<Longrightarrow> cancel_all h es = Some h' \<Longrightarrow> y \<notin> set es \<Longrightarrow>
    (y \<in> set (th_nodes h') \<longleftrightarrow> y \<in> set (th_nodes h)) \<and> th_val h' y = th_val h y"
proof (induction es arbitrary: h)
  case Nil
  then show ?case by simp
next
  case (Cons e es)
  obtain h1 k where h1: "pj_timer_heap_cancel h e = Some (h1, k)" "th_inv H h1"
    "mset (th_nodes h1) = mset (th_nodes h) - {# e #}" "th_val h1 y = th_val h y"
    using cancel_timer_result [OF Cons.prems(1), of e False 0] Cons.prems(3)
    unfolding pj_timer_heap_cancel_def by fastforce
  have "y \<in># mset (th_nodes h1) \<longleftrightarrow> y \<in># mset (th_nodes h)"
    using h1(3) Cons.prems(3) by (simp add: in_diff_count flip: set_mset_mset)
  then show ?case using Cons.IH [OF h1(2)] Cons.prems h1(1,4) by simp
qed

interpretation restart_framed:
  framed_callback "restart_cb now stops restart_map" "\<lambda>_. True" "restart_touched stops restart_map" for now stops restart_map
proof
  fix x h e h' y and app app' :: unit
  assume h: "th_inv {x} h" "th_cur h + 3 \<le> th_max h" and r: "restart_cb now stops restart_map e h app = Some (h', app')"
    and y: "y \<notin> restart_touched stops restart_map"
  obtain h1 where h1: "cancel_all h (stops e) = Some h1" "th_inv {x} h1" "th_cur h1 \<le> th_cur h" "th_max h1 = th_max h"
    using cancel_all_result [OF h(1)] by blast
  have s: "(y \<in> set (th_nodes h1) \<longleftrightarrow> y \<in> set (th_nodes h)) \<and> th_val h1 y = th_val h y"
    using cancel_all_frame [OF h(1) h1(1)] y by (auto simp: restart_touched_def)
  show "(y \<in> set (th_nodes h') \<longleftrightarrow> y \<in> set (th_nodes h)) \<and> th_val h' y = th_val h y"
  proof (cases "restart_map e")
    case None
    then show ?thesis using r h1(1) s by (simp add: restart_cb_def)
  next
    case (Some q)
    obtain e' d where q: "q = (e', d)" by fastforce
    have ne: "y \<noteq> e'" using y Some q by (auto simp: restart_touched_def)
    have room: "th_cur h1 + card {x} + 1 < th_max h1" using h(2) h1(3,4) by simp
    obtain st where st: "schedule_w_grp_lock h1 now e' d False 1 None = Some (h', st)"
      using r h1(1) Some q by (auto simp: restart_cb_def pj_timer_heap_schedule_def)
    have "(y \<in> set (th_nodes h') \<longleftrightarrow> y \<in> set (th_nodes h1)) \<and> th_val h' y = th_val h1 y"
    proof (cases "te_cb (th_entry h1 e') \<and> e' \<notin> set (th_nodes h1)")
      case True
      then show ?thesis
        using schedule_w_grp_lock_result [OF h1(2) room, of e' now d False 1 None] st ne
          in_set_add_mset [of "th_nodes h'" e' "th_nodes h1" y] by auto
    next
      case False
      then show ?thesis
        using schedule_w_grp_lock_result [OF h1(2) room, of e' now d False 1 None] st by auto
    qed
    then show ?thesis using s by simp
  qed
qed

section \<open>Runs\<close>

datatype timer_call =
    TC_Schedule pj_time_val nat pj_time_val bool int "nat option"
  | TC_Cancel nat bool int
  | TC_Max_Per_Poll nat
  | TC_Poll pj_time_val bool "nat \<Rightarrow> nat list" "nat \<Rightarrow> (nat \<times> pj_time_val) option"

fun timer_step :: "timer_heap option \<Rightarrow> timer_call \<Rightarrow> timer_heap option" where
  "timer_step None c = None"
| "timer_step (Some h) (TC_Schedule now e delay set_id id_val grp) =
     map_option fst (schedule_w_grp_lock h now e delay set_id id_val grp)"
| "timer_step (Some h) (TC_Cancel e set_id id_val) = map_option fst (cancel_timer h e set_id id_val)"
| "timer_step (Some h) (TC_Max_Per_Poll n) = Some (fst (pj_timer_heap_set_max_timed_out_per_poll h n))"
| "timer_step (Some h) (TC_Poll now want stops restart_map) =
     map_option fst (pj_timer_heap_poll (restart_cb now stops restart_map) now h () want)"

definition timer_ok :: "timer_heap option \<Rightarrow> bool" where
  "timer_ok s \<longleftrightarrow> (\<exists>h. s = Some h \<and> th_inv {} h)"

lemma poll_total:
  "th_inv {} h \<Longrightarrow> \<exists>h' fired d. pj_timer_heap_poll (restart_cb now stops restart_map) now h () want = Some (h', (), fired, d) \<and>
    th_inv {} h' \<and> (th_cur h' = 0 \<or> now < th_val h' (th_slots h' ! 0) \<or> th_per_poll h' \<le> length fired)"
  using restart.poll_loop_result [of h now stops restart_map now "()" "[]"]
  by (auto simp: pj_timer_heap_poll_def)

interpretation timer_machine: event_machine timer_step timer_ok "\<lambda>_. True"
proof
  fix s c assume "timer_ok s"
  then obtain h where h: "s = Some h" "th_inv {} h" by (auto simp: timer_ok_def)
  have room: "th_cur h + card ({} :: nat set) + 1 < th_max h" using th_invD(3) [OF h(2)] by simp
  show "timer_ok (timer_step s c)"
  proof (cases c)
    case (TC_Schedule now e delay set_id id_val grp)
    then show ?thesis
      using schedule_total [OF h(2) room, of now e delay set_id id_val grp] by (auto simp: h(1) timer_ok_def)
  next
    case (TC_Cancel e set_id id_val)
    then show ?thesis
      using cancel_timer_result [OF h(2), of e set_id id_val] by (auto simp: h(1) timer_ok_def)
  next
    case (TC_Max_Per_Poll n)
    moreover have "th_inv {} (h\<lparr>th_per_poll := n\<rparr>)"
      using h(2) by (simp add: th_inv_def th_nodes_def th_used_def)
    ultimately show ?thesis by (simp add: h(1) timer_ok_def pj_timer_heap_set_max_timed_out_per_poll_def)
  next
    case (TC_Poll now want stops restart_map)
    then show ?thesis using poll_total [OF h(2), of now stops restart_map want] by (auto simp: h(1) timer_ok_def)
  qed
qed

lemma create_th_inv:
  assumes "\<forall>e. te_timer_id (entries e) < 1"
  shows "th_inv {} (pj_timer_heap_create n entries refs)"
proof -
  let ?h = "pj_timer_heap_create n entries refs"
  have nth: "th_ids ?h ! i = - int (i + 1)" if "i < n + 2" for i
    using that nth_map_upt [of i "n + 2" 0 "\<lambda>i. - int (i + 1)"] by (simp add: pj_timer_heap_create_def del: upt_Suc)
  have "free_chain (th_ids ?h) (int k) [k..<n + 2] (n + 2)" if "1 \<le> k" "k \<le> n + 2" for k
    using that(2,1)
  proof (induction k rule: inc_induct)
    case (step k)
    then show ?case by (simp add: upt_conv_Cons nth add.commute del: upt_Suc)
  qed simp
  from this [of 1] have "th_free_ok {} ?h"
    unfolding th_free_ok_def using nth [of 0]
    by (intro conjI exI [of _ "[1..<n + 2]"]) (auto simp: pj_timer_heap_create_def simp del: upt_Suc)
  then show ?thesis
    using assms by (auto simp: th_inv_def th_nodes_def th_used_def heap_ordered_def) 
      (simp_all add: pj_timer_heap_create_def)
qed

section \<open>Properties\<close>

text \<open>C13. Whatever calls are made on a created timer heap, with callbacks that cancel timers and start at most one, every call
  returns without reading past its arrays, and the heap stays well-formed.\<close>

theorem timer_run_invariant:
  assumes "\<forall>e. te_timer_id (entries e) < 1"
  shows "\<exists>h. foldl timer_step (Some (pj_timer_heap_create n entries refs)) calls = Some h \<and> th_inv {} h"
  using timer_machine.mrun_inv [of "Some (pj_timer_heap_create n entries refs)" calls] create_th_inv [OF assms]
  by (simp add: timer_ok_def)

definition idle_entries :: "nat \<Rightarrow> timer_entry" where
  "idle_entries e = \<lparr>te_id = 0, te_cb = True, te_timer_id = - 1, te_value = Time_Val 0 0, te_grp = None\<rparr>"

theorem timer_run_invariant_witness:
  "\<exists>h. foldl timer_step (Some (pj_timer_heap_create 0 idle_entries (\<lambda>g. 0)))
     [TC_Schedule (Time_Val 1 0) 7 (Time_Val 0 500) True 3 None, TC_Poll (Time_Val 2 0) True (\<lambda>e. []) (\<lambda>e. Some (e, Time_Val 1 0))] = Some h \<and>
   th_inv {} h"
  by (rule timer_run_invariant) (simp add: idle_entries_def)

text \<open>C15. Scheduling succeeds exactly for an entry with a callback that is not running. It then adds just this entry, due at now plus
  the delay, and takes one reference on its group lock; otherwise nothing changes.\<close>

theorem timer_schedule_effect:
  assumes "th_inv {} h"
  shows "if te_cb (th_entry h e) \<and> \<not> pj_timer_entry_running h e
    then \<exists>h' x. schedule_w_grp_lock h now e delay set_id id_val grp = Some (h', PJ_SUCCESS) \<and> th_inv {} h' \<and>
      mset (th_nodes h') = add_mset e (mset (th_nodes h)) \<and>
      th_entry h' = (th_entry h)(e := (th_entry h e)\<lparr>te_timer_id := int x,
        te_value := PJ_TIME_VAL_ADD now delay, te_id := (if set_id then id_val else te_id (th_entry h e)), te_grp := grp\<rparr>) \<and>
      th_refs h' = (case grp of None \<Rightarrow> th_refs h | Some g \<Rightarrow> (th_refs h)(g := th_refs h g + 1))
    else schedule_w_grp_lock h now e delay set_id id_val grp =
      Some (h, if te_cb (th_entry h e) then PJ_EINVALIDOP else PJ_EINVAL)"
proof -
  have "th_cur h + card ({} :: nat set) + 1 < th_max h" using th_invD(3) [OF assms] by simp
  note R = schedule_w_grp_lock_result [OF assms this, of e now delay set_id id_val grp]
  have run: "\<not> pj_timer_entry_running h e \<longleftrightarrow> e \<notin> set (th_nodes h)"
    using th_invD(7) [OF assms] by (simp add: pj_timer_entry_running_def)
  show ?thesis
    unfolding run
  proof (cases "te_cb (th_entry h e) \<and> e \<notin> set (th_nodes h)", goal_cases)
    case 1
    then show ?case using R [unfolded if_P [OF 1]] unfolding if_P [OF 1] by blast
  next
    case 2
    then show ?case using R [unfolded if_not_P [OF 2]] unfolding if_not_P [OF 2] by blast
  qed
qed

lemma empty_th_inv: "th_inv {} (pj_timer_heap_create n idle_entries (\<lambda>g. 0))"
  by (rule create_th_inv) (simp add: idle_entries_def)

theorem timer_schedule_effect_witness:
  "\<exists>h'. schedule_w_grp_lock (pj_timer_heap_create 0 idle_entries (\<lambda>g. 0)) (Time_Val 1 0) 7 (Time_Val 0 500) True 3 (Some 5) =
     Some (h', PJ_SUCCESS) \<and> mset (th_nodes h') = {#7#} \<and> th_val h' 7 = Time_Val 1 500 \<and> th_refs h' 5 = 1"
proof -
  let ?h = "pj_timer_heap_create 0 idle_entries (\<lambda>g. 0)"
  have ok: "te_cb (th_entry ?h 7) \<and> \<not> pj_timer_entry_running ?h 7"
    by (simp add: pj_timer_heap_create_def idle_entries_def pj_timer_entry_running_def)
  have "PJ_TIME_VAL_ADD (Time_Val 1 0) (Time_Val 0 500) = Time_Val 1 500"
    by (simp add: PJ_TIME_VAL_ADD_def pj_time_val_normalize_def)
  then show ?thesis
    using timer_schedule_effect [OF empty_th_inv [of 0], of 7 "Time_Val 1 0" "Time_Val 0 500" True 3 "Some 5"]
    unfolding if_P [OF ok] by (auto simp: th_nodes_def pj_timer_heap_create_def)
qed

text \<open>Cancelling always returns, reports 1 exactly for a running timer, takes out just that entry, and releases the reference
  the entry holds on a group lock.\<close>

theorem timer_cancel_effect:
  assumes "th_inv {} h"
  shows "\<exists>h'. cancel_timer h e set_id id_val = Some (h', if pj_timer_entry_running h e then 1 else 0) \<and> th_inv {} h' \<and>
    mset (th_nodes h') = mset (th_nodes h) - {# e #} \<and> \<not> pj_timer_entry_running h' e \<and>
    (\<forall>y. y \<noteq> e \<longrightarrow> th_entry h' y = th_entry h y) \<and> (set_id \<longrightarrow> te_id (th_entry h' e) = id_val) \<and>
    te_grp (th_entry h' e) = None \<and>
    th_refs h' = (case te_grp (th_entry h e) of None \<Rightarrow> th_refs h | Some g \<Rightarrow> (th_refs h)(g := th_refs h g - 1))"
proof -
  have "pj_timer_entry_running h e \<longleftrightarrow> e \<in> set (th_nodes h)"
    using th_invD(7) [OF assms] by (simp add: pj_timer_entry_running_def)
  then show ?thesis
    using cancel_timer_result [OF assms, of e set_id id_val]
    by (auto simp: pj_timer_entry_running_def)
qed

theorem timer_cancel_effect_witness:
  "let h = pj_timer_heap_create 0 idle_entries (\<lambda>g. 0) in
   \<exists>h'. cancel_timer h 7 True 4 = Some (h', if pj_timer_entry_running h 7 then 1 else 0) \<and> th_inv {} h' \<and>
    te_id (th_entry h' 7) = 4"
  using timer_cancel_effect [OF empty_th_inv [of 0], of 7 True 4] by (auto simp: Let_def)

text \<open>C14. Polling a well-formed heap returns, for callbacks that return, keep the heap well-formed and do not raise the number of entries
  per poll, and it calls no more entries than that number; if it calls fewer, no expired entry is left. Of the entries that the callbacks neither schedule
  nor cancel, it fires only expired ones, in the order of their times, each before all that remain, and loses none and fires none twice.\<close>

theorem timer_poll_fires_due:
  assumes "framed_callback cb app_inv touched" "th_inv {} h" "app_inv app"
  shows "\<exists>h' app' fired d. pj_timer_heap_poll cb now h app want = Some (h', app', fired, d) \<and> th_inv {} h' \<and> app_inv app' \<and>
    length fired \<le> th_per_poll h \<and>
    (length fired < th_per_poll h' \<longrightarrow> (\<forall>y \<in> set (th_nodes h'). now < th_val h' y)) \<and>
    (\<forall>y. y \<notin> touched \<longrightarrow> th_val h' y = th_val h y) \<and>
    (\<forall>e \<in> set fired - touched. th_val h e \<le> now \<and> (\<forall>y \<in> set (th_nodes h') - touched. th_val h e \<le> th_val h y)) \<and>
    sorted (map (th_val h) (filter (\<lambda>y. y \<notin> touched) fired)) \<and>
    filter_mset (\<lambda>y. y \<notin> touched) (mset (th_nodes h)) =
      filter_mset (\<lambda>y. y \<notin> touched) (mset fired) + filter_mset (\<lambda>y. y \<notin> touched) (mset (th_nodes h'))"
  using framed_callback.poll_framed_result [OF assms, of now want] unfolding poll_framed_def by blast

text \<open>
  Three timers, due at 1, 2 and 3 seconds, of which the first, when it fires, starts itself again and
  cancels the third: polled at 2 seconds, the first two fire.
\<close>

definition three_timers :: timer_heap where
  "three_timers =
     (case foldl timer_step (Some (pj_timer_heap_create 4 idle_entries (\<lambda>g. 0)))
        [TC_Schedule (Time_Val 0 0) 2 (Time_Val 2 0) False 0 None,
         TC_Schedule (Time_Val 0 0) 1 (Time_Val 1 0) False 0 None,
         TC_Schedule (Time_Val 0 0) 3 (Time_Val 3 0) False 0 None] of
      None \<Rightarrow> pj_timer_heap_create 0 idle_entries (\<lambda>g. 0)
    | Some h \<Rightarrow> h)"

lemma three_timers_run:
  "foldl timer_step (Some (pj_timer_heap_create 4 idle_entries (\<lambda>g. 0)))
     [TC_Schedule (Time_Val 0 0) 2 (Time_Val 2 0) False 0 None,
      TC_Schedule (Time_Val 0 0) 1 (Time_Val 1 0) False 0 None,
      TC_Schedule (Time_Val 0 0) 3 (Time_Val 3 0) False 0 None] = Some three_timers"
proof -
  have "\<exists>h. foldl timer_step (Some (pj_timer_heap_create 4 idle_entries (\<lambda>g. 0))) cs = Some h" for cs
    using timer_machine.mrun_inv [of "Some (pj_timer_heap_create 4 idle_entries (\<lambda>g. 0))" cs] empty_th_inv [of 4]
    by (auto simp: timer_ok_def)
  then show ?thesis unfolding three_timers_def by (metis option.simps(5))
qed

lemma three_timers_inv: "th_inv {} three_timers"
  using timer_machine.mrun_inv [of "Some (pj_timer_heap_create 4 idle_entries (\<lambda>g. 0))"] empty_th_inv [of 4]
    three_timers_run by (metis option.inject timer_ok_def)

theorem timer_poll_fires_due_witness:
  "\<exists>h' fired d. pj_timer_heap_poll
      (restart_cb (Time_Val 2 0) (\<lambda>e. if e = 1 then [3] else []) (\<lambda>e. if e = 1 then Some (1, Time_Val 1 0) else None))
      (Time_Val 2 0) three_timers () False = Some (h', (), fired, d) \<and>
    th_inv {} h' \<and> fired = [1, 2] \<and> mset (th_nodes h') = {#1#}"
proof -
  let ?stops = "\<lambda>e. if e = 1 then [3] else []"
  let ?restart = "\<lambda>e. if e = 1 then Some (1, Time_Val 1 0) else None"
  from timer_poll_fires_due [OF restart_framed.framed_callback_axioms three_timers_inv TrueI,
      of "Time_Val 2 0" ?stops ?restart "Time_Val 2 0" "()" False]
  obtain h' fired d where p: "pj_timer_heap_poll (restart_cb (Time_Val 2 0) ?stops ?restart)
      (Time_Val 2 0) three_timers () False = Some (h', (), fired, d)" "th_inv {} h'" by auto
  have "map_option (\<lambda>(h, app, fired, d). (fired, th_nodes h))
      (pj_timer_heap_poll (restart_cb (Time_Val 2 0) ?stops ?restart)
      (Time_Val 2 0) three_timers () False) = Some ([1, 2], [1])" by code_simp
  then show ?thesis using p by simp
qed

text \<open>\<open>pop_freelist\<close> has no check, and the heap grows by its number of entries only: when a callback runs, whose id is held, on a
  heap that is two short of its capacity, the next timer it schedules makes the heap read past the end of \<open>timer_ids\<close>.\<close>

theorem timer_callback_overruns:
  assumes "th_inv {x} h" "th_cur h + 2 = th_max h" "te_cb (th_entry h e)" "\<not> pj_timer_entry_running h e"
  shows "th_free h = int (length (th_ids h)) \<and> schedule_w_grp_lock h now e delay set_id id_val grp = None"
proof -
  note D = th_invD [OF assms(1)]
  have sub: "th_used h (th_nodes h) \<union> {x} \<subseteq> {1..<th_max h}" using D(11) by (simp add: th_free_ok_def)
  have "card (th_used h (th_nodes h) \<union> {x}) = th_cur h + 1"
    using D(10) th_used_card [OF assms(1)] by (simp add: th_used_def)
  then have "th_used h (th_nodes h) \<union> {x} = {1..<th_max h}"
    using card_subset_eq [OF _ sub] assms(2) by simp
  then have f: "th_free_ok {1..<th_max h} h" using D(11) by simp
  then have "th_free h = int (length (th_ids h))" by (auto simp: th_free_ok_def)
  then show ?thesis
    using pop_freelist_empty [OF f] assms D(3)
    by (simp add: schedule_w_grp_lock_def schedule_entry_def pj_timer_entry_running_def)
qed

text \<open>
  The callback of entry 0, the only timer of a heap created for two, has started two timers when
  it starts a third one.
\<close>

definition third_start :: "timer_heap option" where
  "third_start =
     Option.bind (pj_timer_heap_schedule (pj_timer_heap_create 2 idle_entries (\<lambda>g. 0)) (Time_Val 0 0) 0 (Time_Val 1 0))
       (\<lambda>(h, _). Option.bind (pop_freelist (fst (remove_node h 0)))
          (\<lambda>(h, _). Option.bind (pj_timer_heap_schedule h (Time_Val 1 0) 1 (Time_Val 1 0))
             (\<lambda>(h, _). map_option fst (pj_timer_heap_schedule h (Time_Val 1 0) 2 (Time_Val 1 0)))))"

theorem timer_callback_overruns_witness:
  "\<exists>h. third_start = Some h \<and> th_free h = int (length (th_ids h)) \<and>
    schedule_w_grp_lock h (Time_Val 1 0) 3 (Time_Val 1 0) False 1 None = None"
proof -
  let ?h = "pj_timer_heap_create 2 idle_entries (\<lambda>g. 0)"
  have c: "map_option (\<lambda>h. (th_cur h, th_max h, te_cb (th_entry h 3), pj_timer_entry_running h 3)) third_start =
      Some (2, 4, True, False)" by code_simp
  have "th_cur ?h + card ({} :: nat set) + 1 < th_max ?h" by (simp add: pj_timer_heap_create_def)
  from schedule_w_grp_lock_result [OF empty_th_inv [of 2] this, of 0 "Time_Val 0 0" "Time_Val 1 0" False 1 None]
  obtain h1 where h1: "pj_timer_heap_schedule ?h (Time_Val 0 0) 0 (Time_Val 1 0) = Some (h1, PJ_SUCCESS)" "th_inv {} h1"
    "th_cur h1 = 1" "4 \<le> th_max h1"
    by (auto simp: pj_timer_heap_schedule_def pj_timer_heap_create_def th_nodes_def idle_entries_def)
  obtain h2 e where r: "remove_node h1 0 = (h2, e)" by fastforce
  have h2: "th_inv {} h2" "th_cur h2 = 0" "th_max h2 = th_max h1"
    using remove_node_result(2,5,6) [OF h1(2) _ r] h1(3) by simp_all
  obtain x where x: "pop_freelist h2 = Some (h2\<lparr>th_free := - (th_ids h2 ! x)\<rparr>, int x)"
    "th_inv {x} (h2\<lparr>th_free := - (th_ids h2 ! x)\<rparr>)" using th_inv_hold [OF h2(1)] by blast
  let ?h3 = "h2\<lparr>th_free := - (th_ids h2 ! x)\<rparr>"
  have "th_cur ?h3 + card {x} + 1 < th_max ?h3" using h2 h1(4) by simp
  from schedule_total [OF x(2) this] obtain h4 st where h4: "th_inv {x} h4" "th_cur h4 \<le> 1" "4 \<le> th_max h4"
    "pj_timer_heap_schedule ?h3 (Time_Val 1 0) 1 (Time_Val 1 0) = Some (h4, st)"
    using h1(4) h2(2,3) unfolding pj_timer_heap_schedule_def by fastforce
  have "th_cur h4 + card {x} + 1 < th_max h4" using h4(2,3) by simp
  from schedule_total [OF h4(1) this] obtain h5 st' where h5: "th_inv {x} h5"
    "pj_timer_heap_schedule h4 (Time_Val 1 0) 2 (Time_Val 1 0) = Some (h5, st')"
    unfolding pj_timer_heap_schedule_def by blast
  have ts: "third_start = Some h5" using h1(1) r x(1) h4(4) h5(2) by (simp add: third_start_def)
  have "th_cur h5 + 2 = th_max h5" "te_cb (th_entry h5 3)" "\<not> pj_timer_entry_running h5 3"
    using c [unfolded ts option.map] by simp_all
  from timer_callback_overruns [OF h5(1) this] show ?thesis
    using ts by (intro exI [of _ h5]) simp
qed

end
