(* ===== verification/Base64.thy ===== *)
theory Base64
  imports Prelude
begin

text \<open>
  Base64 (\<open>pjlib-util/src/pjlib-util/base64.c\<close>). A byte is a word of 8 bits, a character of the
  encoded text a \<open>char\<close>; the input is the list of its elements and the result the list written to
  the output buffer. Its size \<open>out_len\<close> and the lengths are values of the C type \<open>int\<close>, and the
  products of the length macros are reduced to it as two's complement machines do.
\<close>

section \<open>Encoding\<close>

definition base64_char :: "char list" where
  "base64_char = ''ABCDEFGHIJKLMNOPQRSTUVWXYZabcdefghijklmnopqrstuvwxyz0123456789+/''"

definition PADDING :: char where "PADDING = CHR ''=''"

definition INV :: int where "INV = - 1"

definition base256_char :: "char \<Rightarrow> int" where
  "base256_char c =
     (if of_char c \<ge> (65 :: int) \<and> of_char c \<le> (90 :: int) then of_char c - 65
      else if of_char c \<ge> (97 :: int) \<and> of_char c \<le> (122 :: int) then of_char c - 97 + 26
      else if of_char c \<ge> (48 :: int) \<and> of_char c \<le> (57 :: int) then of_char c - 48 + 52
      else if c = CHR ''+'' then 62
      else if c = CHR ''/'' then 63
      else INV)"

definition base256to64 :: "u8 \<Rightarrow> u8 \<Rightarrow> u8 \<Rightarrow> nat \<Rightarrow> char list" where
  "base256to64 c1 c2 c3 padding =
     (let o1 = base64_char ! unat (drop_bit 2 c1);
          o2 = base64_char ! unat (push_bit 4 (c1 AND 3) OR drop_bit 4 (c2 AND 0xF0));
          o3 = base64_char ! unat (push_bit 2 (c2 AND 0xF) OR drop_bit 6 (c3 AND 0xC0));
          o4 = base64_char ! unat (c3 AND 0x3F)
      in if padding = 0 then [o1, o2, o3, o4]
         else if padding = 1 then [o1, o2, o3, PADDING]
         else [o1, o2, PADDING, PADDING])"

fun encode_loop :: "u8 list \<Rightarrow> char list" where
  "encode_loop [] = []"
| "encode_loop [c1] = base256to64 c1 0 0 2"
| "encode_loop [c1, c2] = base256to64 c1 c2 0 1"
| "encode_loop (c1 # c2 # c3 # pi) = base256to64 c1 c2 c3 0 @ encode_loop pi"

definition PJ_BASE256_TO_BASE64_LEN :: "int \<Rightarrow> int" where
  "PJ_BASE256_TO_BASE64_LEN len = cdiv (to_s32 (len * 4)) 3 + 3"

definition PJ_BASE64_TO_BASE256_LEN :: "int \<Rightarrow> int" where
  "PJ_BASE64_TO_BASE256_LEN len = cdiv (to_s32 (len * 3)) 4"

definition pj_base64_encode :: "u8 list \<Rightarrow> int \<Rightarrow> pj_status + char list" where
  "pj_base64_encode input out_len =
     (if out_len < PJ_BASE256_TO_BASE64_LEN (int (length input)) then Inl PJ_ETOOSMALL
      else Inr (encode_loop input))"

section \<open>Decoding\<close>

text \<open>
  The inner do-while loop skips invalid characters, but takes the last character as it is;
  \<open>fill_group\<close> is the for loop around it, which reads up to four values.
\<close>

fun next_value :: "char list \<Rightarrow> int \<times> char list" where
  "next_value [] = (INV, [])"
| "next_value (c # buf) =
     (if base256_char c = INV \<and> buf \<noteq> [] then next_value buf else (base256_char c, buf))"

fun fill_group :: "nat \<Rightarrow> char list \<Rightarrow> int list \<times> char list" where
  "fill_group 0 buf = ([], buf)"
| "fill_group (Suc n) buf =
     (if buf = [] then ([], [])
      else (let (v, buf) = next_value buf; (vs, buf) = fill_group n buf in (v # vs, buf)))"

definition out_byte1 :: "int \<Rightarrow> int \<Rightarrow> u8" where
  "out_byte1 v0 v1 = word_of_int (push_bit 2 v0 OR drop_bit 4 (v1 AND 0x30))"

definition out_byte2 :: "int \<Rightarrow> int \<Rightarrow> u8" where
  "out_byte2 v1 v2 = word_of_int (push_bit 4 (v1 AND 0x0F) OR drop_bit 2 (v2 AND 0x3C))"

definition out_byte3 :: "int \<Rightarrow> int \<Rightarrow> u8" where
  "out_byte3 v2 v3 = word_of_int (push_bit 6 (v2 AND 0x03) OR (v3 AND 0x3F))"

definition last_group :: "int list \<Rightarrow> u8 list" where
  "last_group c =
     (if length c > 1
      then out_byte1 (c ! 0) (c ! 1) # (if length c > 2 then [out_byte2 (c ! 1) (c ! 2)] else [])
      else [])"

lemma next_value_length: "next_value buf = (v, buf') \<Longrightarrow> buf \<noteq> [] \<Longrightarrow> length buf' < length buf"
  by (induction buf rule: next_value.induct) (auto split: if_splits)

lemma fill_group_length: "fill_group n buf = (vs, buf') \<Longrightarrow> length buf' \<le> length buf"
proof (induction n buf arbitrary: vs buf' rule: fill_group.induct)
  case (2 n buf)
  then show ?case
    using next_value_length [of buf] by (cases "buf = []") (fastforce split: prod.splits)+
qed simp

lemma fill_group_less:
  "buf \<noteq> [] \<Longrightarrow> length (snd (fill_group (Suc n) buf)) < length buf"
proof -
  assume buf: "buf \<noteq> []"
  obtain v b where v: "next_value buf = (v, b)" by fastforce
  obtain vs b' where b': "fill_group n b = (vs, b')" by fastforce
  show ?thesis
    using next_value_length [OF v buf] fill_group_length [OF b'] buf v b' by simp
qed

function decode_loop :: "char list \<Rightarrow> u8 list" where
  "decode_loop buf =
     (if buf = [] then []
      else
        (let c = fst (fill_group 4 buf); rest = snd (fill_group 4 buf)
         in if length c < 4 then last_group c
            else [out_byte1 (c ! 0) (c ! 1), out_byte2 (c ! 1) (c ! 2), out_byte3 (c ! 2) (c ! 3)] @ decode_loop rest))"
  by auto
termination
  using fill_group_less [of _ 3] by (relation "measure length") simp_all

declare decode_loop.simps [simp del]

definition strip_padding :: "char list \<Rightarrow> char list" where
  "strip_padding buf = rev (dropWhile (\<lambda>c. c = PADDING) (rev buf))"

definition pj_base64_decode :: "char list \<Rightarrow> int \<Rightarrow> pj_status + u8 list" where
  "pj_base64_decode input out_len =
     (let buf = strip_padding input
      in if out_len < PJ_BASE64_TO_BASE256_LEN (int (length buf)) then Inl PJ_ETOOSMALL
         else Inr (decode_loop buf))"

text \<open>Where the products do not overflow the macros are the lengths meant.\<close>

lemma PJ_BASE256_TO_BASE64_LEN_int:
  "n < 2 ^ 29 \<Longrightarrow> PJ_BASE256_TO_BASE64_LEN (int n) = int (n * 4 div 3 + 3)"
  by (simp add: PJ_BASE256_TO_BASE64_LEN_def to_s32_int zdiv_int)

lemma PJ_BASE64_TO_BASE256_LEN_int:
  "n * 3 < 2 ^ 31 \<Longrightarrow> PJ_BASE64_TO_BASE256_LEN (int n) = int (n * 3 div 4)"
  by (simp add: PJ_BASE64_TO_BASE256_LEN_def to_s32_int zdiv_int)

text \<open>
  Beyond, they are not: for an unpadded text of 715827883 characters the size asked of the output
  buffer is negative, so that a buffer of any size passes the test.
\<close>

lemma base64_decode_size_overflow: "PJ_BASE64_TO_BASE256_LEN 715827883 < 0"
  by code_simp

section \<open>Round trip\<close>

lemma base256_char_nth: "n < 64 \<Longrightarrow> base256_char (base64_char ! n) = int n"
proof -
  assume "n < 64"
  moreover have "list_all (\<lambda>n. base256_char (base64_char ! n) = int n) [0..<64]" by code_simp
  ultimately show ?thesis by (simp add: list_all_iff)
qed

definition valid_char :: "char \<Rightarrow> bool" where
  "valid_char c \<longleftrightarrow> base256_char c \<noteq> INV"

lemma valid_char_nth: "n < 64 \<Longrightarrow> valid_char (base64_char ! n)"
  by (simp add: valid_char_def base256_char_nth INV_def)

lemma PADDING_invalid: "\<not> valid_char PADDING"
  by (simp add: valid_char_def PADDING_def base256_char_def)

text \<open>The four values of a group are below 64, and the bytes come back from them.\<close>

lemma byte_eqI:
  fixes a b :: u8
  assumes "bit a 0 = bit b 0" "bit a 1 = bit b 1" "bit a 2 = bit b 2" "bit a 3 = bit b 3"
    "bit a 4 = bit b 4" "bit a 5 = bit b 5" "bit a 6 = bit b 6" "bit a 7 = bit b 7"
  shows "a = b"
proof (rule bit_word_eqI)
  fix n assume "n < LENGTH(8)"
  then have "n = 0 \<or> n = 1 \<or> n = 2 \<or> n = 3 \<or> n = 4 \<or> n = 5 \<or> n = 6 \<or> n = 7" by auto
  then show "bit a n = bit b n" using assms by blast
qed

lemma six_bits:
  fixes w :: u8
  assumes "\<And>n. 6 \<le> n \<Longrightarrow> \<not> bit w n"
  shows "unat w < 64"
proof -
  have "take_bit 6 w = w"
    by (intro bit_word_eqI) (metis assms bit_take_bit_iff not_le)
  then have "unat w = take_bit 6 (unat w)" by (metis unsigned_take_bit_eq)
  then show ?thesis using take_bit_nat_less_exp [of 6 "unat w"] by simp
qed

lemma group_values:
  fixes c1 c2 c3 :: u8
  shows "unat (drop_bit 2 c1) < 64"
    and "unat (push_bit 4 (c1 AND 3) OR drop_bit 4 (c2 AND 0xF0)) < 64"
    and "unat (push_bit 2 (c2 AND 0xF) OR drop_bit 6 (c3 AND 0xC0)) < 64"
    and "unat (c3 AND 0x3F) < 64"
proof -
  have big: "\<not> bit (w :: u8) n" if "8 \<le> n" for w n
    using that bit_imp_le_length [of w n] by auto
  have n67: "n = 6 \<or> n = 7 \<or> 8 \<le> n" if "6 \<le> n" for n :: nat using that by linarith
  show "unat (drop_bit 2 c1) < 64"
    by (rule six_bits) (simp add: bit_simps big)
  show "unat (push_bit 4 (c1 AND 3) OR drop_bit 4 (c2 AND 0xF0)) < 64"
    by (rule six_bits) (drule n67, auto simp: bit_simps big)
  show "unat (push_bit 2 (c2 AND 0xF) OR drop_bit 6 (c3 AND 0xC0)) < 64"
    by (rule six_bits) (drule n67, auto simp: bit_simps big)
  show "unat (c3 AND 0x3F) < 64"
    by (rule six_bits) (drule n67, auto simp: bit_simps big)
qed

lemma out_bytes:
  fixes c1 c2 c3 :: u8
  defines "v1 \<equiv> push_bit 4 (c1 AND 3) OR drop_bit 4 (c2 AND 0xF0)"
  defines "v2 \<equiv> push_bit 2 (c2 AND 0xF) OR drop_bit 6 (c3 AND 0xC0)"
  shows "out_byte1 (int (unat (drop_bit 2 c1))) (int (unat v1)) = c1"
    and "out_byte2 (int (unat v1)) (int (unat v2)) = c2"
    and "out_byte3 (int (unat v2)) (int (unat (c3 AND 0x3F))) = c3"
proof -
  note [simp] = uint_nat [symmetric]
  show "out_byte1 (int (unat (drop_bit 2 c1))) (int (unat v1)) = c1"
    by (rule byte_eqI) (auto simp: out_byte1_def v1_def bit_simps)
  show "out_byte2 (int (unat v1)) (int (unat v2)) = c2"
    by (rule byte_eqI) (auto simp: out_byte2_def v1_def v2_def bit_simps)
  show "out_byte3 (int (unat v2)) (int (unat (c3 AND 0x3F))) = c3"
    by (rule byte_eqI) (auto simp: out_byte3_def v2_def bit_simps)
qed

text \<open>Reading a text of valid characters.\<close>

lemma next_value_valid: "valid_char c \<Longrightarrow> next_value (c # buf) = (base256_char c, buf)"
  by (simp add: valid_char_def)

lemma fill_group_valid:
  "list_all valid_char buf \<Longrightarrow> fill_group n buf = (map base256_char (take n buf), drop n buf)"
proof (induction n arbitrary: buf)
  case (Suc n)
  then show ?case by (cases buf) (simp_all add: next_value_valid del: next_value.simps)
qed simp

lemma decode_loop_group:
  assumes "list_all valid_char (o1 # o2 # o3 # o4 # buf)"
  shows "decode_loop (o1 # o2 # o3 # o4 # buf) =
    [out_byte1 (base256_char o1) (base256_char o2), out_byte2 (base256_char o2) (base256_char o3),
     out_byte3 (base256_char o3) (base256_char o4)] @ decode_loop buf"
  using fill_group_valid [OF assms, of 4] by (subst decode_loop.simps) (simp add: numeral_eq_Suc)

lemma decode_loop_last:
  assumes "list_all valid_char buf" "length buf < 4"
  shows "decode_loop buf = last_group (map base256_char buf)"
  using fill_group_valid [OF assms(1), of 4] assms(2)
  by (subst decode_loop.simps) (simp add: last_group_def)

text \<open>\<open>unpadded\<close> is the encoded text without its padding.\<close>

fun unpadded :: "u8 list \<Rightarrow> char list" where
  "unpadded [] = []"
| "unpadded [c1] = take 2 (base256to64 c1 0 0 2)"
| "unpadded [c1, c2] = take 3 (base256to64 c1 c2 0 1)"
| "unpadded (c1 # c2 # c3 # pi) = base256to64 c1 c2 c3 0 @ unpadded pi"

fun pad_count :: "u8 list \<Rightarrow> nat" where
  "pad_count [] = 0"
| "pad_count [c1] = 2"
| "pad_count [c1, c2] = 1"
| "pad_count (c1 # c2 # c3 # pi) = pad_count pi"

lemma encode_loop_unpadded: "encode_loop xs = unpadded xs @ replicate (pad_count xs) PADDING"
  by (induction xs rule: encode_loop.induct) (simp_all add: base256to64_def Let_def numeral_eq_Suc)

lemma unpadded_valid: "list_all valid_char (unpadded xs)"
proof (induction xs rule: unpadded.induct)
  case (2 c1)
  then show ?case
    using group_values(1) [of c1] group_values(2) [of c1 0]
    by (simp add: base256to64_def Let_def valid_char_nth)
next
  case (3 c1 c2)
  then show ?case
    using group_values(1) [of c1] group_values(2) [of c1 c2] group_values(3) [of c2 0]
    by (simp add: base256to64_def Let_def valid_char_nth)
next
  case (4 c1 c2 c3 pi)
  then show ?case
    using group_values(1) [of c1] group_values(2) [of c1 c2] group_values(3) [of c2 c3] group_values(4) [of c3]
    by (simp add: base256to64_def Let_def valid_char_nth)
qed simp

lemma strip_padding_append:
  assumes "list_all valid_char s"
  shows "strip_padding (s @ replicate k PADDING) = s"
proof -
  have "dropWhile (\<lambda>c. c = PADDING) (replicate k PADDING @ rev s) = dropWhile (\<lambda>c. c = PADDING) (rev s)"
    by (induction k) auto
  moreover have "dropWhile (\<lambda>c. c = PADDING) (rev s) = rev s"
  proof (cases "s = []")
    case False
    then have "last s \<noteq> PADDING" using assms PADDING_invalid last_in_set [OF False] by (metis list_all_iff)
    then show ?thesis using False by (simp add: dropWhile_eq_self_iff hd_rev)
  qed simp
  ultimately show ?thesis by (simp add: strip_padding_def)
qed

lemma decode_unpadded: "decode_loop (unpadded xs) = xs"
proof (induction xs rule: unpadded.induct)
  case 1
  then show ?case by (simp add: decode_loop.simps)
next
  case (2 c1)
  have "list_all valid_char (unpadded [c1])" by (rule unpadded_valid)
  from decode_loop_last [OF this] show ?case
    using group_values(1) [of c1] group_values(2) [of c1 0] out_bytes(1) [of c1 0]
    by (simp add: base256to64_def Let_def last_group_def base256_char_nth)
next
  case (3 c1 c2)
  have "list_all valid_char (unpadded [c1, c2])" by (rule unpadded_valid)
  from decode_loop_last [OF this] show ?case
    using group_values(1) [of c1] group_values(2) [of c1 c2] group_values(3) [of c2 0]
      out_bytes(1) [of c1 c2] out_bytes(2) [of c1 c2 0]
    by (simp add: base256to64_def Let_def last_group_def base256_char_nth)
next
  case (4 c1 c2 c3 pi)
  have "list_all valid_char (unpadded (c1 # c2 # c3 # pi))" by (rule unpadded_valid)
  then show ?case
    using 4 group_values(1) [of c1] group_values(2) [of c1 c2] group_values(3) [of c2 c3] group_values(4) [of c3]
      out_bytes(1) [of c1 c2] out_bytes(2) [of c1 c2 c3] out_bytes(3) [of c2 c3]
    by (simp add: base256to64_def Let_def decode_loop_group base256_char_nth)
qed

lemma unpadded_length: "length (unpadded xs) * 3 div 4 \<le> length xs" "length (unpadded xs) + pad_count xs \<le> length xs * 4 div 3 + 3"
  "length (unpadded xs) * 3 \<le> length xs * 4 + 2"
  by (induction xs rule: unpadded.induct) (simp_all add: base256to64_def Let_def)

text \<open>Invalid characters do not matter, unless one is the last.\<close>

lemma next_value_filter:
  assumes "buf \<noteq> []" "valid_char (last buf)"
  obtains c b where "next_value buf = (base256_char c, b)" "valid_char c"
    "filter valid_char buf = c # filter valid_char b" "b \<noteq> [] \<Longrightarrow> valid_char (last b)"
  using assms
proof (induction buf arbitrary: thesis rule: next_value.induct)
  case (2 c buf)
  show ?case
  proof (cases "base256_char c = INV \<and> buf \<noteq> []")
    case True
    then show ?thesis using 2 by (auto simp: valid_char_def)
  next
    case False
    then show ?thesis using 2(2) [of c buf] 2(4) by (auto simp: valid_char_def split: if_splits)
  qed
qed simp

lemma fill_group_filter:
  assumes "buf = [] \<or> valid_char (last buf)"
  shows "\<exists>b. fill_group n buf = (map base256_char (take n (filter valid_char buf)), b) \<and>
    filter valid_char b = drop n (filter valid_char buf) \<and> (b = [] \<or> valid_char (last b))"
  using assms
proof (induction n arbitrary: buf)
  case (Suc n)
  show ?case
  proof (cases "buf = []")
    case False
    then obtain c b where c: "next_value buf = (base256_char c, b)" "valid_char c"
      "filter valid_char buf = c # filter valid_char b" "b \<noteq> [] \<Longrightarrow> valid_char (last b)"
      using Suc.prems by (metis next_value_filter)
    from Suc.IH [of b] c(4) obtain b' where
      "fill_group n b = (map base256_char (take n (filter valid_char b)), b')"
      "filter valid_char b' = drop n (filter valid_char b)" "b' = [] \<or> valid_char (last b')" by blast
    then show ?thesis using False c by simp
  qed simp
qed simp

lemma decode_loop_filter:
  "buf = [] \<or> valid_char (last buf) \<Longrightarrow> decode_loop buf = decode_loop (filter valid_char buf)"
proof (induction "length buf" arbitrary: buf rule: less_induct)
  case less
  show ?case
  proof (cases "buf = []")
    case False
    obtain b where b: "fill_group 4 buf = (map base256_char (take 4 (filter valid_char buf)), b)"
      "filter valid_char b = drop 4 (filter valid_char buf)" "b = [] \<or> valid_char (last b)"
      using fill_group_filter [OF less.prems] by blast
    have v: "list_all valid_char (filter valid_char buf)" by (simp add: list_all_iff)
    have "filter valid_char buf \<noteq> []" using False less.prems by (auto simp: filter_empty_conv)
    moreover have "length b < length buf" using fill_group_less [OF False, of 3] b(1) by simp
    from less.hyps [OF this b(3)] have "decode_loop b = decode_loop (drop 4 (filter valid_char buf))"
      by (simp add: b(2))
    ultimately show ?thesis
      using False b(1) fill_group_valid [OF v, of 4]
      by (subst (1 2) decode_loop.simps) (simp add: Let_def)
  qed simp
qed

section \<open>Properties\<close>

text \<open>C16. For an input below \<open>2 ^ 29\<close> bytes and an output buffer of the size its macro gives, encoding succeeds and fits the buffer,
  and decoding the text into a buffer of the input's size gives back the input.\<close>

theorem base64_roundtrip:
  assumes "length input < 2 ^ 29"
  shows "\<exists>text. pj_base64_encode input (PJ_BASE256_TO_BASE64_LEN (int (length input))) = Inr text \<and>
    int (length text) \<le> PJ_BASE256_TO_BASE64_LEN (int (length input)) \<and>
    pj_base64_decode text (int (length input)) = Inr input"
proof -
  have "int (length (encode_loop input)) \<le> PJ_BASE256_TO_BASE64_LEN (int (length input))"
    using unpadded_length(2) [of input] assms
    unfolding PJ_BASE256_TO_BASE64_LEN_int [OF assms] of_nat_le_iff by (simp add: encode_loop_unpadded)
  moreover have "length (unpadded input) * 3 < 2 ^ 31" using unpadded_length(3) [of input] assms by simp
  note len = PJ_BASE64_TO_BASE256_LEN_int [OF this]
  have "pj_base64_decode (encode_loop input) (int (length input)) = Inr input"
    using unpadded_length(1) [of input]
    by (simp add: pj_base64_decode_def encode_loop_unpadded strip_padding_append [OF unpadded_valid]
        decode_unpadded len)
  ultimately show ?thesis by (simp add: pj_base64_encode_def)
qed

theorem base64_roundtrip_witness:
  "\<exists>text. pj_base64_encode [77, 97, 110, 255] 8 = Inr text \<and> length text \<le> 8 \<and>
    pj_base64_decode text 4 = Inr [77, 97, 110, 255]"
  using base64_roundtrip [of "[77, 97, 110, 255]"] PJ_BASE256_TO_BASE64_LEN_int [of 4] by simp

text \<open>
  An invalid character at the end is decoded as if it were the value -1: the byte 65 followed by a
  line feed decodes to two bytes.
\<close>

lemma base64_trailing_newline:
  "pj_base64_encode [65] 8 = Inr ''QQ=='' \<and> pj_base64_decode (''QQ=='' @ [CHR 0x0A]) 8 = Inr [65, 15]"
  by code_simp

lemma fill_group_consumes: "fill_group n buf = (vs, b) \<Longrightarrow> length vs + length b \<le> length buf \<and> length vs \<le> n"
proof (induction n buf arbitrary: vs b rule: fill_group.induct)
  case (2 n buf)
  show ?case
  proof (cases "buf = []")
    case False
    obtain v b1 where v: "next_value buf = (v, b1)" by fastforce
    obtain vs' b2 where b2: "fill_group n b1 = (vs', b2)" by fastforce
    have "length vs' + length b2 \<le> length b1 \<and> length vs' \<le> n"
      using "2.IH" [OF False v [symmetric]] b2 by blast
    then show ?thesis using "2.prems" False v b2 next_value_length [OF v False] by auto
  qed (use "2.prems" in simp)
qed simp

lemma decode_loop_length: "length (decode_loop buf) * 4 \<le> length buf * 3"
proof (induction buf rule: decode_loop.induct)
  case (1 buf)
  show ?case
  proof (cases "buf = []")
    case False
    obtain vs b where b: "fill_group 4 buf = (vs, b)" by fastforce
    have c: "length vs + length b \<le> length buf" "length vs \<le> 4" using fill_group_consumes [OF b] by auto
    show ?thesis
    proof (cases "length vs < 4")
      case True
      then have "decode_loop buf = last_group vs" using False b by (subst decode_loop.simps) simp
      then show ?thesis using True c by (auto simp: last_group_def)
    next
      case len: False
      then have "decode_loop buf = [out_byte1 (vs ! 0) (vs ! 1), out_byte2 (vs ! 1) (vs ! 2),
          out_byte3 (vs ! 2) (vs ! 3)] @ decode_loop b" using False b by (subst decode_loop.simps) simp
      moreover have "length (decode_loop b) * 4 \<le> length b * 3" using "1.IH" [OF False] len b by simp
      ultimately show ?thesis using len c by simp
    qed
  qed (simp add: decode_loop.simps)
qed

text \<open>C17. Decoding fails exactly for a buffer below the macro's size for the text without its padding. When it succeeds and that
  text is of at most 715827882 characters, for which the macro does not overflow, it does not write past the buffer; and when the text does not end in an
  invalid character, the invalid characters in it are as if they were not there.\<close>

theorem base64_decode_lenient:
  "if out_len < PJ_BASE64_TO_BASE256_LEN (int (length (strip_padding encoded)))
   then pj_base64_decode encoded out_len = Inl PJ_ETOOSMALL
   else \<exists>bytes. pj_base64_decode encoded out_len = Inr bytes \<and>
     (length (strip_padding encoded) \<le> 715827882 \<longrightarrow> int (length bytes) \<le> out_len) \<and>
     (strip_padding encoded = [] \<or> valid_char (last (strip_padding encoded)) \<longrightarrow>
        bytes = decode_loop (filter valid_char (strip_padding encoded)))"
proof (cases "out_len < PJ_BASE64_TO_BASE256_LEN (int (length (strip_padding encoded)))")
  case True
  then show ?thesis by (simp add: pj_base64_decode_def)
next
  case False
  have "int (length (decode_loop (strip_padding encoded))) \<le> out_len" if "length (strip_padding encoded) \<le> 715827882"
  proof -
    have "length (strip_padding encoded) * 3 < 2 ^ 31" using that by simp
    note len = PJ_BASE64_TO_BASE256_LEN_int [OF this]
    have "length (decode_loop (strip_padding encoded)) \<le> length (strip_padding encoded) * 3 div 4"
      using decode_loop_length [of "strip_padding encoded"] by simp
    then show ?thesis using False unfolding len by linarith
  qed
  then show ?thesis
    using False decode_loop_filter [of "strip_padding encoded"] by (simp add: pj_base64_decode_def Let_def)
qed

theorem base64_decode_lenient_witness:
  "pj_base64_decode ''Q Q.='' 8 = Inr (decode_loop ''Q Q.'') \<and> length (decode_loop ''Q Q.'') \<le> 8 \<and>
   pj_base64_decode ''Q .Q='' 8 = Inr (decode_loop ''QQ'') \<and> pj_base64_decode ''QQQQ'' 2 = Inl PJ_ETOOSMALL"
proof -
  have n: "PJ_BASE64_TO_BASE256_LEN 4 = 3" by code_simp
  have s: "strip_padding ''Q Q.='' = ''Q Q.''" "strip_padding ''Q .Q='' = ''Q .Q''" "strip_padding ''QQQQ'' = ''QQQQ''"
    "filter valid_char ''Q .Q'' = ''QQ''" "valid_char (CHR ''Q'')"
    by code_simp+
  show ?thesis
    using base64_decode_lenient [where encoded = "''Q Q.=''" and out_len = 8]
      base64_decode_lenient [where encoded = "''Q .Q=''" and out_len = 8]
      base64_decode_lenient [where encoded = "''QQQQ''" and out_len = 2]
    unfolding s by (simp add: n s pj_base64_decode_def)
qed

end
