(* ===== verification/Fifo_Buf.thy ===== *)
theory Fifo_Buf
  imports Prelude Machine
begin

text \<open>
  The fifo buffer (\<open>pjlib/src/pj/fifobuf.c\<close>): memory blocks allocated one after the other in a ring
  of bytes, each behind a header with its size, and freed in the order of their allocation. A pointer
  into the buffer is its offset from \<open>first\<close>; \<open>fb_last\<close> is the size. The memory is modelled byte by
  byte, so that a header that overlapped another block would change it. \<open>sizeof(unsigned)\<close> is 4 and
  \<open>size_t\<close> has 32 bits, as on the 32-bit platforms the program is built for, so \<open>size + SZ\<close> wraps.
\<close>

section \<open>State and operations\<close>

record fifobuf =
  fb_last :: nat
  fb_ubegin :: nat
  fb_uend :: nat
  fb_full :: bool
  fb_mem :: "nat \<Rightarrow> u8"

definition SZ :: nat where "SZ = 4"

text \<open>An \<open>unsigned\<close> in memory, on a little-endian machine.\<close>

definition read_unsigned :: "(nat \<Rightarrow> u8) \<Rightarrow> nat \<Rightarrow> nat" where
  "read_unsigned m p = unat (rd_be32 (m (p + 3)) (m (p + 2)) (m (p + 1)) (m p))"

definition write_unsigned :: "(nat \<Rightarrow> u8) \<Rightarrow> nat \<Rightarrow> nat \<Rightarrow> nat \<Rightarrow> u8" where
  "write_unsigned m p v =
     (let w = of_nat v :: u32
      in m(p + 3 := ucast (drop_bit 24 w), p + 2 := ucast (drop_bit 16 w), p + 1 := ucast (drop_bit 8 w), p := ucast w))"

definition pj_fifobuf_init :: "(nat \<Rightarrow> u8) \<Rightarrow> nat \<Rightarrow> fifobuf" where
  "pj_fifobuf_init buffer n = \<lparr>fb_last = n, fb_ubegin = 0, fb_uend = 0, fb_full = False, fb_mem = buffer\<rparr>"

definition pj_fifobuf_max_size :: "fifobuf \<Rightarrow> nat" where
  "pj_fifobuf_max_size fb =
     (let (s1, s2) = (if fb_uend fb \<ge> fb_ubegin fb then (fb_last fb - fb_uend fb, fb_ubegin fb)
                      else (fb_ubegin fb - fb_uend fb, fb_ubegin fb - fb_uend fb))
      in if s1 < s2 then s2 else s1)"

definition pj_fifobuf_alloc :: "fifobuf \<Rightarrow> nat \<Rightarrow> fifobuf \<times> nat option" where
  "pj_fifobuf_alloc fb n =
     (let need = uwrap (n + SZ)
      in if fb_full fb then (fb, None)
         else if fb_uend fb \<ge> fb_ubegin fb \<and> fb_last fb - fb_uend fb \<ge> need then
           (let ptr = fb_uend fb;
                uend = fb_uend fb + need;
                uend = (if uend = fb_last fb then 0 else uend)
            in (fb\<lparr>fb_uend := uend, fb_full := (uend = fb_ubegin fb),
                   fb_mem := write_unsigned (fb_mem fb) ptr need\<rparr>, Some (ptr + SZ)))
         else
           (let start = (if fb_uend fb \<le> fb_ubegin fb then fb_uend fb else 0)
            in if fb_ubegin fb - start \<ge> need then
                 (fb\<lparr>fb_uend := start + need, fb_full := (start + need = fb_ubegin fb),
                     fb_mem := write_unsigned (fb_mem fb) start need\<rparr>, Some (start + SZ))
               else (fb, None)))"

text \<open>The pointers \<open>buf\<close> are at least \<open>SZ\<close>; one below is the pointer before the buffer.\<close>

definition pj_fifobuf_unalloc :: "fifobuf \<Rightarrow> nat \<Rightarrow> fifobuf \<times> pj_status" where
  "pj_fifobuf_unalloc fb buf =
     (let ptr = buf - SZ;
          sz = read_unsigned (fb_mem fb) ptr;
          endptr = (if fb_uend fb = 0 then fb_last fb else fb_uend fb)
      in if ptr + sz \<noteq> endptr then (fb, PJ_NEG1)
         else (fb\<lparr>fb_uend := ptr, fb_full := False\<rparr>, PJ_SUCCESS))"

definition pj_fifobuf_free :: "fifobuf \<Rightarrow> nat \<Rightarrow> fifobuf \<times> pj_status" where
  "pj_fifobuf_free fb buf =
     (let ptr = buf - SZ
      in if buf < SZ \<or> ptr \<ge> fb_last fb then (fb, PJ_NEG1)
         else if ptr \<noteq> fb_ubegin fb \<and> ptr \<noteq> 0 then (fb, PJ_NEG1)
         else
           (let endp = (if fb_uend fb > fb_ubegin fb then fb_uend fb else fb_last fb);
                sz = read_unsigned (fb_mem fb) ptr
            in if ptr + sz > endp then (fb, PJ_NEG1)
               else
                 (let ubegin = (if ptr + sz = fb_last fb then 0 else ptr + sz)
                  in if ubegin = fb_uend fb then (fb\<lparr>fb_ubegin := 0, fb_uend := 0, fb_full := False\<rparr>, PJ_SUCCESS)
                     else (fb\<lparr>fb_ubegin := ubegin, fb_full := False\<rparr>, PJ_SUCCESS))))"

section \<open>The blocks of a buffer\<close>

text \<open>
  \<open>chained s bs e\<close>: the blocks \<open>bs\<close>, pairs of an offset and a size with the header, lie one behind the
  other from \<open>s\<close> to \<open>e\<close>. The live blocks of a buffer, oldest first, are a chain from \<open>ubegin\<close>, followed, when
  the allocation has wrapped around, by a chain from the start of the buffer.
\<close>

fun chained :: "nat \<Rightarrow> (nat \<times> nat) list \<Rightarrow> nat \<Rightarrow> bool" where
  "chained s [] e \<longleftrightarrow> s = e"
| "chained s ((a, n) # bs) e \<longleftrightarrow> a = s \<and> 4 \<le> n \<and> chained (s + n) bs e"

definition fb_blocks :: "fifobuf \<Rightarrow> (nat \<times> nat) list \<Rightarrow> bool" where
  "fb_blocks fb bs \<longleftrightarrow> fb_ubegin fb < fb_last fb \<and> fb_uend fb < fb_last fb \<and> fb_last fb < 2 ^ 32 \<and>
     (fb_full fb \<longleftrightarrow> fb_uend fb = fb_ubegin fb \<and> bs \<noteq> []) \<and>
     (\<forall>(a, n) \<in> set bs. read_unsigned (fb_mem fb) a = n) \<and>
     (chained (fb_ubegin fb) bs (fb_uend fb) \<or>
      (\<exists>xs ys g. bs = xs @ ys \<and> chained (fb_ubegin fb) xs g \<and> g \<le> fb_last fb \<and>
         chained 0 ys (fb_uend fb) \<and> fb_uend fb \<le> fb_ubegin fb))"

lemma chained_append: "chained s (bs @ cs) e \<longleftrightarrow> (\<exists>m. chained s bs m \<and> chained m cs e)"
  by (induction bs arbitrary: s) auto

lemma chained_bounds: "chained s bs e \<Longrightarrow> s \<le> e"
  by (induction bs arbitrary: s) fastforce+

lemma chained_same: "chained s bs s \<Longrightarrow> bs = []"
proof (cases bs)
  case (Cons b cs)
  assume "chained s bs s"
  then obtain n where "4 \<le> n" "chained (s + n) cs s" using Cons by (cases b) auto
  then show ?thesis using chained_bounds [of "s + n" cs s] by simp
qed

lemma chained_mem: "chained s bs e \<Longrightarrow> (a, n) \<in> set bs \<Longrightarrow> s \<le> a \<and> a + n \<le> e \<and> 4 \<le> n"
proof (induction bs arbitrary: s)
  case (Cons b bs)
  obtain a' n' where b: "b = (a', n')" by fastforce
  then have c: "a' = s" "4 \<le> n'" "chained (s + n') bs e" using Cons.prems(1) by auto
  show ?case
  proof (cases "(a, n) = b")
    case True
    then show ?thesis using b c chained_bounds [OF c(3)] by auto
  next
    case False
    then show ?thesis using Cons.IH [OF c(3)] Cons.prems(2) b c by auto
  qed
qed simp

definition apart :: "nat \<times> nat \<Rightarrow> nat \<times> nat \<Rightarrow> bool" where
  "apart x y \<longleftrightarrow> fst x + snd x \<le> fst y \<or> fst y + snd y \<le> fst x"

lemma chained_apart: "chained s bs e \<Longrightarrow> sorted_wrt apart bs"
proof (induction bs arbitrary: s)
  case (Cons b bs)
  obtain a n where b: "b = (a, n)" by fastforce
  then have "chained (s + n) bs e" "a = s" using Cons.prems by auto
  then show ?case using Cons.IH chained_mem [of "s + n" bs e] by (auto simp: b apart_def)
qed simp

text \<open>The live blocks lie inside the buffer, apart from each other.\<close>

lemma fb_blocks_apart:
  assumes "fb_blocks fb bs"
  shows "sorted_wrt apart bs" "(a, n) \<in> set bs \<Longrightarrow> a + n \<le> fb_last fb \<and> 4 \<le> n"
proof -
  consider "chained (fb_ubegin fb) bs (fb_uend fb)"
    | xs ys g where "bs = xs @ ys" "chained (fb_ubegin fb) xs g" "g \<le> fb_last fb"
        "chained 0 ys (fb_uend fb)" "fb_uend fb \<le> fb_ubegin fb"
    using assms unfolding fb_blocks_def by blast
  then have "sorted_wrt apart bs \<and> ((a, n) \<in> set bs \<longrightarrow> a + n \<le> fb_last fb \<and> 4 \<le> n)"
  proof cases
    case 1
    then show ?thesis
      using chained_apart [OF 1] chained_mem [OF 1, of a n] assms by (auto simp: fb_blocks_def)
  next
    case 2
    have "apart x y" if "x \<in> set xs" "y \<in> set ys" for x y
      using chained_mem [OF 2(2), of "fst x" "snd x"] chained_mem [OF 2(4), of "fst y" "snd y"] that 2(5)
      by (auto simp: apart_def)
    then show ?thesis
      using chained_apart [OF 2(2)] chained_apart [OF 2(4)] chained_mem [OF 2(2), of a n]
        chained_mem [OF 2(4), of a n] 2 assms by (auto simp: sorted_wrt_append fb_blocks_def)
  qed
  then show "sorted_wrt apart bs" "(a, n) \<in> set bs \<Longrightarrow> a + n \<le> fb_last fb \<and> 4 \<le> n" by blast+
qed

lemma read_write_unsigned [simp]: "v < 2 ^ 32 \<Longrightarrow> read_unsigned (write_unsigned m p v) p = v"
  by (simp add: read_unsigned_def write_unsigned_def Let_def unat_of_nat)

lemma read_write_apart:
  "p + 4 \<le> q \<or> q + 4 \<le> p \<Longrightarrow> read_unsigned (write_unsigned m p v) q = read_unsigned m q"
  by (auto simp: read_unsigned_def write_unsigned_def Let_def)

section \<open>The operations on the blocks\<close>

text \<open>A state is either in order, its blocks one chain from \<open>ubegin\<close> to \<open>uend\<close>, or wrapped.\<close>

definition fb_chains :: "fifobuf \<Rightarrow> (nat \<times> nat) list \<Rightarrow> (nat \<times> nat) list \<Rightarrow> nat \<Rightarrow> bool" where
  "fb_chains fb xs ys g \<longleftrightarrow> chained (fb_ubegin fb) xs g \<and> g \<le> fb_last fb \<and> chained 0 ys (fb_uend fb) \<and>
     fb_uend fb \<le> fb_ubegin fb"

lemma fb_blocks_cases:
  assumes "fb_blocks fb bs"
  obtains (in_order) "chained (fb_ubegin fb) bs (fb_uend fb)"
    | (wrapped) xs ys g where "bs = xs @ ys" "fb_chains fb xs ys g"
  using assms unfolding fb_blocks_def fb_chains_def by blast

lemma fb_blocksI:
  assumes "fb_ubegin fb < fb_last fb" "fb_uend fb < fb_last fb" "fb_last fb < 2 ^ 32"
    and "fb_full fb \<longleftrightarrow> fb_uend fb = fb_ubegin fb \<and> bs \<noteq> []"
    and "\<And>a n. (a, n) \<in> set bs \<Longrightarrow> read_unsigned (fb_mem fb) a = n"
    and "chained (fb_ubegin fb) bs (fb_uend fb) \<or> (\<exists>xs ys g. bs = xs @ ys \<and> fb_chains fb xs ys g)"
  shows "fb_blocks fb bs"
  using assms unfolding fb_blocks_def fb_chains_def by blast

lemma fb_blocksD:
  assumes "fb_blocks fb bs"
  shows "fb_ubegin fb < fb_last fb" "fb_uend fb < fb_last fb" "fb_last fb < 2 ^ 32"
    "fb_full fb \<longleftrightarrow> fb_uend fb = fb_ubegin fb \<and> bs \<noteq> []"
    "(a, n) \<in> set bs \<Longrightarrow> read_unsigned (fb_mem fb) a = n"
  using assms by (auto simp: fb_blocks_def)

lemma headers_kept:
  assumes "fb_blocks fb bs" "sorted_wrt apart (bs @ [(p, need)])" "4 \<le> need" "need < 2 ^ 32"
    and "(a, n) \<in> set (bs @ [(p, need)])"
  shows "read_unsigned (write_unsigned (fb_mem fb) p need) a = n"
proof (cases "(a, n) = (p, need)")
  case False
  then have b: "(a, n) \<in> set bs" using assms(5) by auto
  then have "apart (a, n) (p, need)" "4 \<le> n"
    using assms(2) fb_blocks_apart(2) [OF assms(1) b] by (auto simp: sorted_wrt_append)
  then have "p + 4 \<le> a \<or> a + 4 \<le> p" using assms(3) by (auto simp: apart_def)
  then show ?thesis using fb_blocksD(5) [OF assms(1) b] by (simp add: read_write_apart)
qed (use assms(4) in simp)

text \<open>A new block behind the newest one, or at the start when the blocks are in order.\<close>

lemma add_block:
  assumes B: "fb_blocks fb bs" and need: "4 \<le> need"
    and room: "(fb_uend fb \<ge> fb_ubegin fb \<and> (fb_uend fb = fb_ubegin fb \<longrightarrow> bs = []) \<and> p = fb_uend fb \<and> p + need \<le> fb_last fb \<and>
        uend = (if p + need = fb_last fb then 0 else p + need)) \<or>
      (fb_uend fb > fb_ubegin fb \<and> p = 0 \<and> need \<le> fb_ubegin fb \<and> uend = need) \<or>
      (fb_uend fb < fb_ubegin fb \<and> p = fb_uend fb \<and> p + need \<le> fb_ubegin fb \<and> uend = p + need)"
  shows "fb_blocks (fb\<lparr>fb_uend := uend, fb_full := (uend = fb_ubegin fb), fb_mem := write_unsigned (fb_mem fb) p need\<rparr>)
    (bs @ [(p, need)])" (is "fb_blocks ?fb _")
proof -
  note D = fb_blocksD [OF B]
  have small: "need < 2 ^ 32" "uend < fb_last fb" using room D(1-3) need by auto
  have order: "chained (fb_ubegin fb) bs (fb_uend fb)"
    if "fb_uend fb \<ge> fb_ubegin fb" "fb_uend fb = fb_ubegin fb \<longrightarrow> bs = []"
    using B
  proof (cases rule: fb_blocks_cases)
    case (wrapped xs ys g)
    then have "fb_uend fb = fb_ubegin fb" "bs = []" using that by (auto simp: fb_chains_def)
    then show ?thesis using that by simp
  qed
  have new: "chained (fb_ubegin fb) (bs @ [(p, need)]) uend \<or>
      (\<exists>xs ys g. bs @ [(p, need)] = xs @ ys \<and> fb_chains ?fb xs ys g)"
    using room
  proof (elim disjE conjE)
    assume h: "fb_uend fb \<ge> fb_ubegin fb" "fb_uend fb = fb_ubegin fb \<longrightarrow> bs = []" "p = fb_uend fb"
      "p + need \<le> fb_last fb" "uend = (if p + need = fb_last fb then 0 else p + need)"
    have c: "chained (fb_ubegin fb) (bs @ [(p, need)]) (p + need)"
      using order [OF h(1,2)] h(3) need by (auto simp: chained_append)
    show ?thesis
    proof (cases "p + need = fb_last fb")
      case True
      then have "fb_chains ?fb (bs @ [(p, need)]) [] (p + need)" using c h by (simp add: fb_chains_def)
      then show ?thesis by blast
    next
      case False
      then show ?thesis using c h by simp
    qed
  next
    assume h: "fb_uend fb > fb_ubegin fb" "p = 0" "need \<le> fb_ubegin fb" "uend = need"
    then have "chained (fb_ubegin fb) bs (fb_uend fb)" using order by simp
    then have "fb_chains ?fb bs [(p, need)] (fb_uend fb)"
      using h need D(2) by (simp add: fb_chains_def)
    then show ?thesis by blast
  next
    assume h: "fb_uend fb < fb_ubegin fb" "p = fb_uend fb" "p + need \<le> fb_ubegin fb" "uend = p + need"
    from B show ?thesis
    proof (cases rule: fb_blocks_cases)
      case in_order
      then show ?thesis using h(1) chained_bounds by fastforce
    next
      case (wrapped xs ys g)
      then have "fb_chains ?fb xs (ys @ [(p, need)]) g"
        using h need by (auto simp: fb_chains_def chained_append)
      then show ?thesis using wrapped(1) by (metis append.assoc)
    qed
  qed
  moreover have "sorted_wrt apart (bs @ [(p, need)])"
    using new
  proof (elim disjE exE conjE)
    fix xs ys g assume h: "bs @ [(p, need)] = xs @ ys" "fb_chains ?fb xs ys g"
    have "apart x y" if "x \<in> set xs" "y \<in> set ys" for x y
      using chained_mem [of "fb_ubegin fb" xs g "fst x" "snd x"] chained_mem [of 0 ys uend "fst y" "snd y"] that h(2)
      by (auto simp: apart_def fb_chains_def)
    then show ?thesis
      unfolding h(1) using h(2) chained_apart by (auto simp: sorted_wrt_append fb_chains_def)
  qed (rule chained_apart)
  ultimately show ?thesis
    using D(1,3) small headers_kept [OF B _ need small(1)] by (intro fb_blocksI) auto
qed

lemma alloc_block:
  assumes B: "fb_blocks fb bs" and n: "n + SZ < 2 ^ 32" and r: "pj_fifobuf_alloc fb n = (fb', Some ptr)"
  shows "fb_blocks fb' (bs @ [(ptr - SZ, n + SZ)])" "SZ \<le> ptr"
proof -
  have need: "uwrap (n + SZ) = n + SZ" "4 \<le> n + SZ" using n by (simp_all add: SZ_def)
  note r' = r [unfolded pj_fifobuf_alloc_def need(1) Let_def]
  have full: "\<not> fb_full fb" using r' by auto
  then have e: "fb_uend fb = fb_ubegin fb \<longrightarrow> bs = []" using fb_blocksD(4) [OF B] by blast
  note A = add_block [OF B need(2)]
  show "SZ \<le> ptr" using r' by (auto split: if_splits)
  show "fb_blocks fb' (bs @ [(ptr - SZ, n + SZ)])"
  proof (cases "fb_uend fb \<ge> fb_ubegin fb \<and> fb_last fb - fb_uend fb \<ge> n + SZ")
    case True
    define uend where "uend = (if fb_uend fb + (n + SZ) = fb_last fb then 0 else fb_uend fb + (n + SZ))"
    have fb': "ptr - SZ = fb_uend fb" "fb' = fb\<lparr>fb_uend := uend, fb_full := (uend = fb_ubegin fb),
        fb_mem := write_unsigned (fb_mem fb) (fb_uend fb) (n + SZ)\<rparr>"
      using r' full True unfolding uend_def by auto
    have "fb_uend fb + (n + SZ) \<le> fb_last fb" using True need(2) by linarith
    then have "fb_uend fb \<ge> fb_ubegin fb \<and> (fb_uend fb = fb_ubegin fb \<longrightarrow> bs = []) \<and> fb_uend fb = fb_uend fb \<and>
        fb_uend fb + (n + SZ) \<le> fb_last fb \<and> uend = (if fb_uend fb + (n + SZ) = fb_last fb then 0 else fb_uend fb + (n + SZ))"
      using True e by (simp add: uend_def)
    from A [OF disjI1 [OF this]] show ?thesis unfolding fb' .
  next
    case False
    let ?start = "if fb_uend fb \<le> fb_ubegin fb then fb_uend fb else 0"
    have h: "fb_ubegin fb - ?start \<ge> n + SZ" "ptr = ?start + SZ"
      "fb' = fb\<lparr>fb_uend := ?start + (n + SZ), fb_full := (?start + (n + SZ) = fb_ubegin fb),
        fb_mem := write_unsigned (fb_mem fb) ?start (n + SZ)\<rparr>"
      using r' full False by (auto split: if_splits)
    show ?thesis
    proof (cases "fb_uend fb \<le> fb_ubegin fb")
      case True
      have "fb_uend fb < fb_ubegin fb \<and> fb_uend fb = fb_uend fb \<and> fb_uend fb + (n + SZ) \<le> fb_ubegin fb \<and>
          fb_uend fb + (n + SZ) = fb_uend fb + (n + SZ)"
        using h(1) True need(2) by (simp; linarith)
      from A [OF disjI2 [OF disjI2 [OF this]]] show ?thesis using h(2,3) True by simp
    next
      case False
      then have "fb_uend fb > fb_ubegin fb \<and> (0::nat) = 0 \<and> n + SZ \<le> fb_ubegin fb \<and> n + SZ = n + SZ"
        using h(1) by simp
      from A [OF disjI2 [OF disjI1 [OF this]]] show ?thesis using h(2,3) False by simp
    qed
  qed
qed

text \<open>Freeing the oldest block always succeeds.\<close>

lemma free_oldest:
  assumes B: "fb_blocks fb ((a, n) # bs)"
  shows "\<exists>fb'. pj_fifobuf_free fb (a + SZ) = (fb', PJ_SUCCESS) \<and> fb_blocks fb' bs \<and> fb_mem fb' = fb_mem fb \<and>
    fb_last fb' = fb_last fb"
proof -
  note D = fb_blocksD [OF B]
  have n: "read_unsigned (fb_mem fb) a = n" "4 \<le> n" "a + n \<le> fb_last fb"
    using D(5) fb_blocks_apart(2) [OF B, of a n] by auto
  define ub where "ub = (if a + n = fb_last fb then 0 else a + n)"
  define fb' where "fb' = (if ub = fb_uend fb then fb\<lparr>fb_ubegin := 0, fb_uend := 0, fb_full := False\<rparr>
      else fb\<lparr>fb_ubegin := ub, fb_full := False\<rparr>)"
  have head: "(a = fb_ubegin fb \<or> a = 0) \<and> a + n \<le> (if fb_uend fb > fb_ubegin fb then fb_uend fb else fb_last fb) \<and>
    (ub = fb_uend fb \<longrightarrow> bs = []) \<and>
    (ub \<noteq> fb_uend fb \<longrightarrow> chained ub bs (fb_uend fb) \<or>
      (\<exists>xs ys g. bs = xs @ ys \<and> chained ub xs g \<and> g \<le> fb_last fb \<and> chained 0 ys (fb_uend fb) \<and> fb_uend fb \<le> ub))"
    using B
  proof (cases rule: fb_blocks_cases)
    case in_order
    then have c: "a = fb_ubegin fb" "chained (a + n) bs (fb_uend fb)" by auto
    moreover have "bs = []" if "a + n = fb_uend fb"
      using c(2) that chained_same by metis
    moreover have "a + n \<le> fb_uend fb" using chained_bounds [OF c(2)] .
    ultimately show ?thesis using D(2) n(2) by (auto simp: ub_def)
  next
    case (wrapped xs ys g)
    note W = wrapped(2) [unfolded fb_chains_def]
    show ?thesis
    proof (cases xs)
      case Nil
      then have ys: "ys = (a, n) # bs" and a: "a = 0" "chained n bs (fb_uend fb)" using wrapped(1) W by auto
      have "n \<le> fb_uend fb" using chained_bounds [OF a(2)] .
      then have u: "ub = n" using D(2) a(1) by (simp add: ub_def)
      have "bs = []" if "n = fb_uend fb" using a(2) that chained_same by metis
      then show ?thesis using a W n(3) u by auto
    next
      case (Cons x xs')
      then have x: "x = (a, n)" "bs = xs' @ ys" using wrapped(1) by auto
      then have c: "a = fb_ubegin fb" "chained (a + n) xs' g" using W Cons by auto
      have g: "a + n \<le> g" using chained_bounds [OF c(2)] .
      show ?thesis
      proof (cases "a + n = fb_last fb")
        case True
        then have "g = fb_last fb" using g W by simp
        then have "xs' = []" using c(2) True chained_same by metis
        moreover have "ys = []" if "fb_uend fb = 0" using W that chained_same by metis
        ultimately show ?thesis using True W c(1) x(2) by (auto simp: ub_def)
      next
        case False
        then have "ub = a + n" by (simp add: ub_def)
        moreover have "fb_uend fb < a + n" using W c(1) n(2) by simp
        moreover have "bs = xs' @ ys \<and> chained (a + n) xs' g \<and> g \<le> fb_last fb \<and> chained 0 ys (fb_uend fb) \<and>
            fb_uend fb \<le> a + n"
          using W c x(2) \<open>fb_uend fb < a + n\<close> by simp
        then have "\<exists>xs ys g. bs = xs @ ys \<and> chained (a + n) xs g \<and> g \<le> fb_last fb \<and> chained 0 ys (fb_uend fb) \<and>
            fb_uend fb \<le> a + n" by blast
        ultimately show ?thesis using W c(1) n(3) by auto
      qed
    qed
  qed
  have free: "pj_fifobuf_free fb (a + SZ) = (fb', PJ_SUCCESS)"
    using head n D(1) by (auto simp: pj_fifobuf_free_def Let_def fb'_def ub_def)
  have hdr: "read_unsigned (fb_mem fb) a' = n'" if "(a', n') \<in> set bs" for a' n' using D(5) that by simp
  have "ub < fb_last fb" using n(3) D(1) by (auto simp: ub_def)
  then have "fb_blocks fb' bs"
    using head D(1-3) hdr unfolding fb_blocks_def by (auto simp: fb'_def)
  moreover have "fb_mem fb' = fb_mem fb" "fb_last fb' = fb_last fb" by (simp_all add: fb'_def)
  ultimately show ?thesis using free by blast
qed

text \<open>Taking back the newest block succeeds, unless it is the last before a gap at the end of the buffer.\<close>

lemma unalloc_newest:
  assumes B: "fb_blocks fb (bs @ [(a, n)])"
  shows "pj_fifobuf_unalloc fb (a + SZ) =
      (if a + n = (if fb_uend fb = 0 then fb_last fb else fb_uend fb)
       then (fb\<lparr>fb_uend := a, fb_full := False\<rparr>, PJ_SUCCESS) else (fb, PJ_NEG1))"
    and "a + n = (if fb_uend fb = 0 then fb_last fb else fb_uend fb) \<Longrightarrow>
      fb_blocks (fb\<lparr>fb_uend := a, fb_full := False\<rparr>) bs"
proof -
  note D = fb_blocksD [OF B]
  have n: "read_unsigned (fb_mem fb) a = n" "4 \<le> n" "a + n \<le> fb_last fb"
    using D(5) fb_blocks_apart(2) [OF B, of a n] by auto
  show "pj_fifobuf_unalloc fb (a + SZ) =
      (if a + n = (if fb_uend fb = 0 then fb_last fb else fb_uend fb)
       then (fb\<lparr>fb_uend := a, fb_full := False\<rparr>, PJ_SUCCESS) else (fb, PJ_NEG1))"
    by (simp add: pj_fifobuf_unalloc_def n(1) Let_def)
  assume e: "a + n = (if fb_uend fb = 0 then fb_last fb else fb_uend fb)"
  let ?fb = "fb\<lparr>fb_uend := a, fb_full := False\<rparr>"
  have "(bs \<noteq> [] \<longrightarrow> a \<noteq> fb_ubegin fb) \<and> (chained (fb_ubegin fb) bs a \<or> (\<exists>xs ys g. bs = xs @ ys \<and> fb_chains ?fb xs ys g))"
    using B
  proof (cases rule: fb_blocks_cases)
    case in_order
    then have "chained (fb_ubegin fb) bs a" using e by (auto simp: chained_append)
    then show ?thesis using chained_same by blast
  next
    case (wrapped xs ys g)
    note W = wrapped(2) [unfolded fb_chains_def]
    show ?thesis
    proof (cases ys rule: rev_cases)
      case Nil
      then have "chained (fb_ubegin fb) bs a" using wrapped(1) W by (auto simp: chained_append)
      then show ?thesis using chained_same by blast
    next
      case (snoc ys' y)
      then have y: "y = (a, n)" "bs = xs @ ys'" using wrapped(1) by auto
      then have "chained 0 ys' a" "a + n = fb_uend fb" using W snoc by (auto simp: chained_append)
      then have "fb_chains ?fb xs ys' g" "a \<noteq> fb_ubegin fb" using W n(2) by (auto simp: fb_chains_def)
      then show ?thesis using y(2) by blast
    qed
  qed
  then show "fb_blocks ?fb bs" using D n by (intro fb_blocksI) auto
qed

section \<open>Runs\<close>

text \<open>
  A client holds the live blocks, frees the oldest one, may take back the newest one, and writes
  into its blocks behind the headers.
\<close>

datatype fifo_call = FC_Alloc nat | FC_Free | FC_Unalloc | FC_Write nat nat u8

fun fifo_step :: "fifobuf \<times> (nat \<times> nat) list \<Rightarrow> fifo_call \<Rightarrow> fifobuf \<times> (nat \<times> nat) list" where
  "fifo_step (fb, bs) (FC_Alloc n) =
     (case pj_fifobuf_alloc fb n of
        (fb', None) \<Rightarrow> (fb', bs)
      | (fb', Some ptr) \<Rightarrow> (fb', bs @ [(ptr - SZ, n + SZ)]))"
| "fifo_step (fb, bs) FC_Free =
     (if bs = [] then (fb, bs)
      else (case pj_fifobuf_free fb (fst (hd bs) + SZ) of
              (fb', st) \<Rightarrow> (fb', if st = PJ_SUCCESS then tl bs else bs)))"
| "fifo_step (fb, bs) FC_Unalloc =
     (if bs = [] then (fb, bs)
      else (case pj_fifobuf_unalloc fb (fst (last bs) + SZ) of
              (fb', st) \<Rightarrow> (fb', if st = PJ_SUCCESS then butlast bs else bs)))"
| "fifo_step (fb, bs) (FC_Write i k v) =
     (if i < length bs \<and> SZ \<le> k \<and> k < snd (bs ! i)
      then (fb\<lparr>fb_mem := (fb_mem fb)(fst (bs ! i) + k := v)\<rparr>, bs) else (fb, bs))"

fun fifo_call_ok :: "fifo_call \<Rightarrow> bool" where
  "fifo_call_ok (FC_Alloc n) \<longleftrightarrow> n + SZ < 2 ^ 32"
| "fifo_call_ok _ \<longleftrightarrow> True"

lemma alloc_none: "pj_fifobuf_alloc fb n = (fb', None) \<Longrightarrow> fb' = fb"
  by (auto simp: pj_fifobuf_alloc_def Let_def split: if_splits)

lemma client_write:
  assumes B: "fb_blocks fb bs" and i: "i < length bs" and k: "SZ \<le> k" "k < snd (bs ! i)"
  shows "fb_blocks (fb\<lparr>fb_mem := (fb_mem fb)(fst (bs ! i) + k := v)\<rparr>) bs"
proof -
  have "read_unsigned ((fb_mem fb)(fst (bs ! i) + k := v)) a = n" if e: "(a, n) \<in> set bs" for a n
  proof -
    obtain j where j: "j < length bs" "bs ! j = (a, n)" using e by (metis in_set_conv_nth)
    have "4 \<le> n" using fb_blocks_apart(2) [OF B e] by simp
    have "apart (bs ! i) (bs ! j) \<or> apart (bs ! j) (bs ! i)" if "i \<noteq> j"
      using sorted_wrt_nth_less [OF fb_blocks_apart(1) [OF B]] that i j(1) by (metis nat_neq_iff)
    then have "fst (bs ! i) + k < a \<or> a + 4 \<le> fst (bs ! i) + k"
      using j(2) k \<open>4 \<le> n\<close> by (cases "i = j") (auto simp: apart_def SZ_def)
    then have "read_unsigned ((fb_mem fb)(fst (bs ! i) + k := v)) a = read_unsigned (fb_mem fb) a"
      by (auto simp: read_unsigned_def)
    then show ?thesis using fb_blocksD(5) [OF B e] by simp
  qed
  then show ?thesis using B by (auto simp: fb_blocks_def)
qed

interpretation fifo_machine: event_machine fifo_step "\<lambda>(fb, bs). fb_blocks fb bs" fifo_call_ok
proof
  fix s c assume B: "case s of (fb, bs) \<Rightarrow> fb_blocks fb bs" and ok: "fifo_call_ok c"
  obtain fb bs where s: "s = (fb, bs)" by fastforce
  have B: "fb_blocks fb bs" using B by (simp add: s)
  show "case fifo_step s c of (fb, bs) \<Rightarrow> fb_blocks fb bs"
  proof (cases c)
    case (FC_Alloc n)
    show ?thesis
    proof (cases "pj_fifobuf_alloc fb n")
      case (Pair fb' r)
      show ?thesis
      proof (cases r)
        case None
        then show ?thesis using FC_Alloc Pair B alloc_none [of fb n fb'] by (simp add: s)
      next
        case (Some ptr)
        then show ?thesis using FC_Alloc Pair ok alloc_block(1) [OF B, of n fb' ptr] by (simp add: s)
      qed
    qed
  next
    case FC_Free
    show ?thesis
    proof (cases bs)
      case (Cons b bs')
      then obtain fb' where "pj_fifobuf_free fb (fst b + SZ) = (fb', PJ_SUCCESS)" "fb_blocks fb' bs'"
        using free_oldest [of fb "fst b" "snd b" bs'] B by auto
      then show ?thesis using FC_Free Cons by (simp add: s)
    qed (use B FC_Free in \<open>simp add: s\<close>)
  next
    case FC_Unalloc
    show ?thesis
    proof (cases bs rule: rev_cases)
      case (snoc bs' b)
      then show ?thesis
        using FC_Unalloc unalloc_newest [of fb bs' "fst b" "snd b"] B by (simp add: s)
    qed (use B FC_Unalloc in \<open>simp add: s\<close>)
  next
    case (FC_Write i k v)
    then show ?thesis using client_write [OF B, of i k v] B by (simp add: s)
  qed
qed

lemma fifo_init_blocks: "0 < n \<Longrightarrow> n < 2 ^ 32 \<Longrightarrow> fb_blocks (pj_fifobuf_init m n) []"
  by (simp add: fb_blocks_def pj_fifobuf_init_def)

section \<open>Properties\<close>

text \<open>C18. In any run that frees blocks in order, takes back only the newest one and writes only into live blocks, the live blocks
  are apart from each other and inside the buffer, their headers hold their sizes, and freeing the oldest one succeeds.\<close>

theorem fifo_run_disjoint:
  assumes "0 < n" "n < 2 ^ 32" "\<forall>c \<in> set calls. fifo_call_ok c"
    and "foldl fifo_step (pj_fifobuf_init m n, []) calls = (fb, bs)"
  shows "sorted_wrt apart bs \<and> (\<forall>(a, k) \<in> set bs. a + k \<le> fb_last fb \<and> read_unsigned (fb_mem fb) a = k) \<and>
    (bs \<noteq> [] \<longrightarrow> snd (pj_fifobuf_free fb (fst (hd bs) + SZ)) = PJ_SUCCESS)"
proof -
  have B: "fb_blocks fb bs"
    using fifo_machine.mrun_inv [of "(pj_fifobuf_init m n, [])" calls] fifo_init_blocks [OF assms(1,2)] assms(3,4)
    by simp
  have "snd (pj_fifobuf_free fb (fst (hd bs) + SZ)) = PJ_SUCCESS" if "bs \<noteq> []"
    using free_oldest [of fb "fst (hd bs)" "snd (hd bs)" "tl bs"] B that by auto
  then show ?thesis using fb_blocks_apart [OF B] fb_blocksD(5) [OF B] by auto
qed

theorem fifo_run_disjoint_witness:
  "\<exists>fb bs. foldl fifo_step (pj_fifobuf_init (\<lambda>_. 0) 64, []) [FC_Alloc 20, FC_Alloc 20, FC_Free, FC_Write 0 5 7, FC_Alloc 12] = (fb, bs) \<and>
    length bs = 2 \<and> sorted_wrt apart bs \<and> (\<forall>(a, k) \<in> set bs. a + k \<le> fb_last fb \<and> read_unsigned (fb_mem fb) a = k)"
proof -
  let ?calls = "[FC_Alloc 20, FC_Alloc 20, FC_Free, FC_Write 0 5 7, FC_Alloc 12]"
  obtain fb bs where r: "foldl fifo_step (pj_fifobuf_init (\<lambda>_. 0) 64, []) ?calls = (fb, bs)" by fastforce
  have "length (snd (foldl fifo_step (pj_fifobuf_init (\<lambda>_. 0) 64, []) ?calls)) = 2"
    by (simp add: pj_fifobuf_init_def pj_fifobuf_alloc_def pj_fifobuf_free_def SZ_def read_write_apart)
  moreover have "\<forall>c \<in> set ?calls. fifo_call_ok c" by (simp add: SZ_def)
  ultimately show ?thesis using fifo_run_disjoint [OF _ _ _ r] r by auto
qed

text \<open>On a buffer that is not full and has live blocks, or is in its initial position, an allocation succeeds exactly when size and header
  fit into \<open>pj_fifobuf_max_size\<close>. A full buffer reports a size too, though no allocation succeeds.\<close>

theorem fifo_max_size_exact:
  assumes "fb_blocks fb bs" "n + SZ < 2 ^ 32"
  shows "(\<not> fb_full fb \<and> (bs = [] \<longrightarrow> fb_ubegin fb = 0) \<longrightarrow>
      (snd (pj_fifobuf_alloc fb n) \<noteq> None \<longleftrightarrow> n + SZ \<le> pj_fifobuf_max_size fb)) \<and>
    (fb_full fb \<longrightarrow> snd (pj_fifobuf_alloc fb n) = None \<and> 0 < pj_fifobuf_max_size fb)"
proof -
  note D = fb_blocksD [OF assms(1)]
  have need: "uwrap (n + SZ) = n + SZ" "4 \<le> n + SZ" using assms(2) by (simp_all add: SZ_def)
  have alloc: "snd (pj_fifobuf_alloc fb n) \<noteq> None \<longleftrightarrow> \<not> fb_full fb \<and>
      ((fb_uend fb \<ge> fb_ubegin fb \<and> fb_last fb - fb_uend fb \<ge> n + SZ) \<or>
       (fb_uend fb < fb_ubegin fb \<and> fb_ubegin fb - fb_uend fb \<ge> n + SZ) \<or>
       (fb_uend fb > fb_ubegin fb \<and> fb_ubegin fb \<ge> n + SZ))"
    unfolding pj_fifobuf_alloc_def need(1) Let_def
    using need(2) by (cases "fb_uend fb" "fb_ubegin fb" rule: linorder_cases) auto
  have size: "pj_fifobuf_max_size fb =
      (if fb_uend fb \<ge> fb_ubegin fb then max (fb_last fb - fb_uend fb) (fb_ubegin fb) else fb_ubegin fb - fb_uend fb)"
    by (simp add: pj_fifobuf_max_size_def)
  have empty: "bs = []" if "\<not> fb_full fb" "fb_uend fb = fb_ubegin fb" using D(4) that by blast
  have full: "fb_uend fb = fb_ubegin fb" if "fb_full fb" using D(4) that by blast
  show ?thesis
  proof (intro conjI impI)
    assume "\<not> fb_full fb \<and> (bs = [] \<longrightarrow> fb_ubegin fb = 0)"
    then show "snd (pj_fifobuf_alloc fb n) \<noteq> None \<longleftrightarrow> n + SZ \<le> pj_fifobuf_max_size fb"
      unfolding alloc size using empty need(2)
      by (cases "fb_uend fb" "fb_ubegin fb" rule: linorder_cases) (auto simp: le_max_iff_disj)
  next
    assume f: "fb_full fb"
    then show "snd (pj_fifobuf_alloc fb n) = None" using alloc by blast
    show "0 < pj_fifobuf_max_size fb" unfolding size using full [OF f] D(2) by simp
  qed
qed

theorem fifo_max_size_exact_witness:
  "(snd (pj_fifobuf_alloc (pj_fifobuf_init (\<lambda>_. 0) 64) 60) \<noteq> None \<longleftrightarrow> 60 + SZ \<le> pj_fifobuf_max_size (pj_fifobuf_init (\<lambda>_. 0) 64))"
  using fifo_max_size_exact [OF fifo_init_blocks, of 64 60 "\<lambda>_. 0"] by (simp add: SZ_def pj_fifobuf_init_def)

text \<open>
  Two ways in which the code departs from what it means to do. A size whose sum with the header is
  \<open>2 ^ 32\<close> is granted without any room being taken; and freeing the block at the start of the buffer is
  accepted although an older block is still live, after which the next allocation overlaps that one.
\<close>

lemma fifo_alloc_wraps:
  assumes "fb_blocks fb bs" "\<not> fb_full fb" "fb_ubegin fb \<le> fb_uend fb"
  shows "\<exists>m. pj_fifobuf_alloc fb (2 ^ 32 - SZ) =
    (fb\<lparr>fb_full := (fb_uend fb = fb_ubegin fb), fb_mem := m\<rparr>, Some (fb_uend fb + SZ))"
proof -
  have need: "uwrap (2 ^ 32 - SZ + SZ) = 0" by (simp add: SZ_def)
  show ?thesis
    unfolding pj_fifobuf_alloc_def need Let_def using assms(2,3) fb_blocksD(2) [OF assms(1)]
    by (intro exI [of _ "write_unsigned (fb_mem fb) (fb_uend fb) 0"]) simp
qed

lemma fifo_free_out_of_order:
  "case foldl fifo_step (pj_fifobuf_init (\<lambda>_. 0) 100, []) [FC_Alloc 40, FC_Alloc 40, FC_Free, FC_Alloc 30] of
     (fb, bs) \<Rightarrow> bs = [(44, 44), (0, 34)] \<and>
       (case pj_fifobuf_free fb (0 + SZ) of
          (fb, st) \<Rightarrow> st = PJ_SUCCESS \<and> snd (pj_fifobuf_alloc fb 80) = Some (0 + SZ))"
  by (simp add: pj_fifobuf_init_def pj_fifobuf_alloc_def pj_fifobuf_free_def SZ_def read_write_apart)

end
