(* ===== verification/Stun_Tsx.thy ===== *)
theory Stun_Tsx
  imports Timer_Calls
begin

text \<open>
  The STUN client transaction (\<open>pjnath/src/pjnath/stun_transaction.c\<close>), which sends a request,
  sends it again on a timer until a response arrives or the number of transmissions is used up, and
  reports the outcome once. It runs on the timer heap: its two timers are entries of the heap, and
  its timer callbacks are called by \<open>pj_timer_heap_poll\<close>. What the transaction calls of its user
  (\<open>on_send_msg\<close>, \<open>on_complete\<close>, \<open>on_destroy\<close>) is recorded in \<open>tx_log\<close>; the status \<open>on_send_msg\<close>
  returns is a parameter. What the user does in \<open>on_complete\<close> and \<open>on_destroy\<close> comes after the last access to the
  transaction, so it is a later call of the model. The group lock, the packet and the user data are left out.
\<close>

section \<open>State\<close>

datatype tsx_out = Out_Send | Out_Complete pj_status | Out_Destroy

record stun_tsx =
  tx_on_complete :: bool
  tx_on_destroy :: bool
  tx_grp :: "nat option"
  tx_complete :: bool
  tx_require_retransmit :: bool
  tx_rto_msec :: nat
  tx_retransmit_timer :: nat
  tx_transmit_count :: nat
  tx_retransmit_time :: pj_time_val
  tx_destroy_timer :: nat
  tx_log :: "tsx_out list"

definition TIMER_INACTIVE :: int where "TIMER_INACTIVE = 0"

definition TIMER_ACTIVE :: int where "TIMER_ACTIVE = 1"

definition PJ_STUN_RTO_VALUE :: nat where "PJ_STUN_RTO_VALUE = 100"

definition PJ_STUN_TIMEOUT_VALUE :: nat where "PJ_STUN_TIMEOUT_VALUE = 16 * PJ_STUN_RTO_VALUE"

definition PJ_STUN_MAX_TRANSMIT_COUNT :: nat where "PJ_STUN_MAX_TRANSMIT_COUNT = 7"

definition log_out :: "tsx_out \<Rightarrow> stun_tsx \<Rightarrow> stun_tsx" where
  "log_out x t = t\<lparr>tx_log := tx_log t @ [x]\<rparr>"

definition set_id :: "nat \<Rightarrow> int \<Rightarrow> timer_heap \<Rightarrow> timer_heap" where
  "set_id e v h = set_entry h e (te_id_update (\<lambda>_. v))"

definition seconds_of :: "nat \<Rightarrow> pj_time_val" where
  "seconds_of msec = Time_Val (int (msec div 1000)) (int (msec mod 1000))"

section \<open>Operations\<close>

text \<open>\<open>pj_stun_client_tsx_create\<close>: the object is zeroed, so the timers are not initialised by
  \<open>pj_timer_entry_init\<close> and start with timer id 0. \<open>rt\<close> and \<open>dt\<close> are the entries in the new object.\<close>

definition pj_stun_client_tsx_create ::
  "nat \<Rightarrow> nat option \<Rightarrow> bool \<Rightarrow> bool \<Rightarrow> bool \<Rightarrow> nat \<Rightarrow> nat \<Rightarrow> timer_heap \<Rightarrow> pj_status + (timer_heap \<times> stun_tsx)" where
  "pj_stun_client_tsx_create rto grp on_send on_complete on_destroy rt dt h =
     (if \<not> on_send then Inl PJ_EINVAL
      else
        (let blank = \<lparr>te_id = 0, te_cb = True, te_timer_id = 0, te_value = Time_Val 0 0, te_grp = None\<rparr>
         in Inr (set_entry (set_entry h rt (\<lambda>_. blank)) dt (\<lambda>_. blank),
              \<lparr>tx_on_complete = on_complete, tx_on_destroy = on_destroy, tx_grp = grp, tx_complete = False,
               tx_require_retransmit = False, tx_rto_msec = rto, tx_retransmit_timer = rt,
               tx_transmit_count = 0, tx_retransmit_time = Time_Val 0 0, tx_destroy_timer = dt, tx_log = []\<rparr>)))"

definition pj_stun_client_tsx_schedule_destroy ::
  "pj_time_val \<Rightarrow> timer_heap \<Rightarrow> stun_tsx \<Rightarrow> pj_time_val \<Rightarrow> (timer_heap \<times> stun_tsx \<times> pj_status) option" where
  "pj_stun_client_tsx_schedule_destroy now h t delay =
     (if \<not> tx_on_destroy t then Some (h, t, PJ_EINVAL)
      else
        Option.bind (pj_timer_heap_cancel_if_active h (tx_destroy_timer t) TIMER_INACTIVE) (\<lambda>(h, _).
        Option.bind (pj_timer_heap_cancel_if_active h (tx_retransmit_timer t) TIMER_INACTIVE) (\<lambda>(h, _).
        Option.bind (pj_timer_heap_schedule_w_grp_lock h now (tx_destroy_timer t) delay TIMER_ACTIVE (tx_grp t))
          (\<lambda>(h, status).
             if status \<noteq> PJ_SUCCESS then Some (h, t, status)
             else Some (h, t\<lparr>tx_on_complete := False\<rparr>, PJ_SUCCESS)))))"

definition pj_stun_client_tsx_stop :: "timer_heap \<Rightarrow> stun_tsx \<Rightarrow> (timer_heap \<times> pj_status) option" where
  "pj_stun_client_tsx_stop h t =
     Option.bind (pj_timer_heap_cancel_if_active h (tx_retransmit_timer t) TIMER_INACTIVE) (\<lambda>(h, _).
     Option.bind (pj_timer_heap_cancel_if_active h (tx_destroy_timer t) TIMER_INACTIVE) (\<lambda>(h, _).
       Some (h, PJ_SUCCESS)))"

definition pj_stun_client_tsx_is_complete :: "stun_tsx \<Rightarrow> bool" where
  "pj_stun_client_tsx_is_complete t = tx_complete t"

text \<open>The delay of the next transmission; \<open><<=\<close> on \<open>unsigned\<close> wraps.\<close>

definition next_retransmit_time :: "stun_tsx \<Rightarrow> pj_time_val" where
  "next_retransmit_time t =
     (if tx_transmit_count t = 0 then Time_Val 0 (int (tx_rto_msec t))
      else if tx_transmit_count t < PJ_STUN_MAX_TRANSMIT_COUNT - 1
      then seconds_of (uwrap (2 * to_u32 (PJ_TIME_VAL_MSEC (tx_retransmit_time t))))
      else seconds_of PJ_STUN_TIMEOUT_VALUE)"

definition tsx_transmit_msg ::
  "(stun_tsx \<Rightarrow> pj_status) \<Rightarrow> pj_time_val \<Rightarrow> timer_heap \<Rightarrow> stun_tsx \<Rightarrow> bool \<Rightarrow> (timer_heap \<times> stun_tsx \<times> pj_status) option" where
  "tsx_transmit_msg send now h t mod_count =
     (if te_id (th_entry h (tx_retransmit_timer t)) \<noteq> TIMER_INACTIVE \<and> tx_require_retransmit t \<and> mod_count
      then Some (h, t, PJ_EBUSY)
      else
        Option.bind
          (if tx_require_retransmit t \<and> mod_count then
             (let t = t\<lparr>tx_retransmit_time := next_retransmit_time t\<rparr>
              in Option.bind (pj_timer_heap_schedule_w_grp_lock h now (tx_retransmit_timer t)
                     (tx_retransmit_time t) TIMER_ACTIVE (tx_grp t))
                   (\<lambda>(h, status). Some (if status \<noteq> PJ_SUCCESS then set_id (tx_retransmit_timer t) TIMER_INACTIVE h else h,
                      t, status)))
           else Some (h, t, PJ_SUCCESS))
          (\<lambda>(h, t, status).
             if status \<noteq> PJ_SUCCESS then Some (h, t, status)
             else
               (let t = (if mod_count then t\<lparr>tx_transmit_count := tx_transmit_count t + 1\<rparr> else t);
                    status = send t;
                    t = log_out Out_Send t
                in if status \<noteq> PJ_SUCCESS \<and> status \<noteq> PJNATH_ESTUNDESTROYED \<and> (mod_count \<or> status = PJ_EINVALIDOP)
                   then Option.bind (pj_timer_heap_cancel_if_active h (tx_retransmit_timer t) TIMER_INACTIVE)
                          (\<lambda>(h, _). Some (h, t, status))
                   else Some (h, t, status))))"

text \<open>\<open>has_pkt\<close>: the packet is not null and not empty.\<close>

definition pj_stun_client_tsx_send_msg ::
  "(stun_tsx \<Rightarrow> pj_status) \<Rightarrow> pj_time_val \<Rightarrow> timer_heap \<Rightarrow> stun_tsx \<Rightarrow> bool \<Rightarrow> bool \<Rightarrow>
   (timer_heap \<times> stun_tsx \<times> pj_status) option" where
  "pj_stun_client_tsx_send_msg send now h t retransmit has_pkt =
     (if \<not> has_pkt then Some (h, t, PJ_EINVAL)
      else if te_id (th_entry h (tx_retransmit_timer t)) \<noteq> 0 then Some (h, t, PJ_EBUSY)
      else
        (let t = t\<lparr>tx_require_retransmit := retransmit\<rparr>
         in Option.bind
              (if \<not> retransmit then
                 (let t = t\<lparr>tx_transmit_count := PJ_STUN_MAX_TRANSMIT_COUNT,
                            tx_retransmit_time := seconds_of (uwrap (tx_rto_msec t * 16))\<rparr>
                  in Option.bind (pj_timer_heap_schedule_w_grp_lock h now (tx_retransmit_timer t)
                         (tx_retransmit_time t) TIMER_ACTIVE (tx_grp t))
                       (\<lambda>(h, status). Some (if status \<noteq> PJ_SUCCESS then set_id (tx_retransmit_timer t) TIMER_INACTIVE h else h,
                          t, status)))
               else Some (h, t, PJ_SUCCESS))
              (\<lambda>(h, t, status).
                 if status \<noteq> PJ_SUCCESS then Some (h, t, status)
                 else
                   Option.bind (tsx_transmit_msg send now h t True) (\<lambda>(h, t, status).
                     if status \<noteq> PJ_SUCCESS
                     then Option.bind (pj_timer_heap_cancel_if_active h (tx_retransmit_timer t) TIMER_INACTIVE)
                            (\<lambda>(h, _). Some (h, t, status))
                     else Some (h, t, PJ_SUCCESS)))))"

text \<open>The report of the outcome, which three of the functions share.\<close>

definition tsx_completes :: "pj_status \<Rightarrow> stun_tsx \<Rightarrow> stun_tsx" where
  "tsx_completes status t =
     (if tx_complete t then t
      else (let t = t\<lparr>tx_complete := True\<rparr> in if tx_on_complete t then log_out (Out_Complete status) t else t))"

definition retransmit_timer_callback ::
  "(stun_tsx \<Rightarrow> pj_status) \<Rightarrow> pj_time_val \<Rightarrow> timer_heap \<Rightarrow> stun_tsx \<Rightarrow> (timer_heap \<times> stun_tsx) option" where
  "retransmit_timer_callback send now h t =
     (if tx_transmit_count t \<ge> PJ_STUN_MAX_TRANSMIT_COUNT
      then Some (set_id (tx_retransmit_timer t) 0 h, tsx_completes PJNATH_ESTUNTIMEDOUT t)
      else
        Option.bind (tsx_transmit_msg send now (set_id (tx_retransmit_timer t) 0 h) t True)
          (\<lambda>(h, t, status).
             Some (if status \<noteq> PJ_SUCCESS then (set_id (tx_retransmit_timer t) 0 h, tsx_completes status t)
                   else (h, t))))"

definition pj_stun_client_tsx_retransmit ::
  "(stun_tsx \<Rightarrow> pj_status) \<Rightarrow> pj_time_val \<Rightarrow> timer_heap \<Rightarrow> stun_tsx \<Rightarrow> bool \<Rightarrow> (timer_heap \<times> stun_tsx \<times> pj_status) option" where
  "pj_stun_client_tsx_retransmit send now h t mod_count =
     (if te_id (th_entry h (tx_destroy_timer t)) \<noteq> 0 then Some (h, t, PJ_SUCCESS)
      else
        Option.bind (if mod_count then map_option fst (pj_timer_heap_cancel_if_active h (tx_retransmit_timer t) TIMER_INACTIVE)
                     else Some h)
          (\<lambda>h. tsx_transmit_msg send now h t mod_count))"

definition destroy_timer_callback :: "timer_heap \<Rightarrow> stun_tsx \<Rightarrow> timer_heap \<times> stun_tsx" where
  "destroy_timer_callback h t = (set_id (tx_destroy_timer t) 0 h, log_out Out_Destroy t)"

text \<open>The message type, and the code of the error attribute if there is one.\<close>

definition PJ_STUN_IS_SUCCESS_RESPONSE :: "u16 \<Rightarrow> bool" where
  "PJ_STUN_IS_SUCCESS_RESPONSE msg_type \<longleftrightarrow> msg_type AND 0x0110 = 0x0100"

definition PJ_STUN_IS_ERROR_RESPONSE :: "u16 \<Rightarrow> bool" where
  "PJ_STUN_IS_ERROR_RESPONSE msg_type \<longleftrightarrow> msg_type AND 0x0110 = 0x0110"

definition pj_stun_client_tsx_on_rx_msg ::
  "timer_heap \<Rightarrow> stun_tsx \<Rightarrow> u16 \<Rightarrow> nat option \<Rightarrow> (timer_heap \<times> stun_tsx \<times> pj_status) option" where
  "pj_stun_client_tsx_on_rx_msg h t msg_type err =
     (if \<not> PJ_STUN_IS_SUCCESS_RESPONSE msg_type \<and> \<not> PJ_STUN_IS_ERROR_RESPONSE msg_type
      then Some (h, t, PJNATH_EINSTUNMSGTYPE)
      else
        Option.bind (pj_timer_heap_cancel_if_active h (tx_retransmit_timer t) TIMER_INACTIVE) (\<lambda>(h, _).
          case err of
            Some code \<Rightarrow>
              if code \<le> 200 then Some (h, t, PJ_SUCCESS)
              else Some (h, tsx_completes (PJ_STATUS_FROM_STUN_CODE code) t, PJ_SUCCESS)
          | None \<Rightarrow> Some (h, tsx_completes PJ_SUCCESS t, PJ_SUCCESS)))"

text \<open>What a poll of the heap calls for an entry that has expired.\<close>

definition stun_tsx_cb ::
  "(stun_tsx \<Rightarrow> pj_status) \<Rightarrow> pj_time_val \<Rightarrow> nat \<Rightarrow> timer_heap \<Rightarrow> stun_tsx \<Rightarrow> (timer_heap \<times> stun_tsx) option" where
  "stun_tsx_cb send now e h t =
     (if e = tx_retransmit_timer t then retransmit_timer_callback send now h t
      else if e = tx_destroy_timer t then Some (destroy_timer_callback h t)
      else Some (h, t))"

section \<open>The operations keep the heap, and the outcome is reported once\<close>

lemma set_id_simps [simp]:
  "th_inv H (set_id e v h) = th_inv H h" "th_nodes (set_id e v h) = th_nodes h"
  "th_cur (set_id e v h) = th_cur h" "th_max (set_id e v h) = th_max h" "th_per_poll (set_id e v h) = th_per_poll h"
  "th_val (set_id e v h) y = th_val h y" "te_cb (th_entry (set_id e v h) y) = te_cb (th_entry h y)"
  "te_id (th_entry (set_id e v h) y) = (if y = e then v else te_id (th_entry h y))"
  "te_grp (th_entry (set_id e v h) y) = te_grp (th_entry h y)" "th_tid (set_id e v h) y = th_tid h y"
  unfolding set_id_def by (simp_all add: th_inv_set_entry) (simp_all add: set_entry_def)

text \<open>\<open>th_room H h\<close>: a timer can be scheduled although the ids \<open>H\<close> are held.\<close>

definition th_room :: "nat set \<Rightarrow> timer_heap \<Rightarrow> bool" where
  "th_room H h \<longleftrightarrow> th_cur h + card H + 1 < th_max h"

lemma th_room_empty: "th_inv {} h \<Longrightarrow> th_room {} h"
  using th_invD(3) [of "{}" h] by (simp add: th_room_def)

lemma th_room_set_id [simp]: "th_room H (set_id e v h) = th_room H h"
  by (simp add: th_room_def)

lemma cancel_keeps:
  assumes "th_inv H h"
  shows "\<exists>h' n. pj_timer_heap_cancel_if_active h e v = Some (h', n) \<and> th_inv H h' \<and> th_per_poll h' = th_per_poll h \<and>
    (th_room H h \<longrightarrow> th_room H h') \<and> e \<notin> set (th_nodes h')"
proof -
  obtain h' where h': "cancel_timer h e True v = Some (h', if e \<in> set (th_nodes h) then 1 else 0)" "th_inv H h'"
    "mset (th_nodes h') = mset (th_nodes h) - {# e #}" "th_cur h' \<le> th_cur h" "th_max h' = th_max h"
    "th_per_poll h' = th_per_poll h"
    using cancel_timer_result [OF assms, of e True v] by blast
  have "e \<notin> set (th_nodes h')"
    using h'(3) th_invD(4) [OF assms] by (metis mset_eq_setD mset_remove1 set_remove1_eq DiffE singletonI)
  then show ?thesis using h' by (auto simp: pj_timer_heap_cancel_if_active_def th_room_def)
qed

lemma schedule_keeps:
  assumes "th_inv H h" "th_room H h"
  shows "\<exists>h' st. pj_timer_heap_schedule_w_grp_lock h now e delay v grp = Some (h', st) \<and> th_inv H h' \<and>
    th_per_poll h' = th_per_poll h"
  using schedule_total [OF assms(1) assms(2) [unfolded th_room_def], of now e delay True v grp]
  unfolding pj_timer_heap_schedule_w_grp_lock_def by blast

definition completions :: "stun_tsx \<Rightarrow> tsx_out list" where
  "completions t = filter (\<lambda>x. \<exists>st. x = Out_Complete st) (tx_log t)"

definition tsx_ok :: "stun_tsx \<Rightarrow> bool" where
  "tsx_ok t \<longleftrightarrow> length (completions t) \<le> 1 \<and> (completions t \<noteq> [] \<longrightarrow> tx_complete t)"

text \<open>What sending a message keeps of a transaction.\<close>

definition tsx_same :: "stun_tsx \<Rightarrow> stun_tsx \<Rightarrow> bool" where
  "tsx_same t t' \<longleftrightarrow> completions t' = completions t \<and> tx_complete t' = tx_complete t \<and>
     tx_retransmit_timer t' = tx_retransmit_timer t \<and> tx_destroy_timer t' = tx_destroy_timer t"

lemma completions_simps [simp]:
  "completions (log_out Out_Send t) = completions t" "completions (log_out Out_Destroy t) = completions t"
  "completions (log_out (Out_Complete st) t) = completions t @ [Out_Complete st]"
  "completions (t\<lparr>tx_transmit_count := n\<rparr>) = completions t" "completions (t\<lparr>tx_retransmit_time := d\<rparr>) = completions t"
  "completions (t\<lparr>tx_require_retransmit := b\<rparr>) = completions t" "completions (t\<lparr>tx_complete := b\<rparr>) = completions t"
  "completions (t\<lparr>tx_on_complete := b\<rparr>) = completions t"
  by (simp_all add: completions_def log_out_def)

lemma log_out_fields [simp]:
  "tx_complete (log_out x t) = tx_complete t" "tx_retransmit_timer (log_out x t) = tx_retransmit_timer t"
  "tx_destroy_timer (log_out x t) = tx_destroy_timer t" "tx_on_complete (log_out x t) = tx_on_complete t"
  "tx_transmit_count (log_out x t) = tx_transmit_count t" "tx_require_retransmit (log_out x t) = tx_require_retransmit t"
  "tx_retransmit_time (log_out x t) = tx_retransmit_time t" "tx_log (log_out x t) = tx_log t @ [x]"
  "tx_grp (log_out x t) = tx_grp t" "tx_rto_msec (log_out x t) = tx_rto_msec t"
  by (simp_all add: log_out_def)

lemma tsx_same_ok: "tsx_same t t' \<Longrightarrow> tsx_ok t \<Longrightarrow> tsx_ok t'"
  by (simp add: tsx_same_def tsx_ok_def)

lemma tsx_completes_ok: "tsx_ok t \<Longrightarrow> tsx_ok (tsx_completes st t)"
  by (auto simp: tsx_ok_def tsx_completes_def Let_def)

lemma tsx_transmit_keeps:
  assumes I: "th_inv H h" "th_room H h"
  shows "\<exists>h' t' st. tsx_transmit_msg send now h t mod_count = Some (h', t', st) \<and> th_inv H h' \<and>
    th_per_poll h' = th_per_poll h \<and> tsx_same t t'"
proof (cases "te_id (th_entry h (tx_retransmit_timer t)) \<noteq> TIMER_INACTIVE \<and> tx_require_retransmit t \<and> mod_count")
  case True
  then show ?thesis using I(1) by (simp add: tsx_transmit_msg_def tsx_same_def)
next
  case False
  define sched where "sched = (if tx_require_retransmit t \<and> mod_count then
       (let t = t\<lparr>tx_retransmit_time := next_retransmit_time t\<rparr>
        in Option.bind (pj_timer_heap_schedule_w_grp_lock h now (tx_retransmit_timer t)
               (tx_retransmit_time t) TIMER_ACTIVE (tx_grp t))
             (\<lambda>(h, status). Some (if status \<noteq> PJ_SUCCESS then set_id (tx_retransmit_timer t) TIMER_INACTIVE h else h,
                t, status)))
     else Some (h, t, PJ_SUCCESS))"
  have "\<exists>h1 t1 st1. sched = Some (h1, t1, st1) \<and> th_inv H h1 \<and> th_per_poll h1 = th_per_poll h \<and> tsx_same t t1"
  proof (cases "tx_require_retransmit t \<and> mod_count")
    case True
    obtain h1 st where "pj_timer_heap_schedule_w_grp_lock h now (tx_retransmit_timer t) (next_retransmit_time t)
        TIMER_ACTIVE (tx_grp t) = Some (h1, st)" "th_inv H h1" "th_per_poll h1 = th_per_poll h"
      using schedule_keeps [OF I] by blast
    then show ?thesis using True by (simp add: sched_def Let_def tsx_same_def)
  next
    case False
    then show ?thesis using I(1) by (auto simp: sched_def tsx_same_def)
  qed
  then obtain h1 t1 st1 where s: "sched = Some (h1, t1, st1)" "th_inv H h1" "th_per_poll h1 = th_per_poll h" "tsx_same t t1"
    by blast
  define t2 where "t2 = (if mod_count then t1\<lparr>tx_transmit_count := tx_transmit_count t1 + 1\<rparr> else t1)"
  have same: "tsx_same t (log_out Out_Send t2)" using s(4) by (simp add: t2_def tsx_same_def)
  have eq: "tsx_transmit_msg send now h t mod_count =
      (if st1 \<noteq> PJ_SUCCESS then Some (h1, t1, st1)
       else if send t2 \<noteq> PJ_SUCCESS \<and> send t2 \<noteq> PJNATH_ESTUNDESTROYED \<and> (mod_count \<or> send t2 = PJ_EINVALIDOP)
       then Option.bind (pj_timer_heap_cancel_if_active h1 (tx_retransmit_timer (log_out Out_Send t2)) TIMER_INACTIVE)
              (\<lambda>(h, _). Some (h, log_out Out_Send t2, send t2))
       else Some (h1, log_out Out_Send t2, send t2))"
    unfolding tsx_transmit_msg_def if_not_P [OF False] sched_def [symmetric] s(1)
    by (simp add: t2_def Let_def)
  obtain h2 n where "pj_timer_heap_cancel_if_active h1 (tx_retransmit_timer (log_out Out_Send t2)) TIMER_INACTIVE = Some (h2, n)"
    "th_inv H h2" "th_per_poll h2 = th_per_poll h"
    using cancel_keeps [OF s(2)] s(3) by metis
  then show ?thesis unfolding eq using s(2-4) same by auto
qed

lemma retransmit_callback_keeps:
  assumes "th_inv H h" "th_room H h" "tsx_ok t"
  shows "\<exists>h' t'. retransmit_timer_callback send now h t = Some (h', t') \<and> tsx_ok t' \<and> th_inv H h' \<and>
    th_per_poll h' = th_per_poll h"
proof -
  let ?h = "set_id (tx_retransmit_timer t) 0 h"
  obtain h' t' st where "tsx_transmit_msg send now ?h t True = Some (h', t', st)" "th_inv H h'"
    "th_per_poll h' = th_per_poll h" "tsx_same t t'"
    using tsx_transmit_keeps [of H ?h send now t True] assms(1,2) by auto
  then show ?thesis
    using assms tsx_same_ok [of t t'] tsx_completes_ok by (auto simp: retransmit_timer_callback_def)
qed

interpretation stun: timer_callback "stun_tsx_cb send now" tsx_ok for send now
proof
  fix x h e t assume h: "th_inv {x} h" "th_cur h + 3 \<le> th_max h" "tsx_ok t"
  have "th_room {x} h" using h(2) by (simp add: th_room_def)
  then show "\<exists>h' t'. stun_tsx_cb send now e h t = Some (h', t') \<and> tsx_ok t' \<and> th_inv {x} h' \<and>
      th_per_poll h' \<le> th_per_poll h"
    using retransmit_callback_keeps [OF h(1) _ h(3), of send now] h
    by (fastforce simp: stun_tsx_cb_def destroy_timer_callback_def tsx_ok_def)
qed

section \<open>Runs\<close>

datatype stun_call =
    SC_Send pj_time_val bool bool
  | SC_Retransmit pj_time_val bool
  | SC_Receive u16 "nat option"
  | SC_Schedule_Destroy pj_time_val pj_time_val
  | SC_Stop
  | SC_Poll pj_time_val

fun stun_step ::
  "(stun_tsx \<Rightarrow> pj_status) \<Rightarrow> (timer_heap \<times> stun_tsx) option \<Rightarrow> stun_call \<Rightarrow> (timer_heap \<times> stun_tsx) option" where
  "stun_step send None c = None"
| "stun_step send (Some (h, t)) (SC_Send now retransmit has_pkt) =
     map_option (\<lambda>(h, t, st). (h, t)) (pj_stun_client_tsx_send_msg send now h t retransmit has_pkt)"
| "stun_step send (Some (h, t)) (SC_Retransmit now mod_count) =
     map_option (\<lambda>(h, t, st). (h, t)) (pj_stun_client_tsx_retransmit send now h t mod_count)"
| "stun_step send (Some (h, t)) (SC_Receive msg_type err) =
     map_option (\<lambda>(h, t, st). (h, t)) (pj_stun_client_tsx_on_rx_msg h t msg_type err)"
| "stun_step send (Some (h, t)) (SC_Schedule_Destroy now delay) =
     map_option (\<lambda>(h, t, st). (h, t)) (pj_stun_client_tsx_schedule_destroy now h t delay)"
| "stun_step send (Some (h, t)) SC_Stop = map_option (\<lambda>(h, st). (h, t)) (pj_stun_client_tsx_stop h t)"
| "stun_step send (Some (h, t)) (SC_Poll now) =
     map_option (\<lambda>(h, t, fired, d). (h, t)) (pj_timer_heap_poll (stun_tsx_cb send now) now h t True)"

definition stun_ok :: "(timer_heap \<times> stun_tsx) option \<Rightarrow> bool" where
  "stun_ok s \<longleftrightarrow> (\<exists>h t. s = Some (h, t) \<and> th_inv {} h \<and> tsx_ok t)"

lemma stun_okI [intro]: "s = Some (h, t) \<Longrightarrow> th_inv {} h \<Longrightarrow> tsx_ok t \<Longrightarrow> stun_ok s"
  by (auto simp: stun_ok_def)

lemma stun_step_ok:
  assumes h: "th_inv {} h" "tsx_ok t"
  shows "stun_ok (stun_step send (Some (h, t)) c)"
proof (cases c)
  case (SC_Send now retransmit has_pkt)
  show ?thesis
  proof (cases "has_pkt \<and> te_id (th_entry h (tx_retransmit_timer t)) = 0")
    case True
    define t1 where "t1 = (if retransmit then t\<lparr>tx_require_retransmit := retransmit\<rparr> else
        t\<lparr>tx_require_retransmit := retransmit, tx_transmit_count := PJ_STUN_MAX_TRANSMIT_COUNT,
          tx_retransmit_time := seconds_of (uwrap (tx_rto_msec t * 16))\<rparr>)"
    have ok: "tsx_ok t1" using h(2) by (simp add: t1_def tsx_ok_def)
    obtain hs sts where hs: "pj_timer_heap_schedule_w_grp_lock h now (tx_retransmit_timer t)
        (seconds_of (uwrap (tx_rto_msec t * 16))) TIMER_ACTIVE (tx_grp t) = Some (hs, sts)" "th_inv {} hs"
      using schedule_keeps [OF h(1) th_room_empty [OF h(1)]] by blast
    define h1 where "h1 = (if retransmit then h else if sts \<noteq> PJ_SUCCESS then set_id (tx_retransmit_timer t) TIMER_INACTIVE hs else hs)"
    have h1: "th_inv {} h1" using h(1) hs(2) by (simp add: h1_def)
    obtain h2 t2 st2 where h2: "tsx_transmit_msg send now h1 t1 True = Some (h2, t2, st2)" "th_inv {} h2" "tsx_same t1 t2"
      using tsx_transmit_keeps [OF h1 th_room_empty [OF h1]] by blast
    obtain h3 n where h3: "pj_timer_heap_cancel_if_active h2 (tx_retransmit_timer t2) TIMER_INACTIVE = Some (h3, n)" "th_inv {} h3"
      using cancel_keeps [OF h2(2)] by metis
    have "pj_stun_client_tsx_send_msg send now h t retransmit has_pkt =
      (if \<not> retransmit \<and> sts \<noteq> PJ_SUCCESS then Some (h1, t1, sts)
       else if st2 \<noteq> PJ_SUCCESS then Some (h3, t2, st2) else Some (h2, t2, PJ_SUCCESS))"
      using True hs(1) h2(1) h3(1)
      by (auto simp: pj_stun_client_tsx_send_msg_def Let_def h1_def t1_def)
    then show ?thesis
      using SC_Send h1 h2(2) h3(2) ok tsx_same_ok [OF h2(3) ok] by (auto split: if_splits)
  next
    case False
    then show ?thesis using SC_Send h by (auto simp: pj_stun_client_tsx_send_msg_def)
  qed
next
  case (SC_Retransmit now mod_count)
  obtain hc n where hc: "pj_timer_heap_cancel_if_active h (tx_retransmit_timer t) TIMER_INACTIVE = Some (hc, n)" "th_inv {} hc"
    using cancel_keeps [OF h(1)] by metis
  define h1 where "h1 = (if mod_count then hc else h)"
  have h1: "th_inv {} h1" using h(1) hc(2) by (simp add: h1_def)
  obtain h2 t2 st2 where "tsx_transmit_msg send now h1 t mod_count = Some (h2, t2, st2)" "th_inv {} h2" "tsx_same t t2"
    using tsx_transmit_keeps [OF h1 th_room_empty [OF h1]] by blast
  then show ?thesis
    using SC_Retransmit h hc(1) tsx_same_ok [of t t2]
    by (cases mod_count) (auto simp: pj_stun_client_tsx_retransmit_def h1_def)
next
  case (SC_Receive msg_type err)
  obtain hc n where "pj_timer_heap_cancel_if_active h (tx_retransmit_timer t) TIMER_INACTIVE = Some (hc, n)" "th_inv {} hc"
    using cancel_keeps [OF h(1)] by metis
  then show ?thesis
    using SC_Receive h tsx_completes_ok [OF h(2)]
    by (auto simp: pj_stun_client_tsx_on_rx_msg_def split: option.split)
next
  case (SC_Schedule_Destroy now delay)
  obtain h1 n1 where h1: "pj_timer_heap_cancel_if_active h (tx_destroy_timer t) TIMER_INACTIVE = Some (h1, n1)" "th_inv {} h1"
    using cancel_keeps [OF h(1)] by metis
  obtain h2 n2 where h2: "pj_timer_heap_cancel_if_active h1 (tx_retransmit_timer t) TIMER_INACTIVE = Some (h2, n2)" "th_inv {} h2"
    using cancel_keeps [OF h1(2)] by metis
  obtain h3 st where "pj_timer_heap_schedule_w_grp_lock h2 now (tx_destroy_timer t) delay TIMER_ACTIVE (tx_grp t) = Some (h3, st)"
    "th_inv {} h3"
    using schedule_keeps [OF h2(2) th_room_empty [OF h2(2)]] by blast
  then show ?thesis
    using SC_Schedule_Destroy h h1 h2
    by (auto simp: pj_stun_client_tsx_schedule_destroy_def tsx_ok_def)
next
  case SC_Stop
  obtain h1 n1 where h1: "pj_timer_heap_cancel_if_active h (tx_retransmit_timer t) TIMER_INACTIVE = Some (h1, n1)" "th_inv {} h1"
    using cancel_keeps [OF h(1)] by metis
  obtain h2 n2 where h2: "pj_timer_heap_cancel_if_active h1 (tx_destroy_timer t) TIMER_INACTIVE = Some (h2, n2)" "th_inv {} h2"
    using cancel_keeps [OF h1(2)] by metis
  then show ?thesis using SC_Stop h(2) h1(1) by (auto simp: pj_stun_client_tsx_stop_def)
next
  case (SC_Poll now)
  obtain h' t' fired where "poll_loop (stun_tsx_cb send now) now h t [] = Some (h', t', fired)" "tsx_ok t'" "th_inv {} h'"
    using stun.poll_loop_result [OF h, of send now now "[]"] by auto
  then show ?thesis using SC_Poll h by (auto simp: pj_timer_heap_poll_def)
qed

interpretation stun_machine: event_machine "stun_step send" stun_ok "\<lambda>_. True" for send
  using stun_step_ok by unfold_locales (auto simp: stun_ok_def)

section \<open>Retransmission\<close>

text \<open>
  A transaction that waits: its retransmit timer is the one entry of the heap, due at \<open>due\<close>, after
  \<open>k\<close> transmissions, the last with the delay \<open>delay\<close>.
\<close>

definition tsx_waits :: "timer_heap \<Rightarrow> stun_tsx \<Rightarrow> nat \<Rightarrow> pj_time_val \<Rightarrow> bool" where
  "tsx_waits h t k due \<longleftrightarrow> th_inv {} h \<and> th_nodes h = [tx_retransmit_timer t] \<and> 2 \<le> th_per_poll h \<and>
     te_cb (th_entry h (tx_retransmit_timer t)) \<and> th_val h (tx_retransmit_timer t) = due \<and>
     tx_require_retransmit t \<and> \<not> tx_complete t \<and> tx_on_complete t \<and> tx_transmit_count t = k"

text \<open>The delay in milliseconds after the \<open>k\<close>-th transmission.\<close>

definition stun_delay :: "nat \<Rightarrow> nat \<Rightarrow> nat" where
  "stun_delay rto k = (if k < PJ_STUN_MAX_TRANSMIT_COUNT then rto * 2 ^ (k - 1) else PJ_STUN_TIMEOUT_VALUE)"

lemma seconds_of_msec: "PJ_TIME_VAL_MSEC (seconds_of n) = int n"
proof -
  have "int (n div 1000) * 1000 + int (n mod 1000) = int n" by (metis div_mult_mod_eq of_nat_add of_nat_mult of_nat_numeral)
  then show ?thesis by (simp add: PJ_TIME_VAL_MSEC_def seconds_of_def)
qed

lemma next_retransmit_time_msec:
  assumes "0 < rto" "rto * 2 ^ 5 < 2 ^ 32" "k < PJ_STUN_MAX_TRANSMIT_COUNT"
    and "tx_transmit_count t = k" "tx_rto_msec t = rto"
    and "k \<noteq> 0 \<Longrightarrow> PJ_TIME_VAL_MSEC (tx_retransmit_time t) = int (stun_delay rto k)"
  shows "PJ_TIME_VAL_MSEC (next_retransmit_time t) = int (stun_delay rto (k + 1))"
proof -
  consider "k = 0" | "0 < k" "k < 6" | "k = 6"
    using assms(3) unfolding PJ_STUN_MAX_TRANSMIT_COUNT_def by linarith
  then show ?thesis
  proof cases
    case 1
    then show ?thesis
      using assms(4,5) by (simp add: next_retransmit_time_def stun_delay_def PJ_STUN_MAX_TRANSMIT_COUNT_def PJ_TIME_VAL_MSEC_def)
  next
    case 2
    have d: "stun_delay rto k = rto * 2 ^ (k - 1)" "stun_delay rto (k + 1) = rto * 2 ^ k"
      using 2 by (simp_all add: stun_delay_def PJ_STUN_MAX_TRANSMIT_COUNT_def)
    have "(2::nat) ^ k \<le> 2 ^ 5" using 2(2) by (intro power_increasing) auto
    then have "rto * 2 ^ k \<le> rto * 2 ^ 5" by (rule mult_le_mono2)
    then have small: "rto * 2 ^ k < 2 ^ 32" using assms(2) by linarith
    have two: "2 * (rto * 2 ^ (k - 1)) = rto * 2 ^ k" using 2(1) by (cases k) simp_all
    then have "rto * 2 ^ (k - 1) < 2 ^ 32" using small by linarith
    moreover have "PJ_TIME_VAL_MSEC (tx_retransmit_time t) = int (rto * 2 ^ (k - 1))" using assms(6) [unfolded d(1)] gr_implies_not0 [OF 2(1)] by blast
    ultimately have "to_u32 (PJ_TIME_VAL_MSEC (tx_retransmit_time t)) = rto * 2 ^ (k - 1)"
      using to_u32_of_nat by metis
    moreover have "uwrap (2 * (rto * 2 ^ (k - 1))) = rto * 2 ^ k" unfolding two using small by simp
    ultimately have "next_retransmit_time t = seconds_of (rto * 2 ^ k)"
      using 2 assms(4) by (simp add: next_retransmit_time_def PJ_STUN_MAX_TRANSMIT_COUNT_def)
    then show ?thesis unfolding d(2) by (simp add: seconds_of_msec)
  next
    case 3
    then show ?thesis
      using assms(4) by (simp add: next_retransmit_time_def stun_delay_def PJ_STUN_MAX_TRANSMIT_COUNT_def seconds_of_msec)
  qed
qed

text \<open>Sending, when the retransmit timer can be started and sending succeeds.\<close>

lemma tsx_transmit_starts:
  assumes I: "th_inv H h" "th_room H h" and r: "r = tx_retransmit_timer t"
    and idle: "r \<notin> set (th_nodes h)" "te_cb (th_entry h r)" "te_id (th_entry h r) = 0"
    and req: "tx_require_retransmit t" and send: "\<And>t. send t = PJ_SUCCESS"
  shows "\<exists>h'. tsx_transmit_msg send now h t True =
      Some (h', log_out Out_Send (t\<lparr>tx_retransmit_time := next_retransmit_time t, tx_transmit_count := tx_transmit_count t + 1\<rparr>), PJ_SUCCESS) \<and>
    th_inv H h' \<and> mset (th_nodes h') = add_mset r (mset (th_nodes h)) \<and> te_cb (th_entry h' r) \<and>
    te_id (th_entry h' r) = TIMER_ACTIVE \<and>
    th_val h' r = PJ_TIME_VAL_ADD now (next_retransmit_time t) \<and> th_per_poll h' = th_per_poll h"
proof -
  have "te_cb (th_entry h r) \<and> r \<notin> set (th_nodes h)" using idle by blast
  then obtain h' x where s: "pj_timer_heap_schedule_w_grp_lock h now r (next_retransmit_time t) TIMER_ACTIVE (tx_grp t) = Some (h', PJ_SUCCESS)"
    "th_inv H h'" "mset (th_nodes h') = add_mset r (mset (th_nodes h))" "th_per_poll h' = th_per_poll h"
    "th_entry h' = (th_entry h)(r := (th_entry h r)\<lparr>te_timer_id := int x,
        te_value := PJ_TIME_VAL_ADD now (next_retransmit_time t), te_id := TIMER_ACTIVE, te_grp := tx_grp t\<rparr>)"
    using schedule_w_grp_lock_result [OF I(1) I(2) [unfolded th_room_def], of r now "next_retransmit_time t" True TIMER_ACTIVE "tx_grp t"]
    unfolding pj_timer_heap_schedule_w_grp_lock_def by auto
  then show ?thesis
    using idle req send r by (auto simp: tsx_transmit_msg_def TIMER_INACTIVE_def Let_def)
qed

text \<open>A poll before the timer is due does nothing; one after it sends again, or ends the transaction.\<close>

lemma th_nodes_one:
  assumes "th_inv H h" "th_nodes h = [r]"
  shows "th_cur h = 1" "th_slots h ! 0 = r"
  using th_invD(5) [OF assms(1)] th_invD(6) [OF assms(1), of 0] assms(2) by simp_all

lemma poll_early:
  assumes "th_inv {} h" "th_nodes h = [r]" "now < th_val h r"
  shows "poll_loop cb now h t fired = Some (h, t, fired)"
  proof -
  have "\<not> th_val h (th_slots h ! 0) \<le> now" using th_nodes_one(2) [OF assms(1,2)] assms(3) by (simp add: not_le)
  then show ?thesis by (subst poll_loop.simps) simp
qed

lemma poll_due:
  assumes W: "tsx_waits h t k due" and due: "due \<le> now"
  obtains x h1 where "th_inv {x} h1" "th_room {x} h1" "th_nodes h1 = []" "th_per_poll h1 = th_per_poll h"
    "te_cb (th_entry h1 (tx_retransmit_timer t))"
    "poll_loop (stun_tsx_cb send now) now h t [] =
      Option.bind (retransmit_timer_callback send now h1 t)
        (\<lambda>(h', t'). poll_loop (stun_tsx_cb send now) now
          (push_freelist (grp_lock_add_ref (te_grp (th_entry h (tx_retransmit_timer t))) (- 1) h') (int x))
          t' [tx_retransmit_timer t])"
proof -
  let ?r = "tx_retransmit_timer t"
  have I: "th_inv {} h" and n: "th_nodes h = [?r]" using W by (auto simp: tsx_waits_def)
  note O = th_nodes_one [OF I n]
  have "0 < th_cur h" using O(1) by simp
  from poll_round [OF I this, of "stun_tsx_cb send now" now t "[]"]
  obtain x h1 node where P: "poll_loop (stun_tsx_cb send now) now h t [] =
      (if th_val h node \<le> now \<and> length ([] :: nat list) < th_per_poll h
       then Option.bind (if te_cb (th_entry h node) then stun_tsx_cb send now node h1 t else Some (h1, t))
         (\<lambda>(h', app'). poll_loop (stun_tsx_cb send now) now
            (push_freelist (grp_lock_add_ref (te_grp (th_entry h node)) (- 1) h') (int x)) app' ([] @ [node]))
       else Some (h, t, []))"
    "th_inv {x} h1" "mset (th_nodes h) = add_mset node (mset (th_nodes h1))" "th_cur h1 + 3 \<le> th_max h1"
    "th_per_poll h1 = th_per_poll h" "node = th_slots h ! 0" "\<forall>y. te_cb (th_entry h1 y) = te_cb (th_entry h y)"
    by blast
  have "node = ?r" using P(6) O(2) by simp
  then have "th_nodes h1 = []" using P(3) n by simp
  moreover have "th_room {x} h1" using P(4) by (simp add: th_room_def)
  ultimately show ?thesis
    using that [OF P(2)] P(1,5,7) \<open>node = ?r\<close> W due by (simp add: tsx_waits_def stun_tsx_cb_def)
qed


lemma due_later:
  assumes "tv_normal now" "0 < PJ_TIME_VAL_MSEC d"
  shows "now < PJ_TIME_VAL_ADD now d"
  using tv_normal_le_iff [OF add_sub_normal(1) assms(1), of now d] assms(2) by (auto simp: add_sub_total not_le [symmetric])

lemma stun_delay_pos: "0 < rto \<Longrightarrow> 0 < stun_delay rto k"
  by (simp add: stun_delay_def PJ_STUN_TIMEOUT_VALUE_def PJ_STUN_RTO_VALUE_def)

lemma push_freelist_fields [simp]:
  "th_nodes (push_freelist (grp_lock_add_ref g d h) x) = th_nodes h"
  "th_per_poll (push_freelist (grp_lock_add_ref g d h) x) = th_per_poll h"
  "th_entry (push_freelist (grp_lock_add_ref g d h) x) = th_entry h"
  "th_cur (push_freelist (grp_lock_add_ref g d h) x) = th_cur h"
  by (simp_all add: push_freelist_def grp_lock_add_ref_def th_nodes_def split: option.split)

lemma poll_of_loop:
  assumes "th_inv {} h" "th_nodes h \<noteq> []" "poll_loop cb now h t [] = Some (h', t', fired)"
  shows "\<exists>d. pj_timer_heap_poll cb now h t w = Some (h', t', fired, d)"
  using assms th_invD(5) [OF assms(1)] by (auto simp: pj_timer_heap_poll_def)

text \<open>The timer expires before the last transmission: one more transmission, and the timer runs again.\<close>

lemma stun_poll_sends:
  assumes W: "tsx_waits h t k due" and due: "due \<le> now" "tv_normal now"
    and k: "0 < k" "k < PJ_STUN_MAX_TRANSMIT_COUNT"
    and rto: "0 < rto" "rto * 2 ^ 5 < 2 ^ 32" "tx_rto_msec t = rto"
      "PJ_TIME_VAL_MSEC (tx_retransmit_time t) = int (stun_delay rto k)"
    and send: "\<And>t. send t = PJ_SUCCESS"
  shows "\<exists>h' t' d. pj_timer_heap_poll (stun_tsx_cb send now) now h t w = Some (h', t', [tx_retransmit_timer t], d) \<and>
    tsx_waits h' t' (k + 1) (PJ_TIME_VAL_ADD now (tx_retransmit_time t')) \<and> tx_rto_msec t' = rto \<and>
    PJ_TIME_VAL_MSEC (tx_retransmit_time t') = int (stun_delay rto (k + 1)) \<and> tx_log t' = tx_log t @ [Out_Send]"
proof -
  let ?r = "tx_retransmit_timer t"
  have w: "th_inv {} h" "th_nodes h = [?r]" "2 \<le> th_per_poll h" "tx_require_retransmit t" "\<not> tx_complete t"
    "tx_on_complete t" "tx_transmit_count t = k"
    using W by (auto simp: tsx_waits_def)
  obtain x h1 where P: "th_inv {x} h1" "th_room {x} h1" "th_nodes h1 = []" "th_per_poll h1 = th_per_poll h"
    "te_cb (th_entry h1 ?r)"
    "poll_loop (stun_tsx_cb send now) now h t [] =
      Option.bind (retransmit_timer_callback send now h1 t)
        (\<lambda>(h', t'). poll_loop (stun_tsx_cb send now) now
          (push_freelist (grp_lock_add_ref (te_grp (th_entry h ?r)) (- 1) h') (int x)) t' [?r])"
    using poll_due [OF W due(1)] by blast
  define t' where "t' = log_out Out_Send (t\<lparr>tx_retransmit_time := next_retransmit_time t, tx_transmit_count := tx_transmit_count t + 1\<rparr>)"
  let ?due = "PJ_TIME_VAL_ADD now (next_retransmit_time t)"
  obtain h2 where T: "tsx_transmit_msg send now (set_id ?r 0 h1) t True = Some (h2, t', PJ_SUCCESS)"
    "th_inv {x} h2" "mset (th_nodes h2) = {# ?r #}" "te_cb (th_entry h2 ?r)" "th_val h2 ?r = ?due"
    "th_per_poll h2 = th_per_poll h"
    using tsx_transmit_starts [of "{x}" "set_id ?r 0 h1" ?r t send now] P(1-5) w(4) send
    by (auto simp: t'_def)
  define h3 where "h3 = push_freelist (grp_lock_add_ref (te_grp (th_entry h ?r)) (- 1) h2) (int x)"
  have nodes: "th_nodes h3 = [?r]" unfolding h3_def using T(3) by simp
  have inv: "th_inv {} h3" unfolding h3_def by (rule th_inv_release) (use T(2) in simp)
  have d: "PJ_TIME_VAL_MSEC (next_retransmit_time t) = int (stun_delay rto (k + 1))"
    using next_retransmit_time_msec [OF rto(1,2) k(2) w(7) rto(3)] rto(4) by blast
  have "now < ?due" using due_later [OF due(2)] d stun_delay_pos [OF rto(1), of "k + 1"] by simp
  then have early: "poll_loop (stun_tsx_cb send now) now h3 t' [?r] = Some (h3, t', [?r])"
    using poll_early [OF inv nodes] T(5) by (simp add: h3_def)
  have "poll_loop (stun_tsx_cb send now) now h t [] = Some (h3, t', [?r])"
    using P(6) T(1) early k(2) w(7) by (simp add: retransmit_timer_callback_def h3_def)
  moreover have "tsx_waits h3 t' (k + 1) (PJ_TIME_VAL_ADD now (tx_retransmit_time t'))"
    using inv nodes T(4-6) w by (simp add: tsx_waits_def t'_def h3_def)
  ultimately show ?thesis
    using poll_of_loop [OF w(1), of "stun_tsx_cb send now"] w(2) d rto(3) by (fastforce simp: t'_def)
qed

text \<open>The timer expires after the last transmission.\<close>

lemma stun_poll_times_out:
  assumes W: "tsx_waits h t PJ_STUN_MAX_TRANSMIT_COUNT due" and due: "due \<le> now"
  shows "\<exists>h' t' d. pj_timer_heap_poll (stun_tsx_cb send now) now h t w = Some (h', t', [tx_retransmit_timer t], d) \<and>
    th_inv {} h' \<and> th_nodes h' = [] \<and> tx_complete t' \<and> tx_log t' = tx_log t @ [Out_Complete PJNATH_ESTUNTIMEDOUT]"
proof -
  let ?r = "tx_retransmit_timer t"
  have w: "th_inv {} h" "th_nodes h = [?r]" "\<not> tx_complete t" "tx_on_complete t" "tx_transmit_count t = PJ_STUN_MAX_TRANSMIT_COUNT"
    using W by (auto simp: tsx_waits_def)
  obtain x h1 where P: "th_inv {x} h1" "th_nodes h1 = []"
    "poll_loop (stun_tsx_cb send now) now h t [] =
      Option.bind (retransmit_timer_callback send now h1 t)
        (\<lambda>(h', t'). poll_loop (stun_tsx_cb send now) now
          (push_freelist (grp_lock_add_ref (te_grp (th_entry h ?r)) (- 1) h') (int x)) t' [?r])"
    using poll_due [OF W due] by blast
  define t' where "t' = tsx_completes PJNATH_ESTUNTIMEDOUT t"
  define h3 where "h3 = push_freelist (grp_lock_add_ref (te_grp (th_entry h ?r)) (- 1) (set_id ?r 0 h1)) (int x)"
  have inv: "th_inv {} h3" unfolding h3_def by (rule th_inv_release) (use P(1) in simp)
  have nodes: "th_nodes h3 = []" unfolding h3_def using P(2) by simp
  then have "poll_loop (stun_tsx_cb send now) now h3 t' [?r] = Some (h3, t', [?r])"
    using th_invD(5) [OF inv] by (subst poll_loop.simps) simp
  then have "poll_loop (stun_tsx_cb send now) now h t [] = Some (h3, t', [?r])"
    using P(3) w(5) by (simp add: retransmit_timer_callback_def t'_def h3_def)
  then show ?thesis
    using poll_of_loop [OF w(1), of "stun_tsx_cb send now"] w inv nodes by (fastforce simp: t'_def tsx_completes_def)
qed

section \<open>Creation and whole runs\<close>

lemma heap_ordered_cong:
  assumes "\<And>y. y \<in> set vs \<Longrightarrow> f y = g y"
  shows "heap_ordered f vs = heap_ordered g vs"
proof -
  have "f (vs ! HEAP_PARENT i) = g (vs ! HEAP_PARENT i) \<and> f (vs ! i) = g (vs ! i)" if "0 < i" "i < length vs" for i
    using that assms by (simp add: HEAP_PARENT_def)
  then show ?thesis unfolding heap_ordered_def by auto
qed

lemma th_inv_fresh:
  assumes I: "th_inv H h" and e: "e \<notin> set (th_nodes h)" "te_timer_id (f (th_entry h e)) < 1"
  shows "th_inv H (set_entry h e f)"
proof -
  have n: "th_nodes (set_entry h e f) = th_nodes h" by (simp add: th_nodes_def set_entry_def)
  have tid: "th_tid (set_entry h e f) y = th_tid h y" "th_val (set_entry h e f) y = th_val h y" if "y \<in> set (th_nodes h)" for y
    using that e(1) by (auto simp: set_entry_def)
  have slot: "th_slots h ! i \<in> set (th_nodes h)" if "i < th_cur h" for i
    using that th_invD(5) [OF I] th_invD(6) [OF I] by (metis nth_mem)
  have used: "th_used (set_entry h e f) (th_nodes h) = th_used h (th_nodes h)" using tid(1) by (auto simp: th_used_def)
  have ord: "heap_ordered (th_val (set_entry h e f)) (th_nodes h)"
    using th_invD(9) [OF I] heap_ordered_cong [of "th_nodes h" "th_val (set_entry h e f)" "th_val h"] tid(2) by blast
  have free: "th_free_ok U (set_entry h e f) = th_free_ok U h" for U by (simp add: th_free_ok_def set_entry_def)
  show ?thesis
    using I e(2) tid(1) slot ord unfolding th_inv_def n used free by (auto simp: set_entry_def)
qed

lemma stun_create_result:
  assumes I: "th_inv {} h" and new: "rt \<notin> set (th_nodes h)" "dt \<notin> set (th_nodes h)"
    and c: "pj_stun_client_tsx_create rto grp True oc od rt dt h = Inr (h0, t0)"
  shows "th_inv {} h0" "th_nodes h0 = th_nodes h" "th_per_poll h0 = th_per_poll h" "te_cb (th_entry h0 rt)" "te_id (th_entry h0 rt) = 0"
    "tsx_ok t0" "tx_rto_msec t0 = rto" "tx_log t0 = []" "\<not> tx_complete t0" "tx_on_complete t0 = oc" "tx_transmit_count t0 = 0"
    "tx_retransmit_timer t0 = rt" "tx_destroy_timer t0 = dt"
proof -
  define f :: "timer_entry \<Rightarrow> timer_entry" where "f = (\<lambda>_. \<lparr>te_id = 0, te_cb = True, te_timer_id = 0, te_value = Time_Val 0 0, te_grp = None\<rparr>)"
  have e: "h0 = set_entry (set_entry h rt f) dt f" using c by (auto simp: pj_stun_client_tsx_create_def f_def Let_def)
  have n: "th_nodes (set_entry g y f) = th_nodes g" for g y by (simp add: th_nodes_def set_entry_def)
  have "th_inv {} (set_entry h rt f)" by (rule th_inv_fresh [OF I new(1)]) (simp add: f_def)
  moreover have "dt \<notin> set (th_nodes (set_entry h rt f))" by (simp add: n new)
  ultimately show "th_inv {} h0" unfolding e by (rule th_inv_fresh) (simp add: f_def)
  show "th_nodes h0 = th_nodes h" by (simp add: e n)
  show "th_per_poll h0 = th_per_poll h" "te_cb (th_entry h0 rt)" "te_id (th_entry h0 rt) = 0"
    by (simp_all add: e set_entry_def f_def)
  show "tsx_ok t0" "tx_rto_msec t0 = rto" "tx_log t0 = []" "\<not> tx_complete t0" "tx_on_complete t0 = oc" "tx_transmit_count t0 = 0"
    "tx_retransmit_timer t0 = rt" "tx_destroy_timer t0 = dt"
    using c by (auto simp: pj_stun_client_tsx_create_def Let_def tsx_ok_def completions_def)
qed

text \<open>
  The schedule of a transaction as the protocol has it: polls at the times \<open>ns\<close>, in milliseconds,
  after \<open>k\<close> transmissions, the next due at \<open>due\<close>.
\<close>

fun stun_schedule :: "nat \<Rightarrow> nat \<Rightarrow> int \<Rightarrow> int list \<Rightarrow> tsx_out list" where
  "stun_schedule rto k due [] = []"
| "stun_schedule rto k due (n # ns) =
     (if n < due then stun_schedule rto k due ns
      else if k < PJ_STUN_MAX_TRANSMIT_COUNT then Out_Send # stun_schedule rto (k + 1) (n + int (stun_delay rto (k + 1))) ns
      else [Out_Complete PJNATH_ESTUNTIMEDOUT])"

text \<open>A transaction that follows the schedule: it waits for its timer, or its heap is empty and it is complete.\<close>

definition stun_waiting :: "nat \<Rightarrow> nat \<Rightarrow> int \<Rightarrow> timer_heap \<Rightarrow> stun_tsx \<Rightarrow> bool" where
  "stun_waiting rto k due h t \<longleftrightarrow>
     (\<exists>d. tsx_waits h t k d \<and> tv_normal d \<and> PJ_TIME_VAL_MSEC d = due) \<and> 0 < k \<and> k \<le> PJ_STUN_MAX_TRANSMIT_COUNT \<and>
     tx_rto_msec t = rto \<and> PJ_TIME_VAL_MSEC (tx_retransmit_time t) = int (stun_delay rto k)"

definition stun_done :: "timer_heap \<Rightarrow> stun_tsx \<Rightarrow> bool" where
  "stun_done h t \<longleftrightarrow> th_inv {} h \<and> th_nodes h = [] \<and> tx_complete t"

abbreviation stun_polls :: "(stun_tsx \<Rightarrow> pj_status) \<Rightarrow> (timer_heap \<times> stun_tsx) option \<Rightarrow> pj_time_val list \<Rightarrow> (timer_heap \<times> stun_tsx) option" where
  "stun_polls send s ns \<equiv> foldl (stun_step send) s (map SC_Poll ns)"

lemma stun_polls_idle:
  assumes "th_inv {} h" "th_nodes h = []"
  shows "stun_polls send (Some (h, t)) ns = Some (h, t)"
proof (induction ns)
  case (Cons n ns)
  have "th_cur h = 0" using th_invD(5) [OF assms(1)] assms(2) by simp
  then show ?case using Cons by (simp add: pj_timer_heap_poll_def)
qed simp

lemma stun_poll_waits:
  assumes W: "stun_waiting rto k due h t" and n: "tv_normal n" "PJ_TIME_VAL_MSEC n < due"
  shows "stun_step send (Some (h, t)) (SC_Poll n) = Some (h, t)"
proof -
  obtain d where d: "tsx_waits h t k d" "tv_normal d" "PJ_TIME_VAL_MSEC d = due" using W by (auto simp: stun_waiting_def)
  then have w: "th_inv {} h" "th_nodes h = [tx_retransmit_timer t]" "th_val h (tx_retransmit_timer t) = d"
    by (auto simp: tsx_waits_def)
  have "n < d" using tv_normal_le_iff [OF d(2) n(1)] d(3) n(2) by (simp add: not_le [symmetric])
  then have "poll_loop (stun_tsx_cb send n) n h t [] = Some (h, t, [])" using poll_early [OF w(1,2)] w(3) by simp
  then show ?thesis using poll_of_loop [OF w(1), of "stun_tsx_cb send n" n t h t "[]" True] w(2) by auto
qed

text \<open>A polled transaction produces what the schedule says, and waits or is done afterwards.\<close>

lemma stun_polls_result:
  assumes W: "stun_waiting rto k due h t" and rto: "0 < rto" "rto * 2 ^ 5 < 2 ^ 32"
    and send: "\<And>t. send t = PJ_SUCCESS" and ns: "\<forall>n \<in> set ns. tv_normal n"
  shows "\<exists>h' t'. stun_polls send (Some (h, t)) ns = Some (h', t') \<and>
    tx_log t' = tx_log t @ stun_schedule rto k due (map PJ_TIME_VAL_MSEC ns) \<and>
    (if Out_Complete PJNATH_ESTUNTIMEDOUT \<in> set (stun_schedule rto k due (map PJ_TIME_VAL_MSEC ns)) then stun_done h' t'
     else \<exists>k' due'. stun_waiting rto k' due' h' t')"
  using W ns
proof (induction ns arbitrary: k due h t)
  case Nil
  then show ?case by auto
next
  case (Cons n ns)
  obtain d where d: "tsx_waits h t k d" "tv_normal d" "PJ_TIME_VAL_MSEC d = due" "0 < k" "k \<le> PJ_STUN_MAX_TRANSMIT_COUNT"
    "tx_rto_msec t = rto" "PJ_TIME_VAL_MSEC (tx_retransmit_time t) = int (stun_delay rto k)"
    using Cons.prems(1) by (auto simp: stun_waiting_def)
  have n: "tv_normal n" "\<forall>n \<in> set ns. tv_normal n" using Cons.prems(2) by simp_all
  consider "PJ_TIME_VAL_MSEC n < due" | "due \<le> PJ_TIME_VAL_MSEC n" "k < PJ_STUN_MAX_TRANSMIT_COUNT"
    | "due \<le> PJ_TIME_VAL_MSEC n" "k = PJ_STUN_MAX_TRANSMIT_COUNT" using d(5) by linarith
  then show ?case
  proof cases
    case 1
    then show ?thesis
      using stun_poll_waits [OF Cons.prems(1) n(1) 1] Cons.IH [OF Cons.prems(1) n(2)] 1 by (simp del: stun_step.simps)
  next
    case 2
    have "d \<le> n" using tv_normal_le_iff [OF d(2) n(1)] d(3) 2(1) by simp
    from stun_poll_sends [where send = send and w = True, OF d(1) this n(1) d(4) 2(2) rto d(6,7) send]
    obtain h1 t1 x where P: "pj_timer_heap_poll (stun_tsx_cb send n) n h t True = Some (h1, t1, [tx_retransmit_timer t], x)"
      "tsx_waits h1 t1 (k + 1) (PJ_TIME_VAL_ADD n (tx_retransmit_time t1))" "tx_rto_msec t1 = rto"
      "PJ_TIME_VAL_MSEC (tx_retransmit_time t1) = int (stun_delay rto (k + 1))" "tx_log t1 = tx_log t @ [Out_Send]"
      by blast
    have "stun_waiting rto (k + 1) (PJ_TIME_VAL_MSEC n + int (stun_delay rto (k + 1))) h1 t1"
      unfolding stun_waiting_def using P(2-4) 2(2) add_sub_normal(1) by (auto simp: add_sub_total)
    from Cons.IH [OF this n(2)] show ?thesis using P(1,5) 2 by simp
  next
    case 3
    have "d \<le> n" using tv_normal_le_iff [OF d(2) n(1)] d(3) 3(1) by simp
    from stun_poll_times_out [where send = send and w = True, OF d(1) [unfolded 3(2)] this]
    obtain h1 t1 x where P: "pj_timer_heap_poll (stun_tsx_cb send n) n h t True = Some (h1, t1, [tx_retransmit_timer t], x)"
      "th_inv {} h1" "th_nodes h1 = []" "tx_complete t1" "tx_log t1 = tx_log t @ [Out_Complete PJNATH_ESTUNTIMEDOUT]"
      by blast
    then show ?thesis using stun_polls_idle [OF P(2,3), of send t1 ns] 3 by (simp add: stun_done_def)
  qed
qed

lemma stun_send_waits:
  assumes I: "th_inv {} h" "th_nodes h = []" "2 \<le> th_per_poll h" and dt: "tv_normal now"
    and c: "pj_stun_client_tsx_create rto grp True True od rt dt h = Inr (h0, t0)"
    and rto: "0 < rto" "rto * 2 ^ 5 < 2 ^ 32" and send: "\<And>t. send t = PJ_SUCCESS"
  shows "\<exists>h1 t1. stun_step send (Some (h0, t0)) (SC_Send now True True) = Some (h1, t1) \<and> tx_log t1 = [Out_Send] \<and>
    stun_waiting rto 1 (PJ_TIME_VAL_MSEC now + int rto) h1 t1"
proof -
  have new: "rt \<notin> set (th_nodes h)" "dt \<notin> set (th_nodes h)" using I(2) by simp_all
  note C = stun_create_result [OF I(1) new c]
  let ?t = "t0\<lparr>tx_require_retransmit := True\<rparr>"
  define t1 where "t1 = log_out Out_Send (?t\<lparr>tx_retransmit_time := next_retransmit_time ?t, tx_transmit_count := tx_transmit_count ?t + 1\<rparr>)"
  have d: "PJ_TIME_VAL_MSEC (next_retransmit_time ?t) = int rto"
    using C(7,11) by (simp add: next_retransmit_time_def PJ_TIME_VAL_MSEC_def)
  obtain h1 where T: "tsx_transmit_msg send now h0 ?t True = Some (h1, t1, PJ_SUCCESS)" "th_inv {} h1"
    "mset (th_nodes h1) = {# rt #}" "te_cb (th_entry h1 rt)" "th_val h1 rt = PJ_TIME_VAL_ADD now (next_retransmit_time ?t)"
    "th_per_poll h1 = th_per_poll h0"
    using tsx_transmit_starts [OF C(1) th_room_empty [OF C(1)], of rt ?t send now] C I(2) send by (auto simp: t1_def)
  have "tsx_waits h1 t1 1 (PJ_TIME_VAL_ADD now (next_retransmit_time ?t))"
    using T C I(3) by (simp add: tsx_waits_def t1_def)
  then have "stun_waiting rto 1 (PJ_TIME_VAL_MSEC now + int rto) h1 t1"
    unfolding stun_waiting_def using add_sub_normal(1) d C(7)
    by (auto simp: add_sub_total PJ_STUN_MAX_TRANSMIT_COUNT_def t1_def stun_delay_def)
  moreover have "stun_step send (Some (h0, t0)) (SC_Send now True True) = Some (h1, t1)"
    using T(1) C(5,12) by (simp add: pj_stun_client_tsx_send_msg_def)
  ultimately show ?thesis using C(8) by (auto simp: t1_def)
qed

text \<open>A response for a transaction that waits or is done.\<close>

lemma stun_receive_result:
  assumes S: "stun_done h t \<or> stun_waiting rto k due h t"
    and resp: "PJ_STUN_IS_SUCCESS_RESPONSE ty \<or> PJ_STUN_IS_ERROR_RESPONSE ty"
  shows "\<exists>h'. stun_step send (Some (h, t)) (SC_Receive ty err) = Some (h',
      case err of Some code \<Rightarrow> if code \<le> 200 then t else tsx_completes (PJ_STATUS_FROM_STUN_CODE code) t
      | None \<Rightarrow> tsx_completes PJ_SUCCESS t) \<and> th_inv {} h' \<and> th_nodes h' = []"
proof -
  have I: "th_inv {} h" "set (th_nodes h) \<subseteq> {tx_retransmit_timer t}"
    using S by (auto simp: stun_done_def stun_waiting_def tsx_waits_def)
  obtain h' where h': "cancel_timer h (tx_retransmit_timer t) True TIMER_INACTIVE =
      Some (h', if tx_retransmit_timer t \<in> set (th_nodes h) then 1 else 0)" "th_inv {} h'"
    "mset (th_nodes h') = mset (th_nodes h) - {# tx_retransmit_timer t #}"
    using cancel_timer_result [OF I(1)] by blast
  have "th_nodes h = [] \<or> th_nodes h = [tx_retransmit_timer t]"
    using I(2) th_invD(4) [OF I(1)] by (cases "th_nodes h") (auto dest: subset_singletonD)
  then have "th_nodes h' = []" using h'(3) by auto
  then show ?thesis
    using h'(1,2) resp by (auto simp: pj_stun_client_tsx_on_rx_msg_def pj_timer_heap_cancel_if_active_def split: option.split)
qed

section \<open>Properties\<close>

text \<open>C19. Whatever calls are made on a created transaction and its timer heap, in any order and whatever sending
  returns, each of them returns, the heap stays well-formed, and \<open>on_complete\<close> is called at most once.\<close>

theorem stun_completes_once:
  assumes "th_inv {} h" "rt \<notin> set (th_nodes h)" "dt \<notin> set (th_nodes h)"
    and "pj_stun_client_tsx_create rto grp True oc od rt dt h = Inr (h0, t0)"
  shows "\<exists>h' t'. foldl (stun_step send) (Some (h0, t0)) calls = Some (h', t') \<and> th_inv {} h' \<and> length (completions t') \<le> 1"
  using stun_machine.mrun_inv [of "Some (h0, t0)" calls send] stun_create_result(1,6) [OF assms]
  by (auto simp: stun_ok_def tsx_ok_def)

text \<open>The heap and the transaction of the witnesses.\<close>

definition stun_heap :: timer_heap where
  "stun_heap = pj_timer_heap_create 4 idle_entries (\<lambda>g. 0)"

definition stun_new :: "timer_heap \<times> stun_tsx" where
  "stun_new = projr (pj_stun_client_tsx_create PJ_STUN_RTO_VALUE None True True True 1 2 stun_heap)"

lemma stun_heap_ok: "th_inv {} stun_heap" "th_nodes stun_heap = []" "2 \<le> th_per_poll stun_heap"
  by (simp_all add: stun_heap_def empty_th_inv th_nodes_def) (simp_all add: pj_timer_heap_create_def DEFAULT_MAX_TIMED_OUT_PER_POLL_def)

lemma stun_new_create:
  "pj_stun_client_tsx_create PJ_STUN_RTO_VALUE None True True True 1 2 stun_heap = Inr (fst stun_new, snd stun_new)"
  by (simp add: stun_new_def pj_stun_client_tsx_create_def Let_def)

theorem stun_completes_once_witness:
  "\<exists>h' t'. foldl (stun_step (\<lambda>t. PJ_SUCCESS)) (Some (fst stun_new, snd stun_new))
     [SC_Send (Time_Val 1 0) True True, SC_Receive 0x0101 None, SC_Receive 0x0101 None] = Some (h', t') \<and>
   th_inv {} h' \<and> length (completions t') \<le> 1"
  by (rule stun_completes_once [OF stun_heap_ok(1) _ _ stun_new_create]) (simp_all add: stun_heap_ok)

text \<open>C20. A request sent with retransmission and then polled at any normal times is transmitted and given up
  exactly as the schedule of the protocol says: the next transmission is due a delay after the last one, the delays
  are the initial one doubled each time and 1600 ms after the last, and after seven transmissions
  the timeout is reported once.\<close>

theorem stun_follows_schedule:
  assumes "th_inv {} h" "th_nodes h = []" "2 \<le> th_per_poll h"
    and "pj_stun_client_tsx_create rto grp True True od rt dt h = Inr (h0, t0)"
    and "0 < rto" "rto * 2 ^ 5 < 2 ^ 32" "\<And>t. send t = PJ_SUCCESS"
    and "tv_normal now" "\<forall>n \<in> set ns. tv_normal n"
  shows "\<exists>h' t'. stun_polls send (stun_step send (Some (h0, t0)) (SC_Send now True True)) ns = Some (h', t') \<and>
    tx_log t' = Out_Send # stun_schedule rto 1 (PJ_TIME_VAL_MSEC now + int rto) (map PJ_TIME_VAL_MSEC ns)"
proof -
  obtain h1 t1 where s: "stun_step send (Some (h0, t0)) (SC_Send now True True) = Some (h1, t1)" "tx_log t1 = [Out_Send]"
    "stun_waiting rto 1 (PJ_TIME_VAL_MSEC now + int rto) h1 t1"
    using stun_send_waits [where send = send, OF assms(1-3,8,4-7)] by blast
  show ?thesis using stun_polls_result [where send = send, OF s(3) assms(5-7,9)] s(1,2) by fastforce
qed

theorem stun_follows_schedule_witness:
  "\<exists>h' t'. stun_polls (\<lambda>t. PJ_SUCCESS) (stun_step (\<lambda>t. PJ_SUCCESS) (Some (fst stun_new, snd stun_new))
     (SC_Send (Time_Val 5 0) True True)) [Time_Val 5 50, Time_Val 5 100, Time_Val 5 299, Time_Val 5 300] = Some (h', t') \<and>
   tx_log t' = [Out_Send, Out_Send, Out_Send]"
  using stun_follows_schedule [OF stun_heap_ok stun_new_create,
      where send = "\<lambda>t. PJ_SUCCESS" and now = "Time_Val 5 0" and ns = "[Time_Val 5 50, Time_Val 5 100, Time_Val 5 299, Time_Val 5 300]"]
  by (simp add: PJ_STUN_RTO_VALUE_def tv_normal_def PJ_TIME_VAL_MSEC_def stun_delay_def PJ_STUN_MAX_TRANSMIT_COUNT_def)

text \<open>C21. A request that is never answered ends: once the heap has been polled seven times, each time at least
  the current delay after the one before, the request has been sent seven times and the timeout
  reported once, and no later poll sends or reports anything.\<close>

lemma all_less_seven: "(\<forall>i<(7::nat). P i) \<longleftrightarrow> P 0 \<and> P 1 \<and> P 2 \<and> P 3 \<and> P 4 \<and> P 5 \<and> P 6"
  by (auto simp: numeral_eq_Suc All_less_Suc)

lemma stun_schedule_seven:
  assumes "length ns = 7" "\<forall>i<7. (prev # ns) ! i + int (stun_delay rto (i + 1)) \<le> ns ! i"
  shows "stun_schedule rto 1 (prev + int rto) (ns @ rest) = replicate 6 Out_Send @ [Out_Complete PJNATH_ESTUNTIMEDOUT]"
proof -
  obtain a b c d e f g where ns: "ns = [a, b, c, d, e, f, g]"
    using assms(1) by (auto simp: numeral_eq_Suc length_Suc_conv)
  have due: "prev + int rto \<le> a" "a + int (stun_delay rto 2) \<le> b" "b + int (stun_delay rto 3) \<le> c"
    "c + int (stun_delay rto 4) \<le> d" "d + int (stun_delay rto 5) \<le> e" "e + int (stun_delay rto 6) \<le> f"
    "f + int (stun_delay rto 7) \<le> g"
    using assms(2) [unfolded all_less_seven] by (simp_all add: ns stun_delay_def PJ_STUN_MAX_TRANSMIT_COUNT_def)
  show ?thesis
    using due by (simp add: ns PJ_STUN_MAX_TRANSMIT_COUNT_def numeral_eq_Suc)
qed

theorem stun_times_out:
  assumes "th_inv {} h" "th_nodes h = []" "2 \<le> th_per_poll h"
    and "pj_stun_client_tsx_create rto grp True True od rt dt h = Inr (h0, t0)"
    and "0 < rto" "rto * 2 ^ 5 < 2 ^ 32" "\<And>t. send t = PJ_SUCCESS"
    and "tv_normal now" "\<forall>n \<in> set (ns @ rest). tv_normal n"
    and "length ns = 7" "\<forall>i<7. PJ_TIME_VAL_MSEC ((now # ns) ! i) + int (stun_delay rto (i + 1)) \<le> PJ_TIME_VAL_MSEC (ns ! i)"
  shows "\<exists>h' t'. stun_polls send (stun_step send (Some (h0, t0)) (SC_Send now True True)) (ns @ rest) = Some (h', t') \<and>
    tx_log t' = replicate 7 Out_Send @ [Out_Complete PJNATH_ESTUNTIMEDOUT] \<and> th_nodes h' = []"
proof -
  obtain h1 t1 where s: "stun_step send (Some (h0, t0)) (SC_Send now True True) = Some (h1, t1)" "tx_log t1 = [Out_Send]"
    "stun_waiting rto 1 (PJ_TIME_VAL_MSEC now + int rto) h1 t1"
    using stun_send_waits [where send = send, OF assms(1-3,8,4-7)] by blast
  have "\<forall>i<7. (PJ_TIME_VAL_MSEC now # map PJ_TIME_VAL_MSEC ns) ! i + int (stun_delay rto (i + 1)) \<le> map PJ_TIME_VAL_MSEC ns ! i"
    using assms(10,11) by (simp flip: list.map(2))
  then have "stun_schedule rto 1 (PJ_TIME_VAL_MSEC now + int rto) (map PJ_TIME_VAL_MSEC (ns @ rest)) =
      replicate 6 Out_Send @ [Out_Complete PJNATH_ESTUNTIMEDOUT]"
    using stun_schedule_seven [of "map PJ_TIME_VAL_MSEC ns"] assms(10) by simp
  then show ?thesis
    using stun_polls_result [where send = send, OF s(3) assms(5-7,9)] s(1,2) by (fastforce simp: stun_done_def numeral_eq_Suc)
qed

theorem stun_times_out_witness:
  "\<exists>h' t'. stun_polls (\<lambda>t. PJ_SUCCESS) (stun_step (\<lambda>t. PJ_SUCCESS) (Some (fst stun_new, snd stun_new))
     (SC_Send (Time_Val 0 0) True True))
     ([Time_Val 0 100, Time_Val 0 300, Time_Val 0 700, Time_Val 1 500, Time_Val 3 100, Time_Val 6 300, Time_Val 7 900] @ [Time_Val 9 0])
     = Some (h', t') \<and>
   tx_log t' = replicate 7 Out_Send @ [Out_Complete PJNATH_ESTUNTIMEDOUT] \<and> th_nodes h' = []"
  by (rule stun_times_out [OF stun_heap_ok stun_new_create])
    (simp_all add: PJ_STUN_RTO_VALUE_def PJ_STUN_TIMEOUT_VALUE_def tv_normal_def PJ_TIME_VAL_MSEC_def stun_delay_def
      PJ_STUN_MAX_TRANSMIT_COUNT_def all_less_seven)

text \<open>C22. A response to a request that was sent with retransmission, at any point of its schedule, takes the
  timer out of the heap, so that no later poll sends again. Its status is reported unless the timeout
  was reported before; a response whose error code is at most 200 is not reported at all.\<close>

theorem stun_response_stops:
  assumes "th_inv {} h" "th_nodes h = []" "2 \<le> th_per_poll h"
    and "pj_stun_client_tsx_create rto grp True True od rt dt h = Inr (h0, t0)"
    and "0 < rto" "rto * 2 ^ 5 < 2 ^ 32" "\<And>t. send t = PJ_SUCCESS"
    and "tv_normal now" "\<forall>n \<in> set ns. tv_normal n"
    and "PJ_STUN_IS_SUCCESS_RESPONSE ty \<or> PJ_STUN_IS_ERROR_RESPONSE ty"
  shows "let sched = stun_schedule rto 1 (PJ_TIME_VAL_MSEC now + int rto) (map PJ_TIME_VAL_MSEC ns);
      report = (\<lambda>st. if Out_Complete PJNATH_ESTUNTIMEDOUT \<in> set sched then [] else [Out_Complete st])
    in \<exists>h' t'. stun_polls send (stun_step send
        (stun_polls send (stun_step send (Some (h0, t0)) (SC_Send now True True)) ns) (SC_Receive ty err)) ms = Some (h', t') \<and>
      th_nodes h' = [] \<and>
      tx_log t' = Out_Send # sched @ (case err of None \<Rightarrow> report PJ_SUCCESS
        | Some code \<Rightarrow> if code \<le> 200 then [] else report (PJ_STATUS_FROM_STUN_CODE code))"
proof -
  obtain h1 t1 where s: "stun_step send (Some (h0, t0)) (SC_Send now True True) = Some (h1, t1)" "tx_log t1 = [Out_Send]"
    "stun_waiting rto 1 (PJ_TIME_VAL_MSEC now + int rto) h1 t1"
    using stun_send_waits [where send = send, OF assms(1-3,8,4-7)] by blast
  define sched where "sched = stun_schedule rto 1 (PJ_TIME_VAL_MSEC now + int rto) (map PJ_TIME_VAL_MSEC ns)"
  obtain h2 t2 where p: "stun_polls send (Some (h1, t1)) ns = Some (h2, t2)" "tx_log t2 = Out_Send # sched"
    "if Out_Complete PJNATH_ESTUNTIMEDOUT \<in> set sched then stun_done h2 t2 else \<exists>k' due'. stun_waiting rto k' due' h2 t2"
    using stun_polls_result [where send = send, OF s(3) assms(5-7,9)] s(2) by (auto simp: sched_def)
  obtain k due where "stun_done h2 t2 \<or> stun_waiting rto k due h2 t2" using p(3) by (metis (full_types))
  then obtain h3 where r: "stun_step send (Some (h2, t2)) (SC_Receive ty err) = Some (h3,
      case err of Some code \<Rightarrow> if code \<le> 200 then t2 else tsx_completes (PJ_STATUS_FROM_STUN_CODE code) t2
      | None \<Rightarrow> tsx_completes PJ_SUCCESS t2)" "th_inv {} h3" "th_nodes h3 = []"
    using stun_receive_result [OF _ assms(10), of h2 t2 rto k due send err] by blast
  have "tx_log (tsx_completes st t2) = Out_Send # sched @ (if Out_Complete PJNATH_ESTUNTIMEDOUT \<in> set sched then [] else [Out_Complete st])" for st
    using p(2,3) by (auto simp: tsx_completes_def stun_done_def stun_waiting_def tsx_waits_def Let_def split: if_splits)
  then show ?thesis
    using s(1) p(1,2) r stun_polls_idle [OF r(2,3)]
    unfolding Let_def sched_def [symmetric] by (simp del: stun_step.simps split: option.split)
qed

theorem stun_response_stops_witness:
  "\<exists>h' t'. stun_polls (\<lambda>t. PJ_SUCCESS) (stun_step (\<lambda>t. PJ_SUCCESS)
     (stun_polls (\<lambda>t. PJ_SUCCESS) (stun_step (\<lambda>t. PJ_SUCCESS) (Some (fst stun_new, snd stun_new))
       (SC_Send (Time_Val 5 0) True True)) [Time_Val 5 100]) (SC_Receive 0x0111 (Some 401))) [Time_Val 99 0] = Some (h', t') \<and>
   th_nodes h' = [] \<and> tx_log t' = [Out_Send, Out_Send, Out_Complete (PJ_STATUS_FROM_STUN_CODE 401)]"
  using stun_response_stops [OF stun_heap_ok stun_new_create, where send = "\<lambda>t. PJ_SUCCESS" and now = "Time_Val 5 0"
      and ns = "[Time_Val 5 100]" and ty = "0x0111" and err = "Some 401" and ms = "[Time_Val 99 0]"]
  by (simp add: PJ_STUN_RTO_VALUE_def tv_normal_def PJ_TIME_VAL_MSEC_def stun_delay_def PJ_STUN_MAX_TRANSMIT_COUNT_def
      PJ_STUN_IS_ERROR_RESPONSE_def PJ_STUN_IS_SUCCESS_RESPONSE_def del: stun_step.simps)

end
