(* ===== verification/G711.thy ===== *)
theory G711
  imports Prelude
begin

text \<open>
  The G.711 codecs as the library computes them without tables (\<open>pjmedia/src/pjmedia/alaw_ulaw.c\<close>).
  A linear sample is an \<open>int\<close>, a code an \<open>unsigned char\<close> (0 to 255); \<open>to_u8\<close> is the conversion the
  C types make on an assignment or a return. Samples are far from the bounds of \<open>int\<close>.
\<close>

unbundle bit_operations_syntax

section \<open>Operations\<close>

definition to_u8 :: "int \<Rightarrow> int" where
  "to_u8 x = x mod 256"

definition SIGN_BIT :: int where "SIGN_BIT = 0x80"

definition QUANT_MASK :: int where "QUANT_MASK = 0xf"

definition SEG_SHIFT :: nat where "SEG_SHIFT = 4"

definition SEG_MASK :: int where "SEG_MASK = 0x70"

definition BIAS :: int where "BIAS = 0x84"

definition seg_end :: "int list" where
  "seg_end = [0xFF, 0x1FF, 0x3FF, 0x7FF, 0xFFF, 0x1FFF, 0x3FFF, 0x7FFF]"

definition u2a :: "int list" where
  "u2a =
    [1, 1, 2, 2, 3, 3, 4, 4,
     5, 5, 6, 6, 7, 7, 8, 8,
     9, 10, 11, 12, 13, 14, 15, 16,
     17, 18, 19, 20, 21, 22, 23, 24,
     25, 27, 29, 31, 33, 34, 35, 36,
     37, 38, 39, 40, 41, 42, 43, 44,
     46, 48, 49, 50, 51, 52, 53, 54,
     55, 56, 57, 58, 59, 60, 61, 62,
     64, 65, 66, 67, 68, 69, 70, 71,
     72, 73, 74, 75, 76, 77, 78, 79,
     81, 82, 83, 84, 85, 86, 87, 88,
     89, 90, 91, 92, 93, 94, 95, 96,
     97, 98, 99, 100, 101, 102, 103, 104,
     105, 106, 107, 108, 109, 110, 111, 112,
     113, 114, 115, 116, 117, 118, 119, 120,
     121, 122, 123, 124, 125, 126, 127, 128]"

definition a2u :: "int list" where
  "a2u =
    [1, 3, 5, 7, 9, 11, 13, 15,
     16, 17, 18, 19, 20, 21, 22, 23,
     24, 25, 26, 27, 28, 29, 30, 31,
     32, 32, 33, 33, 34, 34, 35, 35,
     36, 37, 38, 39, 40, 41, 42, 43,
     44, 45, 46, 47, 48, 48, 49, 49,
     50, 51, 52, 53, 54, 55, 56, 57,
     58, 59, 60, 61, 62, 63, 64, 64,
     65, 66, 67, 68, 69, 70, 71, 72,
     73, 74, 75, 76, 77, 78, 79, 79,
     80, 81, 82, 83, 84, 85, 86, 87,
     88, 89, 90, 91, 92, 93, 94, 95,
     96, 97, 98, 99, 100, 101, 102, 103,
     104, 105, 106, 107, 108, 109, 110, 111,
     112, 113, 114, 115, 116, 117, 118, 119,
     120, 121, 122, 123, 124, 125, 126, 127]"

primrec search :: "int \<Rightarrow> int list \<Rightarrow> nat" where
  "search val [] = 0"
| "search val (x # xs) = (if val \<le> x then 0 else search val xs + 1)"

definition pjmedia_linear2alaw :: "int \<Rightarrow> int" where
  "pjmedia_linear2alaw pcm_val =
     (let (mask, pcm_val) =
            (if pcm_val \<ge> 0 then (0xD5, pcm_val)
             else (0x55, if - pcm_val - 8 < 0 then 0 else - pcm_val - 8));
          seg = search pcm_val seg_end
      in if seg \<ge> 8 then to_u8 (0x7F XOR mask)
         else
           (let aval = to_u8 (push_bit SEG_SHIFT (int seg));
                aval = (if seg < 2 then to_u8 (aval OR (drop_bit 4 pcm_val AND QUANT_MASK))
                        else to_u8 (aval OR (drop_bit (seg + 3) pcm_val AND QUANT_MASK)))
            in to_u8 (aval XOR mask)))"

definition pjmedia_alaw2linear :: "int \<Rightarrow> int" where
  "pjmedia_alaw2linear a_val =
     (let a_val = a_val XOR 0x55;
          t = push_bit 4 (a_val AND QUANT_MASK);
          seg = nat (drop_bit SEG_SHIFT (a_val AND SEG_MASK));
          t = (if seg = 0 then t + 8
               else if seg = 1 then t + 0x108
               else push_bit (seg - 1) (t + 0x108))
      in if a_val AND SIGN_BIT \<noteq> 0 then t else - t)"

definition pjmedia_linear2ulaw :: "int \<Rightarrow> int" where
  "pjmedia_linear2ulaw pcm_val =
     (let (pcm_val, mask) = (if pcm_val < 0 then (BIAS - pcm_val, 0x7F) else (pcm_val + BIAS, 0xFF));
          seg = search pcm_val seg_end
      in if seg \<ge> 8 then to_u8 (0x7F XOR mask)
         else
           (let uval = to_u8 (push_bit 4 (int seg) OR (drop_bit (seg + 3) pcm_val AND 0xF))
            in to_u8 (uval XOR mask)))"

definition pjmedia_ulaw2linear :: "int \<Rightarrow> int" where
  "pjmedia_ulaw2linear u_val =
     (if u_val = 0 then 0
      else
        (let u_val = to_u8 (NOT u_val);
             t = push_bit 3 (u_val AND QUANT_MASK) + BIAS;
             t = push_bit (nat (drop_bit SEG_SHIFT (u_val AND SEG_MASK))) t
         in if u_val AND SIGN_BIT \<noteq> 0 then BIAS - t else t - BIAS))"

definition pjmedia_alaw2ulaw :: "int \<Rightarrow> int" where
  "pjmedia_alaw2ulaw aval =
     (let aval = aval AND 0xff
      in if aval AND 0x80 \<noteq> 0 then to_u8 (0xFF XOR a2u ! nat (aval XOR 0xD5))
         else to_u8 (0x7F XOR a2u ! nat (aval XOR 0x55)))"

definition pjmedia_ulaw2alaw :: "int \<Rightarrow> int" where
  "pjmedia_ulaw2alaw uval =
     (let uval = uval AND 0xff
      in if uval AND 0x80 \<noteq> 0 then to_u8 (0xD5 XOR (u2a ! nat (0xFF XOR uval) - 1))
         else to_u8 (0x55 XOR (u2a ! nat (0x7F XOR uval) - 1)))"

section \<open>Segments and levels\<close>

text \<open>
  What both encoders compute of a magnitude \<open>m\<close> is its level: sixteen times the segment, plus the
  step in the segment. The code is the level with the bits of the mask flipped.
\<close>

definition seg_shift :: "bool \<Rightarrow> nat \<Rightarrow> nat" where
  "seg_shift alaw seg = (if alaw \<and> seg = 0 then 4 else seg + 3)"

definition level :: "bool \<Rightarrow> int \<Rightarrow> int" where
  "level alaw m = (let seg = search m seg_end
     in if seg \<ge> 8 then 127 else 16 * int seg + (m div 2 ^ seg_shift alaw seg) mod 16)"

lemma search_cases:
  assumes "0 \<le> m"
  obtains "m \<le> 255" "search m seg_end = 0" | "256 \<le> m" "m \<le> 511" "search m seg_end = 1"
  | "512 \<le> m" "m \<le> 1023" "search m seg_end = 2" | "1024 \<le> m" "m \<le> 2047" "search m seg_end = 3"
  | "2048 \<le> m" "m \<le> 4095" "search m seg_end = 4" | "4096 \<le> m" "m \<le> 8191" "search m seg_end = 5"
  | "8192 \<le> m" "m \<le> 16383" "search m seg_end = 6" | "16384 \<le> m" "m \<le> 32767" "search m seg_end = 7"
  | "32768 \<le> m" "search m seg_end = 8"
proof -
  consider "m \<le> 255" | "256 \<le> m" "m \<le> 511" | "512 \<le> m" "m \<le> 1023" | "1024 \<le> m" "m \<le> 2047"
    | "2048 \<le> m" "m \<le> 4095" | "4096 \<le> m" "m \<le> 8191" | "8192 \<le> m" "m \<le> 16383"
    | "16384 \<le> m" "m \<le> 32767" | "32768 \<le> m" by linarith
  then show ?thesis by cases (use that in \<open>simp_all add: seg_end_def\<close>)
qed

lemma search_mono: "m \<le> m' \<Longrightarrow> search m xs \<le> search m' xs"
  by (induction xs) auto

lemma search_range:
  assumes "0 \<le> m" "search m seg_end < 8"
  shows "m < 2 ^ (search m seg_end + 8)" "search m seg_end \<noteq> 0 \<Longrightarrow> 2 ^ (search m seg_end + 7) \<le> m"
  by (cases rule: search_cases [OF assms(1)]; use assms in \<open>simp\<close>)+

lemma mod_sub_16: "16 \<le> x \<Longrightarrow> x < 32 \<Longrightarrow> x mod 16 = x - (16 :: int)"
  by presburger

lemma div_step: "0 < q \<Longrightarrow> m div q * q \<le> m \<and> m < (m div q + 1) * (q :: int)"
  using div_mult_mod_eq [of m q] pos_mod_bound [of q m] pos_mod_sign [of q m] unfolding distrib_right by linarith

text \<open>The step is the magnitude divided by the step size, less 16 in the segments with a leading bit.\<close>

lemma level_step:
  assumes m: "0 \<le> m" "alaw \<or> 128 \<le> m" and s: "search m seg_end < 8"
  defines "seg \<equiv> search m seg_end"
  shows "(m div 2 ^ seg_shift alaw seg) mod 16 = m div 2 ^ seg_shift alaw seg - (if alaw \<and> seg = 0 then 0 else 16)"
    "(if alaw \<and> seg = 0 then 0 else 16) \<le> m div 2 ^ seg_shift alaw seg"
    "m div 2 ^ seg_shift alaw seg < (if alaw \<and> seg = 0 then 16 else 32)"
proof -
  note r = search_range [OF m(1) s, folded seg_def]
  have "(if alaw \<and> seg = 0 then 0 else 16) \<le> m div 2 ^ seg_shift alaw seg \<and>
      m div 2 ^ seg_shift alaw seg < (if alaw \<and> seg = 0 then 16 else 32)"
  proof (cases "alaw \<and> seg = 0")
    case True
    then show ?thesis using r(1) m(1) by (simp add: seg_shift_def pos_imp_zdiv_nonneg_iff div_less_iff_less_mult)
  next
    case False
    then have sh: "seg_shift alaw seg = seg + 3" by (simp add: seg_shift_def)
    have "2 ^ (seg + 7) \<le> m" using r(2) m False by (cases "seg = 0") auto
    then have "16 * 2 ^ (seg + 3) \<le> m" "m < 32 * 2 ^ (seg + 3)" using r(1) by (simp_all add: power_add)
    moreover have "m div 2 ^ (seg + 3) * 2 ^ (seg + 3) \<le> m" "m < (m div 2 ^ (seg + 3) + 1) * 2 ^ (seg + 3)"
      using div_step [of "2 ^ (seg + 3)" m] by (simp_all only: zero_less_power zero_less_numeral)
    ultimately have "16 * 2 ^ (seg + 3) < (m div 2 ^ (seg + 3) + 1) * 2 ^ (seg + 3)"
      "m div 2 ^ (seg + 3) * 2 ^ (seg + 3) < 32 * 2 ^ (seg + 3)" by linarith+
    then have "16 \<le> m div 2 ^ (seg + 3)" "m div 2 ^ (seg + 3) < 32"
      by (simp_all only: mult_less_cancel_right) simp_all
    then show ?thesis using False sh by auto
  qed
  then show "(if alaw \<and> seg = 0 then 0 else 16) \<le> m div 2 ^ seg_shift alaw seg"
    "m div 2 ^ seg_shift alaw seg < (if alaw \<and> seg = 0 then 16 else 32)" by blast+
  then show "(m div 2 ^ seg_shift alaw seg) mod 16 = m div 2 ^ seg_shift alaw seg - (if alaw \<and> seg = 0 then 0 else 16)"
    using mod_sub_16 [of "m div 2 ^ seg_shift alaw seg"] by (cases "alaw \<and> seg = 0") auto
qed


lemma level_range: "0 \<le> level alaw m" "level alaw m < 128"
proof -
  have "(m div 2 ^ seg_shift alaw (search m seg_end)) mod 16 < 16" "0 \<le> (m div 2 ^ seg_shift alaw (search m seg_end)) mod 16"
    by simp_all
  then show "0 \<le> level alaw m" "level alaw m < 128" by (auto simp: level_def Let_def)
qed

lemma level_mono:
  assumes m: "0 \<le> m" "alaw \<or> 128 \<le> m" and le: "m \<le> m'"
  shows "level alaw m \<le> level alaw m'"
proof (cases "search m' seg_end < 8")
  case True
  have s: "search m seg_end \<le> search m' seg_end" by (rule search_mono [OF le])
  have m': "0 \<le> m'" "alaw \<or> 128 \<le> m'" using m le by auto
  note L = level_step [OF m] and L' = level_step [OF m' True]
  show ?thesis
  proof (cases "search m seg_end = search m' seg_end")
    case eq: True
    have "m div 2 ^ seg_shift alaw (search m' seg_end) \<le> m' div 2 ^ seg_shift alaw (search m' seg_end)"
      by (rule zdiv_mono1 [OF le]) simp
    then show ?thesis using True eq L(1) L'(1) by (simp add: level_def Let_def)
  next
    case False
    then have "16 * int (search m seg_end) + 16 \<le> 16 * int (search m' seg_end)" using s by linarith
    moreover have "(m div 2 ^ seg_shift alaw (search m seg_end)) mod 16 < 16" "0 \<le> (m' div 2 ^ seg_shift alaw (search m' seg_end)) mod 16"
      by simp_all
    moreover have "search m seg_end < 8" using s True by simp
    ultimately show ?thesis unfolding level_def Let_def using True by auto
  qed
next
  case False
  then show ?thesis using level_range(2) [of alaw m] by (simp add: level_def)
qed

lemma code_bits:
  assumes "seg < 8"
  shows "to_u8 (push_bit 4 (int seg) OR (x AND 15)) = 16 * int seg + x mod 16"
proof -
  have q: "x AND 15 = x mod 16" using take_bit_eq_mask [of 4 x] by (simp add: take_bit_eq_mod mask_eq_exp_minus_1)
  have "push_bit 4 (int seg) AND (x mod 16) = 0"
    by (rule bit_eqI) (auto simp: bit_simps take_bit_eq_mod [of 4, simplified, symmetric])
  then have "push_bit 4 (int seg) OR (x mod 16) = push_bit 4 (int seg) + x mod 16" by (simp add: disjunctive_add_eq_or)
  moreover have "0 \<le> x mod 16" "x mod 16 < 16" by simp_all
  ultimately show ?thesis using assms by (simp add: q to_u8_def push_bit_eq_mult)
qed

lemma xor_u8: "0 \<le> x \<Longrightarrow> x < 128 \<Longrightarrow> 0 \<le> k \<Longrightarrow> k < 256 \<Longrightarrow> to_u8 (x XOR k) = x XOR k"
  using XOR_upper [of x 8 k] XOR_lower [of x k] by (simp add: to_u8_def)

lemma linear2alaw_level:
  "pjmedia_linear2alaw v = (if 0 \<le> v then level True v XOR 0xD5 else level True (max 0 (- v - 8)) XOR 0x55)"
proof -
  have enc: "(if search m seg_end \<ge> 8 then to_u8 (127 XOR k)
      else (let aval = to_u8 (push_bit 4 (int (search m seg_end)));
                aval = (if search m seg_end < 2 then to_u8 (aval OR (drop_bit 4 m AND 15))
                        else to_u8 (aval OR (drop_bit (search m seg_end + 3) m AND 15)))
            in to_u8 (aval XOR k))) = level True m XOR k" if "k = 0xD5 \<or> k = 0x55" for k m
  proof (cases "search m seg_end \<ge> 8")
    case True
    then show ?thesis using that by (auto simp: level_def to_u8_def)
  next
    case False
    let ?s = "search m seg_end"
    have "to_u8 (push_bit 4 (int ?s)) = push_bit 4 (int ?s)" using False by (simp add: to_u8_def push_bit_eq_mult)
    moreover have "(if ?s < 2 then drop_bit 4 m else drop_bit (?s + 3) m) = m div 2 ^ seg_shift True ?s"
      by (auto simp: seg_shift_def drop_bit_eq_div less_2_cases_iff)
    ultimately have "(if ?s < 2 then to_u8 (to_u8 (push_bit 4 (int ?s)) OR (drop_bit 4 m AND 15))
        else to_u8 (to_u8 (push_bit 4 (int ?s)) OR (drop_bit (?s + 3) m AND 15))) = level True m"
      using False code_bits [of ?s "m div 2 ^ seg_shift True ?s"] by (auto simp: level_def Let_def split: if_splits)
    then show ?thesis
      using False that xor_u8 [OF level_range, of k True m] by (auto simp: Let_def)
  qed
  have neg: "(if - v - 8 < 0 then 0 else - v - 8) = max 0 (- v - 8)" by simp
  show ?thesis
  proof (cases "0 \<le> v")
    case True
    then show ?thesis
      using enc [of "0xD5" v] by (simp only: pjmedia_linear2alaw_def Let_def SEG_SHIFT_def QUANT_MASK_def if_True prod.case) simp
  next
    case False
    then show ?thesis
      using enc [of "0x55" "max 0 (- v - 8)"]
      by (simp only: pjmedia_linear2alaw_def Let_def SEG_SHIFT_def QUANT_MASK_def neg if_False prod.case) simp
  qed
qed

lemma linear2ulaw_level:
  "pjmedia_linear2ulaw v = (if v < 0 then level False (132 - v) XOR 0x7F else level False (v + 132) XOR 0xFF)"
proof -
  have enc: "(if search m seg_end \<ge> 8 then to_u8 (127 XOR k)
      else (let uval = to_u8 (push_bit 4 (int (search m seg_end)) OR (drop_bit (search m seg_end + 3) m AND 15))
            in to_u8 (uval XOR k))) = level False m XOR k" if "k = 0x7F \<or> k = 0xFF" for k m
  proof (cases "search m seg_end \<ge> 8")
    case True
    then show ?thesis using that by (auto simp: level_def to_u8_def)
  next
    case False
    let ?s = "search m seg_end"
    have "to_u8 (push_bit 4 (int ?s) OR (drop_bit (?s + 3) m AND 15)) = level False m"
      using False code_bits [of ?s "m div 2 ^ (?s + 3)"] by (simp add: level_def Let_def drop_bit_eq_div seg_shift_def)
    then show ?thesis
      using False that xor_u8 [OF level_range, of k False m] by (auto simp: Let_def)
  qed
  show ?thesis
    using enc [of "0x7F" "132 - v"] enc [of "0xFF" "v + 132"] by (simp add: pjmedia_linear2ulaw_def Let_def BIAS_def)
qed


section \<open>Decoding\<close>

text \<open>The value a decoder gives a level, without its sign.\<close>

definition alaw_value :: "int \<Rightarrow> int" where
  "alaw_value L = (if L < 16 then 16 * L + 8 else (16 * (L mod 16) + 264) * 2 ^ nat (L div 16 - 1))"

definition ulaw_value :: "int \<Rightarrow> int" where
  "ulaw_value L = (8 * (L mod 16) + 132) * 2 ^ nat (L div 16) - 132"

lemma upto_induct: "list_all P [a..b] \<Longrightarrow> a \<le> x \<Longrightarrow> x \<le> b \<Longrightarrow> P (x :: int)"
  by (simp add: list_all_iff)

lemma alaw_decode:
  assumes "0 \<le> L" "L < 128"
  shows "pjmedia_alaw2linear (L XOR 0xD5) = alaw_value L" "pjmedia_alaw2linear (L XOR 0x55) = - alaw_value L"
proof -
  have "list_all (\<lambda>L. pjmedia_alaw2linear (L XOR 0xD5) = alaw_value L \<and> pjmedia_alaw2linear (L XOR 0x55) = - alaw_value L) [0..127]"
    by code_simp
  from upto_induct [OF this assms(1)] assms(2)
  show "pjmedia_alaw2linear (L XOR 0xD5) = alaw_value L" "pjmedia_alaw2linear (L XOR 0x55) = - alaw_value L" by simp_all
qed

lemma ulaw_decode:
  assumes "0 \<le> L" "L < 128"
  shows "pjmedia_ulaw2linear (L XOR 0xFF) = ulaw_value L"
    "pjmedia_ulaw2linear (L XOR 0x7F) = (if L = 127 then 0 else - ulaw_value L)"
proof -
  have "list_all (\<lambda>L. pjmedia_ulaw2linear (L XOR 0xFF) = ulaw_value L \<and>
      pjmedia_ulaw2linear (L XOR 0x7F) = (if L = 127 then 0 else - ulaw_value L)) [0..127]"
    by code_simp
  from upto_induct [OF this assms(1)] assms(2)
  show "pjmedia_ulaw2linear (L XOR 0xFF) = ulaw_value L"
    "pjmedia_ulaw2linear (L XOR 0x7F) = (if L = 127 then 0 else - ulaw_value L)" by simp_all
qed

text \<open>The value of a level is the middle of its step.\<close>

lemma level_value:
  assumes m: "0 \<le> m" "alaw \<or> 128 \<le> m" and s: "search m seg_end < 8"
  defines "k \<equiv> seg_shift alaw (search m seg_end)"
  shows "(if alaw then alaw_value (level alaw m) else ulaw_value (level alaw m) + 132) = m - m mod 2 ^ k + 2 ^ (k - 1)"
proof -
  let ?s = "search m seg_end"
  note L = level_step [OF m s, folded k_def]
  have d: "m div 2 ^ k * 2 ^ k = m - m mod 2 ^ k" by (simp add: minus_mod_eq_div_mult)
  have lev: "level alaw m = 16 * int ?s + (m div 2 ^ k - (if alaw \<and> ?s = 0 then 0 else 16))"
    using s L(1) by (simp add: level_def Let_def k_def)
  show ?thesis
  proof (cases "alaw \<and> ?s = 0")
    case True
    then have "k = 4" by (simp add: k_def seg_shift_def)
    moreover have "m div 16 < 16" using L(3) True calculation by simp
    ultimately show ?thesis using True lev d by (simp add: alaw_value_def)
  next
    case False
    then have k: "k = ?s + 3" by (simp add: k_def seg_shift_def)
    define q where "q = m div 2 ^ k - 16"
    have q: "0 \<le> q" "q < 16" "level alaw m = 16 * int ?s + q" using False L(2,3) lev by (auto simp: q_def)
    then have dm: "level alaw m div 16 = int ?s" "level alaw m mod 16 = q" by simp_all
    have sum: "(q + 16) * 2 ^ k + 2 ^ (k - 1) = m - m mod 2 ^ k + 2 ^ (k - 1)" using d by (simp add: q_def)
    show ?thesis
    proof (cases alaw)
      case True
      then obtain j where j: "?s = Suc j" using False by (cases ?s) auto
      have "\<not> level alaw m < 16" using q j by simp
      then have "alaw_value (level alaw m) = (16 * q + 264) * 2 ^ j"
        using dm j True by (simp add: alaw_value_def)
      moreover have "(16 * q + 264) * 2 ^ j = (q + 16) * 2 ^ k + 2 ^ (k - 1)" by (simp add: k j power_add algebra_simps)
      ultimately show ?thesis using True sum by simp
    next
      case False
      have "ulaw_value (level alaw m) = (8 * q + 132) * 2 ^ ?s - 132" using dm by (simp add: ulaw_value_def)
      moreover have "(8 * q + 132) * 2 ^ ?s = (q + 16) * 2 ^ k + 2 ^ (k - 1)" by (simp add: k power_add algebra_simps)
      ultimately show ?thesis using False sum by simp
    qed
  qed
qed

lemma level_error:
  assumes m: "0 \<le> m" "alaw \<or> 132 \<le> m" and s: "m \<le> (if alaw then 32767 else 32900)"
  shows "32 * \<bar>(if alaw then alaw_value (level alaw m) else ulaw_value (level alaw m) + 132) - m\<bar> \<le> (if alaw then max 256 m else m)"
proof (cases "search m seg_end < 8")
  case True
  define k where "k = seg_shift alaw (search m seg_end)"
  have k: "0 < k" by (simp add: k_def seg_shift_def)
  then obtain j where j: "k = Suc j" by (cases k) auto
  have "alaw \<or> 128 \<le> m" using m(2) by linarith
  note V = level_value [OF m(1) this True, folded k_def]
  have md: "0 \<le> m mod 2 ^ k" "m mod 2 ^ k < 2 ^ k" by simp_all
  have "32 * 2 ^ j \<le> (if alaw then max 256 m else m)"
  proof (cases "search m seg_end = 0")
    case True
    then show ?thesis using m j by (auto simp: k_def seg_shift_def split: if_splits)
  next
    case False
    then have "j = search m seg_end + 2" using j by (simp add: k_def seg_shift_def)
    then show ?thesis using search_range(2) [OF m(1) True False]
      by (auto simp: power_add mult.commute [of _ "128 :: int"] intro: max.coboundedI2)
  qed
  moreover have "\<bar>(m - m mod 2 ^ k + 2 ^ (k - 1)) - m\<bar> \<le> 2 ^ j"
    using md unfolding j power_Suc diff_Suc_1 by linarith
  ultimately show ?thesis unfolding V using mult_left_mono [of _ "2 ^ j" "32 :: int"] by (meson order_trans zero_le_numeral)
next
  case False
  then have "32768 \<le> m" using m(1) by (cases rule: search_cases [OF m(1)]) auto
  then have "\<not> alaw" "level alaw m = 127" using s False by (auto simp: level_def split: if_splits)
  then show ?thesis using s \<open>32768 \<le> m\<close> by (simp add: ulaw_value_def)
qed

section \<open>Properties\<close>

text \<open>C23. Encoding what a code decodes to gives the code back: for every A-law code, and for every mu-law code but 0 and
  127, which decode to 0. Converting an A-law code to mu-law directly gives the sign bit that converting it through linear gives, and a level at most
  one away. So does converting a mu-law code to A-law, except for the sign of 127 (minus zero) and for the code 0.\<close>

theorem g711_roundtrip:
  assumes "0 \<le> c" "c < 256"
  shows "pjmedia_linear2alaw (pjmedia_alaw2linear c) = c \<and>
    pjmedia_linear2ulaw (pjmedia_ulaw2linear c) = (if c = 0 \<or> c = 127 then 255 else c) \<and>
    pjmedia_alaw2ulaw c div 128 = pjmedia_linear2ulaw (pjmedia_alaw2linear c) div 128 \<and>
    \<bar>(255 - pjmedia_alaw2ulaw c) mod 128 - (255 - pjmedia_linear2ulaw (pjmedia_alaw2linear c)) mod 128\<bar> \<le> 1 \<and>
    (c \<noteq> 0 \<and> c \<noteq> 127 \<longrightarrow> pjmedia_ulaw2alaw c div 128 = pjmedia_linear2alaw (pjmedia_ulaw2linear c) div 128) \<and>
    (c \<noteq> 0 \<longrightarrow> \<bar>(pjmedia_ulaw2alaw c XOR 0x55) mod 128 - (pjmedia_linear2alaw (pjmedia_ulaw2linear c) XOR 0x55) mod 128\<bar> \<le> 1)"
proof -
  have "list_all (\<lambda>c. pjmedia_linear2alaw (pjmedia_alaw2linear c) = c \<and>
    pjmedia_linear2ulaw (pjmedia_ulaw2linear c) = (if c = 0 \<or> c = 127 then 255 else c) \<and>
    pjmedia_alaw2ulaw c div 128 = pjmedia_linear2ulaw (pjmedia_alaw2linear c) div 128 \<and>
    \<bar>(255 - pjmedia_alaw2ulaw c) mod 128 - (255 - pjmedia_linear2ulaw (pjmedia_alaw2linear c)) mod 128\<bar> \<le> 1 \<and>
    (c \<noteq> 0 \<and> c \<noteq> 127 \<longrightarrow> pjmedia_ulaw2alaw c div 128 = pjmedia_linear2alaw (pjmedia_ulaw2linear c) div 128) \<and>
    (c \<noteq> 0 \<longrightarrow> \<bar>(pjmedia_ulaw2alaw c XOR 0x55) mod 128 - (pjmedia_linear2alaw (pjmedia_ulaw2linear c) XOR 0x55) mod 128\<bar> \<le> 1)) [0..255]"
    by code_simp
  from upto_induct [OF this assms(1)] show ?thesis using assms(2) by simp
qed

theorem g711_roundtrip_witness:
  "pjmedia_linear2alaw (pjmedia_alaw2linear 42) = 42 \<and> pjmedia_linear2ulaw (pjmedia_ulaw2linear 42) = 42"
  using g711_roundtrip [of 42] by simp

text \<open>C24. The codes of a 16-bit sample \<open>v\<close> fit a byte. Through mu-law \<open>v\<close> comes back within \<open>(\<bar>v\<bar> + 132) / 32\<close>, unless
  it is at most \<open>- 31612\<close>: then its code is 0, which decodes to 0. Through A-law a sample \<open>v\<close> from 0 up comes back within the larger of 8 and
  \<open>v / 32\<close>, one from \<open>- 8\<close> down comes back within the larger of 8 and \<open>(- v - 8) / 32\<close> of \<open>v + 8\<close>, and those between come back as \<open>- 8\<close>.\<close>

theorem g711_error:
  assumes "- 32768 \<le> v" "v \<le> 32767"
  shows "pjmedia_linear2ulaw v \<in> {0..255} \<and> pjmedia_linear2alaw v \<in> {0..255} \<and>
    (if v \<le> - 31612 then pjmedia_linear2ulaw v = 0 \<and> pjmedia_ulaw2linear 0 = 0
     else 32 * \<bar>pjmedia_ulaw2linear (pjmedia_linear2ulaw v) - v\<bar> \<le> \<bar>v\<bar> + 132) \<and>
    (0 \<le> v \<longrightarrow> 32 * \<bar>pjmedia_alaw2linear (pjmedia_linear2alaw v) - v\<bar> \<le> max 256 v) \<and>
    (v \<le> - 8 \<longrightarrow> 32 * \<bar>pjmedia_alaw2linear (pjmedia_linear2alaw v) - (v + 8)\<bar> \<le> max 256 (- v - 8)) \<and>
    (- 8 < v \<and> v < 0 \<longrightarrow> pjmedia_alaw2linear (pjmedia_linear2alaw v) = - 8)"
proof -
  have range: "level al m XOR k \<in> {0..255}" if "0 \<le> k" "k < 256" for al m k
    using XOR_upper [of "level al m" 8 k] XOR_lower [of "level al m" k] level_range [of al m] that by simp
  have top: "level False m = 127 \<longleftrightarrow> 31744 \<le> m" if "132 \<le> m" for m
  proof
    show "31744 \<le> m" if "level False m = 127"
    proof (rule ccontr)
      assume "\<not> 31744 \<le> m"
      then have "level False m \<le> level False 31743" using \<open>132 \<le> m\<close> by (intro level_mono) auto
      moreover have "level False 31743 = 126" by (simp add: level_def Let_def seg_end_def seg_shift_def)
      ultimately show False using that by simp
    qed
    have "level False 31744 = 127" by (simp add: level_def Let_def seg_end_def seg_shift_def)
    then show "level False m = 127" if "31744 \<le> m"
      using level_mono [of 31744 False m] level_range(2) [of False m] that by simp
  qed
  have "v \<le> - 31612 \<Longrightarrow> pjmedia_linear2ulaw v = 0 \<and> pjmedia_ulaw2linear 0 = 0"
    using top [of "132 - v"] by (simp add: linear2ulaw_level pjmedia_ulaw2linear_def)
  moreover have "32 * \<bar>pjmedia_ulaw2linear (pjmedia_linear2ulaw v) - v\<bar> \<le> \<bar>v\<bar> + 132" if "\<not> v \<le> - 31612"
  proof (cases "v < 0")
    case True
    then have "level False (132 - v) \<noteq> 127" using top [of "132 - v"] that by simp
    then have "pjmedia_ulaw2linear (pjmedia_linear2ulaw v) = - ulaw_value (level False (132 - v))"
      using True ulaw_decode(2) [OF level_range, of False "132 - v"] by (simp add: linear2ulaw_level)
    then show ?thesis using True assms level_error [of "132 - v" False]
        abs_minus_cancel [of "ulaw_value (level False (132 - v)) + v"] by simp
  next
    case False
    then show ?thesis
      using assms level_error [of "v + 132" False] ulaw_decode(1) [OF level_range, of False "v + 132"]
      by (simp add: linear2ulaw_level)
  qed
  moreover have "0 \<le> v \<Longrightarrow> 32 * \<bar>pjmedia_alaw2linear (pjmedia_linear2alaw v) - v\<bar> \<le> max 256 v"
    using level_error [of v True] assms alaw_decode(1) [OF level_range, of True v] by (simp add: linear2alaw_level)
  moreover have "32 * \<bar>pjmedia_alaw2linear (pjmedia_linear2alaw v) - (v + 8)\<bar> \<le> max 256 (- v - 8)" if "v \<le> - 8"
  proof -
    define A where "A = alaw_value (level True (- v - 8))"
    have "pjmedia_alaw2linear (pjmedia_linear2alaw v) = - A"
      using that alaw_decode(2) [OF level_range, of True "- v - 8"] by (simp add: linear2alaw_level A_def)
    moreover have "32 * \<bar>A - (- v - 8)\<bar> \<le> max 256 (- v - 8)"
      using level_error [of "- v - 8" True] that assms by (simp add: A_def)
    moreover have "\<bar>- A - (v + 8)\<bar> = \<bar>A - (- v - 8)\<bar>" by arith
    ultimately show ?thesis by metis
  qed
  moreover have "pjmedia_alaw2linear (pjmedia_linear2alaw v) = - 8" if "- 8 < v" "v < 0"
  proof -
    have "level True 0 = 0" "alaw_value 0 = 8" by (simp_all add: level_def seg_end_def alaw_value_def)
    then show ?thesis
      using that alaw_decode(2) [of 0] by (simp add: linear2alaw_level max_def)
  qed
  moreover have "pjmedia_linear2ulaw v \<in> {0..255}" "pjmedia_linear2alaw v \<in> {0..255}"
    using range level_range(1) by (simp_all add: linear2ulaw_level linear2alaw_level)
  ultimately show ?thesis by auto
qed

theorem g711_error_witness: "32 * \<bar>pjmedia_ulaw2linear (pjmedia_linear2ulaw 1000) - 1000\<bar> \<le> 1132"
  using g711_error [of 1000] by simp

end
