(* ===== verification/Hash.thy ===== *)
theory Hash
  imports Prelude Machine
begin

text \<open>
  The hash table (\<open>pjlib/src/pj/hash.c\<close>): rows of singly linked entries, looked up by a hash value that callers
  may pass in. A chain of entries is the list of its entries; a pointer into it (\<open>p_entry\<close>, the
  iterator) is its row and position. A key is the memory at the key pointer, of which \<open>keylen\<close>
  says how much is the key; an entry holds the key's bytes, whether they were copied to the pool or
  stay where the caller keeps them. Values are pointers, \<open>None\<close> is NULL. Allocation from a
  pool succeeds, and a caller's entry buffer is not used for two entries at a time.
\<close>

section \<open>State\<close>

record 'v hash_entry =
  he_key :: "u8 list"
  he_hash :: u32
  he_value :: 'v

record 'v hash_table =
  ht_table :: "'v hash_entry list list"
  ht_count :: nat
  ht_rows :: nat

definition PJ_HASH_MULTIPLIER :: u32 where "PJ_HASH_MULTIPLIER = 33"

definition PJ_HASH_KEY_STRING :: nat where "PJ_HASH_KEY_STRING = 2 ^ 32 - 1"

section \<open>Keys and hash values\<close>

text \<open>The bytes a key argument denotes; \<open>None\<close> if reading them leaves the memory at the pointer.\<close>

definition key_bytes :: "u8 list \<Rightarrow> nat \<Rightarrow> u8 list option" where
  "key_bytes key keylen =
     (if keylen = PJ_HASH_KEY_STRING
      then (if 0 \<in> set key then Some (takeWhile (\<lambda>b. b \<noteq> 0) key) else None)
      else if keylen \<le> length key then Some (take keylen key) else None)"

text \<open>\<open>tolower\<close> of the C locale.\<close>

definition pj_tolower :: "int \<Rightarrow> int" where
  "pj_tolower c = (if 65 \<le> c \<and> c \<le> 90 then c + 32 else c)"

definition lower8 :: "u8 \<Rightarrow> u8" where
  "lower8 b = word_of_int (pj_tolower (uint b))"

definition pj_hash_calc :: "u32 \<Rightarrow> u8 list \<Rightarrow> nat \<Rightarrow> u32 option" where
  "pj_hash_calc hash key keylen =
     map_option (foldl (\<lambda>hash b. hash * PJ_HASH_MULTIPLIER + ucast b) hash) (key_bytes key keylen)"

text \<open>Here the key is a \<open>char\<close> string, whose characters \<open>pj_tolower\<close> takes as \<open>unsigned char\<close>.\<close>

definition pj_hash_calc_tolower :: "u32 \<Rightarrow> u8 list \<Rightarrow> u32 \<times> u8 list" where
  "pj_hash_calc_tolower hval key =
     (foldl (\<lambda>hval b. hval * PJ_HASH_MULTIPLIER + word_of_int (pj_tolower (uint b))) hval key,
      map (\<lambda>b. word_of_int (pj_tolower (uint b))) key)"

text \<open>The hash value \<open>find_entry\<close> computes.\<close>

definition entry_hash :: "bool \<Rightarrow> u8 list \<Rightarrow> u32" where
  "entry_hash lower key =
     foldl (\<lambda>hash b. if lower then hash * PJ_HASH_MULTIPLIER + word_of_int (pj_tolower (uint b))
                     else hash * PJ_HASH_MULTIPLIER + ucast b) 0 key"

text \<open>\<open>strncasecmp\<close> of strings of the same length is 0: it stops at a null character.\<close>

fun strnicmp_eq :: "u8 list \<Rightarrow> u8 list \<Rightarrow> bool" where
  "strnicmp_eq (x # xs) (y # ys) \<longleftrightarrow> lower8 x = lower8 y \<and> (x = 0 \<or> strnicmp_eq xs ys)"
| "strnicmp_eq [] ys \<longleftrightarrow> ys = []"
| "strnicmp_eq xs [] \<longleftrightarrow> xs = []"

section \<open>Operations\<close>

text \<open>\<open>pj_hash_create\<close>; doubling 2147483648 gives 0, so for a larger size the loop does not end.\<close>

partial_function (option) grow_size :: "nat \<Rightarrow> nat \<Rightarrow> nat option" where
  "grow_size table_size sz =
     (if uwrap (2 * table_size) < sz then grow_size (uwrap (2 * table_size)) sz else Some (uwrap (2 * table_size)))"

definition pj_hash_create :: "nat \<Rightarrow> 'v hash_table option" where
  "pj_hash_create sz =
     map_option (\<lambda>table_size. let table_size = table_size - 1
                  in \<lparr>ht_table = replicate (table_size + 1) [], ht_count = 0, ht_rows = table_size\<rparr>)
       (grow_size 8 sz)"

definition entry_matches :: "u32 \<Rightarrow> u8 list \<Rightarrow> bool \<Rightarrow> 'v hash_entry \<Rightarrow> bool" where
  "entry_matches hash key lower entry \<longleftrightarrow>
     he_hash entry = hash \<and> length (he_key entry) = length key \<and>
     ((lower \<and> strnicmp_eq (he_key entry) key) \<or> (\<not> lower \<and> he_key entry = key))"

text \<open>The scan of a chain: the position of the first match, or the end.\<close>

primrec scan_chain :: "('v hash_entry \<Rightarrow> bool) \<Rightarrow> 'v hash_entry list \<Rightarrow> nat" where
  "scan_chain P [] = 0"
| "scan_chain P (x # xs) = (if P x then 0 else scan_chain P xs + 1)"

text \<open>\<open>pool\<close> and \<open>entry_buf\<close> say whether they are given; without both, a missing entry makes the
  function return NULL, which its callers dereference.\<close>

definition find_entry ::
  "bool \<Rightarrow> 'v hash_table \<Rightarrow> u8 list \<Rightarrow> nat \<Rightarrow> 'v option \<Rightarrow> u32 option \<Rightarrow> bool \<Rightarrow> bool \<Rightarrow>
   ('v hash_table \<times> u32 option \<times> nat \<times> nat) option" where
  "find_entry pool ht key keylen val hval entry_buf lower =
     Option.bind (key_bytes key keylen) (\<lambda>key.
       let (hash, hval) =
             (case hval of
                Some h \<Rightarrow> if h \<noteq> 0 then (h, Some h) else (entry_hash lower key, Some (entry_hash lower key))
              | None \<Rightarrow> (entry_hash lower key, None));
           row = unat (hash AND of_nat (ht_rows ht));
           chain = ht_table ht ! row;
           pos = scan_chain (entry_matches hash key lower) chain
       in case val of
            None \<Rightarrow> Some (ht, hval, row, pos)
          | Some v \<Rightarrow>
              if pos < length chain then Some (ht, hval, row, pos)
              else if \<not> entry_buf \<and> \<not> pool then None
              else Some (ht\<lparr>ht_table := (ht_table ht)[row := chain @ [\<lparr>he_key = key, he_hash = hash, he_value = v\<rparr>]],
                           ht_count := uwrap (ht_count ht + 1)\<rparr>, hval, row, pos))"

definition entry_at :: "'v hash_table \<Rightarrow> nat \<Rightarrow> nat \<Rightarrow> 'v hash_entry option" where
  "entry_at ht row pos = (if pos < length (ht_table ht ! row) then Some (ht_table ht ! row ! pos) else None)"

text \<open>The value and the hash value reported back, of a lookup.\<close>

definition hash_get :: "'v hash_table \<Rightarrow> u8 list \<Rightarrow> nat \<Rightarrow> u32 option \<Rightarrow> bool \<Rightarrow> ('v option \<times> u32 option) option" where
  "hash_get ht key keylen hval lower =
     map_option (\<lambda>(ht, hval, row, pos). (map_option he_value (entry_at ht row pos), hval))
       (find_entry False ht key keylen None hval False lower)"

definition pj_hash_get :: "'v hash_table \<Rightarrow> u8 list \<Rightarrow> nat \<Rightarrow> u32 option \<Rightarrow> ('v option \<times> u32 option) option" where
  "pj_hash_get ht key keylen hval = hash_get ht key keylen hval False"

definition pj_hash_get_lower :: "'v hash_table \<Rightarrow> u8 list \<Rightarrow> nat \<Rightarrow> u32 option \<Rightarrow> ('v option \<times> u32 option) option" where
  "pj_hash_get_lower ht key keylen hval = hash_get ht key keylen hval True"

definition hash_set ::
  "bool \<Rightarrow> 'v hash_table \<Rightarrow> u8 list \<Rightarrow> nat \<Rightarrow> u32 \<Rightarrow> 'v option \<Rightarrow> bool \<Rightarrow> bool \<Rightarrow> 'v hash_table option" where
  "hash_set pool ht key keylen hval val entry_buf lower =
     map_option
       (\<lambda>(ht, _, row, pos).
          let chain = ht_table ht ! row
          in if pos < length chain then
               (case val of
                  None \<Rightarrow> ht\<lparr>ht_table := (ht_table ht)[row := take pos chain @ drop (pos + 1) chain],
                             ht_count := usub32 (ht_count ht) 1\<rparr>
                | Some v \<Rightarrow> ht\<lparr>ht_table := (ht_table ht)[row := chain[pos := (chain ! pos)\<lparr>he_value := v\<rparr>]]\<rparr>)
             else ht)
       (find_entry pool ht key keylen val (Some hval) entry_buf lower)"

definition pj_hash_set :: "bool \<Rightarrow> 'v hash_table \<Rightarrow> u8 list \<Rightarrow> nat \<Rightarrow> u32 \<Rightarrow> 'v option \<Rightarrow> 'v hash_table option" where
  "pj_hash_set pool ht key keylen hval val = hash_set pool ht key keylen hval val False False"

definition pj_hash_set_lower :: "bool \<Rightarrow> 'v hash_table \<Rightarrow> u8 list \<Rightarrow> nat \<Rightarrow> u32 \<Rightarrow> 'v option \<Rightarrow> 'v hash_table option" where
  "pj_hash_set_lower pool ht key keylen hval val = hash_set pool ht key keylen hval val False True"

definition pj_hash_set_np :: "'v hash_table \<Rightarrow> u8 list \<Rightarrow> nat \<Rightarrow> u32 \<Rightarrow> bool \<Rightarrow> 'v option \<Rightarrow> 'v hash_table option" where
  "pj_hash_set_np ht key keylen hval entry_buf val = hash_set False ht key keylen hval val entry_buf False"

definition pj_hash_set_np_lower :: "'v hash_table \<Rightarrow> u8 list \<Rightarrow> nat \<Rightarrow> u32 \<Rightarrow> bool \<Rightarrow> 'v option \<Rightarrow> 'v hash_table option" where
  "pj_hash_set_np_lower ht key keylen hval entry_buf val = hash_set False ht key keylen hval val entry_buf True"

definition pj_hash_count :: "'v hash_table \<Rightarrow> nat" where
  "pj_hash_count ht = ht_count ht"

text \<open>An iterator is a row and a position; the scan for the next row that is not empty is shared.\<close>

function next_row :: "'v hash_table \<Rightarrow> nat \<Rightarrow> (nat \<times> nat) option" where
  "next_row ht index =
     (if index \<le> ht_rows ht
      then (if ht_table ht ! index \<noteq> [] then Some (index, 0) else next_row ht (index + 1))
      else None)"
  by auto
termination by (relation "measure (\<lambda>(ht, index). ht_rows ht + 1 - index)") auto

declare next_row.simps [simp del]

definition pj_hash_first :: "'v hash_table \<Rightarrow> (nat \<times> nat) option" where
  "pj_hash_first ht = next_row ht 0"

definition pj_hash_next :: "'v hash_table \<Rightarrow> nat \<times> nat \<Rightarrow> (nat \<times> nat) option" where
  "pj_hash_next ht it =
     (if snd it + 1 < length (ht_table ht ! fst it) then Some (fst it, snd it + 1)
      else next_row ht (fst it + 1))"

definition pj_hash_this :: "'v hash_table \<Rightarrow> nat \<times> nat \<Rightarrow> 'v" where
  "pj_hash_this ht it = he_value (ht_table ht ! fst it ! snd it)"


section \<open>Keys up to case\<close>

text \<open>The key an operation means: \<open>lower\<close> is the variant that ignores case.\<close>

definition norm_key :: "bool \<Rightarrow> u8 list \<Rightarrow> u8 list" where
  "norm_key lower key = (if lower then map lower8 key else key)"

definition key_ok :: "bool \<Rightarrow> u8 list \<Rightarrow> bool" where
  "key_ok lower key \<longleftrightarrow> (lower \<longrightarrow> 0 \<notin> set key)"

definition norm_hash :: "u8 list \<Rightarrow> u32" where
  "norm_hash key = foldl (\<lambda>hash b. hash * PJ_HASH_MULTIPLIER + ucast b) 0 key"

lemma ucast_lower8: "(ucast (lower8 b) :: u32) = word_of_int (pj_tolower (uint b))"
proof -
  have "0 \<le> pj_tolower (uint b)" "pj_tolower (uint b) < 256"
    using uint_lt2p [of b] by (auto simp: pj_tolower_def)
  then show ?thesis
    by (simp add: lower8_def unsigned_of_int take_bit_int_eq_self)
qed

lemma entry_hash_norm: "entry_hash lower key = norm_hash (norm_key lower key)"
  by (simp add: entry_hash_def norm_hash_def norm_key_def foldl_map ucast_lower8)

lemma pj_hash_calc_result: "key_bytes key keylen = Some k \<Longrightarrow> pj_hash_calc 0 key keylen = Some (entry_hash False k)"
  by (simp add: pj_hash_calc_def entry_hash_def)

text \<open>\<open>pj_hash_calc_tolower\<close> gives the hash value and the key that the operations ignoring case use.\<close>

lemma pj_hash_calc_tolower_result: "pj_hash_calc_tolower 0 key = (entry_hash True key, norm_key True key)"
  by (simp add: pj_hash_calc_tolower_def entry_hash_def norm_key_def lower8_def)

lemma strnicmp_eq_norm: "length xs = length ys \<Longrightarrow> 0 \<notin> set xs \<Longrightarrow> strnicmp_eq xs ys \<longleftrightarrow> map lower8 xs = map lower8 ys"
  by (induction xs ys rule: strnicmp_eq.induct) auto

lemma entry_matches_iff:
  assumes "key_ok lower (he_key e)" "he_hash e = entry_hash lower (he_key e)"
  shows "entry_matches (entry_hash lower key) key lower e \<longleftrightarrow> norm_key lower (he_key e) = norm_key lower key"
proof
  assume "norm_key lower (he_key e) = norm_key lower key"
  moreover from this have "length (he_key e) = length key" by (auto simp: norm_key_def split: if_splits dest: map_eq_imp_length_eq)
  ultimately show "entry_matches (entry_hash lower key) key lower e"
    using assms strnicmp_eq_norm [of "he_key e" key]
    by (cases lower) (simp_all add: entry_matches_def entry_hash_norm, simp_all add: norm_key_def key_ok_def)
next
  assume "entry_matches (entry_hash lower key) key lower e"
  then show "norm_key lower (he_key e) = norm_key lower key"
    using assms strnicmp_eq_norm [of "he_key e" key]
    by (cases lower) (simp_all add: entry_matches_def norm_key_def key_ok_def)
qed

section \<open>Chains as association lists\<close>

definition chain_alist :: "bool \<Rightarrow> 'v hash_entry list \<Rightarrow> (u8 list \<times> 'v) list" where
  "chain_alist lower es = map (\<lambda>e. (norm_key lower (he_key e), he_value e)) es"

abbreviation scan_key :: "bool \<Rightarrow> u8 list \<Rightarrow> 'v hash_entry list \<Rightarrow> nat" where
  "scan_key lower n es \<equiv> scan_chain (\<lambda>e. norm_key lower (he_key e) = n) es"

lemma scan_chain_le: "scan_chain P xs \<le> length xs"
  by (induction xs) auto

lemma scan_chain_cong: "(\<And>x. x \<in> set xs \<Longrightarrow> P x = Q x) \<Longrightarrow> scan_chain P xs = scan_chain Q xs"
  by (induction xs) auto

lemma chain_lookup:
  "map_of (chain_alist lower es) n =
    (if scan_key lower n es < length es then Some (he_value (es ! scan_key lower n es)) else None)"
  by (induction es) (auto simp: chain_alist_def)

lemma chain_present: "scan_key lower n es < length es \<longleftrightarrow> n \<in> norm_key lower ` he_key ` set es"
  by (induction es) auto

lemma chain_overwrite:
  "scan_key lower n es < length es \<Longrightarrow>
    map_of (chain_alist lower (es[scan_key lower n es := (es ! scan_key lower n es)\<lparr>he_value := v\<rparr>])) =
      (map_of (chain_alist lower es))(n \<mapsto> v)"
  by (induction es) (auto simp: chain_alist_def fun_eq_iff)

lemma chain_delete:
  "scan_key lower n es < length es \<Longrightarrow> distinct (map (norm_key lower \<circ> he_key) es) \<Longrightarrow>
    map_of (chain_alist lower (take (scan_key lower n es) es @ drop (scan_key lower n es + 1) es)) =
      (map_of (chain_alist lower es))(n := None)"
proof (induction es)
  case (Cons e es)
  show ?case
  proof (cases "norm_key lower (he_key e) = n")
    case True
    then have "n \<notin> fst ` set (chain_alist lower es)" using Cons.prems(2) by (auto simp: chain_alist_def)
    then have "map_of (chain_alist lower es) n = None" by (simp add: map_of_eq_None_iff)
    then show ?thesis using True by (auto simp: chain_alist_def fun_eq_iff)
  next
    case False
    then show ?thesis using Cons by (auto simp: chain_alist_def fun_eq_iff)
  qed
qed simp

lemma chain_append:
  "\<not> scan_key lower n es < length es \<Longrightarrow> norm_key lower (he_key e) = n \<Longrightarrow>
    map_of (chain_alist lower (es @ [e])) = (map_of (chain_alist lower es))(n \<mapsto> he_value e)"
  by (induction es) (auto simp: chain_alist_def fun_eq_iff split: if_splits)

section \<open>The table\<close>

definition row_of :: "'v hash_table \<Rightarrow> u32 \<Rightarrow> nat" where
  "row_of ht hash = unat (hash AND of_nat (ht_rows ht))"

definition chain_ok :: "bool \<Rightarrow> 'v hash_table \<Rightarrow> nat \<Rightarrow> 'v hash_entry list \<Rightarrow> bool" where
  "chain_ok lower ht r es \<longleftrightarrow> distinct (map (norm_key lower \<circ> he_key) es) \<and>
     (\<forall>e \<in> set es. he_hash e = entry_hash lower (he_key e) \<and> row_of ht (he_hash e) = r \<and> key_ok lower (he_key e))"

definition ht_inv :: "bool \<Rightarrow> 'v hash_table \<Rightarrow> bool" where
  "ht_inv lower ht \<longleftrightarrow> length (ht_table ht) = ht_rows ht + 1 \<and> ht_rows ht < 2 ^ 32 \<and>
     ht_count ht = uwrap (length (concat (ht_table ht))) \<and>
     (\<forall>r < length (ht_table ht). chain_ok lower ht r (ht_table ht ! r))"

definition ht_map :: "bool \<Rightarrow> 'v hash_table \<Rightarrow> u8 list \<Rightarrow> 'v option" where
  "ht_map lower ht n = map_of (chain_alist lower (ht_table ht ! row_of ht (norm_hash n))) n"

lemma row_of_less: "ht_inv lower ht \<Longrightarrow> row_of ht hash < length (ht_table ht)"
proof -
  assume I: "ht_inv lower ht"
  have "hash AND of_nat (ht_rows ht) \<le> of_nat (ht_rows ht)" by (simp add: word_and_le1)
  then have "row_of ht hash \<le> unat (of_nat (ht_rows ht) :: u32)" by (simp add: row_of_def word_le_nat_alt)
  also have "\<dots> = ht_rows ht" using I by (simp add: ht_inv_def unat_of_nat)
  finally show ?thesis using I by (simp add: ht_inv_def)
qed

lemma row_of_frame [simp]: "row_of (ht\<lparr>ht_table := t\<rparr>) = row_of ht" "row_of (ht\<lparr>ht_count := c\<rparr>) = row_of ht"
  by (simp_all add: row_of_def fun_eq_iff)

lemma length_concat_update:
  "r < length xss \<Longrightarrow> length (concat (xss[r := ys])) + length (xss ! r) = length (concat xss) + length ys"
proof (induction xss arbitrary: r)
  case (Cons xs xss)
  then show ?case by (cases r) auto
qed simp

text \<open>Replacing the chain of the row of a key.\<close>

lemma ht_replace:
  assumes I: "ht_inv lower ht" and r: "r = row_of ht (norm_hash n)"
    and es: "chain_ok lower ht r es" "map_of (chain_alist lower es) = (map_of (chain_alist lower (ht_table ht ! r)))(n := v)"
    and c: "c = uwrap (length (concat ((ht_table ht)[r := es])))"
  defines "ht' \<equiv> ht\<lparr>ht_table := (ht_table ht)[r := es], ht_count := c\<rparr>"
  shows "ht_inv lower ht'" "ht_map lower ht' = (ht_map lower ht)(n := v)"
proof -
  have ok: "chain_ok lower ht' q = chain_ok lower ht q" for q by (simp add: chain_ok_def ht'_def fun_eq_iff)
  have len: "r < length (ht_table ht)" using row_of_less [OF I] r by simp
  have "chain_ok lower ht' q (ht_table ht' ! q)" if "q < length (ht_table ht)" for q
    using I es(1) len that unfolding ok by (cases "q = r") (auto simp: ht_inv_def ht'_def)
  then show "ht_inv lower ht'" using I c by (simp add: ht_inv_def ht'_def)
  have "ht_map lower ht' m = ((ht_map lower ht)(n := v)) m" for m
  proof (cases "row_of ht (norm_hash m) = r")
    case True
    then show ?thesis using len r es(2) by (simp add: ht_map_def ht'_def)
  next
    case False
    then show ?thesis using r by (auto simp: ht_map_def ht'_def)
  qed
  then show "ht_map lower ht' = (ht_map lower ht)(n := v)" by blast
qed

lemma distinct_drop_nth: "distinct xs \<Longrightarrow> distinct (take n xs @ drop (n + 1) xs)"
  using set_take_disj_set_drop_if_distinct [of xs n "n + 1"] by simp

section \<open>Lookup and update\<close>

definition hval_ok :: "bool \<Rightarrow> u8 list \<Rightarrow> u32 \<Rightarrow> bool" where
  "hval_ok lower k hval \<longleftrightarrow> hval = 0 \<or> hval = entry_hash lower k"

text \<open>\<open>find_entry\<close> with the hash value of the key, computed or passed in.\<close>

lemma find_entry_result:
  assumes I: "ht_inv lower ht" and k: "key_bytes key keylen = Some k" "key_ok lower k"
    and h: "\<forall>h. hval = Some h \<longrightarrow> hval_ok lower k h"
  defines "r \<equiv> row_of ht (entry_hash lower k)"
  defines "pos \<equiv> scan_key lower (norm_key lower k) (ht_table ht ! r)"
  shows "find_entry pool ht key keylen val hval buf lower =
    (case val of
       None \<Rightarrow> Some (ht, map_option (\<lambda>_. entry_hash lower k) hval, r, pos)
     | Some v \<Rightarrow>
         if pos < length (ht_table ht ! r) then Some (ht, map_option (\<lambda>_. entry_hash lower k) hval, r, pos)
         else if \<not> buf \<and> \<not> pool then None
         else Some (ht\<lparr>ht_table := (ht_table ht)[r := ht_table ht ! r @ [\<lparr>he_key = k, he_hash = entry_hash lower k, he_value = v\<rparr>]],
                      ht_count := uwrap (ht_count ht + 1)\<rparr>, map_option (\<lambda>_. entry_hash lower k) hval, r, pos))"
proof -
  have e: "(case hval of
      Some h \<Rightarrow> if h \<noteq> 0 then (h, Some h) else (entry_hash lower k, Some (entry_hash lower k))
    | None \<Rightarrow> (entry_hash lower k, None)) = (entry_hash lower k, map_option (\<lambda>_. entry_hash lower k) hval)"
    using h by (auto simp: hval_ok_def split: option.split)
  have "r < length (ht_table ht)" using row_of_less [OF I] by (simp add: r_def)
  then have "chain_ok lower ht r (ht_table ht ! r)" using I by (simp add: ht_inv_def)
  then have "scan_chain (entry_matches (entry_hash lower k) k lower) (ht_table ht ! r) = pos"
    unfolding pos_def by (intro scan_chain_cong entry_matches_iff) (auto simp: chain_ok_def)
  then show ?thesis
    unfolding find_entry_def k(1) Option.bind.simps(2) e Let_def prod.case row_of_def [symmetric] r_def [symmetric]
    by (cases val) simp_all
qed

lemma hash_get_result:
  assumes I: "ht_inv lower ht" and k: "key_bytes key keylen = Some k" "key_ok lower k"
    and h: "\<forall>h. hval = Some h \<longrightarrow> hval_ok lower k h"
  shows "hash_get ht key keylen hval lower =
    Some (ht_map lower ht (norm_key lower k), map_option (\<lambda>_. entry_hash lower k) hval)"
  unfolding hash_get_def find_entry_result [OF assms]
  by (simp add: ht_map_def chain_lookup entry_at_def entry_hash_norm)

lemma hash_set_result:
  assumes I: "ht_inv lower ht" and k: "key_bytes key keylen = Some k" "key_ok lower k" "hval_ok lower k hval"
    and p: "pool \<or> buf"
  shows "\<exists>ht'. hash_set pool ht key keylen hval val buf lower = Some ht' \<and> ht_inv lower ht' \<and>
    ht_map lower ht' = (ht_map lower ht)(norm_key lower k := val)"
proof -
  define r where "r = row_of ht (entry_hash lower k)"
  define n where "n = norm_key lower k"
  define es where "es = ht_table ht ! r"
  define pos where "pos = scan_key lower n es"
  have r: "r = row_of ht (norm_hash n)" by (simp add: r_def n_def entry_hash_norm)
  have len: "r < length (ht_table ht)" using row_of_less [OF I] by (simp add: r_def)
  have ok: "chain_ok lower ht r es" using I len by (simp add: ht_inv_def es_def)
  have cnt: "ht_count ht = uwrap (length (concat (ht_table ht)))" using I by (simp add: ht_inv_def)
  note upd = length_concat_update [OF len, folded es_def]
  have "\<forall>h. Some hval = Some h \<longrightarrow> hval_ok lower k h" using k(3) by simp
  note F = find_entry_result [OF I k(1,2) this, folded r_def n_def, folded es_def, folded pos_def]
  show ?thesis
  proof (cases "pos < length es")
    case True
    note at = nth_mem [OF True]
    show ?thesis
    proof (cases val)
      case None
      define es' where "es' = take pos es @ drop (pos + 1) es"
      have "length es = length es' + 1" using True by (simp add: es'_def)
      then have l: "length (concat (ht_table ht)) = length (concat ((ht_table ht)[r := es'])) + 1" using upd [of es'] by simp
      have "chain_ok lower ht r es'"
        using ok distinct_drop_nth [of "map (norm_key lower \<circ> he_key) es" pos] unfolding chain_ok_def es'_def
        by (auto simp: take_map drop_map dest: in_set_takeD in_set_dropD)
      moreover have "map_of (chain_alist lower es') = (map_of (chain_alist lower es))(n := None)"
        unfolding es'_def pos_def by (rule chain_delete) (use True ok in \<open>auto simp: pos_def chain_ok_def\<close>)
      moreover have "usub32 (ht_count ht) 1 = uwrap (length (concat ((ht_table ht)[r := es'])))"
        unfolding cnt l by (subst usub32_uwrap) simp_all
      ultimately have "ht_inv lower (ht\<lparr>ht_table := (ht_table ht)[r := es'], ht_count := usub32 (ht_count ht) 1\<rparr>)"
        "ht_map lower (ht\<lparr>ht_table := (ht_table ht)[r := es'], ht_count := usub32 (ht_count ht) 1\<rparr>) = (ht_map lower ht)(n := None)"
        using ht_replace [OF I r, of es' None] by (simp_all add: es_def)
      moreover have "hash_set pool ht key keylen hval val buf lower =
          Some (ht\<lparr>ht_table := (ht_table ht)[r := es'], ht_count := usub32 (ht_count ht) 1\<rparr>)"
        using True by (simp add: hash_set_def F None Let_def es'_def flip: es_def)
      ultimately show ?thesis unfolding None n_def by blast
    next
      case (Some v)
      define es' where "es' = es[pos := (es ! pos)\<lparr>he_value := v\<rparr>]"
      have keys: "map he_key es' = map he_key es" by (simp add: es'_def map_update list_update_same_conv True)
      have "\<exists>e0 \<in> set es. he_key e = he_key e0 \<and> he_hash e = he_hash e0" if "e \<in> set es'" for e
      proof (cases "e = (es ! pos)\<lparr>he_value := v\<rparr>")
        case True
        then show ?thesis using at by (intro bexI [of _ "es ! pos"]) simp_all
      next
        case False
        then have "e \<in> set es" using that set_update_subset_insert [of es pos "(es ! pos)\<lparr>he_value := v\<rparr>"] by (auto simp: es'_def)
        then show ?thesis by blast
      qed
      moreover have "distinct (map (norm_key lower \<circ> he_key) es')"
        using ok keys unfolding chain_ok_def by (metis list.map_comp)
      ultimately have "chain_ok lower ht r es'" using ok unfolding chain_ok_def by metis
      moreover have "map_of (chain_alist lower es') = (map_of (chain_alist lower es))(n := Some v)"
        unfolding es'_def pos_def by (rule chain_overwrite) (use True in \<open>simp add: pos_def\<close>)
      moreover have "ht_count ht = uwrap (length (concat ((ht_table ht)[r := es'])))"
        using upd [of es'] by (simp add: cnt es'_def)
      ultimately have "ht_inv lower (ht\<lparr>ht_table := (ht_table ht)[r := es'], ht_count := ht_count ht\<rparr>)"
        "ht_map lower (ht\<lparr>ht_table := (ht_table ht)[r := es'], ht_count := ht_count ht\<rparr>) = (ht_map lower ht)(n := Some v)"
        using ht_replace [OF I r, of es' "Some v"] by (simp_all add: es_def)
      moreover have "hash_set pool ht key keylen hval val buf lower =
          Some (ht\<lparr>ht_table := (ht_table ht)[r := es'], ht_count := ht_count ht\<rparr>)"
        using True by (simp add: hash_set_def F Some Let_def es'_def flip: es_def)
      ultimately show ?thesis unfolding Some n_def by blast
    qed
  next
    case False
    show ?thesis
    proof (cases val)
      case None
      have "ht_map lower ht n = None" using False r by (simp add: ht_map_def chain_lookup es_def pos_def)
      then show ?thesis using None False F I by (auto simp: hash_set_def Let_def es_def n_def fun_eq_iff)
    next
      case (Some v)
      define e where "e = \<lparr>he_key = k, he_hash = entry_hash lower k, he_value = v\<rparr>"
      have n: "norm_key lower (he_key e) = n" by (simp add: e_def n_def)
      have fresh: "n \<notin> norm_key lower ` he_key ` set es" using False chain_present unfolding pos_def by blast
      have "chain_ok lower ht r (es @ [e])"
        using ok fresh k(2) n by (auto simp: chain_ok_def e_def r_def image_image)
      moreover have "map_of (chain_alist lower (es @ [e])) = (map_of (chain_alist lower es))(n := Some v)"
        using chain_append [of lower n es e] False n by (simp add: pos_def e_def)
      moreover have "uwrap (ht_count ht + 1) = uwrap (length (concat ((ht_table ht)[r := es @ [e]])))"
        using upd [of "es @ [e]"] by (simp add: cnt mod_Suc_eq)
      ultimately have R: "ht_inv lower (ht\<lparr>ht_table := (ht_table ht)[r := es @ [e]], ht_count := uwrap (ht_count ht + 1)\<rparr>)"
        "ht_map lower (ht\<lparr>ht_table := (ht_table ht)[r := es @ [e]], ht_count := uwrap (ht_count ht + 1)\<rparr>) = (ht_map lower ht)(n := Some v)"
        using ht_replace [OF I r, of "es @ [e]" "Some v"] by (simp_all add: es_def)
      have p: "pos = length es" using False scan_chain_le [of _ es] by (simp add: pos_def le_antisym not_less)
      define ht1 where "ht1 = ht\<lparr>ht_table := (ht_table ht)[r := es @ [e]], ht_count := uwrap (ht_count ht + 1)\<rparr>"
      have at: "ht_table ht1 ! r = es @ [e]" "(ht_table ht1)[r := es @ [e]] = ht_table ht1" using len by (simp_all add: ht1_def)
      have "(es @ [e])[pos := ((es @ [e]) ! pos)\<lparr>he_value := v\<rparr>] = es @ [e]" by (simp add: e_def p)
      moreover have "find_entry pool ht key keylen val (Some hval) buf lower = Some (ht1, Some (entry_hash lower k), r, pos)"
        using assms(5) False by (auto simp: F Some ht1_def e_def)
      ultimately have "hash_set pool ht key keylen hval val buf lower = Some (ht1\<lparr>ht_table := ht_table ht1\<rparr>)"
        using at p by (simp add: hash_set_def Some Let_def)
      then show ?thesis using R unfolding Some n_def ht1_def [symmetric] by simp
    qed
  qed
qed


section \<open>The whole table as one association list\<close>

lemma distinct_concat_rows:
  assumes "\<And>r. r < length xss \<Longrightarrow> distinct (xss ! r)"
    and "\<And>r s x. r < length xss \<Longrightarrow> s < length xss \<Longrightarrow> x \<in> set (xss ! r) \<Longrightarrow> x \<in> set (xss ! s) \<Longrightarrow> r = s"
  shows "distinct (concat xss)"
  using assms
proof (induction xss)
  case (Cons xs xss)
  have "distinct (concat xss)"
    using Cons.IH Cons.prems(1) [of "Suc r" for r] Cons.prems(2) [of "Suc r" "Suc s" for r s] by fastforce
  moreover have "set xs \<inter> set (concat xss) = {}"
    using Cons.prems(2) [of 0 "Suc s" for s] by (fastforce simp: in_set_conv_nth)
  ultimately show ?case using Cons.prems(1) [of 0] by simp
qed simp

lemma ht_alist:
  assumes I: "ht_inv lower ht"
  shows "distinct (map fst (chain_alist lower (concat (ht_table ht))))"
    "map_of (chain_alist lower (concat (ht_table ht))) = ht_map lower ht"
proof -
  let ?key = "norm_key lower \<circ> he_key"
  let ?t = "ht_table ht"
  have ok: "chain_ok lower ht r (?t ! r)" if "r < length ?t" for r using I that by (simp add: ht_inv_def)
  have row: "row_of ht (norm_hash (?key e)) = r" if "r < length ?t" "e \<in> set (?t ! r)" for e r
    using ok [OF that(1)] that(2) by (auto simp: chain_ok_def entry_hash_norm)
  have keys: "map fst (chain_alist lower es) = map ?key es" for es :: "'a hash_entry list"
    by (simp add: chain_alist_def comp_def)
  have "distinct (concat (map (map ?key) ?t))"
  proof (rule distinct_concat_rows)
    show "distinct (map (map ?key) ?t ! r)" if "r < length (map (map ?key) ?t)" for r
      using ok [of r] that by (simp add: chain_ok_def)
    show "r = s" if A: "r < length (map (map ?key) ?t)" "s < length (map (map ?key) ?t)"
      "x \<in> set (map (map ?key) ?t ! r)" "x \<in> set (map (map ?key) ?t ! s)" for r s x
    proof -
      obtain a where a: "a \<in> set (?t ! r)" "x = ?key a" using A(1,3) by (auto simp del: comp_apply)
      obtain b where b: "b \<in> set (?t ! s)" "x = ?key b" using A(2,4) by (auto simp del: comp_apply)
      from a b show ?thesis using row [of r a] row [of s b] A(1,2) by simp
    qed
  qed
  then show d: "distinct (map fst (chain_alist lower (concat ?t)))" unfolding keys map_concat .
  have "map_of (chain_alist lower (concat ?t)) n = ht_map lower ht n" for n
  proof -
    let ?r = "row_of ht (norm_hash n)"
    have r: "?r < length ?t" by (rule row_of_less [OF I])
    have dr: "distinct (map fst (chain_alist lower (?t ! ?r)))" using ok [OF r] unfolding keys chain_ok_def by blast
    have "(n, v) \<in> set (chain_alist lower (concat ?t)) \<longleftrightarrow> (n, v) \<in> set (chain_alist lower (?t ! ?r))" for v
    proof
      assume "(n, v) \<in> set (chain_alist lower (concat ?t))"
      then obtain q e where e: "q < length ?t" "e \<in> set (?t ! q)" "n = ?key e" "v = he_value e"
        by (auto simp: chain_alist_def in_set_conv_nth [of _ ?t])
      then have "q = ?r" using row [OF e(1,2)] by simp
      then show "(n, v) \<in> set (chain_alist lower (?t ! ?r))" using e by (auto simp: chain_alist_def)
    next
      assume "(n, v) \<in> set (chain_alist lower (?t ! ?r))"
      then show "(n, v) \<in> set (chain_alist lower (concat ?t))" using r nth_mem by (fastforce simp: chain_alist_def)
    qed
    then have "map_of (chain_alist lower (concat ?t)) n = Some v \<longleftrightarrow> ht_map lower ht n = Some v" for v
      unfolding ht_map_def map_of_eq_Some_iff [OF d] map_of_eq_Some_iff [OF dr] .
    then show ?thesis by (metis option.exhaust)
  qed
  then show "map_of (chain_alist lower (concat ?t)) = ht_map lower ht" by blast
qed

lemma ht_count_dom:
  assumes I: "ht_inv lower ht"
  shows "pj_hash_count ht = uwrap (card (dom (ht_map lower ht)))"
proof -
  have "dom (ht_map lower ht) = set (map fst (chain_alist lower (concat (ht_table ht))))"
    unfolding ht_alist(2) [OF I, symmetric] by (simp add: dom_map_of_conv_image_fst)
  then have "card (dom (ht_map lower ht)) = length (concat (ht_table ht))"
    using distinct_card [OF ht_alist(1) [OF I]] by (simp add: chain_alist_def)
  then show ?thesis using I by (simp add: pj_hash_count_def ht_inv_def)
qed

section \<open>Creation\<close>

lemma grow_size_result:
  assumes "sz \<le> 2 ^ 31"
  shows "j < 31 \<Longrightarrow> \<exists>n \<le> 31. grow_size (2 ^ j) sz = Some (2 ^ n)"
proof (induction "31 - j" arbitrary: j)
  case (Suc d)
  have "(2::nat) ^ (j + 1) \<le> 2 ^ 31" using Suc.prems by (intro power_increasing) auto
  then have u: "uwrap (2 * 2 ^ j) = 2 ^ (j + 1)" by simp
  show ?case
  proof (cases "2 ^ (j + 1) < sz")
    case True
    then have "(2::nat) ^ (j + 1) < 2 ^ 31" using assms by linarith
    then have "j + 1 < 31" using power_less_imp_less_exp [of "2::nat" "j + 1" 31] by simp
    moreover have "d = 31 - (j + 1)" using Suc.hyps(2) by simp
    ultimately obtain n where "n \<le> 31" "grow_size (2 ^ (j + 1)) sz = Some (2 ^ n)" using Suc.hyps(1) by blast
    then show ?thesis using True u by (subst grow_size.simps) auto
  next
    case False
    then show ?thesis using u Suc.prems by (subst grow_size.simps) (auto intro!: exI [of _ "j + 1"])
  qed
qed simp

lemma hash_create_inv:
  assumes "sz \<le> 2 ^ 31"
  shows "\<exists>ht. pj_hash_create sz = Some ht \<and> ht_inv lower ht \<and> ht_map lower ht = Map.empty"
proof -
  obtain n where n: "n \<le> 31" "grow_size (2 ^ 3) sz = Some (2 ^ n)" using grow_size_result [where j = 3, OF assms] by auto
  have p: "(0::nat) < 2 ^ n" "(2::nat) ^ n \<le> 2 ^ 31" using power_increasing [OF n(1), of "2 :: nat"] by simp_all
  define ht :: "'a hash_table" where "ht = \<lparr>ht_table = replicate (2 ^ n - 1 + 1) [], ht_count = 0, ht_rows = 2 ^ n - 1\<rparr>"
  have "grow_size 8 sz = Some (2 ^ n)" using n(2) by simp
  then have "pj_hash_create sz = Some ht" by (simp only: pj_hash_create_def ht_def Let_def option.map)
  moreover have inv: "ht_inv lower ht" using p by (simp add: ht_inv_def ht_def chain_ok_def)
  moreover have "ht_map lower ht m = None" for m
    using row_of_less [OF inv, of "norm_hash m"] by (simp add: ht_map_def ht_def chain_alist_def)
  ultimately show ?thesis by blast
qed

text \<open>A size above 2147483648: the doubling reaches 0 and stays there.\<close>

lemma grow_size_zero: "0 < sz \<Longrightarrow> grow_size 0 sz = None"
proof -
  have "x = 0 \<longrightarrow> sz = 0" if "grow_size x sz = Some y" for x sz y
    by (rule grow_size.raw_induct [where P = "\<lambda>x sz y. x = 0 \<longrightarrow> sz = 0", OF _ that]) (auto split: if_splits)
  then show "0 < sz \<Longrightarrow> grow_size 0 sz = None" by (metis not_None_eq not_less_zero)
qed

lemma create_hangs: "2 ^ 31 < sz \<Longrightarrow> pj_hash_create sz = None"
proof -
  assume sz: "2 ^ 31 < sz"
  have "grow_size (2 ^ j) sz = None" if "j \<le> 31" for j
    using that
  proof (induction "31 - j" arbitrary: j)
    case 0
    then have "j = 31" by simp
    then show ?case using sz grow_size_zero [of sz] by (subst grow_size.simps) simp
  next
    case (Suc d)
    then have "(2::nat) ^ (j + 1) \<le> 2 ^ 31" by (intro power_increasing) auto
    then have "uwrap (2 * 2 ^ j) = 2 ^ (j + 1)" "2 ^ (j + 1) < sz" using sz by simp_all
    then show ?case using Suc.hyps(1) [of "j + 1"] Suc.hyps(2) Suc.prems by (subst grow_size.simps) simp
  qed
  from this [of 3] show ?thesis by (simp add: pj_hash_create_def)
qed


section \<open>Iteration\<close>

lemma next_row_result:
  "next_row ht index = Some it \<Longrightarrow> index \<le> fst it \<and> fst it \<le> ht_rows ht \<and> snd it = 0 \<and> ht_table ht ! fst it \<noteq> []"
  by (induction ht index rule: next_row.induct) (subst (asm) (2) next_row.simps, auto split: if_splits)

text \<open>The iterators a loop over the table goes through, from \<open>it\<close> on.\<close>

function hash_walk :: "'v hash_table \<Rightarrow> nat \<times> nat \<Rightarrow> (nat \<times> nat) list" where
  "hash_walk ht it = it # (case pj_hash_next ht it of None \<Rightarrow> [] | Some it' \<Rightarrow> hash_walk ht it')"
  by pat_completeness auto
termination
proof (relation "measures [\<lambda>(ht :: 'v hash_table, it). ht_rows ht + 1 - fst it, \<lambda>(ht, it). length (ht_table ht ! fst it) - snd it]")
  show "((ht, it'), (ht, it)) \<in> measures [\<lambda>(ht :: 'v hash_table, it). ht_rows ht + 1 - fst it, \<lambda>(ht, it). length (ht_table ht ! fst it) - snd it]"
    if "pj_hash_next ht it = Some it'" for ht :: "'v hash_table" and it it'
    using that next_row_result [of ht "fst it + 1" it'] by (auto simp: pj_hash_next_def split: if_splits)
qed simp

declare hash_walk.simps [simp del]

definition hash_iterators :: "'v hash_table \<Rightarrow> (nat \<times> nat) list" where
  "hash_iterators ht = (case pj_hash_first ht of None \<Rightarrow> [] | Some it \<Rightarrow> hash_walk ht it)"

definition it_entry :: "'v hash_table \<Rightarrow> nat \<times> nat \<Rightarrow> 'v hash_entry" where
  "it_entry ht it = ht_table ht ! fst it ! snd it"

abbreviation walk_rows :: "'v hash_table \<Rightarrow> nat \<Rightarrow> (nat \<times> nat) list" where
  "walk_rows ht r \<equiv> (case next_row ht r of None \<Rightarrow> [] | Some it \<Rightarrow> hash_walk ht it)"

lemma walk_row:
  "p < length (ht_table ht ! r) \<Longrightarrow>
    map (it_entry ht) (hash_walk ht (r, p)) = drop p (ht_table ht ! r) @ map (it_entry ht) (walk_rows ht (r + 1))"
proof (induction "length (ht_table ht ! r) - p" arbitrary: p)
  case (Suc d)
  have d: "drop p (ht_table ht ! r) = it_entry ht (r, p) # drop (p + 1) (ht_table ht ! r)"
    using Suc.prems by (simp add: it_entry_def Cons_nth_drop_Suc)
  show ?case
  proof (cases "p + 1 < length (ht_table ht ! r)")
    case True
    then show ?thesis
      using Suc.hyps(1) [of "p + 1"] Suc.hyps(2) d by (subst hash_walk.simps) (simp add: pj_hash_next_def)
  next
    case False
    then show ?thesis using d by (subst hash_walk.simps) (simp add: pj_hash_next_def)
  qed
qed simp

lemma walk_all:
  assumes "length (ht_table ht) = ht_rows ht + 1"
  shows "r \<le> ht_rows ht + 1 \<Longrightarrow> map (it_entry ht) (walk_rows ht r) = concat (drop r (ht_table ht))"
proof (induction "ht_rows ht + 1 - r" arbitrary: r)
  case 0
  then show ?case using assms by (subst next_row.simps) simp
next
  case (Suc d)
  have r: "r < length (ht_table ht)" using Suc.hyps(2) assms by simp
  have IH: "map (it_entry ht) (walk_rows ht (r + 1)) = concat (drop (r + 1) (ht_table ht))"
    using Suc.hyps by simp
  have d: "concat (drop r (ht_table ht)) = ht_table ht ! r @ concat (drop (r + 1) (ht_table ht))"
    using r by (metis Cons_nth_drop_Suc Suc_eq_plus1 concat.simps(2))
  show ?case
  proof (cases "ht_table ht ! r = []")
    case True
    then show ?thesis using IH d Suc.hyps(2) by (subst next_row.simps) simp
  next
    case False
    then show ?thesis using IH d Suc.hyps(2) walk_row [of 0 ht r] by (subst next_row.simps) simp
  qed
qed

lemma hash_iterators_entries:
  assumes "ht_inv lower ht"
  shows "map (it_entry ht) (hash_iterators ht) = concat (ht_table ht)"
  using walk_all [of ht 0] assms by (simp add: hash_iterators_def pj_hash_first_def ht_inv_def)

section \<open>Runs\<close>

datatype 'v hash_call =
    HC_Set "u8 list" nat u32 "'v option"
  | HC_Set_np "u8 list" nat u32 "'v option"

fun hash_step :: "bool \<Rightarrow> 'v hash_table option \<Rightarrow> 'v hash_call \<Rightarrow> 'v hash_table option" where
  "hash_step lower None c = None"
| "hash_step lower (Some ht) (HC_Set key keylen hval val) =
     (if lower then pj_hash_set_lower True ht key keylen hval val else pj_hash_set True ht key keylen hval val)"
| "hash_step lower (Some ht) (HC_Set_np key keylen hval val) =
     (if lower then pj_hash_set_np_lower ht key keylen hval True val else pj_hash_set_np ht key keylen hval True val)"

text \<open>A legal key argument: it can be read, and has no null character when case is ignored. The hash value
  is the key's or 0.\<close>

definition key_arg :: "bool \<Rightarrow> u8 list \<Rightarrow> nat \<Rightarrow> u32 \<Rightarrow> bool" where
  "key_arg lower key keylen hval \<longleftrightarrow>
     (case key_bytes key keylen of None \<Rightarrow> False | Some k \<Rightarrow> key_ok lower k \<and> hval_ok lower k hval)"

fun call_ok :: "bool \<Rightarrow> 'v hash_call \<Rightarrow> bool" where
  "call_ok lower (HC_Set key keylen hval val) \<longleftrightarrow> key_arg lower key keylen hval"
| "call_ok lower (HC_Set_np key keylen hval val) \<longleftrightarrow> key_arg lower key keylen hval"

text \<open>What the calls do to a map from keys, up to case if it is ignored.\<close>

fun map_step :: "bool \<Rightarrow> (u8 list \<Rightarrow> 'v option) \<Rightarrow> 'v hash_call \<Rightarrow> u8 list \<Rightarrow> 'v option" where
  "map_step lower m (HC_Set key keylen hval val) = m(norm_key lower (the (key_bytes key keylen)) := val)"
| "map_step lower m (HC_Set_np key keylen hval val) = m(norm_key lower (the (key_bytes key keylen)) := val)"

lemma hash_step_result:
  assumes "ht_inv lower ht" "call_ok lower c"
  shows "\<exists>ht'. hash_step lower (Some ht) c = Some ht' \<and> ht_inv lower ht' \<and> ht_map lower ht' = map_step lower (ht_map lower ht) c"
proof (cases c)
  case (HC_Set key keylen hval val)
  then obtain k where k: "key_bytes key keylen = Some k" "key_ok lower k" "hval_ok lower k hval"
    using assms(2) by (auto simp: key_arg_def split: option.splits)
  show ?thesis
    using hash_set_result [OF assms(1) k, of True False val] HC_Set k(1)
    by (cases lower) (auto simp: pj_hash_set_def pj_hash_set_lower_def)
next
  case (HC_Set_np key keylen hval val)
  then obtain k where k: "key_bytes key keylen = Some k" "key_ok lower k" "hval_ok lower k hval"
    using assms(2) by (auto simp: key_arg_def split: option.splits)
  show ?thesis
    using hash_set_result [OF assms(1) k, of False True val] HC_Set_np k(1)
    by (cases lower) (auto simp: pj_hash_set_np_def pj_hash_set_np_lower_def)
qed

text \<open>The table next to the map it stands for, as one machine.\<close>

definition hash_pair_step ::
  "bool \<Rightarrow> 'v hash_table option \<times> (u8 list \<Rightarrow> 'v option) \<Rightarrow> 'v hash_call \<Rightarrow> 'v hash_table option \<times> (u8 list \<Rightarrow> 'v option)" where
  "hash_pair_step lower s c = (hash_step lower (fst s) c, map_step lower (snd s) c)"

definition hash_pair_ok :: "bool \<Rightarrow> 'v hash_table option \<times> (u8 list \<Rightarrow> 'v option) \<Rightarrow> bool" where
  "hash_pair_ok lower s \<longleftrightarrow> (\<exists>ht. fst s = Some ht \<and> ht_inv lower ht \<and> ht_map lower ht = snd s)"

interpretation hash_machine: event_machine "hash_pair_step lower" "hash_pair_ok lower" "call_ok lower" for lower
  by unfold_locales (use hash_step_result in \<open>fastforce simp: hash_pair_step_def hash_pair_ok_def\<close>)

lemma hash_pair_run:
  "foldl (hash_pair_step lower) (h, m) calls = (foldl (hash_step lower) h calls, foldl (map_step lower) m calls)"
  by (induction calls arbitrary: h m) (simp_all add: hash_pair_step_def)

lemma hash_run_result:
  fixes calls :: "'v hash_call list"
  assumes "sz \<le> 2 ^ 31" "\<forall>c \<in> set calls. call_ok lower c"
  shows "\<exists>ht. foldl (hash_step lower) (pj_hash_create sz) calls = Some ht \<and> ht_inv lower ht \<and>
    ht_map lower ht = foldl (map_step lower) Map.empty calls"
proof -
  obtain h0 :: "'v hash_table" where "pj_hash_create sz = Some h0" "ht_inv lower h0" "ht_map lower h0 = Map.empty"
    using hash_create_inv [OF assms(1)] by blast
  then have "hash_pair_ok lower (pj_hash_create sz :: 'v hash_table option, Map.empty)" by (simp add: hash_pair_ok_def)
  from hash_machine.mrun_inv [OF this assms(2)] show ?thesis by (auto simp: hash_pair_run hash_pair_ok_def)
qed

section \<open>Properties\<close>

text \<open>C26. Whatever keys are set and deleted in a created hash table, with one kind of operation (respecting case
  or ignoring it) and with the key's hash value or 0 passed in, a lookup gives what a map from keys
  holds, and reports the key's hash value; the count is the number of keys in the map.\<close>

theorem hash_refines_map:
  assumes "sz \<le> 2 ^ 31" "\<forall>c \<in> set calls. call_ok lower c"
    and "key_bytes key keylen = Some k" "key_ok lower k" "\<forall>h. hval = Some h \<longrightarrow> hval_ok lower k h"
  shows "\<exists>ht. foldl (hash_step lower) (pj_hash_create sz) calls = Some ht \<and>
    (let m = foldl (map_step lower) Map.empty calls
     in (if lower then pj_hash_get_lower ht key keylen hval else pj_hash_get ht key keylen hval) =
          Some (m (norm_key lower k), map_option (\<lambda>_. entry_hash lower k) hval) \<and>
        pj_hash_count ht = uwrap (card (dom m)))"
proof -
  obtain ht where ht: "foldl (hash_step lower) (pj_hash_create sz) calls = Some ht" "ht_inv lower ht"
    "ht_map lower ht = foldl (map_step lower) Map.empty calls"
    using hash_run_result [OF assms(1,2)] by blast
  show ?thesis
    using ht hash_get_result [OF ht(2) assms(3-5)] ht_count_dom [OF ht(2)]
    by (cases lower) (simp_all add: pj_hash_get_def pj_hash_get_lower_def Let_def)
qed

theorem hash_refines_map_witness:
  "\<exists>ht. foldl (hash_step True) (pj_hash_create 10)
      [HC_Set [65, 66] 2 0 (Some ''x''), HC_Set_np [97, 67, 0] PJ_HASH_KEY_STRING 0 (Some ''y''), HC_Set [65, 98] 2 0 (Some ''z'')] = Some ht \<and>
    pj_hash_get_lower ht [97, 98] 2 None = Some (Some ''z'', None)"
proof -
  let ?calls = "[HC_Set [65, 66] 2 0 (Some ''x''), HC_Set_np [97, 67, 0] PJ_HASH_KEY_STRING 0 (Some ''y''), HC_Set [65, 98] 2 0 (Some ''z'')]"
  note defs = key_arg_def key_bytes_def key_ok_def hval_ok_def PJ_HASH_KEY_STRING_def norm_key_def lower8_def pj_tolower_def
  have "\<forall>c \<in> set ?calls. call_ok True c" by (simp add: defs)
  from hash_refines_map [OF _ this, of 10 "[97, 98]" 2 "[97, 98]" None] show ?thesis
    by (simp add: Let_def defs) blast
qed

text \<open>C27. Iterating over the table of such a run visits every key of the map exactly once, with its value.\<close>

theorem hash_iterates_all:
  assumes "sz \<le> 2 ^ 31" "\<forall>c \<in> set calls. call_ok lower c"
  shows "\<exists>ht. foldl (hash_step lower) (pj_hash_create sz) calls = Some ht \<and>
    (let visited = map (\<lambda>it. (norm_key lower (he_key (it_entry ht it)), pj_hash_this ht it)) (hash_iterators ht)
     in distinct (map fst visited) \<and> map_of visited = foldl (map_step lower) Map.empty calls)"
proof -
  obtain ht where ht: "foldl (hash_step lower) (pj_hash_create sz) calls = Some ht" "ht_inv lower ht"
    "ht_map lower ht = foldl (map_step lower) Map.empty calls"
    using hash_run_result [OF assms] by blast
  have visited: "map (\<lambda>it. (norm_key lower (he_key (it_entry ht it)), pj_hash_this ht it)) (hash_iterators ht) =
      chain_alist lower (concat (ht_table ht))"
    unfolding hash_iterators_entries [OF ht(2), symmetric] by (simp add: chain_alist_def pj_hash_this_def it_entry_def)
  show ?thesis
    using ht ht_alist [OF ht(2)] unfolding Let_def by (intro exI [of _ ht]) (simp only: visited)
qed

theorem hash_iterates_all_witness:
  "\<exists>ht. foldl (hash_step False) (pj_hash_create 0) [HC_Set [1] 1 0 (Some True), HC_Set [2] 1 0 (Some False), HC_Set [1] 1 0 None] = Some ht \<and>
    map_of (map (\<lambda>it. (norm_key False (he_key (it_entry ht it)), pj_hash_this ht it)) (hash_iterators ht)) = [[2] \<mapsto> False]"
proof -
  let ?calls = "[HC_Set [1] 1 0 (Some True), HC_Set [2] 1 0 (Some False), HC_Set [1] 1 0 None]"
  note defs = key_arg_def key_bytes_def key_ok_def hval_ok_def PJ_HASH_KEY_STRING_def norm_key_def
  have "\<forall>c \<in> set ?calls. call_ok False c" by (simp add: defs)
  from hash_iterates_all [OF _ this, of 0] show ?thesis by (simp add: Let_def defs) (auto simp: fun_eq_iff)
qed

end
