(* ===== verification/Crc32.thy ===== *)
theory Crc32
  imports Prelude
begin

text \<open>
  The CRC-32 of \<open>pjlib-util/src/pjlib-util/crc32.c\<close>, as STUN fingerprints use it: the variant with the table, for a little-endian
  machine, which is compiled by default, and the variant without tables, as a reference. The address of the data decides how
  many bytes the first takes one by one before it reads words; it is an argument.
\<close>

section \<open>The variant with the table\<close>

definition crc_tab :: "u32 list" where
  "crc_tab = [
   0x00000000, 0x77073096, 0xee0e612c, 0x990951ba, 0x076dc419, 0x706af48f, 0xe963a535, 0x9e6495a3,
   0x0edb8832, 0x79dcb8a4, 0xe0d5e91e, 0x97d2d988, 0x09b64c2b, 0x7eb17cbd, 0xe7b82d07, 0x90bf1d91,
   0x1db71064, 0x6ab020f2, 0xf3b97148, 0x84be41de, 0x1adad47d, 0x6ddde4eb, 0xf4d4b551, 0x83d385c7,
   0x136c9856, 0x646ba8c0, 0xfd62f97a, 0x8a65c9ec, 0x14015c4f, 0x63066cd9, 0xfa0f3d63, 0x8d080df5,
   0x3b6e20c8, 0x4c69105e, 0xd56041e4, 0xa2677172, 0x3c03e4d1, 0x4b04d447, 0xd20d85fd, 0xa50ab56b,
   0x35b5a8fa, 0x42b2986c, 0xdbbbc9d6, 0xacbcf940, 0x32d86ce3, 0x45df5c75, 0xdcd60dcf, 0xabd13d59,
   0x26d930ac, 0x51de003a, 0xc8d75180, 0xbfd06116, 0x21b4f4b5, 0x56b3c423, 0xcfba9599, 0xb8bda50f,
   0x2802b89e, 0x5f058808, 0xc60cd9b2, 0xb10be924, 0x2f6f7c87, 0x58684c11, 0xc1611dab, 0xb6662d3d,
   0x76dc4190, 0x01db7106, 0x98d220bc, 0xefd5102a, 0x71b18589, 0x06b6b51f, 0x9fbfe4a5, 0xe8b8d433,
   0x7807c9a2, 0x0f00f934, 0x9609a88e, 0xe10e9818, 0x7f6a0dbb, 0x086d3d2d, 0x91646c97, 0xe6635c01,
   0x6b6b51f4, 0x1c6c6162, 0x856530d8, 0xf262004e, 0x6c0695ed, 0x1b01a57b, 0x8208f4c1, 0xf50fc457,
   0x65b0d9c6, 0x12b7e950, 0x8bbeb8ea, 0xfcb9887c, 0x62dd1ddf, 0x15da2d49, 0x8cd37cf3, 0xfbd44c65,
   0x4db26158, 0x3ab551ce, 0xa3bc0074, 0xd4bb30e2, 0x4adfa541, 0x3dd895d7, 0xa4d1c46d, 0xd3d6f4fb,
   0x4369e96a, 0x346ed9fc, 0xad678846, 0xda60b8d0, 0x44042d73, 0x33031de5, 0xaa0a4c5f, 0xdd0d7cc9,
   0x5005713c, 0x270241aa, 0xbe0b1010, 0xc90c2086, 0x5768b525, 0x206f85b3, 0xb966d409, 0xce61e49f,
   0x5edef90e, 0x29d9c998, 0xb0d09822, 0xc7d7a8b4, 0x59b33d17, 0x2eb40d81, 0xb7bd5c3b, 0xc0ba6cad,
   0xedb88320, 0x9abfb3b6, 0x03b6e20c, 0x74b1d29a, 0xead54739, 0x9dd277af, 0x04db2615, 0x73dc1683,
   0xe3630b12, 0x94643b84, 0x0d6d6a3e, 0x7a6a5aa8, 0xe40ecf0b, 0x9309ff9d, 0x0a00ae27, 0x7d079eb1,
   0xf00f9344, 0x8708a3d2, 0x1e01f268, 0x6906c2fe, 0xf762575d, 0x806567cb, 0x196c3671, 0x6e6b06e7,
   0xfed41b76, 0x89d32be0, 0x10da7a5a, 0x67dd4acc, 0xf9b9df6f, 0x8ebeeff9, 0x17b7be43, 0x60b08ed5,
   0xd6d6a3e8, 0xa1d1937e, 0x38d8c2c4, 0x4fdff252, 0xd1bb67f1, 0xa6bc5767, 0x3fb506dd, 0x48b2364b,
   0xd80d2bda, 0xaf0a1b4c, 0x36034af6, 0x41047a60, 0xdf60efc3, 0xa867df55, 0x316e8eef, 0x4669be79,
   0xcb61b38c, 0xbc66831a, 0x256fd2a0, 0x5268e236, 0xcc0c7795, 0xbb0b4703, 0x220216b9, 0x5505262f,
   0xc5ba3bbe, 0xb2bd0b28, 0x2bb45a92, 0x5cb36a04, 0xc2d7ffa7, 0xb5d0cf31, 0x2cd99e8b, 0x5bdeae1d,
   0x9b64c2b0, 0xec63f226, 0x756aa39c, 0x026d930a, 0x9c0906a9, 0xeb0e363f, 0x72076785, 0x05005713,
   0x95bf4a82, 0xe2b87a14, 0x7bb12bae, 0x0cb61b38, 0x92d28e9b, 0xe5d5be0d, 0x7cdcefb7, 0x0bdbdf21,
   0x86d3d2d4, 0xf1d4e242, 0x68ddb3f8, 0x1fda836e, 0x81be16cd, 0xf6b9265b, 0x6fb077e1, 0x18b74777,
   0x88085ae6, 0xff0f6a70, 0x66063bca, 0x11010b5c, 0x8f659eff, 0xf862ae69, 0x616bffd3, 0x166ccf45,
   0xa00ae278, 0xd70dd2ee, 0x4e048354, 0x3903b3c2, 0xa7672661, 0xd06016f7, 0x4969474d, 0x3e6e77db,
   0xaed16a4a, 0xd9d65adc, 0x40df0b66, 0x37d83bf0, 0xa9bcae53, 0xdebb9ec5, 0x47b2cf7f, 0x30b5ffe9,
   0xbdbdf21c, 0xcabac28a, 0x53b39330, 0x24b4a3a6, 0xbad03605, 0xcdd70693, 0x54de5729, 0x23d967bf,
   0xb3667a2e, 0xc4614ab8, 0x5d681b02, 0x2a6f2b94, 0xb40bbe37, 0xc30c8ea1, 0x5a05df1b, 0x2d02ef8d]"

definition crc_step :: "u32 \<Rightarrow> u8 \<Rightarrow> u32" where
  "crc_step crc b = crc_tab ! unat ((crc AND 0xFF) XOR ucast b) XOR drop_bit 8 crc"

definition crc_shift :: "u32 \<Rightarrow> u32" where
  "crc_shift crc = crc_tab ! unat (crc AND 0xFF) XOR drop_bit 8 crc"

fun crc_words :: "u32 \<Rightarrow> u8 list \<Rightarrow> u32" where
  "crc_words crc (a # b # c # d # data) =
     crc_words (crc_shift (crc_shift (crc_shift (crc_shift (crc XOR rd_be32 d c b a))))) data"
| "crc_words crc data = foldl crc_step crc data"

text \<open>\<open>CRC32_NEGL\<close> is \<open>0xffffffff\<close>; a context is its \<open>crc_state\<close>.\<close>

definition pj_crc32_init :: u32 where "pj_crc32_init = 0"

definition pj_crc32_update :: "nat \<Rightarrow> u32 \<Rightarrow> u8 list \<Rightarrow> u32" where
  "pj_crc32_update addr st data =
    (let k = (4 - addr mod 4) mod 4
     in crc_words (foldl crc_step (st XOR 0xFFFFFFFF) (take k data)) (drop k data) XOR 0xFFFFFFFF)"

definition pj_crc32_final :: "u32 \<Rightarrow> u32" where "pj_crc32_final st = st"

definition pj_crc32_calc :: "nat \<Rightarrow> u8 list \<Rightarrow> u32" where
  "pj_crc32_calc addr data = pj_crc32_final (pj_crc32_update addr pj_crc32_init data)"

section \<open>The variant without tables\<close>

definition crc_bit :: "u32 \<Rightarrow> u32" where
  "crc_bit temp = (if temp AND 1 \<noteq> 0 then drop_bit 1 temp XOR 0xEDB88320 else drop_bit 1 temp)"

definition ref_step :: "u32 \<Rightarrow> u8 \<Rightarrow> u32" where
  "ref_step crc b = drop_bit 8 crc XOR (crc_bit ^^ 8) ((crc AND 0xFF) XOR ucast b)"

definition ref_crc32_calc :: "u8 list \<Rightarrow> u32" where
  "ref_crc32_calc data = foldl ref_step 0xFFFFFFFF data XOR 0xFFFFFFFF"

section \<open>The table\<close>

lemma length_crc_tab: "length crc_tab = 256"
  by (simp add: crc_tab_def)

lemma crc_bit_xor: "crc_bit (a XOR b) = crc_bit a XOR crc_bit b"
proof -
  have odd: "(x AND 1 \<noteq> 0) = bit x 0" for x :: u32 by (simp add: and_one_eq bit_0 odd_iff_mod_2_eq_one)
  show ?thesis by (simp add: crc_bit_def odd bit_xor_iff xor.assoc xor.commute xor.left_commute)
qed

lemma crc_bits_xor: "(crc_bit ^^ n) (a XOR b) = (crc_bit ^^ n) a XOR (crc_bit ^^ n) b"
  by (induction n) (simp_all add: crc_bit_xor)

definition tab_ok :: "nat \<Rightarrow> bool" where
  "tab_ok n \<longleftrightarrow> (\<forall>i < n. crc_tab ! i = (crc_bit ^^ 8) (of_nat i))"

lemma of_nat_add_xor: "j < 2 ^ k \<Longrightarrow> (of_nat (2 ^ k + j) :: u32) = of_nat (2 ^ k) XOR of_nat j"
proof -
  assume j: "j < 2 ^ k"
  have "(of_nat (2 ^ k + j) :: u32) = of_nat (2 ^ k) + of_nat j" by simp
  also have "\<dots> = of_nat (2 ^ k) XOR of_nat j"
  proof (rule disjunctive_add_eq_xor, rule bit_word_eqI)
    fix n
    have "\<not> bit j n" if "n \<ge> k" using j that by (metis bit_nat_iff order_less_le_trans power_increasing_iff one_less_numeral_iff semiring_norm(76) div_less bit_iff_odd even_zero)
    then show "bit (of_nat (2 ^ k) AND (of_nat j :: u32)) n = bit 0 n"
      by (auto simp: bit_and_iff bit_of_nat_iff bit_exp_iff)
  qed
  finally show ?thesis .
qed

text \<open>The table is built by doubling, since the bitwise steps commute with exclusive or.\<close>

lemma tab_double:
  assumes "tab_ok n" "n = 2 ^ k" "m = 2 * n" "m \<le> 256"
    and e: "map (\<lambda>w. w XOR (crc_bit ^^ 8) (of_nat n)) (take n crc_tab) = take n (drop n crc_tab)"
  shows "tab_ok m"
  unfolding tab_ok_def
proof (intro allI impI)
  fix i assume "i < m"
  then have i: "i < 2 * n" using assms(3) by simp
  show "crc_tab ! i = (crc_bit ^^ 8) (of_nat i)"
  proof (cases "i < n")
    case True
    then show ?thesis using assms(1) by (simp add: tab_ok_def)
  next
    case False
    define j where "j = i - n"
    then have j: "i = n + j" "j < n" using False i by simp_all
    have "take n (drop n crc_tab) ! j = crc_tab ! i" using j assms(3,4) by (simp add: length_crc_tab)
    moreover have "map (\<lambda>w. w XOR (crc_bit ^^ 8) (of_nat n)) (take n crc_tab) ! j = crc_tab ! j XOR (crc_bit ^^ 8) (of_nat n)"
      using j assms(3,4) by (simp add: length_crc_tab)
    ultimately have "crc_tab ! i = crc_tab ! j XOR (crc_bit ^^ 8) (of_nat n)" using e by simp
    also have "\<dots> = (crc_bit ^^ 8) (of_nat n XOR of_nat j)"
      using assms(1) j(2) by (simp only: tab_ok_def crc_bits_xor xor.commute)
    also have "of_nat n XOR of_nat j = (of_nat i :: u32)" using j assms(2) of_nat_add_xor by metis
    finally show ?thesis .
  qed
qed

lemma funpow_8: "(f ^^ 8) x = f (f (f (f (f (f (f (f x)))))))"
  by (simp add: numeral_eq_Suc)

lemma crc_bits_basis:
  "(crc_bit ^^ 8) 1 = 0x77073096"
  "(crc_bit ^^ 8) 2 = 0xee0e612c"
  "(crc_bit ^^ 8) 4 = 0x076dc419"
  "(crc_bit ^^ 8) 8 = 0x0edb8832"
  "(crc_bit ^^ 8) 16 = 0x1db71064"
  "(crc_bit ^^ 8) 32 = 0x3b6e20c8"
  "(crc_bit ^^ 8) 64 = 0x76dc4190"
  "(crc_bit ^^ 8) 128 = 0xedb88320"
  by (simp_all add: funpow_8 crc_bit_def)

lemma crc_tab_slices:
  "map (\<lambda>w. w XOR (crc_bit ^^ 8) (of_nat 1)) (take 1 crc_tab) = take 1 (drop 1 crc_tab)"
  "map (\<lambda>w. w XOR (crc_bit ^^ 8) (of_nat 2)) (take 2 crc_tab) = take 2 (drop 2 crc_tab)"
  "map (\<lambda>w. w XOR (crc_bit ^^ 8) (of_nat 4)) (take 4 crc_tab) = take 4 (drop 4 crc_tab)"
  "map (\<lambda>w. w XOR (crc_bit ^^ 8) (of_nat 8)) (take 8 crc_tab) = take 8 (drop 8 crc_tab)"
  "map (\<lambda>w. w XOR (crc_bit ^^ 8) (of_nat 16)) (take 16 crc_tab) = take 16 (drop 16 crc_tab)"
  "map (\<lambda>w. w XOR (crc_bit ^^ 8) (of_nat 32)) (take 32 crc_tab) = take 32 (drop 32 crc_tab)"
  "map (\<lambda>w. w XOR (crc_bit ^^ 8) (of_nat 64)) (take 64 crc_tab) = take 64 (drop 64 crc_tab)"
  "map (\<lambda>w. w XOR (crc_bit ^^ 8) (of_nat 128)) (take 128 crc_tab) = take 128 (drop 128 crc_tab)"
  unfolding of_nat_numeral of_nat_1 crc_bits_basis by (simp_all add: crc_tab_def)

lemma crc_tab_ok: "tab_ok 256"
proof -
  have "(crc_bit ^^ 8) 0 = 0" by (simp add: funpow_8 crc_bit_def)
  then have "tab_ok 1" by (simp add: tab_ok_def crc_tab_def)
  then have "tab_ok 2" by (rule tab_double [OF _ _ _ _ crc_tab_slices(1), of 0]) simp_all
  then have "tab_ok 4" by (rule tab_double [OF _ _ _ _ crc_tab_slices(2), of 1]) simp_all
  then have "tab_ok 8" by (rule tab_double [OF _ _ _ _ crc_tab_slices(3), of 2]) simp_all
  then have "tab_ok 16" by (rule tab_double [OF _ _ _ _ crc_tab_slices(4), of 3]) simp_all
  then have "tab_ok 32" by (rule tab_double [OF _ _ _ _ crc_tab_slices(5), of 4]) simp_all
  then have "tab_ok 64" by (rule tab_double [OF _ _ _ _ crc_tab_slices(6), of 5]) simp_all
  then have "tab_ok 128" by (rule tab_double [OF _ _ _ _ crc_tab_slices(7), of 6]) simp_all
  then have "tab_ok 256" by (rule tab_double [OF _ _ _ _ crc_tab_slices(8), of 7]) simp_all
  then show ?thesis .
qed

section \<open>Both variants agree\<close>

lemma crc_index: "(w AND 0xFF) XOR ucast (b :: u8) = take_bit 8 (w XOR ucast b :: u32)"
proof -
  have m: "(0xFF :: u32) = mask 8" by (simp add: mask_eq_decr_exp)
  show ?thesis unfolding m
    by (rule bit_word_eqI) (auto simp: bit_take_bit_iff bit_xor_iff bit_and_iff bit_mask_iff bit_ucast_iff dest: bit_imp_le_length)
qed

lemma crc_tab_nth: "crc_tab ! unat (take_bit 8 w) = (crc_bit ^^ 8) (take_bit 8 w)"
proof -
  have "unat (take_bit 8 w) < 2 ^ 8" by (metis unsigned_take_bit_eq take_bit_nat_less_exp)
  then have "unat (take_bit 8 w) < 256" by simp
  then have "crc_tab ! unat (take_bit 8 w) = (crc_bit ^^ 8) (of_nat (unat (take_bit 8 w)))"
    using crc_tab_ok unfolding tab_ok_def by blast
  then show ?thesis by (simp only: of_nat_unat ucast_id)
qed

lemma crc_step_ref: "crc_step = ref_step"
  unfolding crc_step_def ref_step_def crc_index crc_tab_nth by (intro ext) (rule xor.commute)

text \<open>Reading a word and shifting four times is taking four bytes.\<close>

lemma crc_shift_step:
  assumes "take_bit 24 v = v"
  shows "crc_shift (crc XOR (ucast b OR push_bit 8 v)) = crc_step crc b XOR v"
proof -
  let ?c = "crc XOR (ucast b OR push_bit 8 v) :: u32"
  have m: "(0xFF :: u32) = mask 8" by (simp add: mask_eq_decr_exp)
  have i: "?c AND 0xFF = take_bit 8 (crc XOR ucast b)" unfolding m
    by (rule bit_word_eqI) (auto simp: bit_simps dest: bit_imp_le_length)
  have "drop_bit 8 ?c = drop_bit 8 crc XOR take_bit 24 v"
    by (rule bit_word_eqI) (auto simp: bit_simps add.commute dest: bit_imp_le_length)
  then show ?thesis using assms by (simp add: crc_shift_def crc_step_def crc_index i xor.assoc)
qed

lemma crc_words_steps: "crc_words crc data = foldl crc_step crc data"
proof (induction crc data rule: crc_words.induct)
  case (1 crc a b c d data)
  let ?d = "ucast d :: u32"
  let ?c = "ucast c OR push_bit 8 ?d"
  let ?b = "ucast b OR push_bit 8 ?c"
  have w: "rd_be32 d c b a = ucast a OR push_bit 8 ?b"
    unfolding rd_be32_def by (rule bit_word_eqI) (auto simp: bit_simps diff_diff_eq)
  have t: "take_bit 24 ?b = ?b" "take_bit 24 ?c = ?c" "take_bit 24 ?d = ?d" "take_bit 24 (0 :: u32) = 0"
    by (rule bit_word_eqI, auto simp: bit_simps dest: bit_imp_le_length)+
  have "crc_shift (x XOR ?d) = crc_step x d" for x using crc_shift_step [OF t(4), of x d] by simp
  then have "crc_shift (crc_shift (crc_shift (crc_shift (crc XOR rd_be32 d c b a)))) =
      crc_step (crc_step (crc_step (crc_step crc a) b) c) d"
    by (simp only: w crc_shift_step [OF t(1)] crc_shift_step [OF t(2)] crc_shift_step [OF t(3)])
  then show ?case using "1.IH" by simp
qed simp_all

lemma pj_crc32_update_steps: "pj_crc32_update addr st data = foldl crc_step (st XOR 0xFFFFFFFF) data XOR 0xFFFFFFFF"
  unfolding pj_crc32_update_def Let_def crc_words_steps foldl_append [symmetric] append_take_drop_id ..

text \<open>
  C39. Fed in any number of pieces at any addresses, the table-driven variant computes what the variant without tables computes of the whole.
\<close>

theorem crc32_agrees:
  "pj_crc32_final (foldl (\<lambda>st (addr, data). pj_crc32_update addr st data) pj_crc32_init pieces) =
    ref_crc32_calc (concat (map snd pieces))"
proof -
  have "foldl (\<lambda>st (addr, data). pj_crc32_update addr st data) st pieces XOR 0xFFFFFFFF =
      foldl crc_step (st XOR 0xFFFFFFFF) (concat (map snd pieces))" for st
    by (induction pieces arbitrary: st) (auto simp: pj_crc32_update_steps xor.assoc)
  note run = this [of 0]
  have "foldl (\<lambda>st (addr, data). pj_crc32_update addr st data) 0 pieces =
      (foldl (\<lambda>st (addr, data). pj_crc32_update addr st data) 0 pieces XOR 0xFFFFFFFF) XOR 0xFFFFFFFF"
    by (simp only: xor.assoc xor_self_eq xor.right_neutral)
  then show ?thesis
    by (simp only: run pj_crc32_init_def pj_crc32_final_def ref_crc32_calc_def crc_step_ref xor.left_neutral)
qed

end
