(* ===== verification/Digest.thy ===== *)
theory Digest
  imports Mem
begin

text \<open>
  What the hash functions of \<open>pjlib-util\<close> share. SHA-1 and MD5 take a message in pieces, keep a count of bits in two words and the
  bytes of an incomplete block of 64 in a buffer, and compress every complete block into their state. The lemmas relate such
  a state to the message taken so far; the locale \<open>stream_digest\<close> is the contract their clients, HMAC and the keys of STUN credentials, rely on.
\<close>

section \<open>Blocks\<close>

function hash_blocks :: "('s \<Rightarrow> u8 list \<Rightarrow> 's) \<Rightarrow> 's \<Rightarrow> u8 list \<Rightarrow> 's" where
  "hash_blocks f h m = (if length m < 64 then h else hash_blocks f (f h (take 64 m)) (drop 64 m))"
  by pat_completeness auto
termination by (relation "measure (\<lambda>(f, h, m). length m)") auto

declare hash_blocks.simps [simp del]

lemma hash_blocks_short [simp]: "length m < 64 \<Longrightarrow> hash_blocks f h m = h"
  by (subst hash_blocks.simps) simp

lemma hash_blocks_long: "64 \<le> length m \<Longrightarrow> hash_blocks f h m = hash_blocks f (f h (take 64 m)) (drop 64 m)"
  by (subst hash_blocks.simps) simp

lemma hash_blocks_one: "length b = 64 \<Longrightarrow> hash_blocks f h (b @ m) = hash_blocks f (f h b) m"
  by (simp add: hash_blocks_long)

lemma hash_blocks_append:
  "length a mod 64 = 0 \<Longrightarrow> hash_blocks f h (a @ b) = hash_blocks f (hash_blocks f h a) b"
proof (induction f h a rule: hash_blocks.induct)
  case (1 f h a)
  show ?case
  proof (cases "length a < 64")
    case True
    then have "a = []" using "1.prems" by simp
    then show ?thesis by simp
  next
    case False
    then have "(length a - 64) mod 64 = 0" using "1.prems" by (simp add: le_mod_geq)
    then have "hash_blocks f (f h (take 64 a)) (drop 64 a @ b) = hash_blocks f (hash_blocks f (f h (take 64 a)) (drop 64 a)) b"
      using "1.IH" False by simp
    then show ?thesis using False by (simp add: hash_blocks_long [of a] hash_blocks_long [of "a @ b"])
  qed
qed

definition tail_bytes :: "u8 list \<Rightarrow> u8 list" where
  "tail_bytes m = drop (length m div 64 * 64) m"

definition head_bytes :: "u8 list \<Rightarrow> u8 list" where
  "head_bytes m = take (length m div 64 * 64) m"

lemma length_tail_bytes [simp]: "length (tail_bytes m) = length m mod 64"
  by (simp add: tail_bytes_def minus_div_mult_eq_mod)

lemma head_tail: "head_bytes m @ tail_bytes m = m" "length (head_bytes m) mod 64 = 0"
  using div_times_less_eq_dividend [of "length m" 64] by (simp_all add: tail_bytes_def head_bytes_def min_absorb2)

lemma tail_bytes_append: "length a mod 64 = 0 \<Longrightarrow> tail_bytes (a @ b) = tail_bytes b"
proof -
  assume a: "length a mod 64 = 0"
  then have "(length a + length b) div 64 * 64 = length a + length b div 64 * 64"
    by (metis div_plus_div_distrib_dvd_left dvd_eq_mod_eq_0 dvd_div_mult_self distrib_right)
  then show ?thesis by (simp add: tail_bytes_def)
qed

lemma tail_bytes_short [simp]: "length m < 64 \<Longrightarrow> tail_bytes m = m"
  by (simp add: tail_bytes_def)

text \<open>The message seen through its incomplete block.\<close>

lemma hash_blocks_tail: "hash_blocks f iv (m @ d) = hash_blocks f (hash_blocks f iv m) (tail_bytes m @ d)"
proof -
  have "m @ d = head_bytes m @ tail_bytes m @ d" using head_tail(1) [of m] by (metis append.assoc)
  moreover have "hash_blocks f iv m = hash_blocks f iv (head_bytes m)"
    using hash_blocks_append [OF head_tail(2), of f iv m "tail_bytes m"] by (simp add: head_tail(1))
  ultimately show ?thesis using hash_blocks_append [OF head_tail(2), of f iv m "tail_bytes m @ d"] by metis
qed

lemma tail_bytes_tail: "tail_bytes (m @ d) = tail_bytes (tail_bytes m @ d)"
  by (metis append.assoc head_tail(1,2) tail_bytes_append)

text \<open>\<open>holds f iv h buf m\<close>: state and buffer after the message \<open>m\<close>.\<close>

definition holds :: "('s \<Rightarrow> u8 list \<Rightarrow> 's) \<Rightarrow> 's \<Rightarrow> 's \<Rightarrow> u8 list \<Rightarrow> u8 list \<Rightarrow> bool" where
  "holds f iv h buf m \<longleftrightarrow> h = hash_blocks f iv m \<and> length buf = 64 \<and> take (length m mod 64) buf = tail_bytes m"

lemma holds_init: "length buf = 64 \<Longrightarrow> holds f iv iv buf []"
  by (simp add: holds_def tail_bytes_def)

lemma holds_short:
  assumes "holds f iv h buf m" "length m mod 64 + length d < 64"
  shows "holds f iv h (write_at buf (length m mod 64) d) (m @ d)"
proof -
  let ?j = "length m mod 64"
  have l: "(?j + length d) mod 64 = ?j + length d" using assms(2) by simp
  have j: "(length m + length d) mod 64 = ?j + length d"
    using l mod_add_left_eq [of "length m" 64 "length d"] by simp
  have "hash_blocks f iv (m @ d) = h" using assms by (simp add: hash_blocks_tail [of f iv m d] holds_def)
  moreover have "tail_bytes (m @ d) = tail_bytes m @ d"
    unfolding tail_bytes_tail [of m d] using assms(2) by (intro tail_bytes_short) simp
  moreover have "take (?j + length d) (write_at buf ?j d) = tail_bytes m @ d"
    using assms by (auto simp: holds_def write_at_def)
  ultimately show ?thesis using assms j by (simp add: holds_def)
qed

lemma holds_long:
  assumes "holds f iv h buf m" "64 \<le> length m mod 64 + length d" "length buf' = 64"
  shows "let i = 64 - length m mod 64; rest = drop i d
    in holds f iv (hash_blocks f (f h (write_at buf (length m mod 64) (take i d))) rest) (write_at buf' 0 (tail_bytes rest)) (m @ d)"
proof -
  let ?j = "length m mod 64"
  let ?i = "64 - ?j"
  let ?b = "tail_bytes m @ take ?i d"
  have i: "?i \<le> length d" using assms(2) by simp
  have lb: "length ?b = 64" using i by simp
  have w: "write_at buf ?j (take ?i d) = ?b" using assms(1) i by (simp add: holds_def write_at_def)
  have md: "tail_bytes m @ d = ?b @ drop ?i d" by simp
  have h: "hash_blocks f iv (m @ d) = hash_blocks f (f h ?b) (drop ?i d)"
    using assms(1) hash_blocks_one [OF lb] by (simp only: hash_blocks_tail [of f iv m d] md holds_def)
  have t: "tail_bytes (m @ d) = tail_bytes (drop ?i d)"
    unfolding tail_bytes_tail [of m d] md by (rule tail_bytes_append) (simp only: lb, simp)
  have "length (m @ d) mod 64 = length (drop ?i d) mod 64" by (metis t length_tail_bytes)
  then show ?thesis using h t w assms(3) by (simp add: holds_def write_at_def Let_def min_def)
qed

section \<open>Counts of bits\<close>

definition bit_count :: "u32 \<Rightarrow> u32 \<Rightarrow> nat \<Rightarrow> bool" where
  "bit_count lo hi n \<longleftrightarrow> lo = of_nat n \<and> hi = of_nat (n div 2 ^ 32)"

lemma carry_div:
  fixes a b :: nat
  shows "(a + b) div 2 ^ 32 = a div 2 ^ 32 + b div 2 ^ 32 + (if (a + b) mod 2 ^ 32 < b mod 2 ^ 32 then 1 else 0)"
    "((a + b) mod 2 ^ 32 < b mod 2 ^ 32) = ((a + b) mod 2 ^ 32 < a mod 2 ^ 32)"
proof -
  define p q where "p = a mod 2 ^ 32" and "q = b mod 2 ^ 32"
  have pq: "p < 2 ^ 32" "q < 2 ^ 32" by (simp_all add: p_def q_def)
  have d: "(a + b) div 2 ^ 32 = a div 2 ^ 32 + b div 2 ^ 32 + (p + q) div 2 ^ 32" unfolding p_def q_def by (rule div_add1_eq)
  have m: "(a + b) mod 2 ^ 32 = (p + q) mod 2 ^ 32" unfolding p_def q_def by (simp only: mod_add_eq)
  have c: "(p + q) div 2 ^ 32 = (if p + q < 2 ^ 32 then 0 else 1)" "(p + q) mod 2 ^ 32 = (if p + q < 2 ^ 32 then p + q else p + q - 2 ^ 32)"
    using pq by (auto simp: div_nat_eqI mod_nat_eqI le_mod_geq)
  show "(a + b) div 2 ^ 32 = a div 2 ^ 32 + b div 2 ^ 32 + (if (a + b) mod 2 ^ 32 < b mod 2 ^ 32 then 1 else 0)"
    unfolding d m p_def [symmetric] q_def [symmetric] c using pq by auto
  show "((a + b) mod 2 ^ 32 < b mod 2 ^ 32) = ((a + b) mod 2 ^ 32 < a mod 2 ^ 32)"
    unfolding m p_def [symmetric] q_def [symmetric] c using pq by auto
qed

text \<open>The two ways to add the length of a piece: the carry is detected against either summand.\<close>

lemma bit_count_add:
  assumes c: "bit_count lo hi (8 * m)" and n: "n < 2 ^ 32"
  defines "lo' \<equiv> lo + push_bit 3 (of_nat n)"
  shows "(lo' < push_bit 3 (of_nat n)) = (lo' < lo)"
    and "bit_count lo' ((if lo' < lo then hi + 1 else hi) + drop_bit 29 (of_nat n)) (8 * (m + n))"
proof -
  have p: "push_bit 3 (of_nat n :: u32) = of_nat (8 * n)" by (simp add: push_bit_eq_mult)
  then have l: "lo' = of_nat (8 * m + 8 * n)" using c by (simp add: lo'_def bit_count_def)
  have u: "unat lo' = (8 * m + 8 * n) mod 2 ^ 32" "unat lo = 8 * m mod 2 ^ 32" "unat (of_nat (8 * n) :: u32) = 8 * n mod 2 ^ 32"
    unfolding l using c by (simp_all only: bit_count_def unat_of_nat) simp_all
  have un: "unat (of_nat n :: u32) = n" using n by (simp add: unat_of_nat)
  have "unat (drop_bit 29 (of_nat n :: u32)) = n div 2 ^ 29" using un by (simp only: unat_drop_bit_eq) (simp add: drop_bit_eq_div)
  then have "drop_bit 29 (of_nat n :: u32) = of_nat (n div 2 ^ 29)" by (metis of_nat_unat ucast_id)
  moreover have "n div 2 ^ 29 = 8 * n div 2 ^ 32" by simp
  ultimately have db: "drop_bit 29 (of_nat n :: u32) = of_nat (8 * n div 2 ^ 32)" by simp
  have lt: "(lo' < push_bit 3 (of_nat n)) = ((8 * m + 8 * n) mod 2 ^ 32 < 8 * n mod 2 ^ 32)"
    "(lo' < lo) = ((8 * m + 8 * n) mod 2 ^ 32 < 8 * m mod 2 ^ 32)"
    unfolding p word_less_nat_alt u by simp_all
  show "(lo' < push_bit 3 (of_nat n)) = (lo' < lo)" unfolding lt using carry_div(2) .
  have "of_nat ((8 * m + 8 * n) div 2 ^ 32) = (if lo' < lo then hi + 1 else hi) + drop_bit 29 (of_nat n :: u32)"
    unfolding carry_div(1) [of "8 * m" "8 * n"] lt db carry_div(2) using c by (simp add: bit_count_def)
  then show "bit_count lo' ((if lo' < lo then hi + 1 else hi) + drop_bit 29 (of_nat n)) (8 * (m + n))"
    using l by (simp add: bit_count_def distrib_left)
qed

lemma bit_count_pos: "bit_count lo hi (8 * m) \<Longrightarrow> unat (drop_bit 3 lo AND 63) = m mod 64"
proof -
  assume c: "bit_count lo hi (8 * m)"
  have w: "(63 :: u32) = mask 6" by (simp add: mask_eq_decr_exp)
  have "unat (drop_bit 3 lo AND 63) = unat (drop_bit 3 lo) mod 2 ^ 6"
    unfolding w by (simp only: take_bit_eq_mask [symmetric] unsigned_take_bit_eq) (simp add: take_bit_eq_mod)
  also have "unat (drop_bit 3 lo) = 8 * m mod 2 ^ 32 div 2 ^ 3"
    using c by (simp only: unat_drop_bit_eq bit_count_def unat_of_nat) (simp add: drop_bit_eq_div)
  also have "8 * m mod 2 ^ 32 div 2 ^ 3 mod 2 ^ 6 = m mod 64"
  proof -
    have "8 * m mod 2 ^ 32 = 8 * (m mod 2 ^ 29)" using mult_mod_right [of 8 m "2 ^ 29"] by simp
    then show ?thesis by (simp add: mod_mod_cancel)
  qed
  finally show ?thesis .
qed

section \<open>Padding\<close>

text \<open>The zero bytes between the end mark and the count.\<close>

definition pad_zeros :: "nat \<Rightarrow> nat" where
  "pad_zeros n = (119 - n mod 64) mod 64"

lemma pad_zeros_fit: "(n + 1 + pad_zeros n) mod 64 = 56"
proof -
  have "(n + 1 + pad_zeros n) mod 64 = (n mod 64 + 1 + (119 - n mod 64)) mod 64"
    unfolding pad_zeros_def by (metis (no_types) mod_add_left_eq mod_add_right_eq)
  also have "n mod 64 + 1 + (119 - n mod 64) = 120" by simp
  finally show ?thesis by simp
qed

section \<open>The contract\<close>

text \<open>
  A digest over a context: a message given in any pieces, each of less than half a gigabyte, has the digest of the whole. A context to start
  from only has to have the right size, and a finished one has it.
\<close>

locale stream_digest =
  fixes dmem :: "'c \<Rightarrow> bool" and dinit :: "'c \<Rightarrow> 'c" and dupdate :: "'c \<Rightarrow> u8 list \<Rightarrow> 'c"
    and dfinal :: "'c \<Rightarrow> 'c \<times> u8 list" and H :: "u8 list \<Rightarrow> u8 list"
  assumes digest_pieces:
    "dmem c \<Longrightarrow> \<forall>d \<in> set ds. length d < 2 ^ 29 \<Longrightarrow> snd (dfinal (foldl dupdate (dinit c) ds)) = H (concat ds)"
  and final_mem: "dmem (fst (dfinal c'))"
begin

lemma digest_one: "dmem c \<Longrightarrow> length d < 2 ^ 29 \<Longrightarrow> snd (dfinal (dupdate (dinit c) d)) = H d"
  using digest_pieces [of c "[d]"] by simp

lemma digest_run:
  "dmem c \<Longrightarrow> length a < 2 ^ 29 \<Longrightarrow> \<forall>d \<in> set ds. length d < 2 ^ 29 \<Longrightarrow>
    snd (dfinal (foldl dupdate (dupdate (dinit c) a) ds)) = H (a @ concat ds)"
  using digest_pieces [of c "a # ds"] by simp

text \<open>A context that was finished can be used again.\<close>

lemma digest_again: "length a < 2 ^ 29 \<Longrightarrow> length b < 2 ^ 29 \<Longrightarrow>
    snd (dfinal (dupdate (dupdate (dinit (fst (dfinal c))) a) b)) = H (a @ b)"
  using digest_pieces [OF final_mem, of "[a, b]"] by simp

end

end
