(* ===== verification/Sha1.thy ===== *)
theory Sha1
  imports Digest
begin

text \<open>
  SHA-1 and HMAC-SHA1 of \<open>pjlib-util/src/pjlib-util/sha1.c\<close> and \<open>hmac_sha1.c\<close>, on a little-endian machine: the block is expanded and
  overwritten in place as 16 words, and a context holds the state, the count of bits and the buffer. They are
  refined to the text of the standards, FIPS 180 and FIPS 198: a message schedule, a compression function and a padded message.
\<close>

section \<open>The transform\<close>

definition rol :: "u32 \<Rightarrow> nat \<Rightarrow> u32" where
  "rol v n = push_bit n v OR drop_bit (32 - n) v"

definition blk0 :: "u32 list \<Rightarrow> nat \<Rightarrow> u32" where
  "blk0 l i = (rol (l ! i) 24 AND 0xFF00FF00) OR (rol (l ! i) 8 AND 0x00FF00FF)"

definition blk :: "u32 list \<Rightarrow> nat \<Rightarrow> u32" where
  "blk l i = rol (l ! ((i + 13) mod 16) XOR l ! ((i + 8) mod 16) XOR l ! ((i + 2) mod 16) XOR l ! (i mod 16)) 1"

text \<open>
  The macros \<open>R0\<close> to \<open>R4\<close>: rounds 0 to 15, 16 to 19, and three times 20 rounds. A round gets the working variables in
  the order of the macro's parameters \<open>v\<close> to \<open>z\<close> and gives them in the order the next round names them.
\<close>

definition sha1_f :: "nat \<Rightarrow> u32 \<Rightarrow> u32 \<Rightarrow> u32 \<Rightarrow> u32" where
  "sha1_f i w x y =
    (if i < 20 then (w AND (x XOR y)) XOR y
     else if i < 40 then w XOR x XOR y
     else if i < 60 then ((w OR x) AND y) OR (w AND x)
     else w XOR x XOR y)"

definition sha1_k :: "nat \<Rightarrow> u32" where
  "sha1_k i = (if i < 20 then 0x5A827999 else if i < 40 then 0x6ED9EBA1 else if i < 60 then 0x8F1BBCDC else 0xCA62C1D6)"

type_synonym sha1_state = "u32 \<times> u32 \<times> u32 \<times> u32 \<times> u32"

definition sha1_round :: "nat \<Rightarrow> sha1_state \<times> u32 list \<Rightarrow> sha1_state \<times> u32 list" where
  "sha1_round i = (\<lambda>((v, w, x, y, z), l).
    (let b = (if i < 16 then blk0 l i else blk l i); l' = l[i mod 16 := b];
         z' = z + (sha1_f i w x y + b + sha1_k i + rol v 5)
     in ((z', v, rol w 30, x, y), l')))"

definition le_word :: "u8 list \<Rightarrow> nat \<Rightarrow> u32" where
  "le_word b i = rd_be32 (b ! (4 * i + 3)) (b ! (4 * i + 2)) (b ! (4 * i + 1)) (b ! (4 * i))"

definition SHA1_Transform :: "sha1_state \<Rightarrow> u8 list \<Rightarrow> sha1_state \<times> u8 list" where
  "SHA1_Transform st buf =
    (let ((a, b, c, d, e), l) = foldl (\<lambda>s i. sha1_round i s) (st, map (le_word buf) [0..<16]) [0..<80];
         (a0, b0, c0, d0, e0) = st
     in ((a0 + a, b0 + b, c0 + c, d0 + d, e0 + e), concat (map le32 l)))"

section \<open>The context\<close>

record sha1_context =
  sha_state :: sha1_state
  sha_count0 :: u32
  sha_count1 :: u32
  sha_buffer :: "u8 list"

definition SHA1_IV :: sha1_state where
  "SHA1_IV = (0x67452301, 0xEFCDAB89, 0x98BADCFE, 0x10325476, 0xC3D2E1F0)"

text \<open>The buffer is not initialised: its contents before are kept.\<close>

definition pj_sha1_init :: "sha1_context \<Rightarrow> sha1_context" where
  "pj_sha1_init ctx = ctx\<lparr>sha_state := SHA1_IV, sha_count0 := 0, sha_count1 := 0\<rparr>"

function sha1_loop :: "sha1_state \<Rightarrow> u8 list \<Rightarrow> sha1_state \<times> u8 list" where
  "sha1_loop st data =
    (if 64 \<le> length data then sha1_loop (fst (SHA1_Transform st (take 64 data))) (drop 64 data) else (st, data))"
  by pat_completeness auto
termination by (relation "measure (\<lambda>(st, data). length data)") auto

declare sha1_loop.simps [simp del]

text \<open>
  The length is of 64 bits in the comparison that detects the carry, and of 32 in the sum. \<open>data\<close> is shorter than \<open>2\<^sup>61\<close> bytes.
\<close>

definition pj_sha1_update :: "sha1_context \<Rightarrow> u8 list \<Rightarrow> sha1_context" where
  "pj_sha1_update ctx data =
    (let len = (of_nat (length data) :: u32);
         j = unat (drop_bit 3 (sha_count0 ctx) AND 63);
         c0 = sha_count0 ctx + push_bit 3 len;
         c1 = (if unat c0 < 8 * length data then sha_count1 ctx + 1 else sha_count1 ctx) + drop_bit 29 len;
         ctx1 = ctx\<lparr>sha_count0 := c0, sha_count1 := c1\<rparr>
     in if j + length data > 63 then
          (let i = 64 - j;
               (st1, buf1) = SHA1_Transform (sha_state ctx) (write_at (sha_buffer ctx) j (take i data));
               (st2, rest) = sha1_loop st1 (drop i data)
           in ctx1\<lparr>sha_state := st2, sha_buffer := write_at buf1 0 rest\<rparr>)
        else ctx1\<lparr>sha_buffer := write_at (sha_buffer ctx) j data\<rparr>)"

lemma update_count0: "sha_count0 (pj_sha1_update ctx data) = sha_count0 ctx + push_bit 3 (of_nat (length data))"
  by (simp add: pj_sha1_update_def Let_def split: prod.splits)

lemma and_504: "(c :: u32) AND 504 = push_bit 3 (drop_bit 3 c AND 63)"
proof -
  have m: "(504 :: u32) = push_bit 3 (mask 6)" "(63 :: u32) = mask 6" by (simp_all add: mask_eq_decr_exp push_bit_eq_mult)
  show ?thesis unfolding m by (rule bit_word_eqI) (auto simp: bit_and_iff bit_push_bit_iff bit_drop_bit_eq bit_mask_iff)
qed

lemma drop3_pos:
  "unat (drop_bit 3 (c :: u32) AND 63) = unat c div 8 mod 64"
  "unat (drop_bit 3 (c + 8) AND 63) = (unat c div 8 + 1) mod 64"
proof -
  have w: "(63 :: u32) = mask 6" by (simp add: mask_eq_decr_exp)
  have p: "unat (drop_bit 3 x AND 63) = unat x div 8 mod 64" for x :: u32
    unfolding w take_bit_eq_mask [symmetric] unsigned_take_bit_eq unat_drop_bit_eq by (simp add: take_bit_eq_mod drop_bit_eq_div)
  show "unat (drop_bit 3 c AND 63) = unat c div 8 mod 64" by (rule p)
  have "unat (c + 8) = (unat c + 8) mod 2 ^ 32" by (simp add: unat_word_ariths)
  moreover have "(unat c + 8) mod 2 ^ 32 div 8 mod 64 = (unat c + 8) div 8 mod 64"
  proof -
    have "x mod 2 ^ 32 div 8 mod 64 = x div 8 mod 64" for x :: nat
      using mod_mult2_eq [of x 8 "2 ^ 29"] by (simp add: mod_mod_cancel)
    then show ?thesis .
  qed
  moreover have "(unat c + 8) div 8 = unat c div 8 + 1" by (rule div_add_self2) simp
  ultimately show "unat (drop_bit 3 (c + 8) AND 63) = (unat c div 8 + 1) mod 64" by (simp only: p)
qed

lemma pad_measure:
  assumes "(c :: u32) AND 504 \<noteq> 448"
  shows "(120 - unat (drop_bit 3 (c + 8) AND 63)) mod 64 < (120 - unat (drop_bit 3 c AND 63)) mod 64"
proof -
  define r where "r = unat c div 8 mod 64"
  have "drop_bit 3 c AND 63 \<noteq> 56"
  proof
    assume "drop_bit 3 c AND 63 = 56"
    then have "c AND 504 = push_bit 3 56" by (simp only: and_504)
    then show False using assms by (simp add: push_bit_eq_mult)
  qed
  then have "unat (drop_bit 3 c AND 63) \<noteq> unat (56 :: u32)" by (simp only: word_unat_eq_iff not_False_eq_True)
  then have r: "r < 64" "r \<noteq> 56" using drop3_pos(1) [of c] by (simp_all add: r_def)
  have s: "(unat c div 8 + 1) mod 64 = (if r = 63 then 0 else r + 1)"
    using mod_Suc [of "unat c div 8" 64] by (simp add: r_def)
  have "(120 - (if r = 63 then 0 else r + 1)) mod 64 < (120 - r) mod 64"
  proof (cases "r < 56")
    case True
    then have "(120 - r) mod 64 = 56 - r" "(120 - (r + 1)) mod 64 = 55 - r" by (simp_all add: mod_nat_eqI)
    then show ?thesis using True by simp
  next
    case False
    then have "(120 - r) mod 64 = 120 - r" using r by simp
    moreover have "r \<noteq> 63 \<Longrightarrow> (120 - (r + 1)) mod 64 = 119 - r" using False r by simp
    ultimately show ?thesis using False r by auto
  qed
  then show ?thesis unfolding drop3_pos(2) drop3_pos(1) [of c] s r_def .
qed

function sha1_pad :: "sha1_context \<Rightarrow> sha1_context" where
  "sha1_pad ctx = (if sha_count0 ctx AND 504 \<noteq> 448 then sha1_pad (pj_sha1_update ctx [0]) else ctx)"
  by pat_completeness auto
termination
  by (relation "measure (\<lambda>ctx. (120 - unat (drop_bit 3 (sha_count0 ctx) AND 63)) mod 64)")
    (simp_all add: update_count0 pad_measure)

declare sha1_pad.simps [simp del]

definition sha1_state_bytes :: "sha1_state \<Rightarrow> u8 list" where
  "sha1_state_bytes = (\<lambda>(a, b, c, d, e). be32 a @ be32 b @ be32 c @ be32 d @ be32 e)"

text \<open>The context is wiped; the digest is the second component.\<close>

definition pj_sha1_final :: "sha1_context \<Rightarrow> sha1_context \<times> u8 list" where
  "pj_sha1_final ctx =
    (let finalcount = be32 (sha_count1 ctx) @ be32 (sha_count0 ctx);
         ctx1 = pj_sha1_update (sha1_pad (pj_sha1_update ctx [0x80])) finalcount
     in (\<lparr>sha_state = (0, 0, 0, 0, 0), sha_count0 = 0, sha_count1 = 0, sha_buffer = replicate 64 0\<rparr>,
         sha1_state_bytes (sha_state ctx1)))"

section \<open>HMAC\<close>

record hmac_sha1_context =
  hmac_ctx :: sha1_context
  hmac_opad :: "u8 list"

text \<open>\<open>tctx\<close> is the uninitialised local context.\<close>

definition pj_hmac_sha1_init :: "sha1_context \<Rightarrow> hmac_sha1_context \<Rightarrow> u8 list \<Rightarrow> hmac_sha1_context" where
  "pj_hmac_sha1_init tctx hctx key =
    (let key' = (if length key > 64 then snd (pj_sha1_final (pj_sha1_update (pj_sha1_init tctx) key)) else key);
         k_ipad = map (\<lambda>b. b XOR 0x36) (write_at (replicate 64 0) 0 key');
         k_opad = map (\<lambda>b. b XOR 0x5c) (write_at (replicate 64 0) 0 key')
     in hctx\<lparr>hmac_opad := k_opad, hmac_ctx := pj_sha1_update (pj_sha1_init (hmac_ctx hctx)) k_ipad\<rparr>)"

definition pj_hmac_sha1_update :: "hmac_sha1_context \<Rightarrow> u8 list \<Rightarrow> hmac_sha1_context" where
  "pj_hmac_sha1_update hctx input = hctx\<lparr>hmac_ctx := pj_sha1_update (hmac_ctx hctx) input\<rparr>"

definition pj_hmac_sha1_final :: "hmac_sha1_context \<Rightarrow> u8 list" where
  "pj_hmac_sha1_final hctx =
    (let (ctx, digest) = pj_sha1_final (hmac_ctx hctx)
     in snd (pj_sha1_final (pj_sha1_update (pj_sha1_update (pj_sha1_init ctx) (hmac_opad hctx)) digest)))"

definition pj_hmac_sha1 :: "sha1_context \<Rightarrow> hmac_sha1_context \<Rightarrow> u8 list \<Rightarrow> u8 list \<Rightarrow> u8 list" where
  "pj_hmac_sha1 tctx hctx input key = pj_hmac_sha1_final (pj_hmac_sha1_update (pj_hmac_sha1_init tctx hctx key) input)"

section \<open>The standards\<close>

fun fips_w :: "u8 list \<Rightarrow> nat \<Rightarrow> u32" where
  "fips_w b t =
    (if t < 16 then rd_be32 (b ! (4 * t)) (b ! (4 * t + 1)) (b ! (4 * t + 2)) (b ! (4 * t + 3))
     else rol (fips_w b (t - 3) XOR fips_w b (t - 8) XOR fips_w b (t - 14) XOR fips_w b (t - 16)) 1)"

declare fips_w.simps [simp del]

definition fips_ch :: "u32 \<Rightarrow> u32 \<Rightarrow> u32 \<Rightarrow> u32" where "fips_ch x y z = (x AND y) XOR (NOT x AND z)"
definition fips_maj :: "u32 \<Rightarrow> u32 \<Rightarrow> u32 \<Rightarrow> u32" where "fips_maj x y z = (x AND y) XOR (x AND z) XOR (y AND z)"

definition fips_f :: "nat \<Rightarrow> u32 \<Rightarrow> u32 \<Rightarrow> u32 \<Rightarrow> u32" where
  "fips_f t x y z = (if t < 20 then fips_ch x y z else if 40 \<le> t \<and> t < 60 then fips_maj x y z else x XOR y XOR z)"

definition fips_round :: "u8 list \<Rightarrow> nat \<Rightarrow> sha1_state \<Rightarrow> sha1_state" where
  "fips_round b0 t = (\<lambda>(a, b, c, d, e).
     (rol a 5 + fips_f t b c d + e + sha1_k t + fips_w b0 t, a, rol b 30, c, d))"

definition fips_compress :: "sha1_state \<Rightarrow> u8 list \<Rightarrow> sha1_state" where
  "fips_compress st b =
    (let (a1, b1, c1, d1, e1) = foldl (\<lambda>s t. fips_round b t s) st [0..<80]; (a, b, c, d, e) = st
     in (a + a1, b + b1, c + c1, d + d1, e + e1))"

text \<open>The message, a one bit, zeros up to 56 bytes in the last block, and the length in bits.\<close>

definition fips_padded :: "u8 list \<Rightarrow> u8 list" where
  "fips_padded m = m @ 0x80 # replicate (pad_zeros (length m)) 0
     @ be32 (of_nat (8 * length m div 2 ^ 32)) @ be32 (of_nat (8 * length m))"

definition sha1_spec :: "u8 list \<Rightarrow> u8 list" where
  "sha1_spec m = sha1_state_bytes (hash_blocks fips_compress SHA1_IV (fips_padded m))"

text \<open>HMAC over a hash function with blocks of 64 bytes.\<close>

definition hmac_key :: "(u8 list \<Rightarrow> u8 list) \<Rightarrow> u8 list \<Rightarrow> u8 list" where
  "hmac_key H key = (let k = (if length key > 64 then H key else key) in k @ replicate (64 - length k) 0)"

definition hmac_spec :: "(u8 list \<Rightarrow> u8 list) \<Rightarrow> u8 list \<Rightarrow> u8 list \<Rightarrow> u8 list" where
  "hmac_spec H key m =
    (let k = hmac_key H key in H (map (\<lambda>b. b XOR 0x5c) k @ H (map (\<lambda>b. b XOR 0x36) k @ m)))"

section \<open>The transform computes the compression function\<close>

lemma sha1_f_fips: "sha1_f t x y z = fips_f t x y z"
proof -
  have "(x AND (y XOR z)) XOR z = fips_ch x y z"
    unfolding fips_ch_def by (rule bit_word_eqI) (auto simp: bit_simps)
  moreover have "((x OR y) AND z) OR (x AND y) = fips_maj x y z"
    unfolding fips_maj_def by (rule bit_word_eqI) (auto simp: bit_simps)
  ultimately show ?thesis by (simp add: sha1_f_def fips_f_def)
qed

lemma blk0_swap: "blk0 l i = bswap32 (l ! i)"
proof -
  have m: "(0xFF00FF00 :: u32) = push_bit 24 (mask 8) OR push_bit 8 (mask 8)" "(0x00FF00FF :: u32) = push_bit 16 (mask 8) OR mask 8"
    by (simp_all add: mask_eq_decr_exp push_bit_eq_mult)
  have b: "bit (0xFF00FF00 :: u32) n \<longleftrightarrow> 24 \<le> n \<and> n < 32 \<or> 8 \<le> n \<and> n < 16"
    "bit (0x00FF00FF :: u32) n \<longleftrightarrow> 16 \<le> n \<and> n < 24 \<or> n < 8" for n
    unfolding m by (auto simp: bit_simps)
  show ?thesis
  proof (rule bit_word_eqI)
    fix n assume "n < LENGTH(32)"
    then have "n < 32" by simp
    moreover have "bit (blk0 l i) n \<longleftrightarrow> bit (rol (l ! i) 24) n \<and> (24 \<le> n \<and> n < 32 \<or> 8 \<le> n \<and> n < 16) \<or>
        bit (rol (l ! i) 8) n \<and> (16 \<le> n \<and> n < 24 \<or> n < 8)"
      by (simp only: blk0_def bit_or_iff bit_and_iff b)
    ultimately show "bit (blk0 l i) n = bit (bswap32 (l ! i)) n"
      by (cases rule: byte_index_cases)
        (auto simp: rol_def bit_bswap32 bit_or_iff bit_push_bit_iff bit_drop_bit_eq add.commute dest: bit_imp_le_length)
  qed
qed

lemma bswap_le_word: "bswap32 (le_word b i) = rd_be32 (b ! (4 * i)) (b ! (4 * i + 1)) (b ! (4 * i + 2)) (b ! (4 * i + 3))"
proof (rule bit_word_eqI)
  fix n assume "n < LENGTH(32)"
  then have "n < 32" by simp
  then show "bit (bswap32 (le_word b i)) n = bit (rd_be32 (b ! (4 * i)) (b ! (4 * i + 1)) (b ! (4 * i + 2)) (b ! (4 * i + 3))) n"
    by (cases rule: byte_index_cases) (auto simp: bit_bswap32 le_word_def rd_be32_def bit_simps add.commute dest: bit_imp_le_length)
qed

text \<open>After \<open>t\<close> rounds the words hold the last 16 elements of the schedule, and what is left of the block.\<close>

definition words_ok :: "u8 list \<Rightarrow> nat \<Rightarrow> u32 list \<Rightarrow> bool" where
  "words_ok b t l \<longleftrightarrow> length l = 16 \<and> (\<forall>k < t. t \<le> k + 16 \<longrightarrow> l ! (k mod 16) = fips_w b k) \<and>
     (\<forall>k < 16. t \<le> k \<longrightarrow> l ! k = le_word b k)"

lemma schedule_index:
  assumes "16 \<le> (t :: nat)"
  shows "(t + 13) mod 16 = (t - 3) mod 16" "(t + 8) mod 16 = (t - 8) mod 16" "(t + 2) mod 16 = (t - 14) mod 16" "t mod 16 = (t - 16) mod 16"
proof -
  have "t + 13 = (t - 3) + 16" "t + 8 = (t - 8) + 16" "t + 2 = (t - 14) + 16" "t = (t - 16) + 16" using assms by simp_all
  then show "(t + 13) mod 16 = (t - 3) mod 16" "(t + 8) mod 16 = (t - 8) mod 16" "(t + 2) mod 16 = (t - 14) mod 16"
    "t mod 16 = (t - 16) mod 16" by (metis mod_add_self2)+
qed

lemma words_ok_recent: "words_ok b t l \<Longrightarrow> k < t \<Longrightarrow> t \<le> k + 16 \<Longrightarrow> l ! (k mod 16) = fips_w b k"
  by (simp add: words_ok_def)

lemma words_ok_next:
  assumes "words_ok b t l"
  shows "(if t < 16 then blk0 l t else blk l t) = fips_w b t" "words_ok b (t + 1) (l[t mod 16 := fips_w b t])"
proof -
  show "(if t < 16 then blk0 l t else blk l t) = fips_w b t"
  proof (cases "t < 16")
    case True
    then have "l ! t = le_word b t" using assms by (simp add: words_ok_def)
    then show ?thesis using True by (simp add: blk0_swap bswap_le_word fips_w.simps [of b t])
  next
    case False
    then have t: "16 \<le> t" by simp
    have "blk l t = rol (fips_w b (t - 3) XOR fips_w b (t - 8) XOR fips_w b (t - 14) XOR fips_w b (t - 16)) 1"
      unfolding blk_def schedule_index [OF t] using t by (simp only: words_ok_recent [OF assms])
    then show ?thesis using False by (simp add: fips_w.simps [of b t])
  qed
  have n: "l[t mod 16 := fips_w b t] ! (k mod 16) = fips_w b k" if k: "k < t + 1" "t + 1 \<le> k + 16" for k
  proof (cases "k = t")
    case True
    then show ?thesis using assms by (simp add: words_ok_def)
  next
    case False
    have "k mod 16 \<noteq> t mod 16"
    proof
      assume "k mod 16 = t mod 16"
      then have "16 dvd t - k" using mod_eq_dvd_iff_nat [of k t 16] k by simp
      then show False using dvd_imp_le [of 16 "t - k"] False k by simp
    qed
    then show ?thesis using k False words_ok_recent [OF assms, of k] by simp
  qed
  have o: "l[t mod 16 := fips_w b t] ! k = le_word b k" if "k < 16" "t + 1 \<le> k" for k
    using assms that by (simp add: words_ok_def)
  have "length l = 16" using assms by (simp add: words_ok_def)
  then show "words_ok b (t + 1) (l[t mod 16 := fips_w b t])"
    unfolding words_ok_def using n o by simp
qed

lemma sha1_round_fips:
  assumes "words_ok b t l"
  shows "\<exists>l'. sha1_round t (s, l) = (fips_round b t s, l') \<and> words_ok b (t + 1) l'"
proof -
  obtain v w x y z where s: "s = (v, w, x, y, z)" by (cases s)
  have "z + (sha1_f t w x y + fips_w b t + sha1_k t + rol v 5) = rol v 5 + fips_f t w x y + z + sha1_k t + fips_w b t"
    unfolding sha1_f_fips by (simp only: ac_simps)
  then have "sha1_round t (s, l) = (fips_round b t s, l[t mod 16 := fips_w b t])"
    unfolding s sha1_round_def fips_round_def Let_def prod.case words_ok_next(1) [OF assms] by (simp only:)
  then show ?thesis using words_ok_next(2) [OF assms] by blast
qed

lemma transform_compress:
  assumes "length b = 64"
  shows "fst (SHA1_Transform st b) = fips_compress st b" "length (snd (SHA1_Transform st b)) = 64"
proof -
  have "\<exists>l. foldl (\<lambda>s i. sha1_round i s) (st, map (le_word b) [0..<16]) [0..<n] = (foldl (\<lambda>s t. fips_round b t s) st [0..<n], l) \<and>
      words_ok b n l" if "n \<le> 80" for n
    using that
  proof (induction n)
    case 0
    then show ?case by (simp add: words_ok_def)
  next
    case (Suc n)
    then show ?case using sha1_round_fips by fastforce
  qed
  then obtain l where l: "foldl (\<lambda>s i. sha1_round i s) (st, map (le_word b) [0..<16]) [0..<80] =
      (foldl (\<lambda>s t. fips_round b t s) st [0..<80], l)" "words_ok b 80 l" by blast
  show "fst (SHA1_Transform st b) = fips_compress st b"
    unfolding SHA1_Transform_def fips_compress_def l(1) by (simp add: Let_def split: prod.splits)
  have "length (concat (map le32 xs)) = 4 * length xs" for xs :: "u32 list" by (induction xs) simp_all
  then show "length (snd (SHA1_Transform st b)) = 64"
    unfolding SHA1_Transform_def l(1) using l(2) by (simp add: Let_def words_ok_def split: prod.splits)
qed


section \<open>The context follows the message\<close>

lemma sha1_loop_blocks: "sha1_loop st data = (hash_blocks fips_compress st data, tail_bytes data)"
proof (induction st data rule: sha1_loop.induct)
  case (1 st data)
  show ?case
  proof (cases "64 \<le> length data")
    case True
    have "tail_bytes data = tail_bytes (drop 64 data)"
      using tail_bytes_append [of "take 64 data" "drop 64 data"] True by simp
    then show ?thesis using "1.IH" True
      by (subst sha1_loop.simps) (simp add: hash_blocks_long transform_compress)
  next
    case False
    then show ?thesis by (subst sha1_loop.simps) simp
  qed
qed

definition sha1_holds :: "sha1_context \<Rightarrow> u8 list \<Rightarrow> bool" where
  "sha1_holds ctx m \<longleftrightarrow> holds fips_compress SHA1_IV (sha_state ctx) (sha_buffer ctx) m \<and>
     bit_count (sha_count0 ctx) (sha_count1 ctx) (8 * length m)"

lemma sha1_init_holds: "length (sha_buffer ctx) = 64 \<Longrightarrow> sha1_holds (pj_sha1_init ctx) []"
  by (simp add: sha1_holds_def pj_sha1_init_def holds_init bit_count_def)

lemma short_carry: "n < 2 ^ 29 \<Longrightarrow> (unat (c :: u32) < 8 * n) = (c < push_bit 3 (of_nat n))"
  by (simp add: word_less_nat_alt push_bit_eq_mult unat_of_nat unat_word_ariths mult.commute)

lemma sha1_update_holds:
  assumes "sha1_holds ctx m" "length d < 2 ^ 29"
  shows "sha1_holds (pj_sha1_update ctx d) (m @ d)"
proof -
  have h: "holds fips_compress SHA1_IV (sha_state ctx) (sha_buffer ctx) m"
    and c: "bit_count (sha_count0 ctx) (sha_count1 ctx) (8 * length m)" using assms(1) by (simp_all add: sha1_holds_def)
  have "length d < 2 ^ 32" using assms(2) by simp
  note n = bit_count_add [OF c this] short_carry [OF assms(2), of "sha_count0 ctx + push_bit 3 (of_nat (length d))"]
  note j = bit_count_pos [OF c]
  show ?thesis
  proof (cases "length m mod 64 + length d < 64")
    case True
    then show ?thesis using holds_short [OF h True] n
      by (simp add: sha1_holds_def pj_sha1_update_def Let_def j distrib_left)
  next
    case False
    let ?b = "write_at (sha_buffer ctx) (length m mod 64) (take (64 - length m mod 64) d)"
    have lb: "length ?b = 64" using h False by (simp add: holds_def)
    have "64 \<le> length m mod 64 + length d" using False by simp
    note l = holds_long [OF h this transform_compress(2) [OF lb, of "sha_state ctx"], unfolded Let_def]
    obtain st1 buf1 where t: "SHA1_Transform (sha_state ctx) ?b = (st1, buf1)" by fastforce
    then have "st1 = fips_compress (sha_state ctx) ?b" using transform_compress(1) [OF lb, of "sha_state ctx"] by simp
    then show ?thesis using False l n
      by (simp add: sha1_holds_def pj_sha1_update_def Let_def j distrib_left sha1_loop_blocks t)
  qed
qed

lemma sha1_pad_stops: "sha1_holds ctx m \<Longrightarrow> (sha_count0 ctx AND 504 = 448) = (length m mod 64 = 56)"
proof -
  assume "sha1_holds ctx m"
  then have "unat (drop_bit 3 (sha_count0 ctx) AND 63) = length m mod 64"
    using bit_count_pos by (auto simp: sha1_holds_def)
  moreover have "(sha_count0 ctx AND 504 = 448) = (drop_bit 3 (sha_count0 ctx) AND 63 = 56)"
  proof
    assume "sha_count0 ctx AND 504 = 448"
    then have "push_bit 3 (drop_bit 3 (sha_count0 ctx) AND 63) = 448" by (simp only: and_504)
    moreover have "drop_bit 3 (push_bit 3 (drop_bit 3 (sha_count0 ctx) AND 63)) = drop_bit 3 (sha_count0 ctx) AND 63"
    proof -
      have w: "(63 :: u32) = mask 6" by (simp add: mask_eq_decr_exp)
      show ?thesis unfolding w by (rule bit_word_eqI) (auto simp: bit_simps)
    qed
    ultimately show "drop_bit 3 (sha_count0 ctx) AND 63 = 56" by simp
  qed (simp add: and_504 push_bit_eq_mult)
  moreover have "(drop_bit 3 (sha_count0 ctx) AND 63 = 56) = (unat (drop_bit 3 (sha_count0 ctx) AND 63) = unat (56 :: u32))"
    by (rule word_unat_eq_iff)
  ultimately show ?thesis by simp
qed

lemma pad_count_step:
  fixes n :: nat
  assumes "n mod 64 \<noteq> 56"
  shows "(120 - n mod 64) mod 64 = Suc ((120 - Suc n mod 64) mod 64)"
proof -
  have s: "Suc n mod 64 = (if n mod 64 = 63 then 0 else n mod 64 + 1)" using mod_Suc [of n 64] by simp
  have r: "n mod 64 < 64" by simp
  show ?thesis
  proof (cases "n mod 64 < 56")
    case True
    then have "(120 - n mod 64) mod 64 = 56 - n mod 64" "(120 - (n mod 64 + 1)) mod 64 = 55 - n mod 64" by (simp_all add: mod_nat_eqI)
    moreover have "56 - n mod 64 = Suc (55 - n mod 64)" using True by (simp only: Suc_diff_le)
    ultimately show ?thesis using True by (simp add: s)
  next
    case False
    then show ?thesis using r assms by (auto simp: s)
  qed
qed

lemma sha1_pad_holds: "sha1_holds ctx m \<Longrightarrow> sha1_holds (sha1_pad ctx) (m @ replicate ((120 - length m mod 64) mod 64) 0)"
proof (induction ctx arbitrary: m rule: sha1_pad.induct)
  case (1 ctx)
  show ?case
  proof (cases "length m mod 64 = 56")
    case True
    then show ?thesis using "1.prems" sha1_pad_stops [OF "1.prems"] by (subst sha1_pad.simps) simp
  next
    case False
    have "sha1_holds (pj_sha1_update ctx [0]) (m @ [0])" using sha1_update_holds [OF "1.prems", of "[0]"] by simp
    then show ?thesis using "1.IH" [of "m @ [0]"] False sha1_pad_stops [OF "1.prems"]
      by (subst sha1_pad.simps) (simp add: pad_count_step)
  qed
qed

lemma sha1_final_spec:
  assumes "sha1_holds ctx m"
  shows "snd (pj_sha1_final ctx) = sha1_spec m"
proof -
  have "(120 - Suc (length m) mod 64) mod 64 = pad_zeros (length m)"
  proof -
    have "length m mod 64 < 64" by simp
    then show ?thesis using mod_Suc [of "length m" 64] by (auto simp: pad_zeros_def)
  qed
  then have p: "sha1_holds (sha1_pad (pj_sha1_update ctx [0x80])) (m @ 0x80 # replicate (pad_zeros (length m)) 0)"
    using sha1_pad_holds [OF sha1_update_holds [OF assms, of "[0x80]"]] by simp
  have c: "be32 (sha_count1 ctx) @ be32 (sha_count0 ctx) = be32 (of_nat (8 * length m div 2 ^ 32)) @ be32 (of_nat (8 * length m))"
    using assms by (simp add: sha1_holds_def bit_count_def)
  have "sha1_holds (pj_sha1_update (sha1_pad (pj_sha1_update ctx [0x80])) (be32 (sha_count1 ctx) @ be32 (sha_count0 ctx))) (fips_padded m)"
    using sha1_update_holds [OF p, of "be32 (sha_count1 ctx) @ be32 (sha_count0 ctx)"] by (simp add: c fips_padded_def)
  then show ?thesis by (simp add: pj_sha1_final_def sha1_spec_def sha1_holds_def holds_def)
qed

lemma sha1_pieces_hold:
  "sha1_holds ctx m \<Longrightarrow> \<forall>d \<in> set ds. length d < 2 ^ 29 \<Longrightarrow> sha1_holds (foldl pj_sha1_update ctx ds) (m @ concat ds)"
proof (induction ds arbitrary: ctx m)
  case (Cons d ds)
  then show ?case using Cons.IH [OF sha1_update_holds [OF Cons.prems(1), of d]] by simp
qed simp

interpretation sha1_digest: stream_digest "\<lambda>ctx. length (sha_buffer ctx) = 64" pj_sha1_init pj_sha1_update pj_sha1_final sha1_spec
proof
  fix c :: sha1_context and ds :: "u8 list list"
  assume "length (sha_buffer c) = 64" "\<forall>d \<in> set ds. length d < 2 ^ 29"
  then show "snd (pj_sha1_final (foldl pj_sha1_update (pj_sha1_init c) ds)) = sha1_spec (concat ds)"
    using sha1_final_spec [OF sha1_pieces_hold [OF sha1_init_holds]] by simp
qed (simp add: pj_sha1_final_def Let_def)

lemma length_sha1_spec [simp]: "length (sha1_spec m) = 20"
  by (simp add: sha1_spec_def sha1_state_bytes_def split: prod.splits)

lemma hmac_sha1_result:
  assumes "length (sha_buffer tctx) = 64" "length (sha_buffer (hmac_ctx hctx)) = 64"
    and "length key < 2 ^ 29" "\<forall>d \<in> set ds. length d < 2 ^ 29"
  shows "pj_hmac_sha1_final (foldl pj_hmac_sha1_update (pj_hmac_sha1_init tctx hctx key) ds) = hmac_spec sha1_spec key (concat ds)"
proof -
  define k where "k = (if length key > 64 then sha1_spec key else key)"
  have lk: "length k \<le> 64" by (simp add: k_def)
  let ?k = "hmac_key sha1_spec key"
  have pad: "write_at (replicate 64 0) 0 k = ?k" using lk by (simp add: write_at_def hmac_key_def k_def Let_def)
  have l64: "length ?k = 64" using lk by (simp add: hmac_key_def k_def Let_def)
  let ?i = "pj_sha1_update (pj_sha1_init (hmac_ctx hctx)) (map (\<lambda>b. b XOR 0x36) ?k)"
  have "pj_hmac_sha1_init tctx hctx key = hctx\<lparr>hmac_opad := map (\<lambda>b. b XOR 0x5c) ?k, hmac_ctx := ?i\<rparr>"
    using sha1_digest.digest_one [OF assms(1,3)] pad unfolding k_def
    by (cases "64 < length key") (simp_all add: pj_hmac_sha1_init_def Let_def)
  moreover have "foldl pj_hmac_sha1_update h ds = h\<lparr>hmac_ctx := foldl pj_sha1_update (hmac_ctx h) ds\<rparr>" for h
    by (induction ds arbitrary: h) (simp_all add: pj_hmac_sha1_update_def)
  ultimately have f: "foldl pj_hmac_sha1_update (pj_hmac_sha1_init tctx hctx key) ds =
      hctx\<lparr>hmac_opad := map (\<lambda>b. b XOR 0x5c) ?k, hmac_ctx := foldl pj_sha1_update ?i ds\<rparr>" by simp
  have "snd (pj_sha1_final (foldl pj_sha1_update ?i ds)) = sha1_spec (map (\<lambda>b. b XOR 0x36) ?k @ concat ds)"
    using sha1_digest.digest_run [OF assms(2) _ assms(4)] l64 by simp
  then show ?thesis unfolding f using l64
    by (simp add: pj_hmac_sha1_final_def hmac_spec_def Let_def split_beta sha1_digest.digest_again)
qed

lemma length_hmac_spec [simp]: "length (hmac_spec sha1_spec key m) = 20"
  by (simp add: hmac_spec_def Let_def)

text \<open>
  C40. Fed with a message in any pieces, the code for HMAC-SHA1 computes HMAC of FIPS 198 over SHA-1 of FIPS 180: the buffering of
  incomplete blocks, the schedule kept in 16 words that are overwritten in place, the padding loop and the two-word count of bits agree with a padded
  message and an 80-word schedule, whatever the contexts held before.
\<close>

theorem hmac_sha1_refines:
  assumes "length (sha_buffer tctx) = 64" "length (sha_buffer (hmac_ctx hctx)) = 64"
    and "length key < 2 ^ 29" "\<forall>d \<in> set ds. length d < 2 ^ 29"
  shows "pj_hmac_sha1_final (foldl pj_hmac_sha1_update (pj_hmac_sha1_init tctx hctx key) ds) = hmac_spec sha1_spec key (concat ds)"
  by (rule hmac_sha1_result [OF assms])

theorem hmac_sha1_refines_witness:
  "let c = \<lparr>sha_state = (0, 0, 0, 0, 0), sha_count0 = 7, sha_count1 = 0, sha_buffer = replicate 64 1\<rparr> in
   pj_hmac_sha1_final (pj_hmac_sha1_update (pj_hmac_sha1_update (pj_hmac_sha1_init c \<lparr>hmac_ctx = c, hmac_opad = []\<rparr> [107, 101, 121]) [97]) [98, 99]) =
   hmac_spec sha1_spec [107, 101, 121] [97, 98, 99]"
  unfolding Let_def
  using hmac_sha1_refines [of "\<lparr>sha_state = (0, 0, 0, 0, 0), sha_count0 = 7, sha_count1 = 0, sha_buffer = replicate 64 1\<rparr>"
      "\<lparr>hmac_ctx = \<lparr>sha_state = (0, 0, 0, 0, 0), sha_count0 = 7, sha_count1 = 0, sha_buffer = replicate 64 1\<rparr>, hmac_opad = []\<rparr>"
      "[107, 101, 121]" "[[97], [98, 99]]"]
  by simp

end
