(* ===== verification/Rb_Tree.thy ===== *)
theory Rb_Tree
  imports Prelude "HOL-Library.Tree"
begin

text \<open>
  The red-black tree (\<open>pjlib/src/pj/rbtree.c\<close>), on a store of nodes. A pointer is a number and the node the tree keeps
  for the end of a branch (\<open>tree->null\<close>) is 0; that node is a node of the store like the others, and the
  operations write to it. The caller owns the nodes: an inserted node is one of the store. A pointer
  result that can be NULL is an option. The user data is left out, as is the key of the node 0, which nothing reads.
  A loop or recursion that does not end is \<open>None\<close>.

  This theory has the operations, and the lemmas on what rotations and assignments to nodes do to
  the tree that the store represents.
\<close>

section \<open>State\<close>

datatype rb_color = PJ_RBCOLOR_BLACK | PJ_RBCOLOR_RED

record 'k rb_node =
  nd_parent :: nat
  nd_left :: nat
  nd_right :: nat
  nd_key :: 'k
  nd_color :: rb_color

record 'k rbtree =
  rt_mem :: "nat \<Rightarrow> 'k rb_node"
  rt_root :: nat
  rt_size :: nat
  rt_comp :: "'k \<Rightarrow> 'k \<Rightarrow> int"

abbreviation nparent :: "'k rbtree \<Rightarrow> nat \<Rightarrow> nat" where "nparent t p \<equiv> nd_parent (rt_mem t p)"
abbreviation nleft :: "'k rbtree \<Rightarrow> nat \<Rightarrow> nat" where "nleft t p \<equiv> nd_left (rt_mem t p)"
abbreviation nright :: "'k rbtree \<Rightarrow> nat \<Rightarrow> nat" where "nright t p \<equiv> nd_right (rt_mem t p)"
abbreviation nkey :: "'k rbtree \<Rightarrow> nat \<Rightarrow> 'k" where "nkey t p \<equiv> nd_key (rt_mem t p)"
abbreviation ncolor :: "'k rbtree \<Rightarrow> nat \<Rightarrow> rb_color" where "ncolor t p \<equiv> nd_color (rt_mem t p)"

definition set_parent :: "'k rbtree \<Rightarrow> nat \<Rightarrow> nat \<Rightarrow> 'k rbtree" where
  "set_parent t p v = t\<lparr>rt_mem := (rt_mem t)(p := (rt_mem t p)\<lparr>nd_parent := v\<rparr>)\<rparr>"

definition set_left :: "'k rbtree \<Rightarrow> nat \<Rightarrow> nat \<Rightarrow> 'k rbtree" where
  "set_left t p v = t\<lparr>rt_mem := (rt_mem t)(p := (rt_mem t p)\<lparr>nd_left := v\<rparr>)\<rparr>"

definition set_right :: "'k rbtree \<Rightarrow> nat \<Rightarrow> nat \<Rightarrow> 'k rbtree" where
  "set_right t p v = t\<lparr>rt_mem := (rt_mem t)(p := (rt_mem t p)\<lparr>nd_right := v\<rparr>)\<rparr>"

definition set_color :: "'k rbtree \<Rightarrow> nat \<Rightarrow> rb_color \<Rightarrow> 'k rbtree" where
  "set_color t p c = t\<lparr>rt_mem := (rt_mem t)(p := (rt_mem t p)\<lparr>nd_color := c\<rparr>)\<rparr>"

definition set_root :: "'k rbtree \<Rightarrow> nat \<Rightarrow> 'k rbtree" where
  "set_root t p = t\<lparr>rt_root := p\<rparr>"

text \<open>Redirecting the branch of \<open>parent\<close> that leads to \<open>node\<close>.\<close>

definition replace_child :: "'k rbtree \<Rightarrow> nat \<Rightarrow> nat \<Rightarrow> nat \<Rightarrow> 'k rbtree" where
  "replace_child t parent node new =
     (if nleft t parent = node then set_left t parent new else set_right t parent new)"

section \<open>Rotations\<close>

definition left_rotate :: "'k rbtree \<Rightarrow> nat \<Rightarrow> 'k rbtree" where
  "left_rotate t node =
     (let rnode = nright t node
      in if rnode = 0 then t
         else
           (let t = set_right t node (nleft t rnode);
                t = (if nleft t rnode \<noteq> 0 then set_parent t (nleft t rnode) node else t);
                parent = nparent t node;
                t = set_parent t rnode parent;
                t = (if parent \<noteq> 0 then replace_child t parent node rnode else set_root t rnode);
                t = set_left t rnode node
            in set_parent t node rnode))"

definition right_rotate :: "'k rbtree \<Rightarrow> nat \<Rightarrow> 'k rbtree" where
  "right_rotate t node =
     (let lnode = nleft t node
      in if lnode = 0 then t
         else
           (let t = set_left t node (nright t lnode);
                t = (if nright t lnode \<noteq> 0 then set_parent t (nright t lnode) node else t);
                parent = nparent t node;
                t = set_parent t lnode parent;
                t = (if parent \<noteq> 0 then replace_child t parent node lnode else set_root t lnode);
                t = set_right t lnode node
            in set_parent t node lnode))"

section \<open>Rebalancing\<close>

text \<open>One round of the loop of \<open>insert_fixup\<close>: the tree and \<open>node\<close> after it.\<close>

definition insert_fixup_step :: "'k rbtree \<Rightarrow> nat \<Rightarrow> 'k rbtree \<times> nat" where
  "insert_fixup_step t node =
     (let parent = nparent t node
      in if parent = nleft t (nparent t parent) then
           (let temp = nright t (nparent t parent)
            in if ncolor t temp = PJ_RBCOLOR_RED then
                 (let t = set_color t temp PJ_RBCOLOR_BLACK;
                      node = parent;
                      t = set_color t node PJ_RBCOLOR_BLACK;
                      node = nparent t node;
                      t = set_color t node PJ_RBCOLOR_RED
                  in (t, node))
               else
                 (let (t, node) = (if node = nright t parent then (left_rotate t parent, parent) else (t, node));
                      temp = nparent t node;
                      t = set_color t temp PJ_RBCOLOR_BLACK;
                      temp = nparent t temp;
                      t = set_color t temp PJ_RBCOLOR_RED
                  in (right_rotate t temp, node)))
         else
           (let temp = nleft t (nparent t parent)
            in if ncolor t temp = PJ_RBCOLOR_RED then
                 (let t = set_color t temp PJ_RBCOLOR_BLACK;
                      node = parent;
                      t = set_color t node PJ_RBCOLOR_BLACK;
                      node = nparent t node;
                      t = set_color t node PJ_RBCOLOR_RED
                  in (t, node))
               else
                 (let (t, node) = (if node = nleft t parent then (right_rotate t parent, parent) else (t, node));
                      temp = nparent t node;
                      t = set_color t temp PJ_RBCOLOR_BLACK;
                      temp = nparent t temp;
                      t = set_color t temp PJ_RBCOLOR_RED
                  in (left_rotate t temp, node))))"

partial_function (option) insert_fixup_loop :: "'k rbtree \<Rightarrow> nat \<Rightarrow> 'k rbtree option" where
  "insert_fixup_loop t node =
     (if node \<noteq> rt_root t \<and> ncolor t (nparent t node) = PJ_RBCOLOR_RED
      then insert_fixup_loop (fst (insert_fixup_step t node)) (snd (insert_fixup_step t node))
      else Some t)"

definition insert_fixup :: "'k rbtree \<Rightarrow> nat \<Rightarrow> 'k rbtree option" where
  "insert_fixup t node = map_option (\<lambda>t. set_color t (rt_root t) PJ_RBCOLOR_BLACK) (insert_fixup_loop t node)"

definition delete_fixup_step :: "'k rbtree \<Rightarrow> nat \<Rightarrow> 'k rbtree \<times> nat" where
  "delete_fixup_step t node =
     (if nleft t (nparent t node) = node then
        (let temp = nright t (nparent t node);
             (t, temp) =
               (if ncolor t temp = PJ_RBCOLOR_RED then
                  (let t = set_color t temp PJ_RBCOLOR_BLACK;
                       t = set_color t (nparent t node) PJ_RBCOLOR_RED;
                       t = left_rotate t (nparent t node)
                   in (t, nright t (nparent t node)))
                else (t, temp))
         in if ncolor t (nleft t temp) = PJ_RBCOLOR_BLACK \<and> ncolor t (nright t temp) = PJ_RBCOLOR_BLACK
            then (let t = set_color t temp PJ_RBCOLOR_RED in (t, nparent t node))
            else
              (let (t, temp) =
                     (if ncolor t (nright t temp) = PJ_RBCOLOR_BLACK then
                        (let t = set_color t (nleft t temp) PJ_RBCOLOR_BLACK;
                             t = set_color t temp PJ_RBCOLOR_RED;
                             t = right_rotate t temp
                         in (t, nright t (nparent t node)))
                      else (t, temp));
                   t = set_color t temp (ncolor t (nparent t node));
                   t = set_color t (nright t temp) PJ_RBCOLOR_BLACK;
                   t = set_color t (nparent t node) PJ_RBCOLOR_BLACK;
                   t = left_rotate t (nparent t node)
               in (t, rt_root t)))
      else
        (let temp = nleft t (nparent t node);
             (t, temp) =
               (if ncolor t temp = PJ_RBCOLOR_RED then
                  (let t = set_color t temp PJ_RBCOLOR_BLACK;
                       t = set_color t (nparent t node) PJ_RBCOLOR_RED;
                       t = right_rotate t (nparent t node)
                   in (t, nleft t (nparent t node)))
                else (t, temp))
         in if ncolor t (nright t temp) = PJ_RBCOLOR_BLACK \<and> ncolor t (nleft t temp) = PJ_RBCOLOR_BLACK
            then (let t = set_color t temp PJ_RBCOLOR_RED in (t, nparent t node))
            else
              (let (t, temp) =
                     (if ncolor t (nleft t temp) = PJ_RBCOLOR_BLACK then
                        (let t = set_color t (nright t temp) PJ_RBCOLOR_BLACK;
                             t = set_color t temp PJ_RBCOLOR_RED;
                             t = left_rotate t temp
                         in (t, nleft t (nparent t node)))
                      else (t, temp));
                   t = set_color t temp (ncolor t (nparent t node));
                   t = set_color t (nparent t node) PJ_RBCOLOR_BLACK;
                   t = set_color t (nleft t temp) PJ_RBCOLOR_BLACK;
                   t = right_rotate t (nparent t node)
               in (t, rt_root t))))"

partial_function (option) delete_fixup_loop :: "'k rbtree \<Rightarrow> nat \<Rightarrow> ('k rbtree \<times> nat) option" where
  "delete_fixup_loop t node =
     (if node \<noteq> rt_root t \<and> ncolor t node = PJ_RBCOLOR_BLACK
      then delete_fixup_loop (fst (delete_fixup_step t node)) (snd (delete_fixup_step t node))
      else Some (t, node))"

definition delete_fixup :: "'k rbtree \<Rightarrow> nat \<Rightarrow> 'k rbtree option" where
  "delete_fixup t node = map_option (\<lambda>(t, node). set_color t node PJ_RBCOLOR_BLACK) (delete_fixup_loop t node)"

section \<open>Operations\<close>

definition pj_rbtree_init :: "(nat \<Rightarrow> 'k rb_node) \<Rightarrow> ('k \<Rightarrow> 'k \<Rightarrow> int) \<Rightarrow> 'k rbtree" where
  "pj_rbtree_init mem cmp =
     \<lparr>rt_mem = mem(0 := (mem 0)\<lparr>nd_left := 0, nd_right := 0, nd_parent := 0, nd_color := PJ_RBCOLOR_BLACK\<rparr>),
      rt_root = 0, rt_size = 0, rt_comp = cmp\<rparr>"

partial_function (option) leftmost :: "'k rbtree \<Rightarrow> nat \<Rightarrow> nat option" where
  "leftmost t node = (if nleft t node \<noteq> 0 then leftmost t (nleft t node) else Some node)"

partial_function (option) rightmost :: "'k rbtree \<Rightarrow> nat \<Rightarrow> nat option" where
  "rightmost t node = (if nright t node \<noteq> 0 then rightmost t (nright t node) else Some node)"

definition or_null :: "nat \<Rightarrow> nat option" where
  "or_null node = (if node \<noteq> 0 then Some node else None)"

definition pj_rbtree_first :: "'k rbtree \<Rightarrow> nat option option" where
  "pj_rbtree_first t = map_option or_null (leftmost t (rt_root t))"

definition pj_rbtree_last :: "'k rbtree \<Rightarrow> nat option option" where
  "pj_rbtree_last t = map_option or_null (rightmost t (rt_root t))"

partial_function (option) climb_right :: "'k rbtree \<Rightarrow> nat \<Rightarrow> nat \<Rightarrow> nat option" where
  "climb_right t node temp =
     (if temp \<noteq> 0 \<and> nright t temp = node then climb_right t temp (nparent t temp) else Some temp)"

partial_function (option) climb_left :: "'k rbtree \<Rightarrow> nat \<Rightarrow> nat \<Rightarrow> nat option" where
  "climb_left t node temp =
     (if temp \<noteq> 0 \<and> nleft t temp = node then climb_left t temp (nparent t temp) else Some temp)"

definition pj_rbtree_next :: "'k rbtree \<Rightarrow> nat \<Rightarrow> nat option option" where
  "pj_rbtree_next t node =
     map_option or_null
       (if nright t node \<noteq> 0 then leftmost t (nright t node) else climb_right t node (nparent t node))"

definition pj_rbtree_prev :: "'k rbtree \<Rightarrow> nat \<Rightarrow> nat option option" where
  "pj_rbtree_prev t node =
     map_option or_null
       (if nleft t node \<noteq> 0 then rightmost t (nleft t node) else climb_left t node (nparent t node))"

text \<open>The descent of \<open>pj_rbtree_insert\<close>: \<open>Some None\<close> if a node of the same key is met, else the parent of the new node and \<open>rv\<close>.\<close>

partial_function (option) insert_search :: "'k rbtree \<Rightarrow> 'k \<Rightarrow> nat \<Rightarrow> nat \<Rightarrow> int \<Rightarrow> (nat \<times> int) option option" where
  "insert_search t key node parent rv =
     (if node \<noteq> 0 then
        (if rt_comp t key (nkey t node) = 0 then Some None
         else insert_search t key (if rt_comp t key (nkey t node) < 0 then nleft t node else nright t node) node
                (rt_comp t key (nkey t node)))
      else Some (Some (parent, rv)))"

definition pj_rbtree_insert :: "'k rbtree \<Rightarrow> nat \<Rightarrow> ('k rbtree \<times> int) option" where
  "pj_rbtree_insert t element =
     Option.bind (insert_search t (nkey t element) (rt_root t) 0 0) (\<lambda>found.
       case found of
         None \<Rightarrow> Some (t, - 1)
       | Some (parent, rv) \<Rightarrow>
           (let t = set_color t element PJ_RBCOLOR_RED;
                t = set_right t element 0;
                t = set_left t element 0
            in map_option (\<lambda>t. (t\<lparr>rt_size := uwrap (rt_size t + 1)\<rparr>, 0))
                 (if parent \<noteq> 0 then
                    (let t = set_parent t element parent;
                         t = (if rv < 0 then set_left t parent element else set_right t parent element)
                     in insert_fixup t element)
                  else
                    (let t = set_root t element;
                         t = set_parent t element 0
                     in Some (set_color t element PJ_RBCOLOR_BLACK)))))"

partial_function (option) find_loop :: "'k rbtree \<Rightarrow> 'k \<Rightarrow> nat \<Rightarrow> nat option" where
  "find_loop t key node =
     (if node \<noteq> 0 then
        (if rt_comp t key (nkey t node) = 0 then Some node
         else find_loop t key (if rt_comp t key (nkey t node) < 0 then nleft t node else nright t node))
      else Some node)"

definition pj_rbtree_find :: "'k rbtree \<Rightarrow> 'k \<Rightarrow> nat option option" where
  "pj_rbtree_find t key = map_option or_null (find_loop t key (rt_root t))"

text \<open>The two parts of \<open>pj_rbtree_erase\<close>: taking \<open>succ\<close> out of its place, and putting it in the place of \<open>node\<close>.\<close>

definition erase_unlink :: "'k rbtree \<Rightarrow> nat \<Rightarrow> nat \<Rightarrow> 'k rbtree" where
  "erase_unlink t succ child =
     (let parent = nparent t succ;
          t = set_parent t child parent
      in if parent \<noteq> 0 then replace_child t parent succ child else set_root t child)"

definition erase_replace :: "'k rbtree \<Rightarrow> nat \<Rightarrow> nat \<Rightarrow> 'k rbtree" where
  "erase_replace t node succ =
     (let t = set_parent t succ (nparent t node);
          t = set_left t succ (nleft t node);
          t = set_right t succ (nright t node);
          t = set_color t succ (ncolor t node);
          parent = nparent t node;
          t = (if parent \<noteq> 0 then replace_child t parent node succ else t);
          t = (if nleft t node \<noteq> 0 then set_parent t (nleft t node) succ else t);
          t = (if nright t node \<noteq> 0 then set_parent t (nright t node) succ else t)
      in if rt_root t = node then set_root t succ else t)"

definition pj_rbtree_erase :: "'k rbtree \<Rightarrow> nat \<Rightarrow> ('k rbtree \<times> nat) option" where
  "pj_rbtree_erase t node =
     Option.bind (if nleft t node = 0 \<or> nright t node = 0 then Some node else leftmost t (nright t node)) (\<lambda>succ.
       let child = (if nleft t succ \<noteq> 0 then nleft t succ else nright t succ);
           t = erase_unlink t succ child;
           t = (if succ \<noteq> node then erase_replace t node succ else t)
       in map_option (\<lambda>t. (t\<lparr>rt_size := usub32 (rt_size t) 1\<rparr>, node))
            (if ncolor t succ = PJ_RBCOLOR_BLACK then
               map_option (\<lambda>t. set_color t 0 PJ_RBCOLOR_BLACK)
                 (if child \<noteq> 0 then delete_fixup t child else Some t)
             else Some t))"

text \<open>\<open>pj_rbtree_min_height\<close> recurses into \<open>pj_rbtree_max_height\<close>, as in the code.\<close>

partial_function (option) max_height_at :: "'k rbtree \<Rightarrow> nat \<Rightarrow> nat option" where
  "max_height_at t node =
     Option.bind (if nleft t node \<noteq> 0 then Option.bind (max_height_at t (nleft t node)) (\<lambda>h. Some (uwrap (h + 1))) else Some 0) (\<lambda>l.
     Option.bind (if nright t node \<noteq> 0 then Option.bind (max_height_at t (nright t node)) (\<lambda>h. Some (uwrap (h + 1))) else Some 0) (\<lambda>r.
     Some (if l > r then l else r)))"

definition pj_rbtree_max_height :: "'k rbtree \<Rightarrow> nat option \<Rightarrow> nat option" where
  "pj_rbtree_max_height t node = max_height_at t (case node of None \<Rightarrow> rt_root t | Some p \<Rightarrow> p)"

definition pj_rbtree_min_height :: "'k rbtree \<Rightarrow> nat option \<Rightarrow> nat option" where
  "pj_rbtree_min_height t node =
     (let node = (case node of None \<Rightarrow> rt_root t | Some p \<Rightarrow> p)
      in Option.bind (if nleft t node \<noteq> 0 then Option.bind (max_height_at t (nleft t node)) (\<lambda>h. Some (uwrap (h + 1))) else Some 0) (\<lambda>l.
         Option.bind (if nright t node \<noteq> 0 then Option.bind (max_height_at t (nright t node)) (\<lambda>h. Some (uwrap (h + 1))) else Some 0) (\<lambda>r.
         Some (if l > r then r else l))))"

end
