(* ===== verification/Rb_Shape.thy ===== *)
theory Rb_Shape
  imports Rb_Tree
begin

text \<open>
  The tree that a store represents, and what rotations and rebalancing do to it. A tree of node
  addresses and colours is split at a position into a subtree and the frames above it, so that
  every operation is stated where it happens. The two mirrored halves of the code are one
  definition over a side each, and each lemma is proved once for both.
\<close>

section \<open>Sides\<close>

datatype side = Lft | Rgt

fun opp :: "side \<Rightarrow> side" where
  "opp Lft = Rgt"
| "opp Rgt = Lft"

lemma opp_opp [simp]: "opp (opp d) = d"
  by (cases d) simp_all

fun kid :: "side \<Rightarrow> 'k rb_node \<Rightarrow> nat" where
  "kid Lft n = nd_left n"
| "kid Rgt n = nd_right n"

fun set_kid :: "side \<Rightarrow> 'k rbtree \<Rightarrow> nat \<Rightarrow> nat \<Rightarrow> 'k rbtree" where
  "set_kid Lft t p v = set_left t p v"
| "set_kid Rgt t p v = set_right t p v"

definition relink :: "'k rbtree \<Rightarrow> nat \<Rightarrow> nat \<Rightarrow> nat \<Rightarrow> 'k rbtree" where
  "relink t parent node new = (if parent \<noteq> 0 then replace_child t parent node new else set_root t new)"

definition rotate :: "side \<Rightarrow> 'k rbtree \<Rightarrow> nat \<Rightarrow> 'k rbtree" where
  "rotate d t x =
     (let y = kid (opp d) (rt_mem t x)
      in if y = 0 then t
         else
           (let t = set_kid (opp d) t x (kid d (rt_mem t y));
                t = (if kid d (rt_mem t y) \<noteq> 0 then set_parent t (kid d (rt_mem t y)) x else t);
                q = nparent t x;
                t = set_parent t y q;
                t = relink t q x y;
                t = set_kid d t y x
            in set_parent t x y))"

lemma rotate_sides: "left_rotate t x = rotate Lft t x" "right_rotate t x = rotate Rgt t x"
  by (simp_all add: left_rotate_def right_rotate_def rotate_def relink_def Let_def)

definition insert_step :: "side \<Rightarrow> 'k rbtree \<Rightarrow> nat \<Rightarrow> 'k rbtree \<times> nat" where
  "insert_step d t node =
     (let parent = nparent t node;
          temp = kid (opp d) (rt_mem t (nparent t parent))
      in if ncolor t temp = PJ_RBCOLOR_RED then
           (let t = set_color t temp PJ_RBCOLOR_BLACK;
                t = set_color t parent PJ_RBCOLOR_BLACK;
                node = nparent t parent
            in (set_color t node PJ_RBCOLOR_RED, node))
         else
           (let (t, node) = (if node = kid (opp d) (rt_mem t parent) then (rotate d t parent, parent) else (t, node));
                temp = nparent t node;
                t = set_color t temp PJ_RBCOLOR_BLACK;
                temp = nparent t temp;
                t = set_color t temp PJ_RBCOLOR_RED
            in (rotate (opp d) t temp, node)))"

lemma insert_fixup_step_side:
  "insert_fixup_step t node =
     insert_step (if nparent t node = nleft t (nparent t (nparent t node)) then Lft else Rgt) t node"
  by (simp add: insert_fixup_step_def insert_step_def rotate_sides Let_def)

definition delete_step :: "side \<Rightarrow> 'k rbtree \<Rightarrow> nat \<Rightarrow> 'k rbtree \<times> nat" where
  "delete_step d t node =
     (let temp = kid (opp d) (rt_mem t (nparent t node));
          (t, temp) =
            (if ncolor t temp = PJ_RBCOLOR_RED then
               (let t = set_color t temp PJ_RBCOLOR_BLACK;
                    t = set_color t (nparent t node) PJ_RBCOLOR_RED;
                    t = rotate d t (nparent t node)
                in (t, kid (opp d) (rt_mem t (nparent t node))))
             else (t, temp))
      in if ncolor t (kid d (rt_mem t temp)) = PJ_RBCOLOR_BLACK \<and> ncolor t (kid (opp d) (rt_mem t temp)) = PJ_RBCOLOR_BLACK
         then (set_color t temp PJ_RBCOLOR_RED, nparent t node)
         else
           (let (t, temp) =
                  (if ncolor t (kid (opp d) (rt_mem t temp)) = PJ_RBCOLOR_BLACK then
                     (let t = set_color t (kid d (rt_mem t temp)) PJ_RBCOLOR_BLACK;
                          t = set_color t temp PJ_RBCOLOR_RED;
                          t = rotate (opp d) t temp
                      in (t, kid (opp d) (rt_mem t (nparent t node))))
                   else (t, temp));
                t = set_color t temp (ncolor t (nparent t node));
                t = set_color t (kid (opp d) (rt_mem t temp)) PJ_RBCOLOR_BLACK;
                t = set_color t (nparent t node) PJ_RBCOLOR_BLACK;
                t = rotate d t (nparent t node)
            in (t, rt_root t)))"

lemma set_color_fields [simp]:
  "nparent (set_color t a c) p = nparent t p" "nleft (set_color t a c) p = nleft t p"
  "nright (set_color t a c) p = nright t p" "nkey (set_color t a c) p = nkey t p"
  "ncolor (set_color t a c) p = (if p = a then c else ncolor t p)"
  "rt_root (set_color t a c) = rt_root t"
  by (simp_all add: set_color_def)

lemma set_color_commute: "set_color (set_color t a c) b c = set_color (set_color t b c) a c"
  by (simp add: set_color_def fun_upd_twist)

lemma delete_fixup_step_side:
  "delete_fixup_step t node = delete_step (if nleft t (nparent t node) = node then Lft else Rgt) t node"
proof (cases "nleft t (nparent t node) = node")
  case True
  show ?thesis
    unfolding delete_fixup_step_def if_P [OF True] delete_step_def rotate_sides kid.simps opp.simps Let_def
    by (simp only: set_color_fields)
next
  case False
  show ?thesis
    unfolding delete_fixup_step_def if_not_P [OF False] delete_step_def rotate_sides kid.simps opp.simps Let_def
    by (simp only: set_color_fields set_color_commute)
qed

section \<open>Represented trees\<close>

type_synonym rb_shape = "(nat \<times> rb_color) tree"

fun mk :: "side \<Rightarrow> rb_shape \<Rightarrow> nat \<times> rb_color \<Rightarrow> rb_shape \<Rightarrow> rb_shape" where
  "mk Lft t a u = Node t a u"
| "mk Rgt t a u = Node u a t"

definition nodes :: "rb_shape \<Rightarrow> nat list" where
  "nodes T = map fst (inorder T)"

lemma nodes_simps [simp]:
  "nodes Leaf = []" "nodes (Node l a r) = nodes l @ fst a # nodes r"
  by (simp_all add: nodes_def)

fun rep :: "(nat \<Rightarrow> 'k rb_node) \<Rightarrow> nat \<Rightarrow> nat \<Rightarrow> rb_shape \<Rightarrow> bool" where
  "rep m q p Leaf \<longleftrightarrow> p = 0"
| "rep m q p (Node l (a, c) r) \<longleftrightarrow> p = a \<and> a \<noteq> 0 \<and> nd_parent (m a) = q \<and> nd_color (m a) = c \<and>
     rep m a (nd_left (m a)) l \<and> rep m a (nd_right (m a)) r"

text \<open>A frame is the side of the hole, the node above it and the tree on the other side.\<close>

datatype frame = Frame side nat rb_color rb_shape

fun plug :: "frame list \<Rightarrow> rb_shape \<Rightarrow> rb_shape" where
  "plug [] T = T"
| "plug (Frame d a c u # cs) T = plug cs (mk d T (a, c) u)"

fun cparent :: "frame list \<Rightarrow> nat" where
  "cparent [] = 0"
| "cparent (Frame d a c u # cs) = a"

fun hole :: "(nat \<Rightarrow> 'k rb_node) \<Rightarrow> nat \<Rightarrow> frame list \<Rightarrow> nat" where
  "hole m r [] = r"
| "hole m r (Frame d a c u # cs) = kid d (m a)"

fun crep :: "(nat \<Rightarrow> 'k rb_node) \<Rightarrow> nat \<Rightarrow> frame list \<Rightarrow> bool" where
  "crep m r [] \<longleftrightarrow> True"
| "crep m r (Frame d a c u # cs) \<longleftrightarrow> a \<noteq> 0 \<and> nd_color (m a) = c \<and> nd_parent (m a) = cparent cs \<and> hole m r cs = a \<and>
     rep m a (kid (opp d) (m a)) u \<and> crep m r cs"

lemma rep_mk: "rep m q p (mk d T (a, c) u) \<longleftrightarrow> p = a \<and> a \<noteq> 0 \<and> nd_parent (m a) = q \<and> nd_color (m a) = c \<and>
    rep m a (kid d (m a)) T \<and> rep m a (kid (opp d) (m a)) u"
  by (cases d) auto

lemma rep_plug: "rep m 0 r (plug cs T) \<longleftrightarrow> crep m r cs \<and> rep m (cparent cs) (hole m r cs) T"
proof (induction cs arbitrary: T)
  case (Cons f cs)
  then show ?case by (cases f) (auto simp: rep_mk)
qed simp

fun before :: "frame list \<Rightarrow> nat list" where
  "before [] = []"
| "before (Frame Lft a c u # cs) = before cs"
| "before (Frame Rgt a c u # cs) = before cs @ nodes u @ [a]"

fun after :: "frame list \<Rightarrow> nat list" where
  "after [] = []"
| "after (Frame Lft a c u # cs) = a # nodes u @ after cs"
| "after (Frame Rgt a c u # cs) = after cs"

lemma nodes_plug: "nodes (plug cs T) = before cs @ nodes T @ after cs"
proof (induction cs arbitrary: T)
  case (Cons f cs)
  obtain d a c u where "f = Frame d a c u" by (cases f)
  then show ?case using Cons by (cases d) auto
qed simp

fun frame_nodes :: "frame list \<Rightarrow> nat set" where
  "frame_nodes [] = {}"
| "frame_nodes (Frame d a c u # cs) = insert a (set (nodes u) \<union> frame_nodes cs)"

fun cdistinct :: "frame list \<Rightarrow> bool" where
  "cdistinct [] \<longleftrightarrow> True"
| "cdistinct (Frame d a c u # cs) \<longleftrightarrow> a \<notin> set (nodes u) \<and> a \<notin> frame_nodes cs \<and> distinct (nodes u) \<and>
     set (nodes u) \<inter> frame_nodes cs = {} \<and> cdistinct cs"

lemma frame_nodes_set: "frame_nodes cs = set (before cs) \<union> set (after cs)"
  by (induction cs rule: before.induct) auto

lemma cdistinct_iff: "cdistinct cs \<longleftrightarrow> distinct (before cs @ after cs)"
  by (induction cs rule: before.induct) (auto simp: frame_nodes_set)

lemma set_nodes_mk: "set (nodes (mk d T a u)) = insert (fst a) (set (nodes T) \<union> set (nodes u))"
  by (cases d) auto

lemma rep_cong: "(\<And>a. a \<in> set (nodes T) \<Longrightarrow> m' a = m a) \<Longrightarrow> rep m' q p T \<longleftrightarrow> rep m q p T"
  by (induction m q p T rule: rep.induct) auto

lemma rep_nodes: "rep m q p T \<Longrightarrow> p = 0 \<or> p \<in> set (nodes T)"
  by (cases T) auto

lemma rep_root: "rep m q p T \<Longrightarrow> p \<noteq> 0 \<Longrightarrow> \<exists>l r. T = Node l (p, nd_color (m p)) r"
  by (induction m q p T rule: rep.induct) auto

lemma rep_not_null: "rep m q p T \<Longrightarrow> 0 \<notin> set (nodes T)"
  by (induction m q p T rule: rep.induct) auto

lemma crep_not_null: "crep m r cs \<Longrightarrow> 0 \<notin> frame_nodes cs"
proof (induction cs)
  case (Cons f cs)
  then show ?case by (cases f) (auto dest: rep_not_null)
qed simp

lemma cparent_in: "cparent cs \<noteq> 0 \<Longrightarrow> cparent cs \<in> frame_nodes cs"
  by (cases cs rule: cparent.cases) simp_all

lemma hole_cong: "(\<And>a. a \<in> frame_nodes cs \<Longrightarrow> m' a = m a) \<Longrightarrow> hole m' r cs = hole m r cs"
  by (cases cs rule: cparent.cases) simp_all

lemma crep_cong: "(\<And>a. a \<in> frame_nodes cs \<Longrightarrow> m' a = m a) \<Longrightarrow> crep m' r cs \<longleftrightarrow> crep m r cs"
proof (induction cs rule: frame_nodes.induct)
  case (2 d a c u cs)
  then have "rep m' a p u = rep m a p u" for p by (intro rep_cong) simp
  then show ?case using 2 hole_cong [of cs m' m] by simp
qed simp

definition holds :: "'k rbtree \<Rightarrow> rb_shape \<Rightarrow> bool" where
  "holds t T \<longleftrightarrow> rep (rt_mem t) 0 (rt_root t) T \<and> distinct (nodes T)"

lemma holds_plug:
  "holds t (plug cs T) \<longleftrightarrow> crep (rt_mem t) (rt_root t) cs \<and> rep (rt_mem t) (cparent cs) (hole (rt_mem t) (rt_root t) cs) T \<and>
     cdistinct cs \<and> distinct (nodes T) \<and> set (nodes T) \<inter> frame_nodes cs = {}"
  by (auto simp: holds_def rep_plug nodes_plug cdistinct_iff frame_nodes_set)

section \<open>Assignments\<close>

lemma set_kid_mem: "nparent (set_kid d t a v) p = nparent t p" "nkey (set_kid d t a v) p = nkey t p"
    "ncolor (set_kid d t a v) p = ncolor t p" "rt_root (set_kid d t a v) = rt_root t"
    "kid d' (rt_mem (set_kid d t a v) p) = (if p = a \<and> d' = d then v else kid d' (rt_mem t p))"
  by (cases d; cases d'; simp add: set_left_def set_right_def)+

lemma set_kid_other: "p \<noteq> a \<Longrightarrow> rt_mem (set_kid d t a v) p = rt_mem t p"
  by (cases d) (simp_all add: set_left_def set_right_def)

lemma replace_child_kid:
  assumes "kid d (rt_mem t a) = x" "kid (opp d) (rt_mem t a) \<noteq> x"
  shows "replace_child t a x y = set_kid d t a y"
  using assms by (cases d) (auto simp: replace_child_def)

lemma set_kid_crep:
  assumes C: "crep (rt_mem t) (rt_root t) (Frame d a c u # cs)" and D: "cdistinct (Frame d a c u # cs)"
  shows "crep (rt_mem (set_kid d t a y)) (rt_root t) (Frame d a c u # cs)"
    "hole (rt_mem (set_kid d t a y)) (rt_root t) (Frame d a c u # cs) = y"
proof -
  let ?m = "rt_mem (set_kid d t a y)"
  have "rep ?m a p u = rep (rt_mem t) a p u" for p using D by (intro rep_cong set_kid_other) auto
  moreover have "crep ?m (rt_root t) cs = crep (rt_mem t) (rt_root t) cs" "hole ?m (rt_root t) cs = hole (rt_mem t) (rt_root t) cs"
    using D by (intro crep_cong hole_cong set_kid_other; auto)+
  moreover have "kid (opp d) (?m a) = kid (opp d) (rt_mem t a)" "kid d (?m a) = y"
    by (cases d; simp add: set_left_def set_right_def)+
  ultimately show "crep ?m (rt_root t) (Frame d a c u # cs)" "hole ?m (rt_root t) (Frame d a c u # cs) = y"
    using C by (simp_all add: set_kid_mem)
qed

lemma relink_crep:
  fixes y :: nat
  assumes C: "crep (rt_mem t) (rt_root t) cs" and h: "hole (rt_mem t) (rt_root t) cs = x"
    and x: "x \<noteq> 0" "x \<notin> frame_nodes cs" and D: "cdistinct cs"
  defines "t' \<equiv> relink t (cparent cs) x y"
  shows "crep (rt_mem t') (rt_root t') cs" "hole (rt_mem t') (rt_root t') cs = y"
    "\<And>a. a \<notin> frame_nodes cs \<Longrightarrow> rt_mem t' a = rt_mem t a"
    "\<And>a. nparent t' a = nparent t a" "\<And>a. nkey t' a = nkey t a" "\<And>a. ncolor t' a = ncolor t a"
    "rt_size t' = rt_size t" "rt_comp t' = rt_comp t"
proof -
  have "crep (rt_mem t') (rt_root t') cs \<and> hole (rt_mem t') (rt_root t') cs = y \<and>
    (\<forall>a. a \<notin> frame_nodes cs \<longrightarrow> rt_mem t' a = rt_mem t a)"
  proof (cases cs rule: cparent.cases)
    case 1
    then show ?thesis by (simp add: t'_def relink_def set_root_def)
  next
    case (2 d a c u cs')
    have k: "kid d (rt_mem t a) = x" using h 2 by simp
    have "kid (opp d) (rt_mem t a) \<noteq> x" using C x rep_nodes by (fastforce simp: 2)
    then have t': "t' = set_kid d t a y" using C replace_child_kid [OF k] by (simp add: t'_def relink_def 2)
    show ?thesis
      using set_kid_crep [OF C [unfolded 2] D [unfolded 2], of y] unfolding t' 2 by (simp add: set_kid_mem set_kid_other del: crep.simps hole.simps)
  qed
  then show "crep (rt_mem t') (rt_root t') cs" "hole (rt_mem t') (rt_root t') cs = y"
    "\<And>a. a \<notin> frame_nodes cs \<Longrightarrow> rt_mem t' a = rt_mem t a" by auto
  show "nparent t' a = nparent t a" "nkey t' a = nkey t a" "ncolor t' a = ncolor t a" for a
    by (auto simp: t'_def relink_def replace_child_def set_left_def set_right_def set_root_def)
  show "rt_size t' = rt_size t" "rt_comp t' = rt_comp t"
    by (auto simp: t'_def relink_def replace_child_def set_left_def set_right_def set_root_def)
qed

lemma rep_color:
  assumes "rep m q a (mk d T (a, c) u)" "a \<notin> set (nodes T)" "a \<notin> set (nodes u)"
  shows "rep (m(a := (m a)\<lparr>nd_color := c'\<rparr>)) q a (mk d T (a, c') u)"
proof -
  let ?m = "m(a := (m a)\<lparr>nd_color := c'\<rparr>)"
  have "rep ?m a p T = rep m a p T" "rep ?m a p u = rep m a p u" for p
    using assms(2,3) by (auto intro!: rep_cong)
  moreover have "kid d (?m a) = kid d (m a)" "kid (opp d) (?m a) = kid (opp d) (m a)" by (cases d; simp)+
  ultimately show ?thesis using assms(1) by (simp add: rep_mk)
qed

lemma holds_set_color:
  assumes "holds t (plug cs (mk d T (a, c) u))"
  shows "holds (set_color t a c') (plug cs (mk d T (a, c') u))"
proof -
  let ?m = "rt_mem (set_color t a c')"
  have D: "a \<notin> set (nodes T)" "a \<notin> set (nodes u)" "a \<notin> frame_nodes cs"
    and D': "distinct (nodes (mk d T (a, c') u))" "set (nodes (mk d T (a, c') u)) \<inter> frame_nodes cs = {}"
    using assms by (cases d; auto simp: holds_plug)+
  have "crep ?m (rt_root t) cs = crep (rt_mem t) (rt_root t) cs" "hole ?m (rt_root t) cs = hole (rt_mem t) (rt_root t) cs"
    using D by (auto simp: set_color_def intro!: crep_cong hole_cong)
  moreover have h: "hole (rt_mem t) (rt_root t) cs = a" "rep (rt_mem t) (cparent cs) a (mk d T (a, c) u)"
    using assms by (simp_all add: holds_plug rep_mk)
  moreover have "rep ?m (cparent cs) a (mk d T (a, c') u)"
    using rep_color [OF h(2) D(1,2)] by (simp add: set_color_def)
  ultimately show ?thesis using assms D' by (simp add: holds_plug)
qed

lemma rep_mk_cong:
  assumes "rep m q a (mk d T (a, c) u)" "set (nodes T) \<subseteq> S" "set (nodes u) \<subseteq> S" "a \<notin> S"
    "\<And>b. b \<in> S \<Longrightarrow> m' b = m b" "nd_parent (m' a) = q'" "nd_color (m' a) = c'"
    "kid d (m' a) = kid d (m a)" "kid (opp d) (m' a) = kid (opp d) (m a)"
  shows "rep m' q' a (mk d T (a, c') u)"
proof -
  have "rep m' a p T = rep m a p T" "rep m' a p u = rep m a p u" for p
    using assms(2-5) by (auto intro!: rep_cong)
  then show ?thesis using assms by (simp add: rep_mk)
qed

lemma rep_new_parent:
  assumes "rep m q p T" "distinct (nodes T)"
  shows "rep (if p \<noteq> 0 then m(p := (m p)\<lparr>nd_parent := q'\<rparr>) else m) q' p T"
proof (cases T)
  case (Node l a r)
  moreover obtain p' c where "a = (p', c)" by fastforce
  ultimately have T: "T = Node l (p, c) r" using assms(1) by simp
  let ?m = "m(p := (m p)\<lparr>nd_parent := q'\<rparr>)"
  have "rep ?m p x l = rep m p x l" "rep ?m p x r = rep m p x r" for x
    using assms(2) T by (auto intro!: rep_cong)
  then show ?thesis using assms(1) T by simp
qed (use assms in simp)

section \<open>Rotation\<close>

text \<open>The fields after the assignments of a rotation that link the two nodes.\<close>

lemma holds_rotate:
  assumes H: "holds t (plug cs (mk d A (x, c) (mk d B (y, e) C)))"
  shows "holds (rotate d t x) (plug cs (mk d (mk d A (x, c) B) (y, e) C))"
    "nkey (rotate d t x) = nkey t" "rt_size (rotate d t x) = rt_size t" "rt_comp (rotate d t x) = rt_comp t"
    "rt_mem (rotate d t x) 0 = rt_mem t 0"
proof -
  let ?m = "rt_mem t"
  define b where "b = kid d (?m y)"
  have C: "crep ?m (rt_root t) cs" "cdistinct cs" "hole ?m (rt_root t) cs = x" "x \<noteq> 0"
    and X: "nparent t x = cparent cs" "ncolor t x = c" "rep ?m x (kid d (?m x)) A" "kid (opp d) (?m x) = y"
    and Y: "y \<noteq> 0" "ncolor t y = e" "rep ?m y b B" "rep ?m y (kid (opp d) (?m y)) C"
    using H by (simp_all add: holds_plug rep_mk b_def)
  have D: "distinct (x # y # nodes A @ nodes B @ nodes C)"
    "set (x # y # nodes A @ nodes B @ nodes C) \<inter> frame_nodes cs = {}"
    using H by (cases d; auto simp: holds_plug)+
  have nn: "0 \<notin> frame_nodes cs" "0 \<notin> set (nodes A)" "0 \<notin> set (nodes B)" "0 \<notin> set (nodes C)"
    using crep_not_null [OF C(1)] X(3) Y(3,4) rep_not_null by blast+
  have b: "b = 0 \<or> b \<in> set (nodes B)" using rep_nodes [OF Y(3)] .
  then have bx: "b \<noteq> x" "b \<noteq> y" "b \<notin> frame_nodes cs" "b \<notin> set (nodes A)" "b \<notin> set (nodes C)"
    using D C(4) Y(1) nn by auto
  define t1 where "t1 = set_kid (opp d) t x b"
  define t2 where "t2 = (if b \<noteq> 0 then set_parent t1 b x else t1)"
  define t3 where "t3 = set_parent t2 y (cparent cs)"
  define t4 where "t4 = relink t3 (cparent cs) x y"
  define t5 where "t5 = set_kid d t4 y x"
  define t6 where "t6 = set_parent t5 x y"
  have m3: "a \<noteq> x \<Longrightarrow> a \<noteq> y \<Longrightarrow> a \<noteq> b \<or> b = 0 \<Longrightarrow> rt_mem t3 a = ?m a" for a
    by (auto simp: t3_def t2_def t1_def set_parent_def set_kid_other)
  have r3: "rt_root t3 = rt_root t" by (simp add: t3_def t2_def t1_def set_parent_def set_kid_mem)
  have p2: "nparent t2 x = cparent cs" using X(1) bx by (simp add: t2_def t1_def set_parent_def set_kid_mem)
  have xy: "x \<noteq> y" using D(1) by simp
  then have "kid d (rt_mem t1 y) = b" by (simp add: t1_def set_kid_mem b_def)
  then have rot: "rotate d t x = t6"
    using X(4) Y(1) p2 b_def [symmetric] unfolding rotate_def Let_def t6_def t5_def t4_def t3_def t2_def t1_def
    by (cases "b = 0") simp_all
  have fr3: "rt_mem t3 a = ?m a" if "a \<in> frame_nodes cs" for a using that D(2) bx by (intro m3) auto
  have C3: "crep (rt_mem t3) (rt_root t3) cs" "hole (rt_mem t3) (rt_root t3) cs = x"
    using C crep_cong [of cs "rt_mem t3" ?m] hole_cong [of cs "rt_mem t3" ?m] fr3 by (simp_all add: r3)
  have xf: "x \<notin> frame_nodes cs" using D(2) by simp
  note R = relink_crep [where y = y, OF C3 C(4) xf C(2), folded t4_def]
  have m6: "a \<noteq> x \<Longrightarrow> a \<noteq> y \<Longrightarrow> rt_mem t6 a = rt_mem t4 a" for a
    by (simp add: t6_def t5_def set_parent_def set_kid_other)
  have r6: "rt_root t6 = rt_root t4" by (simp add: t6_def t5_def set_parent_def set_kid_mem)
  have same: "rt_mem t6 a = ?m a" if "a \<noteq> x" "a \<noteq> y" "a \<noteq> b \<or> b = 0" "a \<notin> frame_nodes cs" for a
    using that m6 R(3) m3 by metis
  have x3: "kid (opp d) (rt_mem t3 x) = b" "kid d (rt_mem t3 x) = kid d (?m x)" "ncolor t3 x = c"
    using X bx xy by (cases d; simp add: t3_def t2_def t1_def set_parent_def set_left_def set_right_def)+
  have y3: "kid (opp d) (rt_mem t3 y) = kid (opp d) (?m y)" "nparent t3 y = cparent cs" "ncolor t3 y = e"
    using Y bx xy by (cases d; simp add: t3_def t2_def t1_def set_parent_def set_left_def set_right_def)+
  have m4: "rt_mem t4 x = rt_mem t3 x" "rt_mem t4 y = rt_mem t3 y" using R(3) D(2) by auto
  have x6: "kid (opp d) (rt_mem t6 x) = b" "kid d (rt_mem t6 x) = kid d (?m x)" "ncolor t6 x = c" "nparent t6 x = y"
    using x3 xy m4 by (cases d; simp add: t6_def t5_def set_parent_def set_left_def set_right_def)+
  have y6: "kid (opp d) (rt_mem t6 y) = kid (opp d) (?m y)" "kid d (rt_mem t6 y) = x" "ncolor t6 y = e"
      "nparent t6 y = cparent cs"
    using y3 xy m4 by (cases d; simp add: t6_def t5_def set_parent_def set_left_def set_right_def)+
  have b6: "rt_mem t6 b = (?m b)\<lparr>nd_parent := x\<rparr>" if "b \<noteq> 0"
    using that bx R(3) m6 [of b] by (simp add: t3_def t2_def t1_def set_parent_def set_kid_other)
  have A: "rep (rt_mem t6) x p A = rep ?m x p A" for p using D bx by (intro rep_cong same) auto
  have Cc: "rep (rt_mem t6) y p C = rep ?m y p C" for p using D bx by (intro rep_cong same) auto
  have B: "rep (rt_mem t6) x b B"
  proof -
    have "rep (if b \<noteq> 0 then ?m(b := (?m b)\<lparr>nd_parent := x\<rparr>) else ?m) x b B"
      using rep_new_parent [OF Y(3)] D(1) by simp
    moreover have "rt_mem t6 a = (if b \<noteq> 0 then ?m(b := (?m b)\<lparr>nd_parent := x\<rparr>) else ?m) a" if "a \<in> set (nodes B)" for a
      using that same [of a] b6 D by auto
    ultimately show ?thesis using rep_cong [of B "rt_mem t6"] by metis
  qed
  have F: "crep (rt_mem t6) (rt_root t6) cs" "hole (rt_mem t6) (rt_root t6) cs = y"
  proof -
    have "rt_mem t6 a = rt_mem t4 a" if "a \<in> frame_nodes cs" for a using that D(2) by (intro m6) auto
    then show "crep (rt_mem t6) (rt_root t6) cs" "hole (rt_mem t6) (rt_root t6) cs = y"
      using R(1,2) crep_cong [of cs "rt_mem t6"] hole_cong [of cs "rt_mem t6"] by (simp_all add: r6)
  qed
  have "distinct (nodes (mk d (mk d A (x, c) B) (y, e) C))"
    "set (nodes (mk d (mk d A (x, c) B) (y, e) C)) \<inter> frame_nodes cs = {}"
    using D by (cases d; auto)+
  then show "holds (rotate d t x) (plug cs (mk d (mk d A (x, c) B) (y, e) C))"
    using A B Cc F x6 y6 X Y C by (simp add: rot holds_plug rep_mk)
  show "nkey (rotate d t x) = nkey t"
    unfolding rot by (rule ext) (simp add: t6_def t5_def R(5) t3_def t2_def t1_def set_parent_def set_kid_mem)
  have sz: "rt_size (set_kid d' s a v) = rt_size s" "rt_comp (set_kid d' s a v) = rt_comp s" for d' a v and s :: "'a rbtree"
    by (cases d'; simp add: set_left_def set_right_def)+
  show "rt_size (rotate d t x) = rt_size t" "rt_comp (rotate d t x) = rt_comp t"
    unfolding rot by (simp_all add: t6_def t5_def R(7,8) t3_def t2_def t1_def set_parent_def sz)
  show "rt_mem (rotate d t x) 0 = rt_mem t 0" unfolding rot using same [of 0] C(4) Y(1) nn(1) b by auto
qed

section \<open>Red-black trees\<close>

lemma mk_opp [simp]: "mk (opp d) t a u = mk d u a t"
  by (cases d) simp_all

lemma mk_side: "\<exists>A' B'. mk e A a B = mk d A' a B'"
  by (cases e; cases d) auto

fun tcolor :: "rb_shape \<Rightarrow> rb_color" where
  "tcolor Leaf = PJ_RBCOLOR_BLACK"
| "tcolor (Node l (a, c) r) = c"

definition weight :: "rb_color \<Rightarrow> nat" where
  "weight c = (if c = PJ_RBCOLOR_BLACK then 1 else 0)"

fun bheight :: "rb_shape \<Rightarrow> nat" where
  "bheight Leaf = 0"
| "bheight (Node l (a, c) r) = bheight l + weight c"

fun invc :: "rb_shape \<Rightarrow> bool" where
  "invc Leaf \<longleftrightarrow> True"
| "invc (Node l (a, c) r) \<longleftrightarrow> invc l \<and> invc r \<and>
     (c = PJ_RBCOLOR_RED \<longrightarrow> tcolor l = PJ_RBCOLOR_BLACK \<and> tcolor r = PJ_RBCOLOR_BLACK)"

fun invh :: "rb_shape \<Rightarrow> bool" where
  "invh Leaf \<longleftrightarrow> True"
| "invh (Node l (a, c) r) \<longleftrightarrow> invh l \<and> invh r \<and> bheight l = bheight r"

text \<open>What a coloured tree lacks when only its root may violate the colour rule.\<close>

fun invc2 :: "rb_shape \<Rightarrow> bool" where
  "invc2 Leaf \<longleftrightarrow> True"
| "invc2 (Node l a r) \<longleftrightarrow> invc l \<and> invc r"

lemma invc2_mk [simp]: "invc2 (mk d A a B) \<longleftrightarrow> invc A \<and> invc B"
  by (cases d) auto

lemma invc_invc2: "invc T \<Longrightarrow> invc2 T"
  by (cases T rule: invc.cases) auto

lemma tcolor_mk [simp]: "tcolor (mk d A (a, c) B) = c"
  by (cases d) simp_all

lemma invc_mk [simp]: "invc (mk d A (a, c) B) \<longleftrightarrow> invc A \<and> invc B \<and>
    (c = PJ_RBCOLOR_RED \<longrightarrow> tcolor A = PJ_RBCOLOR_BLACK \<and> tcolor B = PJ_RBCOLOR_BLACK)"
  by (cases d) auto

lemma invh_mk [simp]: "invh (mk d A (a, c) B) \<longleftrightarrow> invh A \<and> invh B \<and> bheight A = bheight B"
  by (cases d) auto

lemma bheight_mk: "bheight A = bheight B \<Longrightarrow> bheight (mk d A (a, c) B) = bheight A + weight c"
  by (cases d) simp_all

fun cinvc :: "frame list \<Rightarrow> rb_color \<Rightarrow> bool" where
  "cinvc [] k \<longleftrightarrow> True"
| "cinvc (Frame d a c u # cs) k \<longleftrightarrow>
     (c = PJ_RBCOLOR_RED \<longrightarrow> k = PJ_RBCOLOR_BLACK \<and> tcolor u = PJ_RBCOLOR_BLACK) \<and> invc u \<and> cinvc cs c"

fun cinvh :: "frame list \<Rightarrow> nat \<Rightarrow> bool" where
  "cinvh [] n \<longleftrightarrow> True"
| "cinvh (Frame d a c u # cs) n \<longleftrightarrow> invh u \<and> bheight u = n \<and> cinvh cs (n + weight c)"

lemma invc_plug: "invc (plug cs T) \<longleftrightarrow> invc T \<and> cinvc cs (tcolor T)"
  by (induction cs T rule: plug.induct) auto

lemma invh_plug: "invh (plug cs T) \<longleftrightarrow> invh T \<and> cinvh cs (bheight T)"
  by (induction cs T rule: plug.induct) (auto simp: bheight_mk)

text \<open>The colour of the root of a plugged tree.\<close>

fun top_color :: "frame list \<Rightarrow> rb_color \<Rightarrow> rb_color" where
  "top_color [] k = k"
| "top_color (Frame d a c u # cs) k = top_color cs c"

lemma tcolor_plug: "tcolor (plug cs T) = top_color cs (tcolor T)"
  by (induction cs T rule: plug.induct) auto

definition same_data :: "'k rbtree \<Rightarrow> 'k rbtree \<Rightarrow> bool" where
  "same_data t t' \<longleftrightarrow> nkey t' = nkey t \<and> rt_size t' = rt_size t \<and> rt_comp t' = rt_comp t"

lemma same_data_refl [simp]: "same_data t t"
  by (simp add: same_data_def)

lemma same_data_trans: "same_data t t' \<Longrightarrow> same_data t' t'' \<Longrightarrow> same_data t t''"
  by (simp add: same_data_def)

lemma same_data_color [simp]: "same_data t (set_color t' a c) \<longleftrightarrow> same_data t t'"
  by (auto simp: same_data_def fun_eq_iff) (simp_all add: set_color_def)

lemma rotate_same:
  assumes "holds t (plug cs (mk d A (x, c) (mk d B (y, e) C)))"
  shows "same_data t (rotate d t x)" "rt_mem (rotate d t x) 0 = rt_mem t 0"
  using holds_rotate(2-5) [OF assms] by (simp_all add: same_data_def)

section \<open>Rebalancing after an insertion\<close>

lemma nodes_mk: "nodes (mk Lft A a B) = nodes A @ fst a # nodes B" "nodes (mk Rgt A a B) = nodes B @ fst a # nodes A"
  by simp_all

lemma plug_swap_nodes: "nodes T = nodes T' \<Longrightarrow> nodes (plug cs T) = nodes (plug cs T')"
  by (simp add: nodes_plug)

lemma mk_rotated_nodes: "nodes (mk d (mk d A x B) y C) = nodes (mk d A x (mk d B y C))"
  by (cases d) simp_all

text \<open>What the code reads at a node, its parent and its grandparent.\<close>

lemma holds_above:
  assumes "holds t (plug (Frame d1 p pc s # Frame d g gc u # cs) (mk e A (x, c) B))"
  shows "nparent t x = p" "nparent t p = g" "kid d (rt_mem t g) = p" "kid (opp d) (rt_mem t g) \<noteq> p"
    "x \<noteq> p" "x \<noteq> g" "p \<noteq> g" "p \<noteq> 0" "g \<noteq> 0" "x \<noteq> 0" "ncolor t p = pc" "ncolor t x = c"
    "kid d1 (rt_mem t p) = x" "kid (opp d1) (rt_mem t p) \<noteq> x"
    "rep (rt_mem t) g (kid (opp d) (rt_mem t g)) u"
proof -
  note H = assms [unfolded holds_plug crep.simps hole.simps cparent.simps cdistinct.simps rep_mk]
  have D: "x \<notin> set (nodes s)" "x \<notin> set (nodes u)" "p \<notin> set (nodes u)" "x \<noteq> p" "x \<noteq> g" "p \<noteq> g"
    using H by (cases e; auto)+
  show "nparent t x = p" "nparent t p = g" "kid d (rt_mem t g) = p"
    "x \<noteq> p" "x \<noteq> g" "p \<noteq> g" "p \<noteq> 0" "g \<noteq> 0" "x \<noteq> 0" "ncolor t p = pc" "ncolor t x = c"
    "kid d1 (rt_mem t p) = x" and u: "rep (rt_mem t) g (kid (opp d) (rt_mem t g)) u"
    using H D by auto
  show "kid (opp d) (rt_mem t g) \<noteq> p" using rep_nodes [OF u] D H by auto
  have "rep (rt_mem t) p (kid (opp d1) (rt_mem t p)) s" using H by auto
  from rep_nodes [OF this] show "kid (opp d1) (rt_mem t p) \<noteq> x" using D H by auto
qed

lemma insert_side:
  assumes "holds t (plug (Frame d1 p pc s # Frame d g gc u # cs) (mk e A (x, c) B))"
  shows "insert_fixup_step t x = insert_step d t x"
  using holds_above(1-4) [OF assms] by (cases d) (auto simp: insert_fixup_step_side)

lemma rep_color_root: "rep m q p T \<Longrightarrow> nd_color (m 0) = PJ_RBCOLOR_BLACK \<Longrightarrow> nd_color (m p) = tcolor T"
  by (induction m q p T rule: rep.induct) auto

lemma insert_step_red:
  assumes H: "holds t (plug (Frame d1 p pc s # Frame d g gc u # cs) (mk e A (x, c) B))"
    and u: "u = mk d ua (w, PJ_RBCOLOR_RED) ub"
  shows "holds (fst (insert_step d t x)) (plug cs (mk d (mk d1 (mk e A (x, c) B) (p, PJ_RBCOLOR_BLACK) s) (g, PJ_RBCOLOR_RED)
      (mk d ua (w, PJ_RBCOLOR_BLACK) ub)))"
    "snd (insert_step d t x) = g" "same_data t (fst (insert_step d t x))" "rt_mem (fst (insert_step d t x)) 0 = rt_mem t 0"
proof -
  note a = holds_above [OF H]
  have w: "kid (opp d) (rt_mem t g) = w" "w \<noteq> 0" "ncolor t w = PJ_RBCOLOR_RED" using a(15) by (simp_all add: u rep_mk)
  define X where "X = mk e A (x, c) B"
  define t1 where "t1 = set_color t w PJ_RBCOLOR_BLACK"
  define t2 where "t2 = set_color t1 p PJ_RBCOLOR_BLACK"
  have st: "insert_step d t x = (set_color t2 g PJ_RBCOLOR_RED, g)"
    using a(1,2) w by (simp add: insert_step_def Let_def t2_def t1_def)
  have "holds t (plug (Frame (opp d) g gc (mk d1 X (p, pc) s) # cs) (mk d ua (w, PJ_RBCOLOR_RED) ub))"
    using H by (simp add: u X_def)
  from holds_set_color [OF this]
  have "holds t1 (plug (Frame d g gc (mk d ua (w, PJ_RBCOLOR_BLACK) ub) # cs) (mk d1 X (p, pc) s))"
    by (simp add: t1_def)
  from holds_set_color [OF this]
  have "holds t2 (plug cs (mk d (mk d1 X (p, PJ_RBCOLOR_BLACK) s) (g, gc) (mk d ua (w, PJ_RBCOLOR_BLACK) ub)))"
    by (simp add: t2_def)
  from holds_set_color [OF this] show "holds (fst (insert_step d t x)) (plug cs (mk d (mk d1 (mk e A (x, c) B) (p, PJ_RBCOLOR_BLACK) s) (g, PJ_RBCOLOR_RED)
      (mk d ua (w, PJ_RBCOLOR_BLACK) ub)))" by (simp add: st X_def)
  show "snd (insert_step d t x) = g" "same_data t (fst (insert_step d t x))"
    by (simp_all add: st t2_def t1_def)
  show "rt_mem (fst (insert_step d t x)) 0 = rt_mem t 0"
    using a(8,9) w(2) by (simp add: st t2_def t1_def set_color_def)
qed

text \<open>With a black uncle, an inner child is first rotated outwards; then one rotation ends the loop.\<close>

lemma outer_rotation:
  assumes H: "holds t (plug (Frame d p pc s # Frame d g gc u # cs) X)"
    and X: "X = mk e A (x, c) B"
  defines "t' \<equiv> rotate (opp d) (set_color (set_color t p PJ_RBCOLOR_BLACK) g PJ_RBCOLOR_RED) g"
  shows "holds t' (plug cs (mk d X (p, PJ_RBCOLOR_BLACK) (mk d s (g, PJ_RBCOLOR_RED) u)))"
    "same_data t t'" "rt_mem t' 0 = rt_mem t 0" "nparent t' x = p" "ncolor t' p = PJ_RBCOLOR_BLACK"
proof -
  note a = holds_above [OF H [unfolded X]]
  have "holds t (plug (Frame d g gc u # cs) (mk d X (p, pc) s))" using H by simp
  from holds_set_color [OF this, of PJ_RBCOLOR_BLACK]
  have "holds (set_color t p PJ_RBCOLOR_BLACK) (plug cs (mk d (mk d X (p, PJ_RBCOLOR_BLACK) s) (g, gc) u))" by simp
  from holds_set_color [OF this, of PJ_RBCOLOR_RED]
  have R: "holds (set_color (set_color t p PJ_RBCOLOR_BLACK) g PJ_RBCOLOR_RED)
      (plug cs (mk (opp d) u (g, PJ_RBCOLOR_RED) (mk (opp d) s (p, PJ_RBCOLOR_BLACK) X)))" by simp
  from holds_rotate(1) [OF R, folded t'_def]
  show h: "holds t' (plug cs (mk d X (p, PJ_RBCOLOR_BLACK) (mk d s (g, PJ_RBCOLOR_RED) u)))" by simp
  show "same_data t t'" using same_data_trans [OF _ rotate_same(1) [OF R, folded t'_def]] by simp
  show "rt_mem t' 0 = rt_mem t 0" using rotate_same(2) [OF R, folded t'_def] a(8,9) by (simp add: set_color_def)
  show "nparent t' x = p" "ncolor t' p = PJ_RBCOLOR_BLACK" using h unfolding X by (simp_all add: holds_plug rep_mk)
qed

lemma insert_step_black:
  assumes H: "holds t (plug (Frame d1 p PJ_RBCOLOR_RED s # Frame d g gc u # cs) (mk d A (x, PJ_RBCOLOR_RED) B))"
    and u: "tcolor u = PJ_RBCOLOR_BLACK" and n: "ncolor t 0 = PJ_RBCOLOR_BLACK"
  defines "T \<equiv> (if d1 = d then mk d (mk d A (x, PJ_RBCOLOR_RED) B) (p, PJ_RBCOLOR_BLACK) (mk d s (g, PJ_RBCOLOR_RED) u)
      else mk d (mk d s (p, PJ_RBCOLOR_RED) A) (x, PJ_RBCOLOR_BLACK) (mk d B (g, PJ_RBCOLOR_RED) u))"
  shows "holds (fst (insert_step d t x)) (plug cs T)" "same_data t (fst (insert_step d t x))"
    "rt_mem (fst (insert_step d t x)) 0 = rt_mem t 0"
    "insert_fixup_loop (fst (insert_step d t x)) (snd (insert_step d t x)) = Some (fst (insert_step d t x))"
proof -
  note a = holds_above [OF H]
  have uc: "ncolor t (kid (opp d) (rt_mem t g)) \<noteq> PJ_RBCOLOR_RED" using rep_color_root [OF a(15) n] u by simp
  have "holds (fst (insert_step d t x)) (plug cs T) \<and> same_data t (fst (insert_step d t x)) \<and>
    rt_mem (fst (insert_step d t x)) 0 = rt_mem t 0 \<and>
    ncolor (fst (insert_step d t x)) (nparent (fst (insert_step d t x)) (snd (insert_step d t x))) = PJ_RBCOLOR_BLACK"
  proof (cases "d1 = d")
    case True
    note O = outer_rotation [OF H [unfolded True] refl]
    have st: "insert_step d t x = (rotate (opp d) (set_color (set_color t p PJ_RBCOLOR_BLACK) g PJ_RBCOLOR_RED) g, x)"
      using a(1,2,14) uc True by (simp add: insert_step_def Let_def)
    show ?thesis using O unfolding st T_def by (simp add: True)
  next
    case False
    then have d1: "d1 = opp d" by (cases d; cases d1) auto
    have R: "holds t (plug (Frame d g gc u # cs) (mk d s (p, PJ_RBCOLOR_RED) (mk d A (x, PJ_RBCOLOR_RED) B)))"
      using H by (simp add: d1)
    define t1 where "t1 = rotate d t p"
    have t1: "holds t1 (plug (Frame d x PJ_RBCOLOR_RED B # Frame d g gc u # cs) (mk d s (p, PJ_RBCOLOR_RED) A))"
      "same_data t t1" "rt_mem t1 0 = rt_mem t 0"
      using holds_rotate(1) [OF R, folded t1_def] rotate_same [OF R, folded t1_def] by simp_all
    have a1: "nparent t1 p = x" "nparent t1 x = g" using holds_above(1,2) [OF t1(1)] by simp_all
    note O = outer_rotation [OF t1(1) refl]
    have st: "insert_step d t x = (rotate (opp d) (set_color (set_color t1 x PJ_RBCOLOR_BLACK) g PJ_RBCOLOR_RED) g, p)"
      using a(1,2,13) a1 uc by (simp add: insert_step_def Let_def d1 t1_def)
    show ?thesis using O t1(2,3) same_data_trans [OF t1(2) O(2)] unfolding st T_def by (simp add: False)
  qed
  then show "holds (fst (insert_step d t x)) (plug cs T)" "same_data t (fst (insert_step d t x))"
    "rt_mem (fst (insert_step d t x)) 0 = rt_mem t 0"
    "insert_fixup_loop (fst (insert_step d t x)) (snd (insert_step d t x)) = Some (fst (insert_step d t x))"
    by (auto simp: insert_fixup_loop.simps)
qed

definition top_black :: "frame list \<Rightarrow> bool" where
  "top_black cs \<longleftrightarrow> cs = [] \<or> top_color cs PJ_RBCOLOR_RED = PJ_RBCOLOR_BLACK"

lemma top_color_Cons: "cs \<noteq> [] \<Longrightarrow> top_color cs k = top_color cs k'"
  by (cases cs rule: cparent.cases) simp_all

lemma insert_loop_result:
  assumes "holds t (plug cs (mk e A (x, PJ_RBCOLOR_RED) B))" "ncolor t 0 = PJ_RBCOLOR_BLACK" "top_black cs"
  shows "\<exists>t' T. insert_fixup_loop t x = Some t' \<and> holds t' T \<and> nodes T = nodes (plug cs (mk e A (x, PJ_RBCOLOR_RED) B)) \<and>
    same_data t t' \<and> rt_mem t' 0 = rt_mem t 0 \<and>
    (invh (plug cs (mk e A (x, PJ_RBCOLOR_RED) B)) \<and> invc (mk e A (x, PJ_RBCOLOR_RED) B) \<and> cinvc cs PJ_RBCOLOR_BLACK \<longrightarrow>
      invh T \<and> invc2 T)"
  using assms
proof (induction "length cs" arbitrary: t cs e A x B rule: less_induct)
  case less
  define X where "X = mk e A (x, PJ_RBCOLOR_RED) B"
  note H = less.prems(1) [folded X_def]
  have xn: "x \<noteq> 0" "hole (rt_mem t) (rt_root t) cs = x" "nparent t x = cparent cs" "x \<notin> frame_nodes cs"
    using less.prems(1) by (cases e; simp add: holds_plug rep_mk)+
  have stop: ?case if "insert_fixup_loop t x = Some t" "invc X \<and> cinvc cs PJ_RBCOLOR_BLACK \<longrightarrow> invc2 (plug cs X)"
    using that H unfolding X_def [symmetric] by (intro exI [of _ t] exI [of _ "plug cs X"]) auto
  show ?case
  proof (cases cs rule: cparent.cases)
    case 1
    then have "insert_fixup_loop t x = Some t" using xn(2) by (simp add: insert_fixup_loop.simps)
    then show ?thesis using 1 invc_invc2 by (intro stop) auto
  next
    case (2 d1 p pc s cs')
    have pn: "p \<noteq> 0" "ncolor t p = pc" "hole (rt_mem t) (rt_root t) cs' = p" using H by (simp_all add: 2 holds_plug rep_mk)
    show ?thesis
    proof (cases pc)
      case PJ_RBCOLOR_BLACK
      then have "insert_fixup_loop t x = Some t" using xn(3) pn(2) by (simp add: insert_fixup_loop.simps 2)
      moreover have "invc2 (plug cs X)" if "invc X" "cinvc cs PJ_RBCOLOR_BLACK"
        using that by (intro invc_invc2) (auto simp: 2 PJ_RBCOLOR_BLACK invc_plug)
      ultimately show ?thesis by (intro stop) auto
    next
      case PJ_RBCOLOR_RED
      then obtain d g gc u cs'' where cs': "cs' = Frame d g gc u # cs''"
        using less.prems(3) by (cases cs' rule: cparent.cases) (auto simp: 2 top_black_def)
      have xr: "x \<noteq> rt_root t"
      proof
        assume "x = rt_root t"
        moreover have "rep (rt_mem t) 0 (rt_root t) (plug cs X)" using H by (simp add: holds_def)
        ultimately have "nparent t x = 0"
          using rep_root xn(1) rep.simps(2) by metis
        then show False using xn(3) pn(1) by (simp add: 2)
      qed
      obtain A' B' where X: "X = mk d A' (x, PJ_RBCOLOR_RED) B'" unfolding X_def using mk_side by blast
      have H2: "holds t (plug (Frame d1 p PJ_RBCOLOR_RED s # Frame d g gc u # cs'') (mk d A' (x, PJ_RBCOLOR_RED) B'))"
        using H by (simp add: 2 cs' PJ_RBCOLOR_RED X)
      have step: "insert_fixup_loop t x = insert_fixup_loop (fst (insert_step d t x)) (snd (insert_step d t x))"
        using xr pn(2) xn(3) PJ_RBCOLOR_RED insert_side [OF H2] by (subst insert_fixup_loop.simps) (simp add: 2)
      have top: "cs'' = [] \<or> top_color cs'' PJ_RBCOLOR_RED = PJ_RBCOLOR_BLACK"
        using less.prems(3) top_color_Cons [of cs'' gc PJ_RBCOLOR_RED] by (cases "cs'' = []") (auto simp: 2 cs' top_black_def)
      show ?thesis
      proof (cases "tcolor u")
        case PJ_RBCOLOR_BLACK
        note S = insert_step_black [OF H2 PJ_RBCOLOR_BLACK less.prems(2)]
        define T where "T = (if d1 = d then mk d (mk d A' (x, PJ_RBCOLOR_RED) B') (p, PJ_RBCOLOR_BLACK) (mk d s (g, PJ_RBCOLOR_RED) u)
            else mk d (mk d s (p, PJ_RBCOLOR_RED) A') (x, PJ_RBCOLOR_BLACK) (mk d B' (g, PJ_RBCOLOR_RED) u))"
        have "nodes (plug cs'' T) = nodes (plug cs X)"
          unfolding 2 cs' plug.simps X T_def by (rule plug_swap_nodes) (cases d; cases d1; simp)
        moreover have "invh (plug cs'' T) \<and> invc2 (plug cs'' T)"
          if "invh (plug cs X)" "invc X" "cinvc cs PJ_RBCOLOR_BLACK"
        proof -
          have g: "gc = PJ_RBCOLOR_BLACK" "tcolor s = PJ_RBCOLOR_BLACK" "invc s" "invc u" "cinvc cs'' PJ_RBCOLOR_BLACK"
            using that(3) \<open>pc = PJ_RBCOLOR_RED\<close> by (cases gc; simp add: 2 cs')+
          then have "invc (plug cs'' T)"
            using that(2) PJ_RBCOLOR_BLACK unfolding X T_def by (auto simp: invc_plug)
          moreover have "invh (plug cs'' T)"
            using that(1) g(1) \<open>pc = PJ_RBCOLOR_RED\<close> unfolding 2 cs' plug.simps X T_def
            by (auto simp: invh_plug bheight_mk weight_def)
          ultimately show ?thesis using invc_invc2 by blast
        qed
        ultimately show ?thesis
          using S step unfolding T_def [symmetric] X_def [symmetric] by auto
      next
        case PJ_RBCOLOR_RED
        then obtain ua w ub where "u = Node ua (w, PJ_RBCOLOR_RED) ub" by (cases u rule: tcolor.cases) auto
        then obtain ua ub where u: "u = mk d ua (w, PJ_RBCOLOR_RED) ub" using mk_side [of Lft] by (metis mk.simps(1))
        note S = insert_step_red [OF H2 u]
        define Y where "Y = mk d1 X (p, PJ_RBCOLOR_BLACK) s"
        define v where "v = mk d ua (w, PJ_RBCOLOR_BLACK) ub"
        have H': "holds (fst (insert_step d t x)) (plug cs'' (mk d Y (g, PJ_RBCOLOR_RED) v))"
          using S(1) by (simp add: Y_def v_def X)
        have "ncolor (fst (insert_step d t x)) 0 = PJ_RBCOLOR_BLACK" using S(4) less.prems(2) by simp
        from less.hyps [OF _ H' this] top obtain t' T where
          IH: "insert_fixup_loop (fst (insert_step d t x)) g = Some t'" "holds t' T"
            "nodes T = nodes (plug cs'' (mk d Y (g, PJ_RBCOLOR_RED) v))"
            "same_data (fst (insert_step d t x)) t'" "rt_mem t' 0 = rt_mem (fst (insert_step d t x)) 0"
            "invh (plug cs'' (mk d Y (g, PJ_RBCOLOR_RED) v)) \<and> invc (mk d Y (g, PJ_RBCOLOR_RED) v) \<and>
              cinvc cs'' PJ_RBCOLOR_BLACK \<longrightarrow> invh T \<and> invc2 T"
          by (auto simp: 2 cs' top_black_def)
        have "nodes T = nodes (plug cs X)"
          unfolding IH(3) 2 cs' plug.simps Y_def v_def u by (rule plug_swap_nodes) (cases d; cases d1; simp)
        moreover have "invh T \<and> invc2 T" if "invh (plug cs X)" "invc X" "cinvc cs PJ_RBCOLOR_BLACK"
        proof -
          have g: "gc = PJ_RBCOLOR_BLACK" "tcolor s = PJ_RBCOLOR_BLACK" "invc s" "invc u" "cinvc cs'' PJ_RBCOLOR_BLACK"
            using that(3) \<open>pc = PJ_RBCOLOR_RED\<close> by (cases gc; simp add: 2 cs')+
          then have "invc (mk d Y (g, PJ_RBCOLOR_RED) v)"
            using that(2) by (auto simp: Y_def v_def u)
          moreover have "invh (plug cs'' (mk d Y (g, PJ_RBCOLOR_RED) v))"
            using that(1) g(1) \<open>pc = PJ_RBCOLOR_RED\<close> unfolding 2 cs' plug.simps Y_def v_def u
            by (auto simp: invh_plug bheight_mk weight_def)
          ultimately show ?thesis using IH(6) g(5) by blast
        qed
        ultimately show ?thesis
          using S step IH(1,2,5) same_data_trans [OF S(3) IH(4)] unfolding X_def [symmetric] by auto
      qed
    qed
  qed
qed

section \<open>Rebalancing after a deletion\<close>

text \<open>
  Deletion can leave a tree that is not balanced, and then rebalances it although the sibling of
  a node may be missing and the node 0 may be red. What every such step keeps is the order of the nodes.
\<close>

definition null_ok :: "'k rbtree \<Rightarrow> bool" where
  "null_ok t \<longleftrightarrow> nleft t 0 = 0 \<and> nright t 0 = 0"

definition ordered_as :: "'k rbtree \<Rightarrow> nat list \<Rightarrow> bool" where
  "ordered_as t xs \<longleftrightarrow> (\<exists>T. holds t T \<and> nodes T = xs) \<and> null_ok t"

lemma null_ok_kid: "null_ok t \<Longrightarrow> kid d (rt_mem t 0) = 0"
  by (cases d) (simp_all add: null_ok_def)

lemma null_ok_color [simp]: "null_ok (set_color t a c) \<longleftrightarrow> null_ok t"
  by (simp add: null_ok_def)

lemma kid_color [simp]: "kid d (rt_mem (set_color t a c) p) = kid d (rt_mem t p)"
  by (cases d) simp_all

lemma rep_split: "x \<in> set (nodes T) \<Longrightarrow> \<exists>cs A c B. T = plug cs (mk d A (x, c) B)"
proof (induction T)
  case (Node l a r)
  obtain y c where a: "a = (y, c)" by fastforce
  have up: "\<exists>cs A c B. T' = plug cs (mk d A (x, c) B) \<Longrightarrow> \<exists>cs A c' B. mk e T' (y, c) u = plug cs (mk d A (x, c') B)"
    for e T' u
  proof -
    assume "\<exists>cs A c B. T' = plug cs (mk d A (x, c) B)"
    then obtain cs A k B where "T' = plug cs (mk d A (x, k) B)" by blast
    moreover have "mk e (plug cs Z) (y, c) u = plug (cs @ [Frame e y c u]) Z" for Z
      by (induction cs Z rule: plug.induct) auto
    ultimately show ?thesis by metis
  qed
  consider "x \<in> set (nodes l)" | "x \<in> set (nodes r)" | "x = y" using Node.prems a by auto
  then show ?case
  proof cases
    case 1
    from up [OF Node.IH(1) [OF 1], of Lft r] show ?thesis by (simp add: a)
  next
    case 2
    from up [OF Node.IH(2) [OF 2], of Rgt l] show ?thesis by (simp add: a)
  next
    case 3
    obtain A B where "mk Lft l (x, c) r = mk d A (x, c) B" using mk_side by blast
    then show ?thesis by (intro exI [of _ "[]"]) (auto simp: a 3)
  qed
qed simp

lemma rep_any_color: "rep m q p T \<Longrightarrow> \<exists>T'. rep (m(a := (m a)\<lparr>nd_color := c\<rparr>)) q p T' \<and> nodes T' = nodes T"
proof (induction T arbitrary: q p)
  case (Node l b r)
  define m' where "m' = m(a := (m a)\<lparr>nd_color := c\<rparr>)"
  have f: "nd_left (m' p) = nd_left (m p)" "nd_right (m' p) = nd_right (m p)" "nd_parent (m' p) = nd_parent (m p)"
    by (simp_all add: m'_def)
  obtain k where b: "b = (p, k)" "p \<noteq> 0" "nd_parent (m p) = q" "rep m p (nd_left (m p)) l" "rep m p (nd_right (m p)) r"
    using Node.prems by (cases b) auto
  obtain l' where l': "rep m' p (nd_left (m p)) l'" "nodes l' = nodes l" using Node.IH(1) [OF b(4)] unfolding m'_def by blast
  obtain r' where r': "rep m' p (nd_right (m p)) r'" "nodes r' = nodes r" using Node.IH(2) [OF b(5)] unfolding m'_def by blast
  show ?case unfolding m'_def [symmetric]
    using l' r' b f by (intro exI [of _ "Node l' (p, nd_color (m' p)) r'"]) simp
qed (auto intro: exI [of _ Leaf])

lemma ordered_color: "ordered_as t xs \<Longrightarrow> ordered_as (set_color t a c) xs"
proof -
  assume "ordered_as t xs"
  then obtain T where T: "rep (rt_mem t) 0 (rt_root t) T" "distinct (nodes T)" "nodes T = xs" "null_ok t"
    by (auto simp: ordered_as_def holds_def)
  obtain T' where "rep ((rt_mem t)(a := (rt_mem t a)\<lparr>nd_color := c\<rparr>)) 0 (rt_root t) T'" "nodes T' = nodes T"
    using rep_any_color [OF T(1)] by blast
  then have "holds (set_color t a c) T'" "nodes T' = xs" using T(2,3) by (simp_all add: holds_def set_color_def)
  then show ?thesis using T(4) by (auto simp: ordered_as_def)
qed

lemma rotate_none: "kid (opp d) (rt_mem t x) = 0 \<Longrightarrow> rotate d t x = t"
  by (simp add: rotate_def)

lemma ordered_rotate:
  assumes "ordered_as t xs" "x \<in> insert 0 (set xs)"
  shows "ordered_as (rotate d t x) xs" "same_data t (rotate d t x)" "rt_mem (rotate d t x) 0 = rt_mem t 0"
proof -
  obtain T where T: "holds t T" "nodes T = xs" "null_ok t" using assms(1) by (auto simp: ordered_as_def)
  have "ordered_as (rotate d t x) xs \<and> same_data t (rotate d t x) \<and> rt_mem (rotate d t x) 0 = rt_mem t 0"
  proof (cases "kid (opp d) (rt_mem t x) = 0")
    case True
    then show ?thesis using assms(1) by (simp add: rotate_none)
  next
    case False
    then have "x \<in> set xs" using assms(2) null_ok_kid [OF T(3)] by auto
    then obtain cs A c B where B: "T = plug cs (mk d A (x, c) B)" using rep_split T(2) by metis
    then have "rep (rt_mem t) x (kid (opp d) (rt_mem t x)) B" using T(1) by (simp add: holds_plug rep_mk)
    then obtain B1 y e B2 where "B = Node B1 (y, e) B2" using rep_root False by blast
    then obtain B' C where B': "B = mk d B' (y, e) C" using mk_side [of Lft] by (metis mk.simps(1))
    then have R: "holds t (plug cs (mk d A (x, c) (mk d B' (y, e) C)))" using B T(1) by simp
    have "nodes (plug cs (mk d (mk d A (x, c) B') (y, e) C)) = xs"
      using T(2) mk_rotated_nodes by (simp add: B B' nodes_plug)
    then show ?thesis
      using holds_rotate(1) [OF R] rotate_same [OF R] T(3) by (auto simp: ordered_as_def null_ok_def)
  qed
  then show "ordered_as (rotate d t x) xs" "same_data t (rotate d t x)" "rt_mem (rotate d t x) 0 = rt_mem t 0" by auto
qed

lemma ordered_pointers:
  assumes "ordered_as t xs"
  shows "x \<in> set xs \<Longrightarrow> nparent t x \<in> insert 0 (set xs)" "x \<in> insert 0 (set xs) \<Longrightarrow> kid d (rt_mem t x) \<in> insert 0 (set xs)"
proof -
  obtain T where T: "holds t T" "nodes T = xs" "null_ok t" using assms(1) by (auto simp: ordered_as_def)
  have "nparent t x \<in> insert 0 (set xs) \<and> kid d (rt_mem t x) \<in> insert 0 (set xs)" if x: "x \<in> set xs"
  proof -
    obtain cs A c B where B: "T = plug cs (mk d A (x, c) B)" using rep_split T(2) x by metis
    then have "nparent t x = cparent cs" "rep (rt_mem t) x (kid d (rt_mem t x)) A"
      using T(1) by (simp_all add: holds_plug rep_mk)
    moreover have "set xs = set (nodes (mk d A (x, c) B)) \<union> frame_nodes cs"
      using T(2) by (auto simp: B nodes_plug frame_nodes_set)
    ultimately show ?thesis using rep_nodes cparent_in [of cs] by (cases d) fastforce+
  qed
  then show "x \<in> set xs \<Longrightarrow> nparent t x \<in> insert 0 (set xs)" "x \<in> insert 0 (set xs) \<Longrightarrow> kid d (rt_mem t x) \<in> insert 0 (set xs)"
    using null_ok_kid [OF T(3)] by auto
qed

text \<open>The three parts of a round: a red sibling, two black nephews, and the final rotations.\<close>

definition delete_sibling :: "side \<Rightarrow> 'k rbtree \<Rightarrow> nat \<Rightarrow> 'k rbtree" where
  "delete_sibling d t node =
     (let temp = kid (opp d) (rt_mem t (nparent t node))
      in if ncolor t temp = PJ_RBCOLOR_RED
         then rotate d (set_color (set_color t temp PJ_RBCOLOR_BLACK) (nparent t node) PJ_RBCOLOR_RED) (nparent t node)
         else t)"

definition delete_rotate :: "side \<Rightarrow> 'k rbtree \<Rightarrow> nat \<Rightarrow> nat \<Rightarrow> 'k rbtree" where
  "delete_rotate d t node temp =
     (let (t, temp) =
            (if ncolor t (kid (opp d) (rt_mem t temp)) = PJ_RBCOLOR_BLACK then
               (let t = rotate (opp d) (set_color (set_color t (kid d (rt_mem t temp)) PJ_RBCOLOR_BLACK) temp PJ_RBCOLOR_RED) temp
                in (t, kid (opp d) (rt_mem t (nparent t node))))
             else (t, temp));
          t = set_color t temp (ncolor t (nparent t node));
          t = set_color t (kid (opp d) (rt_mem t temp)) PJ_RBCOLOR_BLACK;
          t = set_color t (nparent t node) PJ_RBCOLOR_BLACK
      in rotate d t (nparent t node))"

lemma delete_step_parts:
  "delete_step d t node =
     (let t = delete_sibling d t node;
          temp = kid (opp d) (rt_mem t (nparent t node))
      in if ncolor t (kid d (rt_mem t temp)) = PJ_RBCOLOR_BLACK \<and> ncolor t (kid (opp d) (rt_mem t temp)) = PJ_RBCOLOR_BLACK
         then (set_color t temp PJ_RBCOLOR_RED, nparent t node)
         else (delete_rotate d t node temp, rt_root (delete_rotate d t node temp)))"
proof (cases "ncolor t (kid (opp d) (rt_mem t (nparent t node))) = PJ_RBCOLOR_RED")
  case True
  show ?thesis
    unfolding delete_step_def delete_sibling_def delete_rotate_def Let_def if_P [OF True] set_color_fields kid_color case_prod_beta fst_conv snd_conv
    by (rule refl)
next
  case False
  show ?thesis
    unfolding delete_step_def delete_sibling_def delete_rotate_def Let_def if_not_P [OF False] set_color_fields kid_color case_prod_beta fst_conv snd_conv
    by (rule refl)
qed

lemma delete_rotate_ordered:
  assumes O: "ordered_as t xs" and x: "node \<in> set xs" "temp \<in> insert 0 (set xs)"
  shows "ordered_as (delete_rotate d t node temp) xs" "same_data t (delete_rotate d t node temp)"
proof -
  define t1 where "t1 = rotate (opp d) (set_color (set_color t (kid d (rt_mem t temp)) PJ_RBCOLOR_BLACK) temp PJ_RBCOLOR_RED) temp"
  have "ordered_as (set_color (set_color t (kid d (rt_mem t temp)) PJ_RBCOLOR_BLACK) temp PJ_RBCOLOR_RED) xs"
    using O by (intro ordered_color)
  note R = ordered_rotate [OF this x(2), of "opp d", folded t1_def]
  have last: "ordered_as (rotate d t' (nparent s node)) xs \<and> same_data s (rotate d t' (nparent s node))"
    if "ordered_as s xs" "t' = set_color (set_color (set_color s a c) b c') (nparent s node) c''" for s t' :: "'a rbtree" and a b c c' c''
  proof -
    have "ordered_as t' xs" using that by (auto intro: ordered_color)
    from ordered_rotate [OF this ordered_pointers(1) [OF that(1) x(1)], of d] show ?thesis
      using that(2) same_data_trans [of s t'] by simp
  qed
  have "same_data t t1" using R(2) same_data_trans [OF _ R(2)] by simp
  then have "ordered_as (delete_rotate d t node temp) xs \<and> same_data t (delete_rotate d t node temp)"
    using last [OF R(1) refl] last [OF O refl] same_data_trans [of t t1]
    unfolding delete_rotate_def Let_def t1_def [symmetric] by (auto simp: split del: if_split) (auto split: if_splits)
  then show "ordered_as (delete_rotate d t node temp) xs" "same_data t (delete_rotate d t node temp)" by auto
qed

lemma rep_null_color: "rep m q p T \<Longrightarrow> rep (m(0 := (m 0)\<lparr>nd_color := c\<rparr>)) q p T"
  using rep_cong [of T "m(0 := (m 0)\<lparr>nd_color := c\<rparr>)" m] rep_not_null [of m q p T] by fastforce

lemma holds_null_color: "holds t T \<Longrightarrow> holds (set_color t 0 c) T"
  unfolding holds_def set_color_def by (auto intro: rep_null_color)

lemma holds_root:
  assumes "holds t T" "x \<in> set (nodes T)"
  shows "rt_root t \<noteq> 0" "nparent t (rt_root t) = 0" "ncolor t (rt_root t) = tcolor T"
  using assms by (cases T rule: tcolor.cases; simp add: holds_def)+

lemma kid_not_root:
  assumes "ordered_as t xs" "p \<in> set xs"
  shows "kid d (rt_mem t p) \<noteq> rt_root t" "p \<noteq> 0"
proof -
  obtain T where T: "holds t T" "nodes T = xs" using assms(1) by (auto simp: ordered_as_def)
  then obtain cs A c B where B: "T = plug cs (mk d A (p, c) B)" using rep_split assms(2) by metis
  have r: "rep (rt_mem t) p (kid d (rt_mem t p)) A" and p: "p \<noteq> 0" using T(1) by (simp_all add: B holds_plug rep_mk)
  have "rt_root t \<noteq> 0" "nparent t (rt_root t) = 0" using holds_root [OF T(1)] T(2) assms(2) by blast+
  moreover have "nparent t (kid d (rt_mem t p)) = p" if "kid d (rt_mem t p) \<noteq> 0"
    using r rep_root [OF r that] by auto
  ultimately show "kid d (rt_mem t p) \<noteq> rt_root t" "p \<noteq> 0" using p by auto
qed

lemma holds_frame:
  assumes "holds t (plug (Frame d p pc s # cs) (mk e A (x, c) B))"
  shows "nparent t x = p" "kid d (rt_mem t p) = x" "kid (opp d) (rt_mem t p) \<noteq> x" "p \<noteq> 0" "x \<noteq> 0" "x \<noteq> p"
    "ncolor t p = pc" "ncolor t x = c" "rep (rt_mem t) p (kid (opp d) (rt_mem t p)) s" "hole (rt_mem t) (rt_root t) cs = p"
    "p \<in> set (nodes (plug (Frame d p pc s # cs) (mk e A (x, c) B)))" "x \<in> set (nodes (plug (Frame d p pc s # cs) (mk e A (x, c) B)))"
proof -
  note H = assms [unfolded holds_plug crep.simps hole.simps cparent.simps cdistinct.simps rep_mk]
  have D: "x \<notin> set (nodes s)" "x \<noteq> p" using H by (cases e; auto)+
  show "nparent t x = p" "kid d (rt_mem t p) = x" "p \<noteq> 0" "x \<noteq> 0" "x \<noteq> p" "ncolor t p = pc" "ncolor t x = c"
    "hole (rt_mem t) (rt_root t) cs = p" and s: "rep (rt_mem t) p (kid (opp d) (rt_mem t p)) s"
    using H D by auto
  show "kid (opp d) (rt_mem t p) \<noteq> x" using rep_nodes [OF s] D H by auto
  show "p \<in> set (nodes (plug (Frame d p pc s # cs) (mk e A (x, c) B)))" "x \<in> set (nodes (plug (Frame d p pc s # cs) (mk e A (x, c) B)))"
    by (cases d; cases e; simp add: nodes_plug)+
qed

lemma delete_sibling_result:
  assumes H: "holds t (plug (Frame d p pc s # cs) X)" and X: "X = mk e A (x, c) B" and n: "null_ok t"
    and r: "ncolor t (rt_root t) = PJ_RBCOLOR_BLACK"
  defines "t1 \<equiv> delete_sibling d t x"
  shows "ordered_as t1 (nodes (plug (Frame d p pc s # cs) X))" "same_data t t1" "nparent t1 x = p"
    "ncolor t1 (rt_root t1) = PJ_RBCOLOR_BLACK \<or> p = rt_root t1" "t1 = t \<or> ncolor t1 p = PJ_RBCOLOR_RED"
proof -
  note f = holds_frame [OF H [unfolded X]]
  have O: "ordered_as t (nodes (plug (Frame d p pc s # cs) X))" using H n by (auto simp: ordered_as_def)
  have "ordered_as t1 (nodes (plug (Frame d p pc s # cs) X)) \<and> same_data t t1 \<and> nparent t1 x = p \<and>
    (ncolor t1 (rt_root t1) = PJ_RBCOLOR_BLACK \<or> p = rt_root t1) \<and> (t1 = t \<or> ncolor t1 p = PJ_RBCOLOR_RED)"
  proof (cases "ncolor t (kid (opp d) (rt_mem t p)) = PJ_RBCOLOR_RED")
    case False
    then have "t1 = t" using f(1) by (simp add: t1_def delete_sibling_def)
    then show ?thesis using O f(1) r by simp
  next
    case True
    define t' where "t' = set_color (set_color t (kid (opp d) (rt_mem t p)) PJ_RBCOLOR_BLACK) p PJ_RBCOLOR_RED"
    have t1: "t1 = rotate d t' p" using True f(1) by (simp add: t1_def delete_sibling_def t'_def Let_def)
    have O': "ordered_as t' (nodes (plug (Frame d p pc s # cs) X))" unfolding t'_def using O by (intro ordered_color)
    have p: "p \<in> insert 0 (set (nodes (plug (Frame d p pc s # cs) X)))" using f(11) unfolding X by simp
    note R = ordered_rotate [OF O' p, of d, folded t1]
    have sd: "same_data t t1" using same_data_trans [OF _ R(2)] by (simp add: t'_def)
    show ?thesis
    proof (cases s)
      case Leaf
      then have "kid (opp d) (rt_mem t' p) = 0" using f(9) by (simp add: t'_def)
      then have "t1 = t'" unfolding t1 by (rule rotate_none)
      moreover have "ncolor t' (rt_root t') = PJ_RBCOLOR_BLACK \<or> p = rt_root t'" using r by (auto simp: t'_def)
      ultimately show ?thesis using O' sd f(1) by (simp add: t'_def)
    next
      case (Node l a r')
      then obtain w k where "s = Node l (w, k) r'" by (cases a) auto
      then obtain sa sb where s: "s = mk d sa (w, k) sb" using mk_side [of Lft] by (metis mk.simps(1))
      then have w: "kid (opp d) (rt_mem t p) = w" using f(9) by (simp add: rep_mk)
      have "holds t (plug (Frame (opp d) p pc X # cs) (mk d sa (w, k) sb))" using H by (simp add: s)
      from holds_set_color [OF this, of PJ_RBCOLOR_BLACK]
      have "holds (set_color t w PJ_RBCOLOR_BLACK) (plug cs (mk d X (p, pc) (mk d sa (w, PJ_RBCOLOR_BLACK) sb)))" by simp
      from holds_set_color [OF this, of PJ_RBCOLOR_RED]
      have "holds t' (plug cs (mk d X (p, PJ_RBCOLOR_RED) (mk d sa (w, PJ_RBCOLOR_BLACK) sb)))" by (simp add: t'_def w)
      from holds_rotate(1) [OF this, folded t1]
      have h: "holds t1 (plug (Frame d p PJ_RBCOLOR_RED sa # Frame d w PJ_RBCOLOR_BLACK sb # cs) X)" by simp
      have pr: "nparent t1 x = p" "ncolor t1 p = PJ_RBCOLOR_RED" using holds_frame(1,7) [OF h [unfolded X]] .
      have "top_color cs pc = PJ_RBCOLOR_BLACK"
        using r holds_root(3) [OF H f(12) [folded X]] by (simp add: tcolor_plug)
      then have "top_color cs PJ_RBCOLOR_BLACK = PJ_RBCOLOR_BLACK"
        using top_color_Cons [of cs pc PJ_RBCOLOR_BLACK] by (cases "cs = []") auto
      then have "ncolor t1 (rt_root t1) = PJ_RBCOLOR_BLACK"
        using holds_root(3) [OF h holds_frame(12) [OF h [unfolded X], folded X]] by (simp add: tcolor_plug)
      then show ?thesis using R(1) sd pr by simp
    qed
  qed
  then show "ordered_as t1 (nodes (plug (Frame d p pc s # cs) X))" "same_data t t1" "nparent t1 x = p"
    "ncolor t1 (rt_root t1) = PJ_RBCOLOR_BLACK \<or> p = rt_root t1" "t1 = t \<or> ncolor t1 p = PJ_RBCOLOR_RED" by auto
qed

lemma delete_side:
  assumes "holds t (plug (Frame d p pc s # cs) (mk e A (x, c) B))"
  shows "delete_fixup_step t x = delete_step d t x"
  using holds_frame(1-3) [OF assms] by (cases d) (auto simp: delete_fixup_step_side)

lemma delete_loop_result:
  assumes "holds t (plug cs (mk e A (x, c) B))" "null_ok t" "ncolor t (rt_root t) = PJ_RBCOLOR_BLACK"
  shows "\<exists>t' n. delete_fixup_loop t x = Some (t', n) \<and> ordered_as t' (nodes (plug cs (mk e A (x, c) B))) \<and>
    same_data t t' \<and> (ncolor t' (rt_root t') = PJ_RBCOLOR_BLACK \<or> n = rt_root t')"
  using assms
proof (induction "length cs" arbitrary: t cs e A x c B rule: less_induct)
  case less
  define X where "X = mk e A (x, c) B"
  define xs where "xs = nodes (plug cs X)"
  note H = less.prems(1) [folded X_def] and n = less.prems(2) and r = less.prems(3)
  have O: "ordered_as t xs" using H n by (auto simp: ordered_as_def xs_def)
  show ?case
  proof (cases "x = rt_root t \<or> ncolor t x = PJ_RBCOLOR_RED")
    case True
    then have "delete_fixup_loop t x = Some (t, x)" by (subst delete_fixup_loop.simps) auto
    then show ?thesis using O r unfolding xs_def X_def by auto
  next
    case False
    have "hole (rt_mem t) (rt_root t) cs = x" using less.prems(1) by (simp add: holds_plug rep_mk)
    then have "cs \<noteq> []" using False by (metis hole.simps(1))
    then obtain d p pc s cs' where cs: "cs = Frame d p pc s # cs'" by (cases cs rule: cparent.cases) simp_all
    note H' = H [unfolded cs]
    note f = holds_frame [OF H' [unfolded X_def]]
    define t1 where "t1 = delete_sibling d t x"
    define temp where "temp = kid (opp d) (rt_mem t1 p)"
    note S = delete_sibling_result [OF H' X_def n r, folded t1_def, folded cs, folded xs_def]
    have px: "p \<in> set xs" "x \<in> set xs" using f(11,12) by (simp_all add: xs_def cs X_def)
    have tm: "temp \<in> insert 0 (set xs)" "temp \<noteq> rt_root t1" "p \<noteq> 0"
      using ordered_pointers(2) [OF S(1)] kid_not_root [OF S(1) px(1)] px(1) by (auto simp: temp_def)
    have loop: "delete_fixup_loop t x = delete_fixup_loop (fst (delete_step d t x)) (snd (delete_step d t x))"
      using False delete_side [OF H' [unfolded X_def]] by (subst delete_fixup_loop.simps) (cases "ncolor t x"; simp)
    show ?thesis
    proof (cases "ncolor t1 (kid d (rt_mem t1 temp)) = PJ_RBCOLOR_BLACK \<and> ncolor t1 (kid (opp d) (rt_mem t1 temp)) = PJ_RBCOLOR_BLACK")
      case False
      have st: "delete_step d t x = (delete_rotate d t1 x temp, rt_root (delete_rotate d t1 x temp))"
        using False unfolding delete_step_parts Let_def t1_def [symmetric] S(3) temp_def [symmetric] by auto
      have "delete_fixup_loop t x = Some (delete_rotate d t1 x temp, rt_root (delete_rotate d t1 x temp))"
        unfolding loop st by (subst delete_fixup_loop.simps) simp
      then show ?thesis
        using delete_rotate_ordered [OF S(1) px(2) tm(1)] same_data_trans [OF S(2)] unfolding xs_def X_def by blast
    next
      case True
      define t2 where "t2 = set_color t1 temp PJ_RBCOLOR_RED"
      have st: "delete_step d t x = (t2, p)"
        using True unfolding delete_step_parts Let_def t1_def [symmetric] S(3) temp_def [symmetric] t2_def by auto
      have O2: "ordered_as t2 xs" "same_data t t2" unfolding t2_def using S(1,2) by (auto intro: ordered_color)
      have r2: "ncolor t2 (rt_root t2) = PJ_RBCOLOR_BLACK \<or> p = rt_root t2" using S(4) tm(2) by (auto simp: t2_def)
      show ?thesis
      proof (cases "ncolor t2 p = PJ_RBCOLOR_RED")
        case True
        then have "delete_fixup_loop t x = Some (t2, p)" unfolding loop st by (subst delete_fixup_loop.simps) simp
        then show ?thesis using O2 r2 unfolding xs_def X_def by blast
      next
        case False
        then have "t1 = t" using S(5) by (auto simp: t2_def split: if_splits)
        then have tt: "t2 = set_color t (kid (opp d) (rt_mem t p)) PJ_RBCOLOR_RED" by (simp add: t2_def temp_def)
        obtain s' where s': "holds t2 (plug cs' (mk d X (p, pc) s'))" "nodes s' = nodes s"
        proof (cases s)
          case Leaf
          then have "t2 = set_color t 0 PJ_RBCOLOR_RED" using tt f(9) by simp
          then have "holds t2 (plug cs' (mk d X (p, pc) s))"
            using holds_null_color [OF H'] by simp
          then show ?thesis by (intro that) simp_all
        next
          case (Node l a r')
          then obtain w k where "s = Node l (w, k) r'" by (cases a) auto
          then obtain sa sb where s: "s = mk d sa (w, k) sb" using mk_side [of Lft] by (metis mk.simps(1))
          then have w: "kid (opp d) (rt_mem t p) = w" using f(9) by (simp add: rep_mk)
          have "holds t (plug (Frame (opp d) p pc X # cs') (mk d sa (w, k) sb))" using H' by (simp add: s)
          from holds_set_color [OF this, of PJ_RBCOLOR_RED]
          have "holds t2 (plug cs' (mk d X (p, pc) (mk d sa (w, PJ_RBCOLOR_RED) sb)))" by (simp add: tt w)
          moreover have "nodes (mk d sa (w, PJ_RBCOLOR_RED) sb) = nodes s" by (cases d; simp add: s)
          ultimately show ?thesis by (rule that)
        qed
        have "nodes (plug cs' (mk d X (p, pc) s')) = xs"
          unfolding xs_def cs plug.simps by (rule plug_swap_nodes) (cases d; simp add: s'(2))
        moreover have "null_ok t2" using n by (simp add: tt)
        moreover have "ncolor t2 (rt_root t2) = PJ_RBCOLOR_BLACK"
          using r2 False by (cases "ncolor t2 p") auto
        ultimately obtain t' m where "delete_fixup_loop t2 p = Some (t', m)" "ordered_as t' xs" "same_data t2 t'"
            "ncolor t' (rt_root t') = PJ_RBCOLOR_BLACK \<or> m = rt_root t'"
          using less.hyps [OF _ s'(1)] by (auto simp: cs)
        then show ?thesis using loop st same_data_trans [OF O2(2)] unfolding xs_def X_def by auto
      qed
    qed
  qed
qed

end
