(* ===== verification/Rb_Calls.thy ===== *)
theory Rb_Calls
  imports Rb_Shape Machine
begin

text \<open>
  The operations of the red-black tree against a list of nodes ordered by their keys, under the laws of
  a comparison function. The tree stays ordered under all calls; its balance is kept by insertions, and
  by deletions whose removed position is red or has a child.
\<close>

section \<open>Comparison functions\<close>

definition comparison :: "('k \<Rightarrow> 'k \<Rightarrow> int) \<Rightarrow> bool" where
  "comparison cmp \<longleftrightarrow> (\<forall>a. cmp a a = 0) \<and> (\<forall>a b. cmp a b < 0 \<longleftrightarrow> 0 < cmp b a) \<and>
     (\<forall>a b c. cmp a b \<le> 0 \<longrightarrow> cmp b c < 0 \<longrightarrow> cmp a c < 0) \<and> (\<forall>a b c. cmp a b < 0 \<longrightarrow> cmp b c \<le> 0 \<longrightarrow> cmp a c < 0)"

lemma comparisonD:
  assumes "comparison cmp"
  shows "cmp a a = 0" "cmp a b < 0 \<longleftrightarrow> 0 < cmp b a" "cmp a b \<le> 0 \<Longrightarrow> cmp b c < 0 \<Longrightarrow> cmp a c < 0"
    "cmp a b < 0 \<Longrightarrow> cmp b c \<le> 0 \<Longrightarrow> cmp a c < 0"
  using assms by (auto simp: comparison_def)

definition keys_sorted :: "('k \<Rightarrow> 'k \<Rightarrow> int) \<Rightarrow> (nat \<Rightarrow> 'k) \<Rightarrow> nat list \<Rightarrow> bool" where
  "keys_sorted cmp key xs \<longleftrightarrow> sorted_wrt (\<lambda>a b. cmp (key a) (key b) < 0) xs"

section \<open>Searching\<close>

fun last_side :: "frame list \<Rightarrow> side" where
  "last_side [] = Lft"
| "last_side (Frame d a c u # cs) = d"

text \<open>A position whose nodes before and after it are on the two sides of a key.\<close>

definition around :: "('k \<Rightarrow> 'k \<Rightarrow> int) \<Rightarrow> (nat \<Rightarrow> 'k) \<Rightarrow> 'k \<Rightarrow> frame list \<Rightarrow> bool" where
  "around cmp key k cs \<longleftrightarrow> (\<forall>a \<in> set (before cs). cmp k (key a) > 0) \<and> (\<forall>a \<in> set (after cs). cmp k (key a) < 0)"

lemma around_child:
  assumes c: "comparison cmp" and s: "keys_sorted cmp key (nodes (plug cs (Node l (a, col) r)))"
    and A: "around cmp key k cs" and n: "cmp k (key a) \<noteq> 0"
  shows "cmp k (key a) < 0 \<Longrightarrow> around cmp key k (Frame Lft a col r # cs) \<and> (\<forall>b \<in> set (nodes r). cmp k (key b) \<noteq> 0)"
    "\<not> cmp k (key a) < 0 \<Longrightarrow> around cmp key k (Frame Rgt a col l # cs) \<and> (\<forall>b \<in> set (nodes l). cmp k (key b) \<noteq> 0)"
proof -
  have s': "\<forall>b \<in> set (nodes r). cmp (key a) (key b) < 0" "\<forall>b \<in> set (nodes l). cmp (key b) (key a) < 0"
    using s by (auto simp: keys_sorted_def nodes_plug sorted_wrt_append)
  show "around cmp key k (Frame Lft a col r # cs) \<and> (\<forall>b \<in> set (nodes r). cmp k (key b) \<noteq> 0)" if "cmp k (key a) < 0"
  proof -
    have "cmp k (key b) < 0" if "b \<in> set (nodes r)" for b
      using comparisonD(3) [OF c, of k "key a" "key b"] s'(1) \<open>cmp k (key a) < 0\<close> that by simp
    then show ?thesis using A that by (auto simp: around_def) (metis less_irrefl)
  qed
  show "around cmp key k (Frame Rgt a col l # cs) \<and> (\<forall>b \<in> set (nodes l). cmp k (key b) \<noteq> 0)" if "\<not> cmp k (key a) < 0"
  proof -
    have "cmp (key a) k < 0" using that n comparisonD(2) [OF c, of "key a" k] by auto
    then have "cmp (key b) k < 0" if "b \<in> set (nodes l)" for b
      using comparisonD(3) [OF c, of "key b" "key a" k] s'(2) that by fastforce
    then have "0 < cmp k (key b)" if "b \<in> set (nodes l)" for b using comparisonD(2) [OF c] that by blast
    then show ?thesis using A that n by (auto simp: around_def) (metis less_irrefl)
  qed
qed

definition search_end :: "'k rbtree \<Rightarrow> 'k \<Rightarrow> frame list \<Rightarrow> rb_shape \<Rightarrow> (nat \<times> int) option \<Rightarrow> bool" where
  "search_end t k cs X res \<longleftrightarrow>
     (case res of
        None \<Rightarrow> \<exists>a \<in> set (nodes X). rt_comp t k (nkey t a) = 0
      | Some (p, rv) \<Rightarrow> (\<forall>a \<in> set (nodes X). rt_comp t k (nkey t a) \<noteq> 0) \<and>
          (\<exists>cs'. p = cparent cs' \<and> plug cs X = plug cs' Leaf \<and> around (rt_comp t) (nkey t) k cs' \<and>
            (cs' = [] \<or> (rv < 0 \<longleftrightarrow> last_side cs' = Lft))))"

lemma insert_search_result:
  assumes c: "comparison (rt_comp t)"
  shows "holds t (plug cs X) \<Longrightarrow> keys_sorted (rt_comp t) (nkey t) (nodes (plug cs X)) \<Longrightarrow> around (rt_comp t) (nkey t) k cs \<Longrightarrow>
    cs = [] \<or> (rv < 0 \<longleftrightarrow> last_side cs = Lft) \<Longrightarrow>
    \<exists>res. insert_search t k (hole (rt_mem t) (rt_root t) cs) (cparent cs) rv = Some res \<and> search_end t k cs X res"
proof (induction X arbitrary: cs rv)
  case Leaf
  then have "hole (rt_mem t) (rt_root t) cs = 0" by (simp add: holds_plug)
  then show ?case using Leaf by (auto simp: insert_search.simps search_end_def)
next
  case (Node l x r)
  obtain a col where x: "x = (a, col)" by fastforce
  have h: "hole (rt_mem t) (rt_root t) cs = a" "a \<noteq> 0" using Node.prems(1) by (simp_all add: x holds_plug)
  show ?case
  proof (cases "rt_comp t k (nkey t a) = 0")
    case True
    then show ?thesis using h by (subst insert_search.simps) (auto simp: x search_end_def)
  next
    case False
    note ac = around_child [OF c Node.prems(2) [unfolded x] Node.prems(3) False]
    define d where "d = (if rt_comp t k (nkey t a) < 0 then Lft else Rgt)"
    define u where "u = (if rt_comp t k (nkey t a) < 0 then r else l)"
    define v where "v = (if rt_comp t k (nkey t a) < 0 then l else r)"
    have IH: "\<exists>res. insert_search t k (hole (rt_mem t) (rt_root t) (Frame d a col u # cs)) (cparent (Frame d a col u # cs)) (rt_comp t k (nkey t a)) =
        Some res \<and> search_end t k (Frame d a col u # cs) v res"
      using Node.IH(1) [of "Frame Lft a col r # cs" "rt_comp t k (nkey t a)"]
        Node.IH(2) [of "Frame Rgt a col l # cs" "rt_comp t k (nkey t a)"] Node.prems(1,2) ac
      by (cases "rt_comp t k (nkey t a) < 0") (simp_all add: x d_def u_def v_def)
    have "search_end t k cs (Node l x r) res" if "search_end t k (Frame d a col u # cs) v res" for res
      using that ac False by (auto simp: search_end_def x d_def u_def v_def split: option.splits if_splits)
    then show ?thesis using IH h False by (subst insert_search.simps) (auto simp: d_def split: if_splits)
  qed
qed

lemma find_loop_result:
  assumes c: "comparison (rt_comp t)"
  shows "rep (rt_mem t) q p X \<Longrightarrow> keys_sorted (rt_comp t) (nkey t) (nodes X) \<Longrightarrow>
    \<exists>a. find_loop t k p = Some a \<and> (a \<in> set (nodes X) \<and> rt_comp t k (nkey t a) = 0 \<or>
      a = 0 \<and> (\<forall>b \<in> set (nodes X). rt_comp t k (nkey t b) \<noteq> 0))"
proof (induction X arbitrary: q p)
  case Leaf
  then show ?case by (simp add: find_loop.simps)
next
  case (Node l x r)
  obtain a col where x: "x = (a, col)" by fastforce
  have p: "p = a" "a \<noteq> 0" "rep (rt_mem t) a (nleft t a) l" "rep (rt_mem t) a (nright t a) r" using Node.prems(1) by (auto simp: x)
  have s: "keys_sorted (rt_comp t) (nkey t) (nodes l)" "keys_sorted (rt_comp t) (nkey t) (nodes r)"
    using Node.prems(2) by (auto simp: keys_sorted_def sorted_wrt_append)
  show ?case
  proof (cases "rt_comp t k (nkey t a) = 0")
    case True
    then show ?thesis using p by (subst find_loop.simps) (auto simp: x)
  next
    case False
    have A: "around (rt_comp t) (nkey t) k []" by (simp add: around_def)
    note ac = around_child [where cs = "[]", OF c _ A False, unfolded plug.simps, OF Node.prems(2) [unfolded x]]
    show ?thesis
    proof (cases "rt_comp t k (nkey t a) < 0")
      case True
      then have "find_loop t k p = find_loop t k (nleft t a)" using p False by (subst find_loop.simps) simp
      then show ?thesis using Node.IH(1) [OF p(3) s(1)] ac(1) [OF True] False by (auto simp: x)
    next
      case ge: False
      then have "find_loop t k p = find_loop t k (nright t a)" using p False by (subst find_loop.simps) simp
      then show ?thesis using Node.IH(2) [OF p(4) s(2)] ac(2) [OF ge] False by (auto simp: x)
    qed
  qed
qed

section \<open>Insertion\<close>

lemma crep_keep: "(\<And>a. a \<in> frame_nodes cs \<Longrightarrow> m' a = m a) \<Longrightarrow> crep m r cs \<Longrightarrow> crep m' r cs \<and> hole m' r cs = hole m r cs"
  using crep_cong [of cs m' m] hole_cong [of cs m' m] by auto

definition new_node :: "'k rbtree \<Rightarrow> nat \<Rightarrow> nat \<Rightarrow> 'k rbtree" where
  "new_node t x p = set_parent (set_left (set_right (set_color t x PJ_RBCOLOR_RED) x 0) x 0) x p"

lemma new_node_fields:
  "a \<noteq> x \<Longrightarrow> rt_mem (new_node t x p) a = rt_mem t a" "nkey (new_node t x p) b = nkey t b"
  "rt_root (new_node t x p) = rt_root t" "rt_size (new_node t x p) = rt_size t" "rt_comp (new_node t x p) = rt_comp t"
  "rep (rt_mem (new_node t x p)) q a (Node Leaf (x, PJ_RBCOLOR_RED) Leaf) \<longleftrightarrow> a = x \<and> x \<noteq> 0 \<and> q = p"
  by (auto simp: new_node_def set_parent_def set_left_def set_right_def set_color_def fun_eq_iff)

lemma holds_attach:
  assumes H: "holds t (plug (Frame d a c u # cs) Leaf)" and x: "x \<noteq> 0" "x \<notin> frame_nodes (Frame d a c u # cs)"
  shows "holds (set_kid d (new_node t x a) a x) (plug (Frame d a c u # cs) (Node Leaf (x, PJ_RBCOLOR_RED) Leaf))"
proof -
  let ?cs = "Frame d a c u # cs" and ?t = "new_node t x a"
  have C: "crep (rt_mem t) (rt_root t) ?cs" "cdistinct ?cs"
    using H unfolding holds_plug by (simp_all del: crep.simps cdistinct.simps)
  have "crep (rt_mem ?t) (rt_root ?t) ?cs"
    using crep_keep [OF _ C(1), of "rt_mem ?t"] x(2) new_node_fields(1,3) by metis
  note K = set_kid_crep [OF this C(2), of x]
  have xa: "x \<noteq> a" using x(2) by auto
  have "rep (rt_mem (set_kid d ?t a x)) a x (Node Leaf (x, PJ_RBCOLOR_RED) Leaf)"
    using new_node_fields(6) [of t x a a x] x(1) rep_cong [of "Node Leaf (x, PJ_RBCOLOR_RED) Leaf" "rt_mem (set_kid d ?t a x)" "rt_mem ?t"]
      set_kid_other [OF xa, of d ?t x] by auto
  then show ?thesis
    using K C(2) x unfolding holds_plug
    by (simp add: set_kid_mem new_node_fields del: crep.simps cdistinct.simps hole.simps frame_nodes.simps rep.simps)
qed

lemma last_side_attach:
  "holds t (plug (Frame d a c u # cs) Leaf) \<Longrightarrow> (rv < 0 \<longleftrightarrow> d = Lft) \<Longrightarrow>
    (if rv < 0 then set_left t' a x else set_right t' a x) = set_kid d t' a x"
  by (cases d) auto

text \<open>Blackening the root.\<close>

lemma insert_fixup_result:
  assumes H: "holds t (plug cs (Node Leaf (x, PJ_RBCOLOR_RED) Leaf))" and n: "ncolor t 0 = PJ_RBCOLOR_BLACK" "null_ok t"
    and top: "top_black cs"
  shows "\<exists>t' T. insert_fixup t x = Some t' \<and> holds t' T \<and> nodes T = nodes (plug cs (Node Leaf (x, PJ_RBCOLOR_RED) Leaf)) \<and>
    same_data t t' \<and> rt_mem t' 0 = rt_mem t 0 \<and> tcolor T = PJ_RBCOLOR_BLACK \<and>
    (invh (plug cs Leaf) \<and> invc (plug cs Leaf) \<longrightarrow> invh T \<and> invc T)"
proof -
  define X where "X = Node Leaf (x, PJ_RBCOLOR_RED) Leaf"
  obtain t1 T where F: "insert_fixup_loop t x = Some t1" "holds t1 T" "nodes T = nodes (plug cs X)" "same_data t t1"
    "rt_mem t1 0 = rt_mem t 0" "invh (plug cs X) \<and> invc X \<and> cinvc cs PJ_RBCOLOR_BLACK \<longrightarrow> invh T \<and> invc2 T"
    using insert_loop_result [of t cs Lft Leaf x Leaf] H n(1) top unfolding X_def by auto
  have x: "x \<in> set (nodes T)" unfolding F(3) by (simp add: nodes_plug X_def)
  then obtain l a c r where T: "T = Node l (a, c) r" by (cases T rule: tcolor.cases) auto
  have a: "rt_root t1 = a" "a \<noteq> 0" using F(2) by (simp_all add: T holds_def)
  define t' where "t' = set_color t1 a PJ_RBCOLOR_BLACK"
  define T' where "T' = Node l (a, PJ_RBCOLOR_BLACK) r"
  have "holds t' T'" using holds_set_color [of t1 "[]" Lft l a c r] F(2) by (simp add: t'_def T'_def T)
  moreover have "nodes T' = nodes (plug cs X)" using F(3) by (simp add: T T'_def)
  moreover have "insert_fixup t x = Some t'" using F(1) a by (simp add: insert_fixup_def t'_def)
  moreover have "invh T' \<and> invc T'" if "invh (plug cs Leaf)" "invc (plug cs Leaf)"
  proof -
    have "invh (plug cs X)" "invc X" "cinvc cs PJ_RBCOLOR_BLACK"
      using that by (simp_all add: invh_plug invc_plug X_def weight_def)
    then show ?thesis using F(6) by (simp add: T T'_def)
  qed
  moreover have "same_data t t'" "tcolor T' = PJ_RBCOLOR_BLACK" using F(4) by (simp_all add: t'_def T'_def)
  moreover have "rt_mem t' 0 = rt_mem t 0" using F(5) a(2) by (simp add: t'_def set_color_def)
  ultimately show ?thesis unfolding X_def by blast
qed

definition rb_insort :: "('k \<Rightarrow> 'k \<Rightarrow> int) \<Rightarrow> (nat \<Rightarrow> 'k) \<Rightarrow> nat \<Rightarrow> nat list \<Rightarrow> nat list" where
  "rb_insort cmp key x xs =
     (let before = takeWhile (\<lambda>a. cmp (key x) (key a) > 0) xs in before @ x # drop (length before) xs)"

lemma rb_insort_around:
  "around cmp key (key x) cs \<Longrightarrow> rb_insort cmp key x (before cs @ after cs) = before cs @ x # after cs"
proof -
  assume A: "around cmp key (key x) cs"
  have "takeWhile (\<lambda>a. cmp (key x) (key a) > 0) (before cs @ after cs) = before cs"
    using A by (cases "after cs") (auto simp: around_def takeWhile_append)
  then show ?thesis by (simp add: rb_insort_def)
qed

text \<open>What holds between calls: the order of the nodes, the black root and the black node 0.\<close>

definition rb_tree :: "'k rbtree \<Rightarrow> rb_shape \<Rightarrow> bool" where
  "rb_tree t T \<longleftrightarrow> holds t T \<and> null_ok t \<and> ncolor t 0 = PJ_RBCOLOR_BLACK \<and> tcolor T = PJ_RBCOLOR_BLACK \<and>
     rt_size t = uwrap (length (nodes T)) \<and> comparison (rt_comp t) \<and> keys_sorted (rt_comp t) (nkey t) (nodes T)"

lemma insert_result:
  assumes I: "rb_tree t T" and x: "x \<noteq> 0" "x \<notin> set (nodes T)"
  shows "if \<exists>a \<in> set (nodes T). rt_comp t (nkey t x) (nkey t a) = 0 then pj_rbtree_insert t x = Some (t, - 1)
    else \<exists>t' T'. pj_rbtree_insert t x = Some (t', 0) \<and> rb_tree t' T' \<and> nodes T' = rb_insort (rt_comp t) (nkey t) x (nodes T) \<and>
      rt_comp t' = rt_comp t \<and> nkey t' = nkey t \<and> (invh T \<and> invc T \<longrightarrow> invh T' \<and> invc T')"
proof -
  have H: "holds t (plug [] T)" and c: "comparison (rt_comp t)" and s: "keys_sorted (rt_comp t) (nkey t) (nodes (plug [] T))"
    and n: "null_ok t" "ncolor t 0 = PJ_RBCOLOR_BLACK"
    using I by (simp_all add: rb_tree_def)
  have "around (rt_comp t) (nkey t) (nkey t x) []" by (simp add: around_def)
  from insert_search_result [OF c H s this, of 0] obtain res where
    res: "insert_search t (nkey t x) (rt_root t) 0 0 = Some res" "search_end t (nkey t x) [] T res" by auto
  show ?thesis
  proof (cases "\<exists>a \<in> set (nodes T). rt_comp t (nkey t x) (nkey t a) = 0")
    case True
    then have "res = None" using res(2) by (auto simp: search_end_def split: option.splits)
    then show ?thesis using True res(1) by (simp add: pj_rbtree_insert_def)
  next
    case False
    then obtain cs rv where cs: "res = Some (cparent cs, rv)" "T = plug cs Leaf" "around (rt_comp t) (nkey t) (nkey t x) cs"
      "cs = [] \<or> (rv < 0 \<longleftrightarrow> last_side cs = Lft)"
      using res(2) by (auto simp: search_end_def split: option.splits)
    define X where "X = Node Leaf (x, PJ_RBCOLOR_RED) Leaf"
    have xs: "nodes T = before cs @ after cs" by (simp add: cs(2) nodes_plug)
    have ins: "nodes (plug cs X) = rb_insort (rt_comp t) (nkey t) x (nodes T)"
      unfolding xs rb_insort_around [where x = x, OF cs(3)] by (simp add: nodes_plug X_def)
    have nf: "x \<notin> frame_nodes cs" using x(2) by (simp add: xs frame_nodes_set)
    have sorted: "keys_sorted (rt_comp t) (nkey t) (nodes (plug cs X))"
      using s cs(3) comparisonD(2) [OF c] unfolding keys_sorted_def X_def
      by (auto simp: xs nodes_plug around_def sorted_wrt_append)
    have "\<exists>t1 T'. (if cparent cs \<noteq> 0 then insert_fixup (if rv < 0 then set_left (new_node t x (cparent cs)) (cparent cs) x
            else set_right (new_node t x (cparent cs)) (cparent cs) x) x
        else Some (set_color (set_parent (set_root (set_left (set_right (set_color t x PJ_RBCOLOR_RED) x 0) x 0) x) x 0) x PJ_RBCOLOR_BLACK)) = Some t1 \<and>
      holds t1 T' \<and> nodes T' = nodes (plug cs X) \<and> same_data t t1 \<and> rt_mem t1 0 = rt_mem t 0 \<and> tcolor T' = PJ_RBCOLOR_BLACK \<and>
      (invh T \<and> invc T \<longrightarrow> invh T' \<and> invc T')"
    proof (cases cs rule: cparent.cases)
      case 1
      let ?t = "set_color (set_parent (set_root (set_left (set_right (set_color t x PJ_RBCOLOR_RED) x 0) x 0) x) x 0) x PJ_RBCOLOR_BLACK"
      have "holds ?t (Node Leaf (x, PJ_RBCOLOR_BLACK) Leaf)"
        using x(1) by (simp add: holds_def set_root_def set_parent_def set_left_def set_right_def set_color_def)
      moreover have "same_data t ?t" "rt_mem ?t 0 = rt_mem t 0"
        using x(1) by (auto simp: same_data_def set_root_def set_parent_def set_left_def set_right_def set_color_def fun_eq_iff)
      ultimately show ?thesis using 1 by (intro exI [of _ ?t] exI [of _ "Node Leaf (x, PJ_RBCOLOR_BLACK) Leaf"]) (simp add: X_def)
    next
      case (2 d a cc u cs')
      have H2: "holds t (plug (Frame d a cc u # cs') Leaf)" using H cs(2) 2 by simp
      have a: "a \<noteq> 0" using H2 by (simp add: holds_plug rep_mk)
      let ?t = "set_kid d (new_node t x a) a x"
      have h: "holds ?t (plug cs X)" unfolding 2 X_def by (rule holds_attach [OF H2 x(1) nf [unfolded 2]])
      have m0: "rt_mem ?t 0 = rt_mem t 0" using a x(1) new_node_fields(1) set_kid_other by metis
      have "top_black cs" using I cs(2) unfolding rb_tree_def top_black_def by (auto simp: 2 tcolor_plug)
      moreover have "ncolor ?t 0 = PJ_RBCOLOR_BLACK" "null_ok ?t" using n by (simp_all add: m0 null_ok_def)
      ultimately obtain t1 T' where F: "insert_fixup ?t x = Some t1" "holds t1 T'" "nodes T' = nodes (plug cs X)"
        "same_data ?t t1" "rt_mem t1 0 = rt_mem ?t 0" "tcolor T' = PJ_RBCOLOR_BLACK"
        "invh (plug cs Leaf) \<and> invc (plug cs Leaf) \<longrightarrow> invh T' \<and> invc T'"
        using insert_fixup_result [OF h [unfolded X_def]] unfolding X_def by blast
      moreover have sd: "same_data t ?t"
        by (cases d; simp add: same_data_def new_node_fields set_kid_mem set_left_def set_right_def fun_eq_iff)
      moreover have "(if rv < 0 then set_left (new_node t x a) a x else set_right (new_node t x a) a x) = ?t"
        using cs(4) by (intro last_side_attach [OF H2]) (simp add: 2)
      moreover have pa: "cparent cs = a" by (simp add: 2)
      ultimately show ?thesis
        using a m0 same_data_trans [OF sd F(4)] unfolding cs(2) pa
        by (intro exI [of _ t1] exI [of _ T']) (simp add: 2 del: plug.simps split del: if_split)
    qed
    then obtain t1 T' where F: "(if cparent cs \<noteq> 0 then insert_fixup (if rv < 0 then set_left (new_node t x (cparent cs)) (cparent cs) x
            else set_right (new_node t x (cparent cs)) (cparent cs) x) x
        else Some (set_color (set_parent (set_root (set_left (set_right (set_color t x PJ_RBCOLOR_RED) x 0) x 0) x) x 0) x PJ_RBCOLOR_BLACK)) = Some t1"
      "holds t1 T'" "nodes T' = nodes (plug cs X)" "same_data t t1" "rt_mem t1 0 = rt_mem t 0" "tcolor T' = PJ_RBCOLOR_BLACK"
      "invh T \<and> invc T \<longrightarrow> invh T' \<and> invc T'" by blast
    define t' where "t' = t1\<lparr>rt_size := uwrap (rt_size t1 + 1)\<rparr>"
    have "pj_rbtree_insert t x = Some (t', 0)"
      using F(1) unfolding pj_rbtree_insert_def res(1) cs(1) Let_def new_node_def t'_def by (simp split del: if_split)
    moreover have "rt_size t' = uwrap (length (nodes T'))"
      using F(3,4) I by (simp add: t'_def same_data_def rb_tree_def xs nodes_plug X_def mod_simps)
    moreover have "holds t' T'" "null_ok t'" "ncolor t' 0 = PJ_RBCOLOR_BLACK" "rt_comp t' = rt_comp t" "nkey t' = nkey t"
      using F(2,4,5) n by (simp_all add: t'_def holds_def null_ok_def same_data_def)
    ultimately show ?thesis using False c sorted F(3,6,7) unfolding ins by (auto simp: rb_tree_def)
  qed
qed

section \<open>Deletion\<close>

lemma plug_append: "plug (cs @ es) T = plug es (plug cs T)"
  by (induction cs T rule: plug.induct) auto

lemma before_append: "before (ds @ es) = before es @ before ds"
  by (induction ds rule: before.induct) auto

lemma after_append: "after (ds @ es) = after ds @ after es"
  by (induction ds rule: after.induct) auto

lemma rep_same_root: "rep m q p T \<Longrightarrow> rep m' q' p' T \<Longrightarrow> p = p'"
  by (cases T rule: tcolor.cases) auto

lemma leftmost_result:
  "rep (rt_mem t) q p (Node l a r) \<Longrightarrow>
    \<exists>ds y e C. Node l a r = plug ds (Node Leaf (y, e) C) \<and> before ds = [] \<and> leftmost t p = Some y"
proof (induction l arbitrary: q p a r)
  case Leaf
  then show ?case
    by (cases a) (auto simp: leftmost.simps intro!: exI [of _ "[]"])
next
  case (Node l1 b l2)
  obtain c where a: "a = (p, c)" "rep (rt_mem t) p (nleft t p) (Node l1 b l2)" using Node.prems by (cases a) auto
  from Node.IH(1) [OF a(2)] obtain ds y e C where I: "Node l1 b l2 = plug ds (Node Leaf (y, e) C)" "before ds = []"
    "leftmost t (nleft t p) = Some y" by blast
  have "nleft t p \<noteq> 0" using a(2) by (cases b) auto
  then have "leftmost t p = Some y" using I(3) by (subst leftmost.simps) simp
  then show ?case
    using I(1,2) a(1) by (intro exI [of _ "ds @ [Frame Lft p c r]"]) (auto simp: plug_append before_append)
qed

lemma set_parent_fields [simp]:
  "nleft (set_parent t a v) b = nleft t b" "nright (set_parent t a v) b = nright t b" "nkey (set_parent t a v) b = nkey t b"
  "ncolor (set_parent t a v) b = ncolor t b" "rt_root (set_parent t a v) = rt_root t"
  "rt_size (set_parent t a v) = rt_size t" "rt_comp (set_parent t a v) = rt_comp t"
  "nparent (set_parent t a v) b = (if b = a then v else nparent t b)"
  by (simp_all add: set_parent_def)

lemma set_parent_other: "b \<noteq> a \<Longrightarrow> rt_mem (set_parent t a v) b = rt_mem t b"
  by (simp add: set_parent_def)

lemma holds_unlink:
  assumes H: "holds t (plug cs (Node l (y, e) r))" and lr: "l = Leaf \<or> r = Leaf" and n: "null_ok t"
  defines "C \<equiv> (if l \<noteq> Leaf then l else r)" and "child \<equiv> (if nleft t y \<noteq> 0 then nleft t y else nright t y)"
  defines "t1 \<equiv> erase_unlink t y child"
  shows "holds t1 (plug cs C)" "child = 0 \<longleftrightarrow> C = Leaf" "rep (rt_mem t1) (cparent cs) child C" "null_ok t1"
    "\<And>a. nkey t1 a = nkey t a" "\<And>a. ncolor t1 a = ncolor t a" "rt_size t1 = rt_size t" "rt_comp t1 = rt_comp t"
proof -
  let ?q = "cparent cs" and ?t = "set_parent t child (cparent cs)"
  have C: "crep (rt_mem t) (rt_root t) cs" "hole (rt_mem t) (rt_root t) cs = y" "y \<noteq> 0" "cdistinct cs" "nparent t y = ?q"
    and kids: "rep (rt_mem t) y (nleft t y) l" "rep (rt_mem t) y (nright t y) r"
    and D: "y \<notin> frame_nodes cs" "distinct (nodes C)" "set (nodes C) \<inter> frame_nodes cs = {}" "y \<notin> set (nodes C)"
    using H by (auto simp: holds_plug C_def)
  have cz: "(nleft t y = 0) = (l = Leaf)" using kids(1) by (cases l) auto
  have ch: "rep (rt_mem t) y child C" using kids lr cz by (auto simp: child_def C_def)
  show z: "child = 0 \<longleftrightarrow> C = Leaf" using ch by (cases C) auto
  have cf: "child \<notin> frame_nodes cs" using rep_nodes [OF ch] D(3) crep_not_null [OF C(1)] by auto
  have t1: "t1 = relink ?t ?q y child" using C(5) by (simp add: t1_def erase_unlink_def relink_def Let_def)
  have "crep (rt_mem ?t) (rt_root ?t) cs \<and> hole (rt_mem ?t) (rt_root ?t) cs = y"
    using crep_keep [OF _ C(1), of "rt_mem ?t"] cf C(2) set_parent_other [of _ child t ?q] by (metis set_parent_fields(5))
  then have K: "crep (rt_mem ?t) (rt_root ?t) cs" "hole (rt_mem ?t) (rt_root ?t) cs = y" by auto
  note R = relink_crep [where y = child, OF K C(3) D(1) C(4), folded t1]
  have "rep (if child \<noteq> 0 then (rt_mem t)(child := (rt_mem t child)\<lparr>nd_parent := ?q\<rparr>) else rt_mem t) ?q child C"
    using rep_new_parent [OF ch D(2)] by simp
  moreover have "rt_mem t1 a = (if child \<noteq> 0 then (rt_mem t)(child := (rt_mem t child)\<lparr>nd_parent := ?q\<rparr>) else rt_mem t) a"
    if "a \<in> set (nodes C)" for a
  proof -
    have "a \<notin> frame_nodes cs" "a \<noteq> 0" using that D(3) rep_not_null [OF ch] by auto
    then show ?thesis using R(3) [of a] by (auto simp: set_parent_def)
  qed
  ultimately show rc: "rep (rt_mem t1) ?q child C" using rep_cong [of C "rt_mem t1"] by metis
  show "holds t1 (plug cs C)" unfolding holds_plug R(2) using R(1) rc C(4) D(2,3) by simp
  have "rt_mem t1 0 = rt_mem ?t 0" using R(3) crep_not_null [OF C(1)] by blast
  then show "null_ok t1" using n by (simp add: null_ok_def)
  show "nkey t1 a = nkey t a" "ncolor t1 a = ncolor t a" "rt_size t1 = rt_size t" "rt_comp t1 = rt_comp t" for a
    by (simp_all add: R(5-8))
qed

lemma holds_replace:
  assumes H: "holds t (plug cs (Node l (x, c) r))" and y: "y \<noteq> 0" "y \<notin> set (nodes (plug cs (Node l (x, c) r)))" and n: "null_ok t"
  defines "t1 \<equiv> erase_replace t x y"
  shows "holds t1 (plug cs (Node l (y, c) r))" "rt_mem t1 0 = rt_mem t 0" "\<And>a. nkey t1 a = nkey t a"
    "\<And>a. a \<noteq> y \<Longrightarrow> ncolor t1 a = ncolor t a" "rt_size t1 = rt_size t" "rt_comp t1 = rt_comp t"
proof -
  let ?q = "cparent cs"
  define b where "b = nleft t x"
  define d where "d = nright t x"
  have C: "crep (rt_mem t) (rt_root t) cs" "hole (rt_mem t) (rt_root t) cs = x" "x \<noteq> 0" "cdistinct cs" "nparent t x = ?q" "ncolor t x = c"
    and kids: "rep (rt_mem t) x b l" "rep (rt_mem t) x d r"
    and D: "x \<notin> frame_nodes cs" "distinct (nodes l)" "distinct (nodes r)" "set (nodes l) \<inter> frame_nodes cs = {}"
      "set (nodes r) \<inter> frame_nodes cs = {}" "x \<notin> set (nodes l)" "x \<notin> set (nodes r)" "set (nodes l) \<inter> set (nodes r) = {}"
    using H by (auto simp: holds_plug b_def d_def)
  have Y: "y \<noteq> x" "y \<notin> frame_nodes cs" "y \<notin> set (nodes l)" "y \<notin> set (nodes r)"
    using y(2) by (auto simp: nodes_plug frame_nodes_set)
  have nn: "0 \<notin> frame_nodes cs" using crep_not_null [OF C(1)] .
  have bd: "b = 0 \<or> b \<in> set (nodes l)" "d = 0 \<or> d \<in> set (nodes r)" using rep_nodes kids by blast+
  have bf: "b \<notin> frame_nodes cs" "d \<notin> frame_nodes cs" "b \<noteq> x" "d \<noteq> x" "b \<noteq> y" "d \<noteq> y" "b \<noteq> d \<or> b = 0"
    using bd D Y C(3) y(1) nn rep_not_null [OF kids(1)] rep_not_null [OF kids(2)] by auto
  define s1 where "s1 = set_color (set_right (set_left (set_parent t y ?q) y b) y d) y c"
  define s2 where "s2 = relink s1 ?q x y"
  define s3 where "s3 = (if b \<noteq> 0 then set_parent s2 b y else s2)"
  define s4 where "s4 = (if d \<noteq> 0 then set_parent s3 d y else s3)"
  have m1: "a \<noteq> y \<Longrightarrow> rt_mem s1 a = rt_mem t a" "rt_root s1 = rt_root t" "rt_size s1 = rt_size t" "rt_comp s1 = rt_comp t"
    "nkey s1 a = nkey t a" for a
    by (auto simp: s1_def set_color_def set_right_def set_left_def set_parent_def)
  have my: "nparent s1 y = ?q" "nleft s1 y = b" "nright s1 y = d" "ncolor s1 y = c"
    by (simp_all add: s1_def set_color_def set_right_def set_left_def set_parent_def)
  have K: "crep (rt_mem s1) (rt_root s1) cs" "hole (rt_mem s1) (rt_root s1) cs = x"
    using crep_keep [OF _ C(1), of "rt_mem s1"] Y(2) C(2) m1(1,2) by metis+
  note R = relink_crep [where y = y, OF K C(3) D(1) C(4), folded s2_def]
  have x2: "rt_mem s2 x = rt_mem t x" using R(3) [OF D(1)] m1(1) Y(1) by simp
  have root: "rt_root t = x \<longleftrightarrow> ?q = 0"
  proof
    assume "rt_root t = x"
    then show "?q = 0" using holds_root(2) [OF H, of x] C(5) by (simp add: nodes_plug)
  next
    assume "?q = 0"
    then show "rt_root t = x" using C(1,2) by (cases cs rule: cparent.cases) auto
  qed
  have "t1 = s4"
  proof -
    have e1: "erase_replace t x y = (let u = (if ?q \<noteq> 0 then replace_child s1 ?q x y else s1);
        u = (if nleft u x \<noteq> 0 then set_parent u (nleft u x) y else u);
        u = (if nright u x \<noteq> 0 then set_parent u (nright u x) y else u)
      in if rt_root u = x then set_root u y else u)"
    proof -
      have "nparent (set_parent t y v) x = ?q" for v using Y(1) C(5) by simp
      have "set_color (set_right (set_left (set_parent t y (nparent t x)) y (nleft (set_parent t y (nparent t x)) x)) y
          (nright (set_left (set_parent t y (nparent t x)) y (nleft (set_parent t y (nparent t x)) x)) x)) y
          (ncolor (set_right (set_left (set_parent t y (nparent t x)) y (nleft (set_parent t y (nparent t x)) x)) y
          (nright (set_left (set_parent t y (nparent t x)) y (nleft (set_parent t y (nparent t x)) x)) x)) x) = s1"
        using Y(1) C(5,6) by (simp add: s1_def b_def d_def set_left_def set_right_def)
      moreover have "nparent s1 x = ?q" using m1(1) [of x] Y(1) C(5) by simp
      ultimately show ?thesis unfolding erase_replace_def Let_def by simp
    qed
    show ?thesis
    proof (cases "?q = 0")
      case True
      then have s2: "s2 = set_root s1 y" by (simp add: s2_def relink_def)
      have "nleft s1 x = b" "nright s1 x = d" using m1(1) [of x] Y(1) by (simp_all add: b_def d_def)
      then show ?thesis
        using True root by (simp add: t1_def e1 Let_def s4_def s3_def s2 m1(2)) (simp add: set_root_def set_parent_def)
    next
      case False
      then have s2: "s2 = replace_child s1 ?q x y" by (simp add: s2_def relink_def)
      have "nleft s2 x = b" "nright s2 x = d" using x2 by (simp_all add: b_def d_def)
      moreover have "rt_root s2 = rt_root t" using m1(2) by (simp add: s2 replace_child_def set_left_def set_right_def)
      ultimately show ?thesis
        using False root by (simp add: t1_def e1 Let_def s4_def s3_def flip: s2)
    qed
  qed
  have m4: "rt_mem s4 a = rt_mem s2 a" if "a \<noteq> b \<or> b = 0" "a \<noteq> d \<or> d = 0" for a
    using that by (auto simp: s4_def s3_def set_parent_def)
  have r4: "rt_root s4 = rt_root s2" by (simp add: s4_def s3_def)
  have F: "crep (rt_mem s4) (rt_root s4) cs \<and> hole (rt_mem s4) (rt_root s4) cs = y"
    using crep_keep [OF _ R(1), of "rt_mem s4"] m4 bf(1,2) R(2) r4 by metis
  have y4: "rt_mem s4 y = rt_mem s1 y" using m4 [of y] R(3) [OF Y(2)] bf by auto
  have same: "rt_mem s4 a = rt_mem t a" if "a \<noteq> b \<or> b = 0" "a \<noteq> d \<or> d = 0" "a \<notin> frame_nodes cs" "a \<noteq> y" for a
    using m4 [of a] R(3) [of a] m1(1) [of a] that by simp
  have b4: "rt_mem s4 b = (rt_mem t b)\<lparr>nd_parent := y\<rparr>" if "b \<noteq> 0"
  proof -
    have "rt_mem s2 b = rt_mem t b" using R(3) [OF bf(1)] m1(1) bf(5) by simp
    then show ?thesis using that bf(7) by (simp add: s4_def s3_def set_parent_def)
  qed
  have d4: "rt_mem s4 d = (rt_mem t d)\<lparr>nd_parent := y\<rparr>" if "d \<noteq> 0"
  proof -
    have "rt_mem s2 d = rt_mem t d" using R(3) [OF bf(2)] m1(1) bf(6) by simp
    then show ?thesis using that bf(7) by (auto simp: s4_def s3_def set_parent_def)
  qed
  have l4: "rep (rt_mem s4) y b l"
  proof -
    have "rt_mem s4 a = (if b \<noteq> 0 then (rt_mem t)(b := (rt_mem t b)\<lparr>nd_parent := y\<rparr>) else rt_mem t) a" if "a \<in> set (nodes l)" for a
      using that same [of a] b4 D Y bd by auto
    then show ?thesis using rep_new_parent [OF kids(1) D(2), of y] rep_cong [of l "rt_mem s4"] by metis
  qed
  have r4': "rep (rt_mem s4) y d r"
  proof -
    have "rt_mem s4 a = (if d \<noteq> 0 then (rt_mem t)(d := (rt_mem t d)\<lparr>nd_parent := y\<rparr>) else rt_mem t) a" if "a \<in> set (nodes r)" for a
      using that same [of a] d4 D Y bd by auto
    then show ?thesis using rep_new_parent [OF kids(2) D(3), of y] rep_cong [of r "rt_mem s4"] by metis
  qed
  show "holds t1 (plug cs (Node l (y, c) r))"
    unfolding \<open>t1 = s4\<close> holds_plug using F l4 r4' y4 my y(1) C(4) D Y by auto
  show "rt_mem t1 0 = rt_mem t 0" unfolding \<open>t1 = s4\<close> using same [of 0] nn y(1) by auto
  show "nkey t1 a = nkey t a" "rt_size t1 = rt_size t" "rt_comp t1 = rt_comp t" for a
    unfolding \<open>t1 = s4\<close> by (simp_all add: s4_def s3_def R(5-8) m1)
  show "ncolor t1 a = ncolor t a" if "a \<noteq> y" for a
    unfolding \<open>t1 = s4\<close> using that by (simp add: s4_def s3_def R(6) m1(1))
qed

lemma delete_fixup_result:
  assumes H: "holds t (plug cs C)" and ch: "rep (rt_mem t) (cparent cs) x C" "x \<noteq> 0" and n: "null_ok t"
    and r: "cs = [] \<or> ncolor t (rt_root t) = PJ_RBCOLOR_BLACK"
  shows "\<exists>t'. delete_fixup t x = Some t' \<and> ordered_as t' (nodes (plug cs C)) \<and> same_data t t' \<and>
    ncolor t' (rt_root t') = PJ_RBCOLOR_BLACK"
proof -
  obtain A c B where C: "C = mk Lft A (x, c) B" using rep_root [OF ch] by auto
  have "\<exists>t' n. delete_fixup_loop t x = Some (t', n) \<and> ordered_as t' (nodes (plug cs C)) \<and> same_data t t' \<and>
    (ncolor t' (rt_root t') = PJ_RBCOLOR_BLACK \<or> n = rt_root t')"
  proof (cases "ncolor t (rt_root t) = PJ_RBCOLOR_BLACK")
    case True
    then show ?thesis using delete_loop_result [OF H [unfolded C] n] C by simp
  next
    case False
    then have "cs = []" using r by simp
    then have "x = rt_root t" using H by (simp add: C holds_def)
    then have "delete_fixup_loop t x = Some (t, x)" by (subst delete_fixup_loop.simps) simp
    then show ?thesis using H n \<open>x = rt_root t\<close> by (auto simp: ordered_as_def)
  qed
  then obtain t1 m where L: "delete_fixup_loop t x = Some (t1, m)" "ordered_as t1 (nodes (plug cs C))" "same_data t t1"
    "ncolor t1 (rt_root t1) = PJ_RBCOLOR_BLACK \<or> m = rt_root t1" by blast
  then show ?thesis
    by (intro exI [of _ "set_color t1 m PJ_RBCOLOR_BLACK"]) (auto simp: delete_fixup_def intro: ordered_color)
qed

text \<open>Erasing takes \<open>succ\<close> out of the tree and puts it where \<open>node\<close> is, whose other nodes keep their places.\<close>

lemma erase_positions:
  assumes H: "holds t (plug cs (Node l (x, c) r))" and n: "null_ok t"
  shows "\<exists>succ child t1 es C. (if nleft t x = 0 \<or> nright t x = 0 then Some x else leftmost t (nright t x)) = Some succ \<and>
    child = (if nleft t succ \<noteq> 0 then nleft t succ else nright t succ) \<and>
    t1 = (if succ \<noteq> x then erase_replace (erase_unlink t succ child) x succ else erase_unlink t succ child) \<and>
    holds t1 (plug es C) \<and> rep (rt_mem t1) (cparent es) child C \<and> null_ok t1 \<and> ncolor t1 0 = ncolor t 0 \<and>
    nkey t1 = nkey t \<and> rt_size t1 = rt_size t \<and> rt_comp t1 = rt_comp t \<and> ncolor t1 succ = c \<and>
    nodes (plug es C) = before cs @ nodes l @ nodes r @ after cs \<and>
    (es = cs \<and> succ = x \<or> top_color es PJ_RBCOLOR_RED = top_color cs c \<and> es \<noteq> [])"
proof -
  have kids: "rep (rt_mem t) x (nleft t x) l" "rep (rt_mem t) x (nright t x) r" and cx: "ncolor t x = c"
    using H by (simp_all add: holds_plug)
  have z: "nleft t x = 0 \<longleftrightarrow> l = Leaf" "nright t x = 0 \<longleftrightarrow> r = Leaf"
    using kids by (cases l; cases r; auto)+
  show ?thesis
  proof (cases "l = Leaf \<or> r = Leaf")
    case True
    define child where "child = (if nleft t x \<noteq> 0 then nleft t x else nright t x)"
    note U = holds_unlink [OF H True n, folded child_def]
    have "nodes (plug cs (if l \<noteq> Leaf then l else r)) = before cs @ nodes l @ nodes r @ after cs"
      using True by (auto simp: nodes_plug)
    then show ?thesis
      using U True z cx by (intro exI [of _ x] exI [of _ child] exI [of _ "erase_unlink t x child"] exI [of _ cs]
        exI [of _ "if l \<noteq> Leaf then l else r"]) (auto simp: child_def fun_eq_iff)
  next
    case False
    then obtain r1 a r2 where r: "r = Node r1 a r2" by (cases r) auto
    obtain ds y e C where L: "r = plug ds (Node Leaf (y, e) C)" "before ds = []" "leftmost t (nright t x) = Some y"
      using leftmost_result [OF kids(2) [unfolded r]] r by auto
    define es where "es = ds @ Frame Rgt x c l # cs"
    have es: "plug es Z = plug cs (Node l (x, c) (plug ds Z))" for Z by (simp add: es_def plug_append)
    have H2: "holds t (plug es (Node Leaf (y, e) C))" using H by (simp add: es L(1))
    define child where "child = (if nleft t y \<noteq> 0 then nleft t y else nright t y)"
    define t1 where "t1 = erase_unlink t y child"
    have C: "(if Leaf \<noteq> Leaf then Leaf else C) = C" by simp
    note U = holds_unlink [OF H2 disjI1 [OF refl] n, unfolded C, folded child_def t1_def]
    have ba: "before es = before cs @ nodes l @ [x]" "after es = after ds @ after cs"
      by (simp_all add: es_def before_append after_append L(2))
    have y: "y \<noteq> 0" "y \<noteq> x" "y \<notin> set (nodes (plug es C))"
      using H2 by (auto simp: holds_plug nodes_plug frame_nodes_set ba)
    have H3: "holds t1 (plug cs (Node l (x, c) (plug ds C)))" using U(1) by (simp add: es)
    define t2 where "t2 = erase_replace t1 x y"
    note R = holds_replace [OF H3 y(1) y(3) [unfolded es] U(4), folded t2_def]
    define es' where "es' = ds @ Frame Rgt y c l # cs"
    have H4: "holds t2 (plug es' C)" using R(1) by (simp add: es'_def plug_append)
    have h4: "rep (rt_mem t2) (cparent es') (hole (rt_mem t2) (rt_root t2) es') C" using H4 by (simp add: holds_plug)
    then have ch: "rep (rt_mem t2) (cparent es') child C" using rep_same_root [OF h4 U(3)] by simp
    have "nodes (plug es' C) = before cs @ nodes l @ y # nodes C @ after ds @ after cs"
      by (simp add: nodes_plug es'_def before_append after_append L(2))
    then have ns: "nodes (plug es' C) = before cs @ nodes l @ nodes r @ after cs" by (simp add: L(1,2) nodes_plug)
    have null: "null_ok t2" "ncolor t2 0 = ncolor t 0" using R(2) U(4) U(6) [of 0] by (simp_all add: null_ok_def)
    have top: "top_color es' PJ_RBCOLOR_RED = top_color cs c"
      using tcolor_plug [of es' "Node Leaf (0, PJ_RBCOLOR_RED) Leaf"] by (simp add: es'_def plug_append tcolor_plug)
    have yc: "ncolor t2 y = c" using H4 R(1) by (simp add: holds_plug)
    show ?thesis
      using False z L(3) y(2) H4 ch null ns top yc U(5,7,8) R(3,5,6)
      by (intro exI [of _ y] exI [of _ child] exI [of _ t2] exI [of _ es'] exI [of _ C])
        (auto simp: child_def t2_def t1_def fun_eq_iff es'_def)
  qed
qed

lemma erase_result:
  assumes I: "rb_tree t T" and x: "x \<in> set (nodes T)"
  shows "\<exists>t' T'. pj_rbtree_erase t x = Some (t', x) \<and> rb_tree t' T' \<and> nodes T' = remove1 x (nodes T) \<and>
    rt_comp t' = rt_comp t \<and> nkey t' = nkey t"
proof -
  obtain cs A c B where "T = plug cs (mk Lft A (x, c) B)" using rep_split [OF x] mk_side by metis
  then have T: "T = plug cs (Node A (x, c) B)" by simp
  have H: "holds t (plug cs (Node A (x, c) B))" and n: "null_ok t" "ncolor t 0 = PJ_RBCOLOR_BLACK"
    and top: "top_color cs c = PJ_RBCOLOR_BLACK"
    using I by (simp_all add: rb_tree_def T tcolor_plug)
  obtain succ child t1 es C where E:
    "(if nleft t x = 0 \<or> nright t x = 0 then Some x else leftmost t (nright t x)) = Some succ"
    "child = (if nleft t succ \<noteq> 0 then nleft t succ else nright t succ)"
    "t1 = (if succ \<noteq> x then erase_replace (erase_unlink t succ child) x succ else erase_unlink t succ child)"
    "holds t1 (plug es C)" "rep (rt_mem t1) (cparent es) child C" "null_ok t1" "ncolor t1 0 = ncolor t 0"
    "nkey t1 = nkey t" "rt_size t1 = rt_size t" "rt_comp t1 = rt_comp t" "ncolor t1 succ = c"
    "nodes (plug es C) = before cs @ nodes A @ nodes B @ after cs"
    "es = cs \<and> succ = x \<or> top_color es PJ_RBCOLOR_RED = top_color cs c \<and> es \<noteq> []"
    using erase_positions [OF H n(1)] by blast
  define t2 where "t2 = (if c = PJ_RBCOLOR_BLACK then map_option (\<lambda>t. set_color t 0 PJ_RBCOLOR_BLACK)
      (if child \<noteq> 0 then delete_fixup t1 child else Some t1) else Some t1)"
  have er: "pj_rbtree_erase t x = map_option (\<lambda>t. (t\<lparr>rt_size := usub32 (rt_size t) 1\<rparr>, x)) t2"
    unfolding pj_rbtree_erase_def E(1) Option.bind.simps(2) Let_def E(2) [symmetric] E(3) [symmetric] E(11) t2_def by (rule refl)
  have xs: "distinct (nodes T)" "nodes T = before cs @ nodes A @ x # nodes B @ after cs"
    using H by (simp_all add: T holds_def nodes_plug)
  then have ns: "nodes (plug es C) = remove1 x (nodes T)" unfolding E(12) by (simp add: remove1_append)
  have root: "nodes (plug es C) \<noteq> [] \<and> tcolor (plug es C) = PJ_RBCOLOR_BLACK" if ne: "es \<noteq> []"
  proof -
    obtain d a k u es' where es: "es = Frame d a k u # es'" using ne by (cases es rule: cparent.cases) auto
    have "nodes (plug es C) \<noteq> []" unfolding es by (cases d) (auto simp: nodes_plug)
    moreover have "top_color es (tcolor C) = PJ_RBCOLOR_BLACK"
      using E(13) top top_color_Cons [OF ne, of "tcolor C"] by metis
    ultimately show ?thesis by (simp add: tcolor_plug)
  qed
  have "\<exists>t' T'. t2 = Some t' \<and> holds t' T' \<and> nodes T' = nodes (plug es C) \<and> null_ok t' \<and> same_data t1 t' \<and>
    ncolor t' 0 = PJ_RBCOLOR_BLACK \<and> tcolor T' = PJ_RBCOLOR_BLACK"
  proof (cases "c = PJ_RBCOLOR_BLACK \<and> child \<noteq> 0")
    case True
    have "es = [] \<or> ncolor t1 (rt_root t1) = PJ_RBCOLOR_BLACK"
    proof (cases "es = []")
      case False
      then obtain a where "a \<in> set (nodes (plug es C))" using root by (metis list.set_sel(1))
      then show ?thesis using holds_root(3) [OF E(4)] root False by metis
    qed simp
    with True obtain t' where D: "delete_fixup t1 child = Some t'" "ordered_as t' (nodes (plug es C))" "same_data t1 t'"
      "ncolor t' (rt_root t') = PJ_RBCOLOR_BLACK"
      using delete_fixup_result [OF E(4,5) _ E(6)] by blast
    define u where "u = set_color t' 0 PJ_RBCOLOR_BLACK"
    have "ordered_as u (nodes (plug es C))" unfolding u_def by (rule ordered_color [OF D(2)])
    then obtain T' where T': "holds u T'" "nodes T' = nodes (plug es C)" "null_ok u" by (auto simp: ordered_as_def)
    have ci: "child \<in> set (nodes T')" using rep_nodes [OF E(5)] True unfolding T'(2) by (auto simp: nodes_plug)
    have "tcolor T' = PJ_RBCOLOR_BLACK" using holds_root(3) [OF T'(1) ci] D(4) by (auto simp: u_def split: if_splits)
    then show ?thesis
      using True D(1,3) T' by (intro exI [of _ u] exI [of _ T']) (simp add: t2_def u_def)
  next
    case False
    define u where "u = (if c = PJ_RBCOLOR_BLACK then set_color t1 0 PJ_RBCOLOR_BLACK else t1)"
    have "tcolor (plug es C) = PJ_RBCOLOR_BLACK"
    proof (cases "es = []")
      case True
      then have "c = PJ_RBCOLOR_BLACK" using E(13) top by auto
      then have "C = Leaf" using False E(5) by (cases C rule: tcolor.cases) auto
      then show ?thesis using True by simp
    qed (use root in simp)
    moreover have "holds u (plug es C)" "null_ok u" "ncolor u 0 = PJ_RBCOLOR_BLACK" "same_data t1 u"
      using E(4,6,7) n(2) holds_null_color by (auto simp: u_def)
    moreover have "t2 = Some u" using False by (auto simp: t2_def u_def)
    ultimately show ?thesis by blast
  qed
  then obtain t' T' where F: "t2 = Some t'" "holds t' T'" "nodes T' = nodes (plug es C)" "null_ok t'" "same_data t1 t'"
    "ncolor t' 0 = PJ_RBCOLOR_BLACK" "tcolor T' = PJ_RBCOLOR_BLACK" by blast
  define t'' where "t'' = t'\<lparr>rt_size := usub32 (rt_size t') 1\<rparr>"
  have "keys_sorted (rt_comp t) (nkey t) (nodes T')"
    using I xs(2) unfolding F(3) E(12) rb_tree_def keys_sorted_def by (auto simp: sorted_wrt_append)
  moreover have "rt_size t'' = uwrap (length (nodes T'))"
  proof -
    have "rt_size t' = uwrap (length (nodes T))" using F(5) E(9) I by (simp add: same_data_def rb_tree_def)
    moreover have "length (nodes T') = length (nodes T) - 1" "0 < length (nodes T)"
      unfolding F(3) ns using x by (auto simp: length_remove1)
    ultimately show ?thesis using usub32_uwrap [of "length (nodes T)"] by (simp add: t''_def)
  qed
  moreover have "holds t'' T'" "null_ok t''" "ncolor t'' 0 = PJ_RBCOLOR_BLACK" "rt_comp t'' = rt_comp t" "nkey t'' = nkey t"
    using F E(8,10) by (simp_all add: t''_def holds_def null_ok_def same_data_def)
  ultimately show ?thesis
    using er F(1,3,7) ns I by (intro exI [of _ t''] exI [of _ T']) (simp add: t''_def rb_tree_def)
qed

end
