(* ===== verification/Rb_Runs.thy ===== *)
theory Rb_Runs
  imports Rb_Calls
begin

text \<open>
  Walking over the red-black tree, its height, and runs of calls. A run is compared with a list of nodes
  kept in the order of their keys; the properties are stated on the results of the calls after any run.
\<close>

section \<open>Walking\<close>

definition nth_node :: "nat list \<Rightarrow> nat \<Rightarrow> nat option" where
  "nth_node xs i = (if i < length xs then Some (xs ! i) else None)"

lemma rightmost_result:
  "rep (rt_mem t) q p (Node l a r) \<Longrightarrow> \<exists>ys y. nodes (Node l a r) = ys @ [y] \<and> rightmost t p = Some y \<and> y \<noteq> 0"
proof (induction r arbitrary: q p a l)
  case Leaf
  then show ?case by (cases a) (auto simp: rightmost.simps)
next
  case (Node r1 b r2)
  have R: "rep (rt_mem t) p (nright t p) (Node r1 b r2)" using Node.prems by (cases a) auto
  from Node.IH(2) [OF R] obtain ys y where I: "nodes (Node r1 b r2) = ys @ [y]" "rightmost t (nright t p) = Some y" "y \<noteq> 0"
    by blast
  have "nright t p \<noteq> 0" using R by (cases b) auto
  then have "rightmost t p = Some y" using I(2) by (subst rightmost.simps) simp
  then show ?case using I by (intro exI [of _ "nodes l @ fst a # ys"]) (simp del: nodes_simps, simp)
qed

lemma leftmost_first: "rep (rt_mem t) q p (Node l a r) \<Longrightarrow> \<exists>y ys. nodes (Node l a r) = y # ys \<and> leftmost t p = Some y \<and> y \<noteq> 0"
proof -
  assume R: "rep (rt_mem t) q p (Node l a r)"
  obtain ds y e C where L: "Node l a r = plug ds (Node Leaf (y, e) C)" "before ds = []" "leftmost t p = Some y"
    using leftmost_result [OF R] by blast
  have ns: "nodes (Node l a r) = y # nodes C @ after ds" unfolding L(1) by (simp add: nodes_plug L(2))
  have "0 \<notin> set (nodes (Node l a r))" by (rule rep_not_null [OF R])
  then have "y \<noteq> 0" unfolding ns by auto
  then show ?thesis using ns L(3) by blast
qed

lemma climb_right_result:
  "holds t (plug cs (Node l (x, c) r)) \<Longrightarrow> climb_right t x (cparent cs) = Some (case after cs of [] \<Rightarrow> 0 | a # _ \<Rightarrow> a)"
proof (induction cs arbitrary: l x c r)
  case Nil
  then show ?case by (simp add: climb_right.simps)
next
  case (Cons f cs)
  obtain d a k u where f: "f = Frame d a k u" by (cases f)
  note h = holds_frame [where e = Lft, OF Cons.prems [folded mk.simps, unfolded f]]
  show ?case
  proof (cases d)
    case Lft
    then show ?thesis using h(3) by (subst climb_right.simps) (simp add: f)
  next
    case Rgt
    then have "holds t (plug cs (Node u (a, k) (Node l (x, c) r)))" using Cons.prems by (simp add: f)
    moreover from this have "nparent t a = cparent cs" by (simp add: holds_plug)
    ultimately show ?thesis using Cons.IH h(2,4) Rgt by (subst climb_right.simps) (simp add: f)
  qed
qed

lemma climb_left_result:
  "holds t (plug cs (Node l (x, c) r)) \<Longrightarrow> climb_left t x (cparent cs) = Some (if before cs = [] then 0 else last (before cs))"
proof (induction cs arbitrary: l x c r)
  case Nil
  then show ?case by (simp add: climb_left.simps)
next
  case (Cons f cs)
  obtain d a k u where f: "f = Frame d a k u" by (cases f)
  note h = holds_frame [where e = Lft, OF Cons.prems [folded mk.simps, unfolded f]]
  show ?case
  proof (cases d)
    case Rgt
    then show ?thesis using h(3) by (subst climb_left.simps) (simp add: f)
  next
    case Lft
    then have "holds t (plug cs (Node (Node l (x, c) r) (a, k) u))" using Cons.prems by (simp add: f)
    moreover from this have "nparent t a = cparent cs" by (simp add: holds_plug)
    ultimately show ?thesis using Cons.IH h(2,4) Lft by (subst climb_left.simps) (simp add: f)
  qed
qed

lemma walk_ends:
  assumes "holds t T" "null_ok t"
  shows "pj_rbtree_first t = Some (nth_node (nodes T) 0)"
    "pj_rbtree_last t = Some (if nodes T = [] then None else Some (last (nodes T)))"
proof -
  have "pj_rbtree_first t = Some (nth_node (nodes T) 0) \<and> pj_rbtree_last t = Some (if nodes T = [] then None else Some (last (nodes T)))"
  proof (cases T)
    case Leaf
    then have "rt_root t = 0" "nleft t 0 = 0" "nright t 0 = 0" using assms by (simp_all add: holds_def null_ok_def)
    then show ?thesis using Leaf
      by (simp add: pj_rbtree_first_def pj_rbtree_last_def leftmost.simps rightmost.simps or_null_def nth_node_def)
  next
    case (Node l a r)
    then have R: "rep (rt_mem t) 0 (rt_root t) (Node l a r)" using assms(1) by (simp add: holds_def)
    obtain y ys where F: "nodes (Node l a r) = y # ys" "leftmost t (rt_root t) = Some y" "y \<noteq> 0" using leftmost_first [OF R] by blast
    obtain zs z where L: "nodes (Node l a r) = zs @ [z]" "rightmost t (rt_root t) = Some z" "z \<noteq> 0" using rightmost_result [OF R] by blast
    have "nodes T = y # ys" using F(1) unfolding Node .
    then have "pj_rbtree_first t = Some (nth_node (nodes T) 0)"
      using F(2,3) by (simp add: pj_rbtree_first_def or_null_def nth_node_def)
    moreover have "nodes T = zs @ [z]" using L(1) unfolding Node .
    then have "pj_rbtree_last t = Some (if nodes T = [] then None else Some (last (nodes T)))"
      using L(2,3) by (simp add: pj_rbtree_last_def or_null_def)
    ultimately show ?thesis by simp
  qed
  then show "pj_rbtree_first t = Some (nth_node (nodes T) 0)"
    "pj_rbtree_last t = Some (if nodes T = [] then None else Some (last (nodes T)))" by auto
qed

lemma walk_steps:
  assumes "holds t T" "i < length (nodes T)"
  shows "pj_rbtree_next t (nodes T ! i) = Some (nth_node (nodes T) (i + 1))"
    "pj_rbtree_prev t (nodes T ! i) = Some (if i = 0 then None else Some (nodes T ! (i - 1)))"
proof -
  define x where "x = nodes T ! i"
  have "x \<in> set (nodes T)" using assms(2) by (simp add: x_def)
  then obtain cs l c r where "T = plug cs (mk Lft l (x, c) r)" using rep_split mk_side by metis
  then have T: "T = plug cs (Node l (x, c) r)" by simp
  have H: "holds t (plug cs (Node l (x, c) r))" using assms(1) by (simp add: T)
  have R: "rep (rt_mem t) x (nleft t x) l" "rep (rt_mem t) x (nright t x) r" using H by (simp_all add: holds_plug)
  define ps where "ps = before cs @ nodes l"
  define qs where "qs = nodes r @ after cs"
  have xs: "nodes T = ps @ x # qs" by (simp add: T nodes_plug ps_def qs_def)
  have "distinct (nodes T)" using assms(1) by (simp add: holds_def)
  moreover have lp: "nodes T ! length ps = x" by (simp add: xs)
  have "nodes T ! i = nodes T ! length ps" unfolding lp x_def by (rule refl)
  moreover have "length ps < length (nodes T)" by (simp add: xs)
  ultimately have i: "i = length ps" using nth_eq_iff_index_eq assms(2) by blast
  have nn: "0 \<notin> set (nodes T)" using assms(1) rep_not_null by (auto simp: holds_def)
  have "pj_rbtree_next t x = Some (if qs = [] then None else Some (hd qs))"
  proof (cases r)
    case Leaf
    then have "pj_rbtree_next t x = map_option or_null (Some (case after cs of [] \<Rightarrow> 0 | a # _ \<Rightarrow> a))"
      using R(2) climb_right_result [OF H] H by (simp add: pj_rbtree_next_def holds_plug)
    then show ?thesis using Leaf nn by (cases "after cs") (auto simp: or_null_def qs_def xs)
  next
    case (Node r1 a r2)
    from leftmost_first [OF R(2) [unfolded Node]] obtain y ys where "nodes (Node r1 a r2) = y # ys" "leftmost t (nright t x) = Some y" "y \<noteq> 0" by blast
    moreover have "nright t x \<noteq> 0" using R(2) unfolding Node by (cases a) auto
    ultimately show ?thesis using Node by (simp add: pj_rbtree_next_def or_null_def qs_def)
  qed
  then show "pj_rbtree_next t (nodes T ! i) = Some (nth_node (nodes T) (i + 1))"
    unfolding x_def [symmetric] by (auto simp: nth_node_def xs i nth_append hd_conv_nth)
  have "pj_rbtree_prev t x = Some (if ps = [] then None else Some (last ps))"
  proof (cases l)
    case Leaf
    then have "pj_rbtree_prev t x = map_option or_null (Some (if before cs = [] then 0 else last (before cs)))"
      using R(1) climb_left_result [OF H] H by (simp add: pj_rbtree_prev_def holds_plug)
    moreover have "before cs \<noteq> [] \<Longrightarrow> last (before cs) \<noteq> 0" using nn xs ps_def by (metis Un_iff last_in_set set_append)
    ultimately show ?thesis using Leaf by (auto simp: or_null_def ps_def)
  next
    case (Node l1 a l2)
    from rightmost_result [OF R(1) [unfolded Node]] obtain y ys where "nodes (Node l1 a l2) = ys @ [y]" "rightmost t (nleft t x) = Some y" "y \<noteq> 0" by blast
    moreover have "nleft t x \<noteq> 0" using R(1) unfolding Node by (cases a) auto
    ultimately show ?thesis using Node by (simp add: pj_rbtree_prev_def or_null_def ps_def)
  qed
  then show "pj_rbtree_prev t (nodes T ! i) = Some (if i = 0 then None else Some (nodes T ! (i - 1)))"
    unfolding x_def [symmetric] by (auto simp: xs i nth_append last_conv_nth)
qed

section \<open>Height\<close>

lemma height_length: "height T \<le> length (nodes T)"
  by (induction T) auto

lemma max_height_result:
  "rep (rt_mem t) q p T \<Longrightarrow> T \<noteq> Leaf \<Longrightarrow> height T \<le> 2 ^ 32 \<Longrightarrow> max_height_at t p = Some (height T - 1)"
proof (induction T arbitrary: q p)
  case (Node l a r)
  have R: "rep (rt_mem t) p (nleft t p) l" "rep (rt_mem t) p (nright t p) r" using Node.prems(1) by (cases a; auto)+
  have z: "nleft t p = 0 \<longleftrightarrow> l = Leaf" "nright t p = 0 \<longleftrightarrow> r = Leaf" using R by (cases l; cases r; auto)+
  have h: "height l < 2 ^ 32" "height r < 2 ^ 32" using Node.prems(3) by auto
  have side: "(if s \<noteq> 0 then Option.bind (max_height_at t s) (\<lambda>h. Some (uwrap (h + 1))) else Some 0) = Some (height u)"
    if "s = 0 \<longleftrightarrow> u = Leaf" "u \<noteq> Leaf \<Longrightarrow> max_height_at t s = Some (height u - 1)" "height u < 2 ^ 32" for s and u :: rb_shape
    using that by (cases u) (auto simp: mod_simps)
  show ?case
    by (subst max_height_at.simps)
      (use side [OF z(1) Node.IH(1) [OF R(1)]] side [OF z(2) Node.IH(2) [OF R(2)]] h in \<open>simp add: max_def\<close>)
qed simp

lemma black_height: "invh T \<Longrightarrow> 2 ^ bheight T \<le> length (nodes T) + 1"
proof (induction T rule: invc.induct)
  case (2 l a c r)
  have "(2::nat) ^ bheight l \<le> length (nodes l) + 1" "(2::nat) ^ bheight l \<le> length (nodes r) + 1" using 2 by auto
  then show ?case by (simp add: weight_def)
qed simp

lemma height_black_height:
  "invc T \<Longrightarrow> invh T \<Longrightarrow> height T \<le> 2 * bheight T + (if tcolor T = PJ_RBCOLOR_RED then 1 else 0)"
proof (induction T rule: invc.induct)
  case (2 l a c r)
  then show ?case by (cases c) (auto simp: weight_def split: if_splits)
qed simp

lemma balanced_height: "invc T \<Longrightarrow> invh T \<Longrightarrow> tcolor T = PJ_RBCOLOR_BLACK \<Longrightarrow> 2 ^ height T \<le> (length (nodes T) + 1)\<^sup>2"
proof -
  assume "invc T" "invh T" "tcolor T = PJ_RBCOLOR_BLACK"
  then have "(2::nat) ^ height T \<le> 2 ^ (2 * bheight T)"
    using height_black_height [of T] by (intro power_increasing) auto
  also have "\<dots> = (2 ^ bheight T)\<^sup>2" by (simp add: power_mult power2_eq_square mult_2 power_add)
  also have "\<dots> \<le> (length (nodes T) + 1)\<^sup>2" using black_height [OF \<open>invh T\<close>] by (intro power_mono) auto
  finally show ?thesis .
qed

section \<open>Runs\<close>

lemma find_key:
  assumes c: "comparison cmp"
  shows "keys_sorted cmp key xs \<Longrightarrow> a \<in> set xs \<Longrightarrow> cmp k (key a) = 0 \<Longrightarrow> find (\<lambda>a. cmp k (key a) = 0) xs = Some a"
proof (induction xs)
  case (Cons b xs)
  show ?case
  proof (cases "cmp k (key b) = 0")
    case True
    have "a \<notin> set xs"
    proof
      assume "a \<in> set xs"
      then have "cmp (key b) (key a) < 0" using Cons.prems(1) by (simp add: keys_sorted_def)
      then show False using comparisonD(3) [OF c, of k "key b" "key a"] True Cons.prems(3) by simp
    qed
    then show ?thesis using True Cons.prems(2) by simp
  next
    case False
    then show ?thesis using Cons by (auto simp: keys_sorted_def)
  qed
qed simp

datatype rb_call = RB_Insert nat | RB_Erase nat

fun rb_step :: "'k rbtree option \<Rightarrow> rb_call \<Rightarrow> 'k rbtree option" where
  "rb_step None c = None"
| "rb_step (Some t) (RB_Insert x) = map_option fst (pj_rbtree_insert t x)"
| "rb_step (Some t) (RB_Erase x) = map_option fst (pj_rbtree_erase t x)"

text \<open>The same calls on a list of nodes in the order of their keys; \<open>None\<close> is a call that is not allowed: inserting a
  node that is in the tree already, or erasing one that is not.\<close>

fun list_step :: "('k \<Rightarrow> 'k \<Rightarrow> int) \<Rightarrow> (nat \<Rightarrow> 'k) \<Rightarrow> nat list option \<Rightarrow> rb_call \<Rightarrow> nat list option" where
  "list_step cmp key None c = None"
| "list_step cmp key (Some xs) (RB_Insert x) =
     (if x = 0 \<or> x \<in> set xs then None
      else if \<exists>a \<in> set xs. cmp (key x) (key a) = 0 then Some xs
      else Some (rb_insort cmp key x xs))"
| "list_step cmp key (Some xs) (RB_Erase x) = (if x \<in> set xs then Some (remove1 x xs) else None)"

definition rb_pair_step :: "('k \<Rightarrow> 'k \<Rightarrow> int) \<Rightarrow> (nat \<Rightarrow> 'k) \<Rightarrow> 'k rbtree option \<times> nat list option \<Rightarrow> rb_call \<Rightarrow>
    'k rbtree option \<times> nat list option" where
  "rb_pair_step cmp key s c = (rb_step (fst s) c, list_step cmp key (snd s) c)"

definition rb_pair_ok :: "('k \<Rightarrow> 'k \<Rightarrow> int) \<Rightarrow> (nat \<Rightarrow> 'k) \<Rightarrow> 'k rbtree option \<times> nat list option \<Rightarrow> bool" where
  "rb_pair_ok cmp key s \<longleftrightarrow> (\<forall>xs. snd s = Some xs \<longrightarrow>
     (\<exists>t T. fst s = Some t \<and> rb_tree t T \<and> nodes T = xs \<and> rt_comp t = cmp \<and> nkey t = key))"

definition rb_pair_balanced :: "('k \<Rightarrow> 'k \<Rightarrow> int) \<Rightarrow> (nat \<Rightarrow> 'k) \<Rightarrow> 'k rbtree option \<times> nat list option \<Rightarrow> bool" where
  "rb_pair_balanced cmp key s \<longleftrightarrow> (\<forall>xs. snd s = Some xs \<longrightarrow>
     (\<exists>t T. fst s = Some t \<and> rb_tree t T \<and> nodes T = xs \<and> rt_comp t = cmp \<and> nkey t = key \<and> invh T \<and> invc T))"

lemma insert_step_ok:
  assumes "rb_tree t T" "nodes T = xs" "list_step (rt_comp t) (nkey t) (Some xs) (RB_Insert x) = Some ys"
  shows "\<exists>t' T'. rb_step (Some t) (RB_Insert x) = Some t' \<and> rb_tree t' T' \<and> nodes T' = ys \<and> rt_comp t' = rt_comp t \<and>
    nkey t' = nkey t \<and> (invh T \<and> invc T \<longrightarrow> invh T' \<and> invc T')"
  using insert_result [OF assms(1), of x] assms by (fastforce split: if_splits)

lemma erase_step_ok:
  assumes "rb_tree t T" "nodes T = xs" "list_step (rt_comp t) (nkey t) (Some xs) (RB_Erase x) = Some ys"
  shows "\<exists>t' T'. rb_step (Some t) (RB_Erase x) = Some t' \<and> rb_tree t' T' \<and> nodes T' = ys \<and> rt_comp t' = rt_comp t \<and> nkey t' = nkey t"
  using erase_result [OF assms(1), of x] assms by (fastforce split: if_splits)

fun is_insert :: "rb_call \<Rightarrow> bool" where
  "is_insert (RB_Insert x) \<longleftrightarrow> True"
| "is_insert (RB_Erase x) \<longleftrightarrow> False"

interpretation rb_machine: event_machine "rb_pair_step cmp key" "rb_pair_ok cmp key" "\<lambda>c. True"
  for cmp :: "'k \<Rightarrow> 'k \<Rightarrow> int" and key
proof
  show "rb_pair_ok cmp key (rb_pair_step cmp key s c)" if ok: "rb_pair_ok cmp key s" for s :: "'k rbtree option \<times> nat list option" and c
  proof (cases "snd s")
    case None
    then show ?thesis by (simp add: rb_pair_ok_def rb_pair_step_def)
  next
    case (Some xs)
    then obtain t T where t: "fst s = Some t" "rb_tree t T" "nodes T = xs" "rt_comp t = cmp" "nkey t = key"
      using ok by (auto simp: rb_pair_ok_def)
    show ?thesis
      unfolding rb_pair_ok_def rb_pair_step_def fst_conv snd_conv Some t(1)
    proof (intro allI impI)
      show "\<exists>t' T'. rb_step (Some t) c = Some t' \<and> rb_tree t' T' \<and> nodes T' = ys \<and> rt_comp t' = cmp \<and> nkey t' = key"
        if "list_step cmp key (Some xs) c = Some ys" for ys
        using insert_step_ok [OF t(2,3)] erase_step_ok [OF t(2,3)] that t(4,5) by (cases c) metis+
    qed
  qed
qed

interpretation rb_inserts: event_machine "rb_pair_step cmp key" "rb_pair_balanced cmp key" is_insert
  for cmp :: "'k \<Rightarrow> 'k \<Rightarrow> int" and key
proof
  show "rb_pair_balanced cmp key (rb_pair_step cmp key s c)" if ok: "rb_pair_balanced cmp key s" "is_insert c"
    for s :: "'k rbtree option \<times> nat list option" and c
  proof (cases "snd s")
    case None
    then show ?thesis by (simp add: rb_pair_balanced_def rb_pair_step_def)
  next
    case (Some xs)
    then obtain t T where t: "fst s = Some t" "rb_tree t T" "nodes T = xs" "rt_comp t = cmp" "nkey t = key" "invh T" "invc T"
      using ok(1) by (auto simp: rb_pair_balanced_def)
    show ?thesis
      unfolding rb_pair_balanced_def rb_pair_step_def fst_conv snd_conv Some t(1)
    proof (intro allI impI)
      show "\<exists>t' T'. rb_step (Some t) c = Some t' \<and> rb_tree t' T' \<and> nodes T' = ys \<and> rt_comp t' = cmp \<and> nkey t' = key \<and> invh T' \<and> invc T'"
        if "list_step cmp key (Some xs) c = Some ys" for ys
        using insert_step_ok [OF t(2,3)] that t(4-7) ok(2) by (cases c) (metis, simp)
    qed
  qed
qed

lemma rb_pair_run: "foldl (rb_pair_step cmp key) s cs = (foldl rb_step (fst s) cs, foldl (list_step cmp key) (snd s) cs)"
  by (induction cs arbitrary: s) (simp_all add: rb_pair_step_def)

lemma rb_init_tree:
  assumes "comparison cmp"
  shows "rb_tree (pj_rbtree_init mem cmp) Leaf" "nkey (pj_rbtree_init mem cmp) = (\<lambda>a. nd_key (mem a))" "rt_comp (pj_rbtree_init mem cmp) = cmp"
  using assms by (auto simp: pj_rbtree_init_def rb_tree_def holds_def null_ok_def keys_sorted_def)

lemma rb_run_result:
  assumes "comparison cmp" "foldl (list_step cmp (\<lambda>a. nd_key (mem a))) (Some []) calls = Some xs"
  shows "\<exists>t T. foldl rb_step (Some (pj_rbtree_init mem cmp)) calls = Some t \<and> rb_tree t T \<and> nodes T = xs \<and> rt_comp t = cmp \<and>
    nkey t = (\<lambda>a. nd_key (mem a)) \<and> (list_all is_insert calls \<longrightarrow> invh T \<and> invc T)"
proof -
  let ?key = "\<lambda>a. nd_key (mem a)" and ?s = "(Some (pj_rbtree_init mem cmp), Some [])"
  show ?thesis
  proof (cases "list_all is_insert calls")
    case True
    have "rb_pair_balanced cmp ?key ?s"
      using rb_init_tree [OF assms(1), of mem] by (auto simp: rb_pair_balanced_def intro!: exI [of _ Leaf])
    then show ?thesis
      using rb_inserts.mrun_inv [of cmp ?key ?s calls] True assms(2)
      by (auto simp: rb_pair_run rb_pair_balanced_def list_all_iff)
  next
    case False
    have "rb_pair_ok cmp ?key ?s"
      using rb_init_tree [OF assms(1), of mem] by (auto simp: rb_pair_ok_def intro!: exI [of _ Leaf])
    then show ?thesis
      using rb_machine.mrun_inv [of cmp ?key ?s calls] False assms(2) by (auto simp: rb_pair_run rb_pair_ok_def)
  qed
qed

section \<open>Properties\<close>

text \<open>C29. Whatever nodes are inserted and erased, with any comparison function, every call returns, and the
  tree holds what a list of nodes sorted by key holds: find gives the node of the key or NULL, and the size is the
  number of nodes. A node whose key is in the tree already is refused and changes nothing.\<close>

theorem rbtree_run_refines:
  assumes "comparison cmp" "foldl (list_step cmp (\<lambda>a. nd_key (mem a))) (Some []) calls = Some xs"
  shows "\<exists>t. foldl rb_step (Some (pj_rbtree_init mem cmp)) calls = Some t \<and> rt_size t = uwrap (length xs) \<and>
    sorted_wrt (\<lambda>a b. cmp (nd_key (mem a)) (nd_key (mem b)) < 0) xs \<and>
    (\<forall>k. pj_rbtree_find t k = Some (find (\<lambda>a. cmp k (nd_key (mem a)) = 0) xs))"
proof -
  obtain t T where R: "foldl rb_step (Some (pj_rbtree_init mem cmp)) calls = Some t" "rb_tree t T" "nodes T = xs" "rt_comp t = cmp"
    "nkey t = (\<lambda>a. nd_key (mem a))" using rb_run_result [OF assms] by blast
  have s: "keys_sorted cmp (nkey t) xs" and r: "rep (rt_mem t) 0 (rt_root t) T" and sz: "rt_size t = uwrap (length xs)"
    using R(2-4) by (auto simp: rb_tree_def holds_def)
  have "pj_rbtree_find t k = Some (find (\<lambda>a. cmp k (nkey t a) = 0) xs)" for k
  proof -
    obtain a where a: "find_loop t k (rt_root t) = Some a"
      "a \<in> set xs \<and> cmp k (nkey t a) = 0 \<or> a = 0 \<and> (\<forall>b \<in> set xs. cmp k (nkey t b) \<noteq> 0)"
      using find_loop_result [of t 0 "rt_root t" T k] assms(1) r s R(3,4) by auto
    have "0 \<notin> set xs" using rep_not_null [OF r] R(3) by simp
    then have "or_null a = find (\<lambda>a. cmp k (nkey t a) = 0) xs"
      using a(2) find_key [OF assms(1) s] find_None_iff [of "\<lambda>a. cmp k (nkey t a) = 0" xs] by (auto simp: or_null_def)
    then show ?thesis using a(1) by (simp add: pj_rbtree_find_def)
  qed
  moreover have "nkey t a = nd_key (mem a)" for a using fun_cong [OF R(5)] .
  ultimately show ?thesis using R(1) sz s by (simp add: keys_sorted_def)
qed

definition int_nodes :: "nat \<Rightarrow> int rb_node" where
  "int_nodes a = \<lparr>nd_parent = 0, nd_left = 0, nd_right = 0, nd_key = int a mod 10, nd_color = PJ_RBCOLOR_BLACK\<rparr>"

lemma int_comparison: "comparison (\<lambda>a b :: int. a - b)"
  by (simp add: comparison_def)

theorem rbtree_run_refines_witness:
  "\<exists>t. foldl rb_step (Some (pj_rbtree_init int_nodes (\<lambda>a b. a - b))) [RB_Insert 5, RB_Insert 3, RB_Insert 13, RB_Insert 7, RB_Erase 5] = Some t \<and>
    rt_size t = 2 \<and> pj_rbtree_find t 7 = Some (Some 7) \<and> pj_rbtree_find t 5 = Some None"
proof -
  have "foldl (list_step (\<lambda>a b. a - b) (\<lambda>a. nd_key (int_nodes a))) (Some []) [RB_Insert 5, RB_Insert 3, RB_Insert 13, RB_Insert 7, RB_Erase 5] = Some [3, 7]"
    by (simp add: int_nodes_def rb_insort_def)
  from rbtree_run_refines [OF int_comparison this] obtain t where
    t: "foldl rb_step (Some (pj_rbtree_init int_nodes (\<lambda>a b. a - b))) [RB_Insert 5, RB_Insert 3, RB_Insert 13, RB_Insert 7, RB_Erase 5] = Some t"
      "rt_size t = uwrap (length [3::nat, 7])"
      "\<forall>k. pj_rbtree_find t k = Some (find (\<lambda>a. k - nd_key (int_nodes a) = 0) [3, 7])" by blast
  have "rt_size t = 2" using t(2) by simp
  moreover have "pj_rbtree_find t 7 = Some (Some 7)" "pj_rbtree_find t 5 = Some None" using t(3) by (simp_all add: int_nodes_def)
  ultimately show ?thesis using t(1) by blast
qed

text \<open>C30. After any run of calls, first and last give the ends of the sorted list of nodes, and from every node
  next and prev give its neighbours in that list, NULL at the ends.\<close>

theorem rbtree_walk_in_order:
  assumes "comparison cmp" "foldl (list_step cmp (\<lambda>a. nd_key (mem a))) (Some []) calls = Some xs"
  shows "\<exists>t. foldl rb_step (Some (pj_rbtree_init mem cmp)) calls = Some t \<and>
    pj_rbtree_first t = Some (nth_node xs 0) \<and> pj_rbtree_last t = Some (if xs = [] then None else Some (last xs)) \<and>
    (\<forall>i < length xs. pj_rbtree_next t (xs ! i) = Some (nth_node xs (i + 1)) \<and>
       pj_rbtree_prev t (xs ! i) = Some (if i = 0 then None else Some (xs ! (i - 1))))"
proof -
  obtain t T where R: "foldl rb_step (Some (pj_rbtree_init mem cmp)) calls = Some t" "holds t T" "null_ok t" "nodes T = xs"
    using rb_run_result [OF assms] by (auto simp: rb_tree_def)
  show ?thesis using R(1) walk_ends [OF R(2,3)] walk_steps [OF R(2)] unfolding R(4) by blast
qed

theorem rbtree_walk_in_order_witness:
  "\<exists>t. foldl rb_step (Some (pj_rbtree_init int_nodes (\<lambda>a b. a - b))) [RB_Insert 5, RB_Insert 8, RB_Insert 3] = Some t \<and>
    pj_rbtree_first t = Some (Some 3) \<and> pj_rbtree_next t 3 = Some (Some 5) \<and> pj_rbtree_prev t 3 = Some None"
proof -
  have "foldl (list_step (\<lambda>a b. a - b) (\<lambda>a. nd_key (int_nodes a))) (Some []) [RB_Insert 5, RB_Insert 8, RB_Insert 3] = Some [3, 5, 8]"
    by (simp add: int_nodes_def rb_insort_def)
  from rbtree_walk_in_order [OF int_comparison this] obtain t where
    t: "foldl rb_step (Some (pj_rbtree_init int_nodes (\<lambda>a b. a - b))) [RB_Insert 5, RB_Insert 8, RB_Insert 3] = Some t"
      "pj_rbtree_first t = Some (nth_node [3, 5, 8] 0)"
      "\<forall>i < length [3::nat, 5, 8]. pj_rbtree_next t ([3, 5, 8] ! i) = Some (nth_node [3, 5, 8] (i + 1)) \<and>
         pj_rbtree_prev t ([3, 5, 8] ! i) = Some (if i = 0 then None else Some ([3, 5, 8] ! (i - 1)))" by blast
  have "pj_rbtree_first t = Some (Some 3)" "pj_rbtree_next t 3 = Some (Some 5)" "pj_rbtree_prev t 3 = Some None"
    using t(2) t(3) [rule_format, of 0] by (simp_all add: nth_node_def)
  then show ?thesis using t(1) by blast
qed

text \<open>C31. As long as nodes are only inserted, the tree is balanced: the height that max_height reports, and
  so every search, is at most twice the binary logarithm of the number of nodes plus one.\<close>

theorem rbtree_insert_balanced:
  assumes "comparison cmp" "foldl (list_step cmp (\<lambda>a. nd_key (mem a))) (Some []) calls = Some xs" "list_all is_insert calls"
    and "length xs < 2 ^ 32" "xs \<noteq> []"
  shows "\<exists>t h. foldl rb_step (Some (pj_rbtree_init mem cmp)) calls = Some t \<and> pj_rbtree_max_height t None = Some h \<and>
    2 ^ (h + 1) \<le> (length xs + 1)\<^sup>2"
proof -
  obtain t T where R: "foldl rb_step (Some (pj_rbtree_init mem cmp)) calls = Some t" "rb_tree t T" "nodes T = xs" "invh T" "invc T"
    using rb_run_result [OF assms(1,2)] assms(3) by auto
  have T: "T \<noteq> Leaf" "height T \<le> 2 ^ 32" using R(3) assms(4,5) height_length [of T] by auto
  have "pj_rbtree_max_height t None = Some (height T - 1)"
    using max_height_result [OF _ T] R(2) by (auto simp: pj_rbtree_max_height_def rb_tree_def holds_def)
  moreover have "height T - 1 + 1 = height T" using T(1) by (cases T) auto
  moreover have "2 ^ height T \<le> (length xs + 1)\<^sup>2" using balanced_height [OF R(5,4)] R(2,3) by (simp add: rb_tree_def)
  ultimately show ?thesis using R(1) by metis
qed

theorem rbtree_insert_balanced_witness:
  "\<exists>t h. foldl rb_step (Some (pj_rbtree_init int_nodes (\<lambda>a b. a - b))) [RB_Insert 1, RB_Insert 2, RB_Insert 3] = Some t \<and>
    pj_rbtree_max_height t None = Some h \<and> 2 ^ (h + 1) \<le> (16 :: nat)"
proof -
  have "foldl (list_step (\<lambda>a b. a - b) (\<lambda>a. nd_key (int_nodes a))) (Some []) [RB_Insert 1, RB_Insert 2, RB_Insert 3] = Some [1, 2, 3]"
    by (simp add: int_nodes_def rb_insort_def)
  from rbtree_insert_balanced [OF int_comparison this] obtain t h where
    t: "foldl rb_step (Some (pj_rbtree_init int_nodes (\<lambda>a b. a - b))) [RB_Insert 1, RB_Insert 2, RB_Insert 3] = Some t"
      "pj_rbtree_max_height t None = Some h" "2 ^ (h + 1) \<le> (length [1::nat, 2, 3] + 1)\<^sup>2" by auto
  have "2 ^ (h + 1) \<le> (16 :: nat)" using t(3) by (simp add: power2_eq_square)
  then show ?thesis using t(1,2) by blast
qed

text \<open>Erasing a black node without children rebalances nothing, as \<open>delete_fixup\<close> is only called for a child: from the balanced tree of four
  nodes that inserting 1, 2, 3, 4 builds, erasing 1 leaves a root with no node on its left and two below it on its right.\<close>

lemma rbtree_erase_unbalanced:
  "\<exists>t. foldl rb_step (Some (pj_rbtree_init int_nodes (\<lambda>a b. a - b))) [RB_Insert 1, RB_Insert 2, RB_Insert 3, RB_Insert 4, RB_Erase 1] = Some t \<and>
    nleft t (rt_root t) = 0 \<and> nright t (nright t (rt_root t)) \<noteq> 0 \<and> nright t (rt_root t) \<noteq> 0"
  by (simp add: pj_rbtree_init_def pj_rbtree_insert_def pj_rbtree_erase_def insert_search.simps int_nodes_def Let_def set_root_def
    set_parent_def set_left_def set_right_def set_color_def insert_fixup_def insert_fixup_loop.simps insert_fixup_step_def
    left_rotate_def right_rotate_def replace_child_def erase_unlink_def erase_replace_def leftmost.simps)

end
