(* ===== verification/Silence_Det.thy ===== *)
theory Silence_Det
  imports Prelude Machine
begin

text \<open>
  The silence detector (\<open>pjmedia/src/pjmedia/silencedet.c\<close>), a state machine over the levels of audio frames. The
  \<open>unsigned\<close> fields are natural numbers that every sum reduces by \<open>uwrap\<close>; a division by zero is
  \<open>None\<close>. Levels are averages of 16-bit samples. The object name and logging are left out; the threshold the
  application may force (\<open>vad_thredshold\<close>) is a parameter of the creation.
\<close>

section \<open>State\<close>

datatype vad_mode = VAD_MODE_NONE | VAD_MODE_FIXED | VAD_MODE_ADAPTIVE

datatype vad_state = STATE_SILENCE | STATE_START_SILENCE | STATE_VOICED

record silence_det =
  sd_mode :: vad_mode
  sd_ptime :: nat
  sd_threshold :: nat
  sd_sum_level :: nat
  sd_sum_cnt :: nat
  sd_silence_timer :: nat
  sd_voiced_timer :: nat
  sd_state :: vad_state
  sd_recalc_on_voiced :: nat
  sd_recalc_on_silence :: nat
  sd_before_silence :: nat

definition DEF_RECALC_ON_VOICED :: int where "DEF_RECALC_ON_VOICED = 4000"

definition DEF_RECALC_ON_SILENCE :: int where "DEF_RECALC_ON_SILENCE = 2000"

definition DEF_BEFORE_SILENCE :: int where "DEF_BEFORE_SILENCE = 400"

definition DEF_THRESHOLD :: int where "DEF_THRESHOLD = 50"

definition PJMEDIA_SILENCE_DET_MAX_THRESHOLD :: nat where "PJMEDIA_SILENCE_DET_MAX_THRESHOLD = 0x10000"

section \<open>Operations\<close>

definition pjmedia_silence_det_set_adaptive :: "silence_det \<Rightarrow> int \<Rightarrow> silence_det" where
  "pjmedia_silence_det_set_adaptive sd threshold =
     (let threshold = (if threshold < 0 then DEF_THRESHOLD else threshold)
      in sd\<lparr>sd_mode := VAD_MODE_ADAPTIVE, sd_threshold := to_u32 threshold\<rparr>)"

definition pjmedia_silence_det_set_fixed :: "silence_det \<Rightarrow> int \<Rightarrow> silence_det" where
  "pjmedia_silence_det_set_fixed sd threshold =
     (let threshold = (if threshold < 0 then DEF_THRESHOLD else threshold)
      in sd\<lparr>sd_mode := VAD_MODE_FIXED, sd_threshold := to_u32 threshold\<rparr>)"

definition pjmedia_silence_det_set_params :: "silence_det \<Rightarrow> int \<Rightarrow> int \<Rightarrow> int \<Rightarrow> silence_det" where
  "pjmedia_silence_det_set_params sd before_silence recalc_time1 recalc_time2 =
     (let recalc_time1 = (if recalc_time1 < 0 then DEF_RECALC_ON_VOICED else recalc_time1);
          recalc_time2 = (if recalc_time2 < 0 then DEF_RECALC_ON_SILENCE else recalc_time2);
          before_silence = (if before_silence < 0 then DEF_BEFORE_SILENCE else before_silence)
      in sd\<lparr>sd_recalc_on_voiced := to_u32 recalc_time1, sd_recalc_on_silence := to_u32 recalc_time2,
            sd_before_silence := to_u32 before_silence\<rparr>)"

definition pjmedia_silence_det_disable :: "silence_det \<Rightarrow> silence_det" where
  "pjmedia_silence_det_disable sd = sd\<lparr>sd_mode := VAD_MODE_NONE\<rparr>"

definition pjmedia_silence_det_create :: "int \<Rightarrow> nat \<Rightarrow> nat \<Rightarrow> silence_det option" where
  "pjmedia_silence_det_create vad_threshold clock_rate samples_per_frame =
     (if clock_rate = 0 then None
      else
        (let sd = \<lparr>sd_mode = VAD_MODE_NONE, sd_ptime = uwrap (samples_per_frame * 1000) div clock_rate,
              sd_threshold = 0, sd_sum_level = 0, sd_sum_cnt = 0, sd_silence_timer = 0, sd_voiced_timer = 0,
              sd_state = STATE_SILENCE, sd_recalc_on_voiced = 0, sd_recalc_on_silence = 0, sd_before_silence = 0\<rparr>;
             sd = pjmedia_silence_det_set_params sd (- 1) (- 1) (- 1)
         in Some (if vad_threshold > 0 then pjmedia_silence_det_set_fixed sd vad_threshold
                  else pjmedia_silence_det_set_adaptive sd (- 1))))"

text \<open>The sum of magnitudes, in \<open>pj_uint32_t\<close>, of \<open>pj_int16_t\<close> samples.\<close>

definition pjmedia_calc_avg_signal :: "int list \<Rightarrow> nat" where
  "pjmedia_calc_avg_signal samples =
     (if samples = [] then 0
      else foldl (\<lambda>sum pcm. if pcm < 0 then to_u32 (int sum - pcm) else to_u32 (int sum + pcm)) 0 samples
             div length samples)"

definition loud :: "silence_det \<Rightarrow> nat \<Rightarrow> bool" where
  "loud sd level \<longleftrightarrow> level > sd_threshold sd \<or> level \<ge> PJMEDIA_SILENCE_DET_MAX_THRESHOLD"

text \<open>The two arms of \<open>pjmedia_silence_det_apply\<close>; a \<open>switch\<close> arm that falls through is written out.\<close>

definition apply_voiced :: "silence_det \<Rightarrow> nat \<Rightarrow> nat \<Rightarrow> silence_det" where
  "apply_voiced sd level avg =
     (let sd = sd\<lparr>sd_silence_timer := 0, sd_voiced_timer := uwrap (sd_voiced_timer sd + sd_ptime sd)\<rparr>
      in case sd_state sd of
           STATE_VOICED \<Rightarrow>
             if sd_voiced_timer sd > sd_recalc_on_voiced sd
             then sd\<lparr>sd_threshold := uwrap (avg + sd_threshold sd) div 2, sd_voiced_timer := 0,
                     sd_sum_level := avg, sd_sum_cnt := 1\<rparr>
             else sd
         | _ \<Rightarrow> sd\<lparr>sd_state := STATE_VOICED, sd_sum_level := level, sd_sum_cnt := 1\<rparr>)"

definition start_silence :: "silence_det \<Rightarrow> nat \<Rightarrow> silence_det" where
  "start_silence sd avg =
     (if sd_silence_timer sd \<ge> sd_before_silence sd
      then sd\<lparr>sd_state := STATE_SILENCE, sd_threshold := uwrap (avg * 2), sd_sum_level := avg, sd_sum_cnt := 1\<rparr>
      else sd)"

definition apply_silent :: "silence_det \<Rightarrow> nat \<Rightarrow> nat \<Rightarrow> silence_det" where
  "apply_silent sd level avg =
     (let sd = sd\<lparr>sd_voiced_timer := 0, sd_silence_timer := uwrap (sd_silence_timer sd + sd_ptime sd)\<rparr>
      in case sd_state sd of
           STATE_SILENCE \<Rightarrow>
             if sd_silence_timer sd \<ge> sd_recalc_on_silence sd
             then sd\<lparr>sd_threshold := uwrap (avg * 2), sd_silence_timer := 0, sd_sum_level := avg, sd_sum_cnt := 1\<rparr>
             else sd
         | STATE_VOICED \<Rightarrow>
             start_silence (sd\<lparr>sd_state := STATE_START_SILENCE, sd_sum_level := level, sd_sum_cnt := 1\<rparr>) avg
         | STATE_START_SILENCE \<Rightarrow> start_silence sd avg)"

definition pjmedia_silence_det_apply :: "silence_det \<Rightarrow> nat \<Rightarrow> (silence_det \<times> bool) option" where
  "pjmedia_silence_det_apply sd level =
     (case sd_mode sd of
        VAD_MODE_NONE \<Rightarrow> Some (sd, False)
      | VAD_MODE_FIXED \<Rightarrow> Some (sd, level < sd_threshold sd)
      | VAD_MODE_ADAPTIVE \<Rightarrow>
          (let sd = sd\<lparr>sd_sum_level := uwrap (sd_sum_level sd + level), sd_sum_cnt := uwrap (sd_sum_cnt sd + 1)\<rparr>
           in if sd_sum_cnt sd = 0 then None
              else
                (let avg = sd_sum_level sd div sd_sum_cnt sd;
                     sd = (if loud sd level then apply_voiced sd level avg else apply_silent sd level avg)
                 in Some (sd, sd_state sd = STATE_SILENCE))))"

definition pjmedia_silence_det_detect :: "silence_det \<Rightarrow> int list \<Rightarrow> (silence_det \<times> bool \<times> nat) option" where
  "pjmedia_silence_det_detect sd samples =
     (let level = pjmedia_calc_avg_signal samples
      in map_option (\<lambda>(sd, silence). (sd, silence, level)) (pjmedia_silence_det_apply sd level))"

section \<open>Levels\<close>

definition is_s16 :: "int \<Rightarrow> bool" where
  "is_s16 x \<longleftrightarrow> - 32768 \<le> x \<and> x \<le> 32767"

lemma s16_abs: "is_s16 x \<Longrightarrow> nat \<bar>x\<bar> \<le> 32768"
  unfolding is_s16_def nat_le_iff by linarith

lemma sum_magnitudes:
  assumes "\<forall>x \<in> set xs. is_s16 x" "n + 32768 * length xs < 2 ^ 32"
  shows "foldl (\<lambda>sum pcm. if pcm < 0 then to_u32 (int sum - pcm) else to_u32 (int sum + pcm)) n xs =
    n + sum_list (map (\<lambda>x. nat \<bar>x\<bar>) xs)"
  using assms
proof (induction xs arbitrary: n)
  case (Cons x xs)
  have x: "nat \<bar>x\<bar> \<le> 32768" using Cons.prems(1) s16_abs by simp
  then have "n + nat \<bar>x\<bar> + 32768 * length xs < 2 ^ 32" using Cons.prems(2) by simp
  moreover have "(if x < 0 then to_u32 (int n - x) else to_u32 (int n + x)) = n + nat \<bar>x\<bar>"
    using to_u32_nonneg [of "int n + \<bar>x\<bar>"] x Cons.prems(2) by (auto simp: nat_add_distrib)
  ultimately show ?case using Cons by simp
qed simp

lemma sum_magnitudes_le: "\<forall>x \<in> set xs. is_s16 x \<Longrightarrow> sum_list (map (\<lambda>x. nat \<bar>x\<bar>) xs) \<le> 32768 * length xs"
  by (induction xs) (use s16_abs in \<open>fastforce+\<close>)

text \<open>The sum wraps for loud frames of \<open>2 ^ 17\<close> samples or more; the result is at most a full level even then.\<close>

lemma sum_magnitudes_bound:
  assumes "\<forall>x \<in> set xs. is_s16 x"
  shows "foldl (\<lambda>sum pcm. if pcm < 0 then to_u32 (int sum - pcm) else to_u32 (int sum + pcm)) n xs \<le>
    n + 32768 * length xs"
  using assms
proof (induction xs arbitrary: n)
  case (Cons x xs)
  have x: "nat \<bar>x\<bar> \<le> 32768" using Cons.prems(1) s16_abs by simp
  define m where "m = (if x < 0 then to_u32 (int n - x) else to_u32 (int n + x))"
  have "m \<le> n + 32768"
    using to_u32_le [of "int n - x"] to_u32_le [of "int n + x"] x by (auto simp: m_def)
  moreover have "foldl (\<lambda>sum pcm. if pcm < 0 then to_u32 (int sum - pcm) else to_u32 (int sum + pcm)) m xs \<le>
      m + 32768 * length xs" using Cons by simp
  ultimately show ?case by (simp flip: m_def)
qed simp

lemma avg_signal_result:
  assumes "\<forall>x \<in> set xs. is_s16 x"
  shows "length xs < 2 ^ 17 \<Longrightarrow> pjmedia_calc_avg_signal xs = sum_list (map (\<lambda>x. nat \<bar>x\<bar>) xs) div length xs"
    "pjmedia_calc_avg_signal xs \<le> 32768"
proof -
  show "length xs < 2 ^ 17 \<Longrightarrow> pjmedia_calc_avg_signal xs = sum_list (map (\<lambda>x. nat \<bar>x\<bar>) xs) div length xs"
    using sum_magnitudes [of xs 0] assms by (simp add: pjmedia_calc_avg_signal_def)
  show "pjmedia_calc_avg_signal xs \<le> 32768"
    using div_le_mono [OF sum_magnitudes_bound [OF assms, of 0], of "length xs"]
    by (cases "xs = []") (simp_all add: pjmedia_calc_avg_signal_def)
qed


section \<open>The invariant\<close>

text \<open>
  The bounds are those of frames and settings of at most a minute. A timer runs only in its own states,
  and the number of levels summed is bounded by the timer that runs.
\<close>

definition sd_inv :: "silence_det \<Rightarrow> bool" where
  "sd_inv sd \<longleftrightarrow> 1 \<le> sd_ptime sd \<and> sd_ptime sd \<le> 60000 \<and> sd_recalc_on_voiced sd \<le> 60000 \<and>
     sd_recalc_on_silence sd \<le> 60000 \<and> sd_before_silence sd \<le> 60000 \<and> sd_threshold sd < 2 ^ 31 \<and>
     sd_sum_level sd \<le> 32768 * sd_sum_cnt sd \<and>
     (case sd_state sd of
        STATE_VOICED \<Rightarrow> sd_silence_timer sd = 0 \<and> sd_voiced_timer sd \<le> 60000 \<and>
          sd_sum_cnt sd * sd_ptime sd \<le> sd_voiced_timer sd + sd_ptime sd
      | STATE_START_SILENCE \<Rightarrow> sd_voiced_timer sd = 0 \<and> sd_silence_timer sd \<le> 60000 \<and>
          sd_sum_cnt sd * sd_ptime sd \<le> sd_silence_timer sd + sd_ptime sd
      | STATE_SILENCE \<Rightarrow> sd_voiced_timer sd = 0 \<and> sd_silence_timer sd \<le> 120000 \<and>
          sd_sum_cnt sd * sd_ptime sd \<le> sd_silence_timer sd + sd_ptime sd)"

lemma sd_inv_cnt:
  assumes "sd_inv sd"
  shows "sd_sum_cnt sd \<le> 120001"
proof (rule ccontr)
  have "sd_sum_cnt sd * sd_ptime sd \<le> 120000 + sd_ptime sd" "1 \<le> sd_ptime sd"
    using assms by (auto simp: sd_inv_def split: vad_state.splits)
  moreover assume "\<not> sd_sum_cnt sd \<le> 120001"
  then have "120002 * sd_ptime sd \<le> sd_sum_cnt sd * sd_ptime sd" by (intro mult_right_mono) auto
  ultimately show False by linarith
qed

lemma voiced_inv:
  assumes I: "sd_inv sd" and l: "level \<le> 32768" "avg \<le> 32768"
  defines "sd1 \<equiv> sd\<lparr>sd_sum_level := sd_sum_level sd + level, sd_sum_cnt := sd_sum_cnt sd + 1\<rparr>"
  shows "sd_inv (apply_voiced sd1 level avg)" "sd_state (apply_voiced sd1 level avg) = STATE_VOICED"
    "sd_mode (apply_voiced sd1 level avg) = sd_mode sd"
  using I l by (auto simp: sd_inv_def sd1_def apply_voiced_def Let_def split: vad_state.splits)

lemma silent_inv:
  assumes I: "sd_inv sd" and l: "level \<le> 32768" "avg \<le> 32768"
  defines "sd1 \<equiv> sd\<lparr>sd_sum_level := sd_sum_level sd + level, sd_sum_cnt := sd_sum_cnt sd + 1\<rparr>"
  shows "sd_inv (apply_silent sd1 level avg)" "sd_mode (apply_silent sd1 level avg) = sd_mode sd"
  using I l by (auto simp: sd_inv_def sd1_def apply_silent_def start_silence_def Let_def split: vad_state.splits)

text \<open>What a frame does in adaptive mode: the sums do not wrap, and the average is a level.\<close>

lemma apply_adaptive:
  assumes I: "sd_inv sd" and l: "level \<le> 32768" and m: "sd_mode sd = VAD_MODE_ADAPTIVE"
  defines "sd1 \<equiv> sd\<lparr>sd_sum_level := sd_sum_level sd + level, sd_sum_cnt := sd_sum_cnt sd + 1\<rparr>"
  shows "\<exists>avg \<le> 32768. pjmedia_silence_det_apply sd level =
    (let sd2 = (if loud sd level then apply_voiced sd1 level avg else apply_silent sd1 level avg)
     in Some (sd2, sd_state sd2 = STATE_SILENCE))"
proof -
  have cnt: "sd_sum_cnt sd \<le> 120001" by (rule sd_inv_cnt [OF I])
  have sum: "sd_sum_level sd \<le> 32768 * sd_sum_cnt sd" using I by (simp add: sd_inv_def)
  have w: "uwrap (sd_sum_cnt sd + 1) = sd_sum_cnt sd + 1" "uwrap (sd_sum_level sd + level) = sd_sum_level sd + level"
    using cnt sum l by simp_all
  define avg where "avg = (sd_sum_level sd + level) div (sd_sum_cnt sd + 1)"
  have "sd_sum_level sd + level \<le> 32768 * (sd_sum_cnt sd + 1)" using sum l by simp
  from div_le_mono [OF this, of "sd_sum_cnt sd + 1"] have "avg \<le> 32768"
    unfolding avg_def by (metis add_gr_0 div_mult_self_is_m less_one)
  moreover have "pjmedia_silence_det_apply sd level =
    (let sd2 = (if loud sd level then apply_voiced sd1 level avg else apply_silent sd1 level avg)
     in Some (sd2, sd_state sd2 = STATE_SILENCE))"
    unfolding pjmedia_silence_det_apply_def m w by (simp add: Let_def sd1_def avg_def loud_def)
  ultimately show ?thesis by blast
qed

lemma apply_inv:
  assumes I: "sd_inv sd" and l: "level \<le> 32768"
  shows "\<exists>sd' b. pjmedia_silence_det_apply sd level = Some (sd', b) \<and> sd_inv sd'"
proof (cases "sd_mode sd")
  case VAD_MODE_ADAPTIVE
  then show ?thesis
    using apply_adaptive [OF I l] voiced_inv(1) [OF I l] silent_inv(1) [OF I l] by (auto simp: Let_def)
next
  case VAD_MODE_NONE
  then have "pjmedia_silence_det_apply sd level = Some (sd, False)" by (simp add: pjmedia_silence_det_apply_def)
  then show ?thesis using I by blast
next
  case VAD_MODE_FIXED
  then have "pjmedia_silence_det_apply sd level = Some (sd, level < sd_threshold sd)" by (simp add: pjmedia_silence_det_apply_def)
  then show ?thesis using I by blast
qed

section \<open>Runs\<close>

datatype sd_call =
    SD_Apply nat
  | SD_Detect "int list"
  | SD_Adaptive int
  | SD_Fixed int
  | SD_Params int int int
  | SD_Disable

fun sd_step :: "silence_det option \<Rightarrow> sd_call \<Rightarrow> silence_det option" where
  "sd_step None c = None"
| "sd_step (Some sd) (SD_Apply level) = map_option fst (pjmedia_silence_det_apply sd level)"
| "sd_step (Some sd) (SD_Detect samples) = map_option fst (pjmedia_silence_det_detect sd samples)"
| "sd_step (Some sd) (SD_Adaptive t) = Some (pjmedia_silence_det_set_adaptive sd t)"
| "sd_step (Some sd) (SD_Fixed t) = Some (pjmedia_silence_det_set_fixed sd t)"
| "sd_step (Some sd) (SD_Params b v s) = Some (pjmedia_silence_det_set_params sd b v s)"
| "sd_step (Some sd) SD_Disable = Some (pjmedia_silence_det_disable sd)"

fun sd_call_ok :: "sd_call \<Rightarrow> bool" where
  "sd_call_ok (SD_Apply level) \<longleftrightarrow> level \<le> 32768"
| "sd_call_ok (SD_Detect samples) \<longleftrightarrow> list_all is_s16 samples"
| "sd_call_ok (SD_Adaptive t) \<longleftrightarrow> t < 2 ^ 31"
| "sd_call_ok (SD_Fixed t) \<longleftrightarrow> t < 2 ^ 31"
| "sd_call_ok (SD_Params b v s) \<longleftrightarrow> b \<le> 60000 \<and> v \<le> 60000 \<and> s \<le> 60000"
| "sd_call_ok SD_Disable \<longleftrightarrow> True"

definition sd_ok :: "silence_det option \<Rightarrow> bool" where
  "sd_ok s \<longleftrightarrow> (\<exists>sd. s = Some sd \<and> sd_inv sd)"

lemmas sd_settings = pjmedia_silence_det_set_adaptive_def pjmedia_silence_det_set_fixed_def pjmedia_silence_det_set_params_def
  pjmedia_silence_det_disable_def DEF_THRESHOLD_def DEF_RECALC_ON_VOICED_def DEF_RECALC_ON_SILENCE_def DEF_BEFORE_SILENCE_def

lemma to_u32_bound: "0 \<le> t \<Longrightarrow> t \<le> int n \<Longrightarrow> n < 2 ^ 32 \<Longrightarrow> to_u32 t \<le> n"
  using to_u32_nonneg [of t] by auto

lemma to_u32_defaults:
  "to_u32 50 = 50" "to_u32 400 = 400" "to_u32 2000 = 2000" "to_u32 4000 = 4000"
  using to_u32_nonneg [of 50] to_u32_nonneg [of 400] to_u32_nonneg [of 2000] to_u32_nonneg [of 4000] by simp_all

lemma settings_inv:
  assumes "sd_inv sd"
  shows "t < 2 ^ 31 \<Longrightarrow> sd_inv (pjmedia_silence_det_set_adaptive sd t)"
    "t < 2 ^ 31 \<Longrightarrow> sd_inv (pjmedia_silence_det_set_fixed sd t)"
    "b \<le> 60000 \<Longrightarrow> v \<le> 60000 \<Longrightarrow> s \<le> 60000 \<Longrightarrow> sd_inv (pjmedia_silence_det_set_params sd b v s)"
    "sd_inv (pjmedia_silence_det_disable sd)"
  using assms to_u32_bound [of t "2 ^ 31 - 1"] to_u32_bound [of b 60000] to_u32_bound [of v 60000] to_u32_bound [of s 60000]
  by (auto simp: sd_inv_def sd_settings to_u32_defaults Let_def split: vad_state.splits)

interpretation sd_machine: event_machine sd_step sd_ok sd_call_ok
proof
  show "sd_ok (sd_step s c)" if "sd_ok s" "sd_call_ok c" for s c
  proof -
    obtain sd where sd: "s = Some sd" "sd_inv sd" using \<open>sd_ok s\<close> by (auto simp: sd_ok_def)
    show ?thesis
    proof (cases c)
      case (SD_Detect samples)
      then have "pjmedia_calc_avg_signal samples \<le> 32768"
        using avg_signal_result(2) [of samples] that(2) by (simp add: list_all_iff)
      from apply_inv [OF sd(2) this] show ?thesis
        using SD_Detect sd(1) by (auto simp: sd_ok_def pjmedia_silence_det_detect_def Let_def)
    qed (use sd that apply_inv [OF sd(2)] settings_inv [OF sd(2)] in \<open>auto simp: sd_ok_def\<close>)
  qed
qed

lemma sd_create_inv:
  assumes "0 < rate" "spf * 1000 < 2 ^ 32" "rate \<le> spf * 1000" "spf * 1000 \<le> 60000 * rate" "vad < 2 ^ 31"
  shows "sd_ok (pjmedia_silence_det_create vad rate spf)"
proof -
  have "1 \<le> spf * 1000 div rate" "spf * 1000 div rate \<le> 60000"
    using assms(1,3,4) div_le_mono [OF assms(3), of rate] div_le_mono [OF assms(4), of rate] by simp_all
  then show ?thesis
    using assms to_u32_bound [of vad "2 ^ 31 - 1"]
    by (auto simp: sd_ok_def sd_inv_def pjmedia_silence_det_create_def sd_settings to_u32_defaults Let_def)
qed

section \<open>Properties\<close>

text \<open>C28. For a detector created for a frame time from 1 to 60000 milliseconds, whatever calls are made on it, with 16-bit samples, levels of
  at most 32768, times of at most 60000 milliseconds and thresholds that are C integers: no call divides by zero, at most 120001 levels
  are summed and their sum is at most 32768 for each, the timers stay within one and two minutes, and so none of these wraps.\<close>

theorem silence_det_run_bounds:
  assumes "0 < rate" "spf * 1000 < 2 ^ 32" "rate \<le> spf * 1000" "spf * 1000 \<le> 60000 * rate" "vad < 2 ^ 31"
    and "\<forall>c \<in> set calls. sd_call_ok c"
  shows "\<exists>sd. foldl sd_step (pjmedia_silence_det_create vad rate spf) calls = Some sd \<and>
    sd_sum_cnt sd \<le> 120001 \<and> sd_sum_level sd \<le> 32768 * sd_sum_cnt sd \<and>
    sd_voiced_timer sd \<le> 60000 \<and> sd_silence_timer sd \<le> 120000"
proof -
  obtain sd where "foldl sd_step (pjmedia_silence_det_create vad rate spf) calls = Some sd" "sd_inv sd"
    using sd_machine.mrun_inv [OF sd_create_inv [OF assms(1-5)] assms(6)] by (auto simp: sd_ok_def)
  moreover from this(2) have "sd_voiced_timer sd \<le> 60000 \<and> sd_silence_timer sd \<le> 120000"
    by (auto simp: sd_inv_def split: vad_state.splits)
  ultimately show ?thesis using sd_inv_cnt [of sd] by (auto simp: sd_inv_def)
qed

theorem silence_det_run_bounds_witness:
  "\<exists>sd. foldl sd_step (pjmedia_silence_det_create 0 8000 160) [SD_Apply 100, SD_Detect [5, - 7], SD_Params 100 (- 1) 0] = Some sd \<and>
    sd_sum_cnt sd \<le> 120001"
  using silence_det_run_bounds [of 8000 160 0 "[SD_Apply 100, SD_Detect [5, - 7], SD_Params 100 (- 1) 0]"]
  by (auto simp: is_s16_def)

text \<open>The results of a run of frames.\<close>

fun apply_run :: "silence_det \<Rightarrow> nat list \<Rightarrow> (silence_det \<times> bool list) option" where
  "apply_run sd [] = Some (sd, [])"
| "apply_run sd (l # ls) =
     Option.bind (pjmedia_silence_det_apply sd l) (\<lambda>(sd, b). map_option (\<lambda>(sd, bs). (sd, b # bs)) (apply_run sd ls))"

lemma quiet_frame:
  assumes I: "sd_inv sd" and l: "level \<le> 32768" "\<not> loud sd level" and m: "sd_mode sd = VAD_MODE_ADAPTIVE"
    and st: "sd_state sd = STATE_VOICED \<or> sd_state sd = STATE_START_SILENCE"
    and tm: "sd_silence_timer sd = k * sd_ptime sd" "sd_state sd = STATE_START_SILENCE \<Longrightarrow> k * sd_ptime sd < sd_before_silence sd"
  shows "\<exists>sd'. pjmedia_silence_det_apply sd level = Some (sd', sd_before_silence sd \<le> (k + 1) * sd_ptime sd) \<and>
    (\<not> sd_before_silence sd \<le> (k + 1) * sd_ptime sd \<longrightarrow> sd_inv sd' \<and> sd_mode sd' = VAD_MODE_ADAPTIVE \<and>
       sd_state sd' = STATE_START_SILENCE \<and> sd_silence_timer sd' = (k + 1) * sd_ptime sd \<and> sd_ptime sd' = sd_ptime sd \<and>
       sd_threshold sd' = sd_threshold sd \<and> sd_before_silence sd' = sd_before_silence sd)"
proof -
  obtain avg where a: "avg \<le> 32768" "pjmedia_silence_det_apply sd level =
    (let sd2 = apply_silent (sd\<lparr>sd_sum_level := sd_sum_level sd + level, sd_sum_cnt := sd_sum_cnt sd + 1\<rparr>) level avg
     in Some (sd2, sd_state sd2 = STATE_SILENCE))"
    using apply_adaptive [OF I l(1) m] l(2) by auto
  have "sd_silence_timer sd + sd_ptime sd \<le> 120000" using I st by (auto simp: sd_inv_def)
  then have t: "uwrap (sd_silence_timer sd + sd_ptime sd) = (k + 1) * sd_ptime sd" using tm(1) by simp
  show ?thesis
  proof (cases "sd_before_silence sd \<le> (k + 1) * sd_ptime sd")
    case True
    then show ?thesis using a(2) st t by (auto simp: apply_silent_def start_silence_def Let_def)
  next
    case False
    define sd1 where "sd1 = sd\<lparr>sd_sum_level := sd_sum_level sd + level, sd_sum_cnt := sd_sum_cnt sd + 1\<rparr>"
    define sd2 where "sd2 = apply_silent sd1 level avg"
    have "sd_inv sd2" "sd_mode sd2 = VAD_MODE_ADAPTIVE"
      using silent_inv [OF I l(1) a(1)] m by (simp_all add: sd2_def sd1_def)
    moreover have "sd_state sd2 = STATE_START_SILENCE" "sd_silence_timer sd2 = (k + 1) * sd_ptime sd"
      "sd_ptime sd2 = sd_ptime sd" "sd_threshold sd2 = sd_threshold sd" "sd_before_silence sd2 = sd_before_silence sd"
      using False st t by (auto simp: sd2_def sd1_def apply_silent_def start_silence_def Let_def)
    moreover have "pjmedia_silence_det_apply sd level = Some (sd2, sd_state sd2 = STATE_SILENCE)"
      using a(2) by (simp add: sd2_def sd1_def Let_def)
    ultimately show ?thesis using False by auto
  qed
qed

lemma start_silence_run:
  "sd_inv sd \<Longrightarrow> sd_mode sd = VAD_MODE_ADAPTIVE \<Longrightarrow> sd_state sd = STATE_VOICED \<or> sd_state sd = STATE_START_SILENCE \<Longrightarrow>
    sd_silence_timer sd = k * sd_ptime sd \<Longrightarrow> (sd_state sd = STATE_START_SILENCE \<longrightarrow> k * sd_ptime sd < sd_before_silence sd) \<Longrightarrow>
    \<forall>l \<in> set ls. l \<le> 32768 \<and> \<not> loud sd l \<Longrightarrow> (k + length ls - 1) * sd_ptime sd < sd_before_silence sd \<or> length ls \<le> 1 \<Longrightarrow>
    \<exists>sd'. apply_run sd ls = Some (sd', map (\<lambda>i. sd_before_silence sd \<le> (k + i + 1) * sd_ptime sd) [0..<length ls])"
proof (induction ls arbitrary: sd k)
  case (Cons l ls)
  obtain sd' where s: "pjmedia_silence_det_apply sd l = Some (sd', sd_before_silence sd \<le> (k + 1) * sd_ptime sd)"
    "\<not> sd_before_silence sd \<le> (k + 1) * sd_ptime sd \<longrightarrow> sd_inv sd' \<and> sd_mode sd' = VAD_MODE_ADAPTIVE \<and>
       sd_state sd' = STATE_START_SILENCE \<and> sd_silence_timer sd' = (k + 1) * sd_ptime sd \<and> sd_ptime sd' = sd_ptime sd \<and>
       sd_threshold sd' = sd_threshold sd \<and> sd_before_silence sd' = sd_before_silence sd"
    using quiet_frame [OF Cons.prems(1) _ _ Cons.prems(2,3,4)] Cons.prems(5,6) by (metis list.set_intros(1))
  show ?case
  proof (cases ls)
    case Nil
    then show ?thesis using s(1) by simp
  next
    case (Cons a list)
    define n where "n = length ls"
    have "(k + 1) * sd_ptime sd \<le> (k + n) * sd_ptime sd" using Cons by (intro mult_right_mono) (auto simp: n_def)
    moreover have "k + length (l # ls) - 1 = k + n" "\<not> length (l # ls) \<le> 1" using Cons by (simp_all add: n_def)
    then have kn: "(k + n) * sd_ptime sd < sd_before_silence sd" using Cons.prems(7) by metis
    ultimately have k1: "(k + 1) * sd_ptime sd < sd_before_silence sd" by linarith
    then have b: "\<not> sd_before_silence sd \<le> (k + 1) * sd_ptime sd" by simp
    then have "\<exists>sd''. apply_run sd' ls = Some (sd'', map (\<lambda>i. sd_before_silence sd \<le> (k + 1 + i + 1) * sd_ptime sd) [0..<length ls])"
    proof -
      have "(k + 1 + length ls - 1) * sd_ptime sd < sd_before_silence sd" using kn by (simp add: n_def)
      then show ?thesis using Cons.IH [of sd' "k + 1"] s(2) b k1 Cons.prems(6) by (simp add: loud_def)
    qed
    moreover have "map (\<lambda>i. sd_before_silence sd \<le> (k + i + 1) * sd_ptime sd) [0..<length (l # ls)] =
        (sd_before_silence sd \<le> (k + 1) * sd_ptime sd) # map (\<lambda>i. sd_before_silence sd \<le> (k + 1 + i + 1) * sd_ptime sd) [0..<length ls]"
      by (simp add: map_upt_Suc del: upt_Suc)
    ultimately show ?thesis using s(1) by auto
  qed
qed simp

text \<open>After speech, silence is reported exactly from the quiet frame on that completes the configured time before
  silence, with frames of the frame time; and a loud frame ends silence at once, in every state.\<close>

theorem silence_hold:
  assumes "sd_inv sd" "sd_mode sd = VAD_MODE_ADAPTIVE"
  shows "(\<forall>ls. sd_state sd = STATE_VOICED \<and> (\<forall>l \<in> set ls. l \<le> 32768 \<and> \<not> loud sd l) \<and>
        ((length ls - 1) * sd_ptime sd < sd_before_silence sd \<or> length ls \<le> 1) \<longrightarrow>
      (\<exists>sd'. apply_run sd ls = Some (sd', map (\<lambda>i. sd_before_silence sd \<le> (i + 1) * sd_ptime sd) [0..<length ls]))) \<and>
    (\<forall>l \<le> 32768. loud sd l \<longrightarrow>
      (\<exists>sd'. pjmedia_silence_det_apply sd l = Some (sd', False) \<and> sd_state sd' = STATE_VOICED))"
proof (intro conjI allI impI)
  show "\<exists>sd'. apply_run sd ls = Some (sd', map (\<lambda>i. sd_before_silence sd \<le> (i + 1) * sd_ptime sd) [0..<length ls])"
    if "sd_state sd = STATE_VOICED \<and> (\<forall>l \<in> set ls. l \<le> 32768 \<and> \<not> loud sd l) \<and>
        ((length ls - 1) * sd_ptime sd < sd_before_silence sd \<or> length ls \<le> 1)" for ls
    using start_silence_run [of sd 0 ls] assms that by (simp add: sd_inv_def)
  show "\<exists>sd'. pjmedia_silence_det_apply sd l = Some (sd', False) \<and> sd_state sd' = STATE_VOICED"
    if "l \<le> 32768" "loud sd l" for l
    using apply_adaptive [OF assms(1) that(1) assms(2)] voiced_inv(2) [OF assms(1) that(1)] that(2) by (auto simp: Let_def)
qed

definition talking :: silence_det where
  "talking = \<lparr>sd_mode = VAD_MODE_ADAPTIVE, sd_ptime = 20, sd_threshold = 50, sd_sum_level = 900, sd_sum_cnt = 1,
     sd_silence_timer = 0, sd_voiced_timer = 20, sd_state = STATE_VOICED, sd_recalc_on_voiced = 4000,
     sd_recalc_on_silence = 2000, sd_before_silence = 60\<rparr>"

theorem silence_hold_witness: "\<exists>sd'. apply_run talking [10, 20, 10] = Some (sd', [False, False, True])"
proof -
  have "sd_inv talking" "sd_mode talking = VAD_MODE_ADAPTIVE" by (simp_all add: talking_def sd_inv_def)
  from conjunct1 [OF silence_hold [OF this], rule_format, of "[10, 20, 10]"] show ?thesis
    by (simp add: talking_def loud_def PJMEDIA_SILENCE_DET_MAX_THRESHOLD_def upt_rec)
qed

end
