(* ===== verification/Spec2Isabelle.thy ===== *)
theory Spec2Isabelle
  imports Rtp Jbuf Rtcp_Stat Rtcp_Jitter Rtcp_Exchange Delay_Buf Timer_Calls Base64 Fifo_Buf Stun_Tsx G711_Table Hash
    Crc32 Sha1 Rb_Runs Silence_Det
begin

text \<open>
  A verification library for the media and network core of MediaDemo, the PJSIP libraries under
  \<open>src/app/src/main/cpp\<close>: \<open>pjlib\<close> (base library), \<open>pjlib-util\<close> (encodings and protocol helpers),
  \<open>pjnath\<close> (NAT traversal) and \<open>pjmedia\<close> (media). File names below are relative to that directory.

  \<^bold>\<open>How the parts interact.\<close> A received packet is decoded by the RTP session, which tracks sequence
  numbers; its frame goes into the jitter buffer under the packet's sequence number, and the stream
  takes frames out at the pace of its clock and decodes them, for instance with G.711. The RTCP session sees the same
  packets through a sequence tracker of its own and exchanges reports about them with the peer. Between two clocks, such as a
  sound device and a conference bridge, samples pass through a delay buffer, which keeps them in a circular
  buffer and has a drift processor stretch or shrink them. Retransmissions and timeouts of the
  protocols run on a timer heap whose callbacks are called by polling it; the STUN transaction is one such client.

  \<^bold>\<open>Theories.\<close>

  \<^item> \<open>Prelude\<close>: the status codes, C integer conversions (\<open>to_u32\<close>, \<open>uwrap\<close>) and generic lemmas. \<open>Machine\<close>: the
    locales \<open>event_machine\<close> and \<open>output_machine\<close>, which lift what one call keeps to any run of
    calls; every stateful component interprets one of them. \<open>Ring\<close>: lists kept in an array that
    wraps around.
  \<^item> \<open>Rtp\<close> (\<open>pjmedia/src/pjmedia/rtp.c\<close>): \<open>rtp_seq_update\<close> and its helpers are the RFC 3550 sequence tracker on its 16 and
    32 bit fields, \<open>rtp_session_update2\<close> the session, \<open>rtp_encode_rtp\<close> and \<open>rtp_decode_rtp2\<close> the headers, over a
    buffer of bytes where reading outside is a value of its own. The lemmas refine the tracker to an
    unbounded counter, give the round trip of headers and the bounds of every access.
  \<^item> \<open>Jb_Framelist\<close>, \<open>Jbuf\<close> (\<open>pjmedia/src/pjmedia/jbuf.c\<close>): \<open>framelist\<close> holds the arrays of \<open>jb_framelist_t\<close>, and every operation
    on them refines one on a list of slots. \<open>jbuf\<close> is \<open>pjmedia_jbuf\<close>, with put, get, peek, remove, the
    jitter computation and both discard algorithms. The lemmas show the invariant over runs, delivery in
    order, termination of all loops and the effect of each call.
  \<^item> \<open>Rtcp_Fb\<close>, \<open>Rtcp\<close> (\<open>pjmedia/src/pjmedia/rtcp_fb.c\<close>, \<open>rtcp.c\<close>): \<open>rtcp_session\<close> is the structure of the source, over the tracker
    \<open>rtp_seq_session\<close> of \<open>Rtp\<close> and the statistics of \<open>Math_Stat\<close>; packets are lists of bytes, built from records in the layout of
    \<open>rtcp.h\<close> and read by offset (\<open>Mem\<close>: integers in memory). \<open>Rtcp_Stat\<close> refines the reports to an account on natural numbers, \<open>Rtcp_Jitter\<close>
    bounds the jitter, \<open>Rtcp_Packets\<close> has the packets that are parsed (descriptions, memory, termination), \<open>Rtcp_Exchange\<close> the
    round trip time two sessions measure by exchanging reports.
  \<^item> \<open>Circ_Buf\<close>, \<open>Delay_Buf\<close> (\<open>pjmedia/include/pjmedia/circbuf.h\<close>, \<open>pjmedia/src/pjmedia/delaybuf.c\<close>, entry points of \<open>wsola.c\<close>):
    the sample buffer refines a queue; the delay buffer is stated over the interface of the
    drift processor, the locale \<open>drift_processor\<close>, whose laws the code relies on.
  \<^item> \<open>Time_Val\<close>, \<open>Timer_Heap\<close>, \<open>Timer_Calls\<close> (\<open>pjlib/src/pj/types.c\<close>, \<open>pjlib/src/pj/timer.c\<close>): time values are a \<open>linorder\<close>; the
    heap is the array of entries with the free list of timer ids threaded through it. \<open>Timer_Heap\<close>
    has the operations and the lemmas on sifting, \<open>Timer_Calls\<close> the well-formedness \<open>th_inv\<close>, the result of every call,
    and polling over the locale \<open>timer_callback\<close>, which says what a callback may do.
  \<^item> \<open>Stun_Tsx\<close> (\<open>pjnath/src/pjnath/stun_transaction.c\<close>): the client transaction as a client of the timer heap; its callback
    interprets \<open>timer_callback\<close>. The lemmas show that the outcome is reported at most once, that the request is
    sent exactly on the schedule, that it ends without a response, and what a response stops.
  \<^item> \<open>Base64\<close> (\<open>pjlib-util/src/pjlib-util/base64.c\<close>) and \<open>Fifo_Buf\<close> (\<open>pjlib/src/pj/fifobuf.c\<close>): the round trip and the bounds of the coder; the
    disjointness of live blocks of the allocator, on the bytes of its buffer.
  \<^item> \<open>G711\<close>, \<open>G711_Table\<close> (\<open>pjmedia/src/pjmedia/alaw_ulaw.c\<close>, \<open>alaw_ulaw_table.c\<close>): the A-law and mu-law functions, round trip and
    error bound, and the equivalence of the default tables, entry by entry, with the functions.
  \<^item> \<open>Hash\<close> (\<open>pjlib/src/pj/hash.c\<close>): the table of chains refines a map from keys, up to case for the operations that ignore it;
    iteration enumerates that map.
  \<^item> \<open>Rb_Tree\<close>, \<open>Rb_Shape\<close>, \<open>Rb_Calls\<close>, \<open>Rb_Runs\<close> (\<open>pjlib/src/pj/rbtree.c\<close>): the red-black tree on a store of nodes with parent pointers
    and a sentinel. \<open>Rb_Tree\<close> has the operations, \<open>Rb_Shape\<close> relates a store to a tree and treats rotation
    and rebalancing, \<open>Rb_Calls\<close> the result of every call, \<open>Rb_Runs\<close> the walks, the height and runs against a sorted list.
  \<^item> \<open>Crc32\<close>, \<open>Digest\<close>, \<open>Sha1\<close> (\<open>pjlib-util/src/pjlib-util/crc32.c\<close>, \<open>sha1.c\<close>, \<open>hmac_sha1.c\<close>): the table-driven CRC against the bitwise one; \<open>Digest\<close>
    has the buffering of blocks, the count of bits and the locale \<open>stream_digest\<close>, the contract of a digest fed in pieces, which \<open>Sha1\<close> interprets
    to refine HMAC to the text of the standards.
  \<^item> \<open>Silence_Det\<close> (\<open>pjmedia/src/pjmedia/silencedet.c\<close>): the adaptive threshold and its three states, with the invariant that no
    counter wraps and the hold time before silence.

  \<^bold>\<open>State and effects.\<close> A C structure is a record with the fields of the source, passed and returned explicitly; the fields
  the model leaves out are named in the theory. An error return is a value of the result; a read outside an array, a division by
  zero or a loop that does not end is \<open>None\<close> or a named outcome, never an arbitrary value. C \<open>unsigned\<close> is a
  natural number or integer reduced by \<open>uwrap\<close>, \<open>to_u32\<close> or \<open>to_u8\<close> where the source computes in it, or a word; \<open>int\<close> is an integer, with the
  assumption that it does not overflow stated where a property needs it.

  \<^bold>\<open>Bounds and fuel.\<close> No function runs on fuel. Loops that end have a measure; the loops of the jitter buffer, of polling and of
  the other callers of unknown code are \<open>partial_function (option)\<close> or \<open>while_option\<close>, and the properties
  state that they return a result. The sizes that appear in hypotheses (the dropout and misorder distances of
  RTP, the \<open>2 ^ 32\<close> bounds on sizes and delays) are those of the source or of its types.

  \<^bold>\<open>Parameters.\<close> \<open>pj_rand\<close>, the initial contents of pool memory, the waveform processing behind the drift processor, the readings of the clocks and
  the mean of the round trip times in RTCP,
  the callbacks of a timer and the status the user's \<open>on_send_msg\<close> returns are arguments. Allocation
  from a pool is taken to succeed.

  \<^bold>\<open>Not modelled.\<close> Locks and threads (calls are atomic), logging, sockets and devices; the floating-point
  statistics of \<open>pj_math_stat\<close>; the waveform similarity search of \<open>wsola.c\<close>; lists, strings, pools,
  parsers and MD5 of the base libraries; STUN messages and sessions, ICE and TURN; RTCP extended reports, SDP, streams, transports, ports,
  codecs other than G.711, video; the application and third-party code.

  \<^bold>\<open>What is left.\<close> The parts with contracts of their own that would come next are the scanner and the linked lists, then STUN
  messages, the SDP negotiation and the ICE check list over the STUN transactions.
\<close>

end
